(* ===== verification/Rust_Base.thy ===== *)
theory Rust_Base
  imports Main "HOL-Library.Word" "HOL-Library.Char_ord" "HOL-Library.List_Lexorder"
    "HOL-Library.Sublist"
begin

text \<open>
  The prelude: what the component theories share. It models the parts of Rust and of its
  standard library that the program uses (\<^verbatim>\<open>Result\<close> and the \<^verbatim>\<open>?\<close> operator, \<^verbatim>\<open>&str\<close> and its
  methods, \<^verbatim>\<open>char\<close> classes, integer parsing), proves the rules that the component proofs
  rest on and collects them in named theorem lists.

  A Rust string is its UTF-8 byte sequence, a list of \<^typ>\<open>char\<close>: \<^verbatim>\<open>len\<close> is \<^const>\<open>length\<close>,
  comparison is the lexicographic order on bytes, and searching or splitting at an ASCII
  character works on bytes. The methods that look at Unicode scalar values
  (\<^verbatim>\<open>trim\<close>, \<^verbatim>\<open>chars\<close>) decode the bytes first.
\<close>

named_theorems res_simps "evaluation and inversion of the result monad"
named_theorems str_simps "evaluation of the string operations"

section \<open>Results\<close>

text \<open>A fallible computation; \<^const>\<open>Inl\<close> carries the error, as \<^verbatim>\<open>Err\<close> does.\<close>

type_synonym ('e, 'a) result = "'e + 'a"

text \<open>\<^verbatim>\<open>let x = m?; k(x)\<close>.\<close>

definition try_r :: "('e, 'a) result \<Rightarrow> ('a \<Rightarrow> ('e, 'b) result) \<Rightarrow> ('e, 'b) result" where
  "try_r m k = (case m of Inl e \<Rightarrow> Inl e | Inr x \<Rightarrow> k x)"

text \<open>\<^verbatim>\<open>if !ok { return Err(e) }\<close> as a step of its own.\<close>

definition ensure_r :: "bool \<Rightarrow> 'e \<Rightarrow> ('e, unit) result" where
  "ensure_r ok e = (if ok then Inr () else Inl e)"

definition ok_or :: "'a option \<Rightarrow> 'e \<Rightarrow> ('e, 'a) result" where
  "ok_or m e = (case m of None \<Rightarrow> Inl e | Some x \<Rightarrow> Inr x)"

definition map_err :: "('e \<Rightarrow> 'f) \<Rightarrow> ('e, 'a) result \<Rightarrow> ('f, 'a) result" where
  "map_err f m = (case m of Inl e \<Rightarrow> Inl (f e) | Inr x \<Rightarrow> Inr x)"

definition is_ok :: "('e, 'a) result \<Rightarrow> bool" where
  "is_ok m = (case m of Inl _ \<Rightarrow> False | Inr _ \<Rightarrow> True)"

text \<open>\<^verbatim>\<open>xs.iter().map(f).collect::<Result<Vec<_>>>()\<close>: stops at the first error.\<close>

fun collect_r :: "('a \<Rightarrow> ('e, 'b) result) \<Rightarrow> 'a list \<Rightarrow> ('e, 'b list) result" where
  "collect_r f [] = Inr []"
| "collect_r f (x # xs) = try_r (f x) (\<lambda>y. try_r (collect_r f xs) (\<lambda>ys. Inr (y # ys)))"

text \<open>A \<^verbatim>\<open>for\<close> loop whose body may return an error and threads a state.\<close>

fun fold_r :: "('a \<Rightarrow> 's \<Rightarrow> ('e, 's) result) \<Rightarrow> 'a list \<Rightarrow> 's \<Rightarrow> ('e, 's) result" where
  "fold_r f [] s = Inr s"
| "fold_r f (x # xs) s = try_r (f x s) (fold_r f xs)"

lemma try_r_simps [simp, res_simps]:
  "try_r (Inl e) k = Inl e"
  "try_r (Inr x) k = k x"
  by (simp_all add: try_r_def)

lemma try_r_Inr_iff [res_simps]: "try_r m k = Inr y \<longleftrightarrow> (\<exists>x. m = Inr x \<and> k x = Inr y)"
  by (cases m) (auto simp: try_r_def)

lemma try_r_Inl_iff [res_simps]:
  "try_r m k = Inl e \<longleftrightarrow> m = Inl e \<or> (\<exists>x. m = Inr x \<and> k x = Inl e)"
  by (cases m) (auto simp: try_r_def)

lemma ensure_r_simps [simp, res_simps]:
  "ensure_r True e = Inr ()"
  "ensure_r False e = Inl e"
  by (simp_all add: ensure_r_def)

lemma ensure_r_Inr_iff [simp, res_simps]: "ensure_r b e = Inr u \<longleftrightarrow> b"
  by (simp add: ensure_r_def)

lemma ensure_r_Inl_iff [simp, res_simps]: "ensure_r b e = Inl e' \<longleftrightarrow> \<not> b \<and> e' = e"
  by (auto simp: ensure_r_def)

lemma ok_or_simps [simp, res_simps]:
  "ok_or None e = Inl e"
  "ok_or (Some x) e = Inr x"
  by (simp_all add: ok_or_def)

lemma ok_or_Inr_iff [simp, res_simps]: "ok_or m e = Inr x \<longleftrightarrow> m = Some x"
  by (cases m) (simp_all add: ok_or_def)

lemma map_err_simps [simp, res_simps]:
  "map_err f (Inl e) = Inl (f e)"
  "map_err f (Inr x) = Inr x"
  by (simp_all add: map_err_def)

lemma map_err_Inr_iff [simp, res_simps]: "map_err f m = Inr x \<longleftrightarrow> m = Inr x"
  by (cases m) (simp_all add: map_err_def)

lemma is_ok_simps [simp, res_simps]: "is_ok (Inl e) = False" "is_ok (Inr x) = True"
  by (simp_all add: is_ok_def)

lemma is_ok_iff: "is_ok m \<longleftrightarrow> (\<exists>x. m = Inr x)"
  by (cases m) simp_all

lemma collect_r_Inr_iff:
  "collect_r f xs = Inr ys \<longleftrightarrow> list_all2 (\<lambda>x y. f x = Inr y) xs ys"
  by (induction xs arbitrary: ys) (auto simp: try_r_Inr_iff list_all2_Cons1)

text \<open>An invariant of the loop body is one of the loop.\<close>

lemma fold_r_invariant:
  assumes "fold_r f xs s = Inr t" and "I s"
    and "\<And>x s s'. x \<in> set xs \<Longrightarrow> I s \<Longrightarrow> f x s = Inr s' \<Longrightarrow> I s'"
  shows "I t"
  using assms
proof (induction xs arbitrary: s)
  case (Cons x xs)
  then obtain s' where s': "f x s = Inr s'" "fold_r f xs s' = Inr t"
    by (auto simp: try_r_Inr_iff)
  have "I s'" by (rule Cons.prems(3) [OF _ Cons.prems(2) s'(1)]) simp
  with s' Cons show ?case by auto
qed simp

lemma fold_r_append: "fold_r f (xs @ ys) s = try_r (fold_r f xs s) (fold_r f ys)"
  by (induction xs arbitrary: s) (auto simp: try_r_def split: sum.splits)

lemma sort_key_Nil: "sort_key f xs = [] \<longleftrightarrow> xs = []"
  by (metis length_sort length_0_conv)

lemma find_key_unique: "distinct (map f xs) \<Longrightarrow> x \<in> set xs \<Longrightarrow> find (\<lambda>y. f y = f x) xs = Some x"
  by (induction xs) (auto simp: image_iff)

lemma find_filter: "(\<And>x. P x \<Longrightarrow> Q x) \<Longrightarrow> find P (filter Q xs) = find P xs"
  by (induction xs) auto

lemma find_append: "find P (xs @ ys) = (case find P xs of None \<Rightarrow> find P ys | Some x \<Rightarrow> Some x)"
  by (induction xs) auto

section \<open>Strings\<close>

fun strip_prefix :: "string \<Rightarrow> string \<Rightarrow> string option" where
  "strip_prefix [] s = Some s"
| "strip_prefix (p # ps) [] = None"
| "strip_prefix (p # ps) (c # s) = (if p = c then strip_prefix ps s else None)"

definition starts_with :: "string \<Rightarrow> string \<Rightarrow> bool" where
  "starts_with p s = (strip_prefix p s \<noteq> None)"

definition ends_with :: "string \<Rightarrow> string \<Rightarrow> bool" where
  "ends_with p s = starts_with (rev p) (rev s)"

definition trim_start_matches :: "char \<Rightarrow> string \<Rightarrow> string" where
  "trim_start_matches c s = dropWhile (\<lambda>x. x = c) s"

definition trim_end_matches :: "char \<Rightarrow> string \<Rightarrow> string" where
  "trim_end_matches c s = rev (dropWhile (\<lambda>x. x = c) (rev s))"

definition contains_char :: "char list \<Rightarrow> string \<Rightarrow> bool" where
  "contains_char cs s = list_ex (\<lambda>c. c \<in> set cs) s"

fun contains_str :: "string \<Rightarrow> string \<Rightarrow> bool" where
  "contains_str p [] = (p = [])"
| "contains_str p (c # s) = (starts_with p (c # s) \<or> contains_str p s)"

text \<open>\<^verbatim>\<open>split(c)\<close>: always at least one piece.\<close>

fun split_on :: "char \<Rightarrow> string \<Rightarrow> string list" where
  "split_on c [] = [[]]"
| "split_on c (x # s) =
     (if x = c then [] # split_on c s
      else (case split_on c s of [] \<Rightarrow> [[x]] | p # ps \<Rightarrow> (x # p) # ps))"

fun split_once :: "char \<Rightarrow> string \<Rightarrow> (string \<times> string) option" where
  "split_once c [] = None"
| "split_once c (x # s) =
     (if x = c then Some ([], s) else map_option (\<lambda>(a, b). (x # a, b)) (split_once c s))"

text \<open>\<^verbatim>\<open>split_once\<close> at a string.\<close>

fun split_str_once :: "string \<Rightarrow> string \<Rightarrow> (string \<times> string) option" where
  "split_str_once sep [] = (if sep = [] then Some ([], []) else None)"
| "split_str_once sep (x # s) = (case strip_prefix sep (x # s) of
       Some r \<Rightarrow> Some ([], r)
     | None \<Rightarrow> map_option (\<lambda>(a, b). (x # a, b)) (split_str_once sep s))"

definition rsplit_once :: "char \<Rightarrow> string \<Rightarrow> (string \<times> string) option" where
  "rsplit_once c s = map_option (\<lambda>(a, b). (rev b, rev a)) (split_once c (rev s))"

text \<open>\<^verbatim>\<open>split(c).next()\<close> and \<^verbatim>\<open>rsplit(c).next()\<close>, which never are \<^verbatim>\<open>None\<close>.\<close>

definition split_first :: "char \<Rightarrow> string \<Rightarrow> string" where
  "split_first c s = takeWhile (\<lambda>x. x \<noteq> c) s"

definition rsplit_first :: "char \<Rightarrow> string \<Rightarrow> string" where
  "rsplit_first c s = rev (takeWhile (\<lambda>x. x \<noteq> c) (rev s))"

fun join_with :: "string \<Rightarrow> string list \<Rightarrow> string" where
  "join_with sep [] = []"
| "join_with sep [x] = x"
| "join_with sep (x # y # xs) = x @ sep @ join_with sep (y # xs)"

definition byte :: "char \<Rightarrow> nat" where
  "byte c = of_char c"

definition is_ascii_lowercase :: "char \<Rightarrow> bool" where
  "is_ascii_lowercase c = (97 \<le> byte c \<and> byte c \<le> 122)"

definition is_ascii_uppercase :: "char \<Rightarrow> bool" where
  "is_ascii_uppercase c = (65 \<le> byte c \<and> byte c \<le> 90)"

definition is_ascii_digit :: "char \<Rightarrow> bool" where
  "is_ascii_digit c = (48 \<le> byte c \<and> byte c \<le> 57)"

definition to_ascii_lowercase :: "string \<Rightarrow> string" where
  "to_ascii_lowercase = map (\<lambda>c. if is_ascii_uppercase c then char_of (byte c + 32) else c)"

definition to_ascii_uppercase :: "string \<Rightarrow> string" where
  "to_ascii_uppercase = map (\<lambda>c. if is_ascii_lowercase c then char_of (byte c - 32) else c)"

definition eq_ignore_ascii_case :: "string \<Rightarrow> string \<Rightarrow> bool" where
  "eq_ignore_ascii_case a b = (to_ascii_lowercase a = to_ascii_lowercase b)"

subsection \<open>Unicode scalar values\<close>

text \<open>The byte length of the scalar value that a leading byte opens.\<close>

definition utf8_width :: "char \<Rightarrow> nat" where
  "utf8_width c = (if byte c < 128 then 1 else if byte c < 224 then 2
                   else if byte c < 240 then 3 else 4)"

fun utf8_chars :: "string \<Rightarrow> string list" where
  "utf8_chars [] = []"
| "utf8_chars (c # s) =
     (c # take (utf8_width c - 1) s) # utf8_chars (drop (utf8_width c - 1) s)"

definition code_point :: "string \<Rightarrow> nat" where
  "code_point s = (case map byte s of
       [a] \<Rightarrow> a
     | [a, b] \<Rightarrow> (a mod 32) * 64 + b mod 64
     | [a, b, c] \<Rightarrow> (a mod 16) * 4096 + (b mod 64) * 64 + c mod 64
     | [a, b, c, d] \<Rightarrow> (a mod 8) * 262144 + (b mod 64) * 4096 + (c mod 64) * 64 + d mod 64
     | _ \<Rightarrow> 65533)"

definition str_chars :: "string \<Rightarrow> nat list" where
  "str_chars s = map code_point (utf8_chars s)"

text \<open>\<^verbatim>\<open>char::is_whitespace\<close> (the Unicode property White\_Space) and \<^verbatim>\<open>char::is_control\<close> (category Cc).\<close>

definition is_whitespace :: "nat \<Rightarrow> bool" where
  "is_whitespace n = (9 \<le> n \<and> n \<le> 13 \<or> n = 32 \<or> n = 133 \<or> n = 160 \<or> n = 5760 \<or>
     8192 \<le> n \<and> n \<le> 8202 \<or> n = 8232 \<or> n = 8233 \<or> n = 8239 \<or> n = 8287 \<or> n = 12288)"

definition is_control :: "nat \<Rightarrow> bool" where
  "is_control n = (n < 32 \<or> 127 \<le> n \<and> n \<le> 159)"

definition str_trim :: "string \<Rightarrow> string" where
  "str_trim s = (let ws = (\<lambda>c. is_whitespace (code_point c)) in
     concat (rev (dropWhile ws (rev (dropWhile ws (utf8_chars s))))))"

subsection \<open>Integers in text\<close>

definition digit_value :: "char \<Rightarrow> nat" where
  "digit_value c = byte c - 48"

definition digits_value :: "string \<Rightarrow> nat" where
  "digits_value s = foldl (\<lambda>n c. 10 * n + digit_value c) 0 s"

text \<open>\<^verbatim>\<open>str::parse::<u64>\<close>: an optional plus sign, at least one digit, no overflow.\<close>

definition parse_unsigned :: "nat \<Rightarrow> string \<Rightarrow> nat option" where
  "parse_unsigned w s =
     (let d = (case s of c # r \<Rightarrow> if c = CHR ''+'' then r else s | [] \<Rightarrow> s) in
      if d = [] \<or> \<not> list_all is_ascii_digit d then None
      else if digits_value d < 2 ^ w then Some (digits_value d) else None)"

abbreviation parse_u64 :: "string \<Rightarrow> nat option" where
  "parse_u64 \<equiv> parse_unsigned 64"

text \<open>\<^verbatim>\<open>str::parse::<i64>\<close>.\<close>

definition parse_i64 :: "string \<Rightarrow> int option" where
  "parse_i64 s =
     (let neg = (case s of c # _ \<Rightarrow> c = CHR ''-'' | [] \<Rightarrow> False);
          d = (case s of c # r \<Rightarrow> if c = CHR ''+'' \<or> c = CHR ''-'' then r else s | [] \<Rightarrow> s);
          v = (if neg then - int (digits_value d) else int (digits_value d)) in
      if d = [] \<or> \<not> list_all is_ascii_digit d then None
      else if - (2 ^ 63) \<le> v \<and> v < 2 ^ 63 then Some v else None)"

text \<open>\<^verbatim>\<open>{:x}\<close> of a byte sequence, and \<^verbatim>\<open>u8::from_str_radix(_, 16)\<close> over its pairs.\<close>

definition hex_digit :: "nat \<Rightarrow> char" where
  "hex_digit n = (if n < 10 then char_of (48 + n) else char_of (87 + n))"

definition hex_text :: "string \<Rightarrow> string" where
  "hex_text s = concat (map (\<lambda>c. [hex_digit (byte c div 16), hex_digit (byte c mod 16)]) s)"

definition hex_value :: "char \<Rightarrow> nat" where
  "hex_value c = (if byte c < 65 then byte c - 48 else byte c - 87)"

fun unhex :: "string \<Rightarrow> string" where
  "unhex (a # b # s) = char_of (16 * hex_value a + hex_value b) # unhex s"
| "unhex _ = []"

fun nat_text :: "nat \<Rightarrow> string" where
  "nat_text n = (if n < 10 then [char_of (48 + n)]
                 else nat_text (n div 10) @ [char_of (48 + n mod 10)])"

declare nat_text.simps [simp del]

definition int_text :: "int \<Rightarrow> string" where
  "int_text n = (if n < 0 then ''-'' @ nat_text (nat (- n)) else nat_text (nat n))"

section \<open>Lemmas on strings\<close>

lemma byte_less: "byte c < 256"
  by (simp add: byte_def)

lemma byte_char_of [simp]: "byte (char_of n) = n mod 256"
  by (simp add: byte_def)

lemma char_of_byte [simp]: "char_of (byte c) = c"
  by (simp add: byte_def)

lemma hex_value_digit [simp]: "n < 16 \<Longrightarrow> hex_value (hex_digit n) = n"
  by (auto simp: hex_value_def hex_digit_def)

lemma unhex_hex [simp]: "unhex (hex_text s) = s"
proof (induction s)
  case (Cons c s)
  have "byte c div 16 < 16" using byte_less [of c] by simp
  then have "16 * hex_value (hex_digit (byte c div 16)) + hex_value (hex_digit (byte c mod 16)) = byte c" by simp
  with Cons show ?case by (simp add: hex_text_def)
qed (simp add: hex_text_def)

lemma hex_text_inject [simp]: "hex_text a = hex_text b \<longleftrightarrow> a = b"
  by (metis unhex_hex)

lemma strip_prefix_Some_iff [str_simps]: "strip_prefix p s = Some t \<longleftrightarrow> s = p @ t"
  by (induction p s rule: strip_prefix.induct) auto

lemma strip_prefix_append [simp, str_simps]: "strip_prefix p (p @ t) = Some t"
  by (simp add: strip_prefix_Some_iff)

lemma strip_prefix_None_iff: "strip_prefix p s = None \<longleftrightarrow> (\<nexists>t. s = p @ t)"
  by (metis strip_prefix_Some_iff option.exhaust option.distinct(1))

lemma starts_with_iff: "starts_with p s \<longleftrightarrow> (\<exists>t. s = p @ t)"
  by (auto simp: starts_with_def strip_prefix_Some_iff)

lemma starts_with_prefix: "starts_with p s \<longleftrightarrow> prefix p s"
  by (auto simp: starts_with_iff prefix_def)

lemma ends_with_iff: "ends_with p s \<longleftrightarrow> (\<exists>t. s = t @ p)"
  unfolding ends_with_def starts_with_iff
  by (metis rev_append rev_rev_ident)

lemma split_on_nonempty [simp]: "split_on c s \<noteq> []"
  by (induction s) (auto split: list.splits)

lemma split_on_join: "join_with [c] (split_on c s) = s"
proof (induction s)
  case (Cons x s)
  show ?case
    using Cons by (cases "split_on c s"; cases "tl (split_on c s)") auto
qed simp

lemma split_on_no_sep: "p \<in> set (split_on c s) \<Longrightarrow> c \<notin> set p"
proof (induction s arbitrary: p)
  case (Cons x s)
  then show ?case by (cases "split_on c s") (auto split: if_splits)
qed simp

lemma split_on_chars: "p \<in> set (split_on c s) \<Longrightarrow> set p \<subseteq> set s"
proof (induction s arbitrary: p)
  case (Cons x s)
  show ?case
  proof (cases "split_on c s")
    case (Cons q qs)
    with Cons.IH Cons.prems show ?thesis by (fastforce split: if_splits)
  qed simp
qed simp

lemma split_on_absent [simp]: "c \<notin> set s \<Longrightarrow> split_on c s = [s]"
  by (induction s) auto

lemma split_on_append_sep: "split_on c (a @ c # b) = split_on c a @ split_on c b"
proof (induction a)
  case (Cons x a)
  then show ?case by (cases "split_on c a") auto
qed simp

lemma split_on_single_iff: "split_on c s = [p] \<longleftrightarrow> c \<notin> set s \<and> p = s"
proof
  assume "split_on c s = [p]"
  with split_on_join [of c s] split_on_no_sep [of p c s] show "c \<notin> set s \<and> p = s" by auto
qed auto

lemma split_once_Some_iff [str_simps]:
  "split_once c s = Some (a, b) \<longleftrightarrow> s = a @ c # b \<and> c \<notin> set a"
proof (induction s arbitrary: a)
  case (Cons x s)
  then show ?case by (cases a) auto
qed simp

lemma split_once_None_iff [str_simps]: "split_once c s = None \<longleftrightarrow> c \<notin> set s"
  by (induction s) auto

lemma rsplit_once_Some_iff [str_simps]:
  "rsplit_once c s = Some (a, b) \<longleftrightarrow> s = a @ c # b \<and> c \<notin> set b"
proof -
  have "rsplit_once c s = Some (a, b) \<longleftrightarrow> split_once c (rev s) = Some (rev b, rev a)"
    unfolding rsplit_once_def by (cases "split_once c (rev s)") auto
  also have "\<dots> \<longleftrightarrow> s = a @ c # b \<and> c \<notin> set b"
    unfolding split_once_Some_iff by (auto simp: rev_swap)
  finally show ?thesis .
qed

lemma rsplit_first_no_sep [simp]: "c \<notin> set (rsplit_first c s)"
  unfolding rsplit_first_def by (metis set_rev set_takeWhileD)

lemma rsplit_first_absent [simp]: "c \<notin> set s \<Longrightarrow> rsplit_first c s = s"
  unfolding rsplit_first_def
  by (metis (mono_tags, lifting) rev_swap set_rev takeWhile_eq_all_conv)

lemma rsplit_first_after [simp]: "c \<notin> set b \<Longrightarrow> rsplit_first c (a @ c # b) = b"
  using rsplit_first_absent [of c b] unfolding rsplit_first_def by (simp add: takeWhile_tail)

lemma split_first_before [simp]: "c \<notin> set a \<Longrightarrow> split_first c (a @ c # b) = a"
  unfolding split_first_def by (induction a) auto

lemma split_first_absent [simp]: "c \<notin> set s \<Longrightarrow> split_first c s = s"
  unfolding split_first_def by (induction s) auto

lemma trim_end_matches_iff:
  "\<exists>n. s = trim_end_matches c s @ replicate n c"
proof -
  let ?k = "length (takeWhile (\<lambda>x. x = c) (rev s))"
  have "takeWhile (\<lambda>x. x = c) (rev s) = replicate ?k c"
    by (intro replicate_eqI) (auto dest: set_takeWhileD)
  then have "rev s = replicate ?k c @ dropWhile (\<lambda>x. x = c) (rev s)"
    by (metis takeWhile_dropWhile_id)
  then have "s = rev (dropWhile (\<lambda>x. x = c) (rev s)) @ replicate ?k c"
    by (metis rev_append rev_replicate rev_rev_ident)
  then show ?thesis unfolding trim_end_matches_def by blast
qed

lemma trim_end_matches_last: "s = [] \<or> last s \<noteq> c \<Longrightarrow> trim_end_matches c s = s"
  unfolding trim_end_matches_def by (cases s rule: rev_cases) auto

lemma contains_str_iff: "contains_str p s \<longleftrightarrow> (\<exists>a b. s = a @ p @ b)"
proof (induction s)
  case (Cons c s)
  show ?case
    unfolding contains_str.simps Cons starts_with_iff by (metis append_Cons append_Nil list.exhaust list.inject)
qed simp

lemma contains_char_iff: "contains_char cs s \<longleftrightarrow> set s \<inter> set cs \<noteq> {}"
  by (auto simp: contains_char_def list_ex_iff)

lemma utf8_width_pos: "0 < utf8_width c"
  by (simp add: utf8_width_def)

text \<open>On ASCII text the scalar values are the bytes.\<close>

lemma utf8_chars_ascii:
  "list_all (\<lambda>c. byte c < 128) s \<Longrightarrow> utf8_chars s = map (\<lambda>c. [c]) s"
  by (induction s) (auto simp: utf8_width_def)

lemma str_chars_ascii: "list_all (\<lambda>c. byte c < 128) s \<Longrightarrow> str_chars s = map byte s"
  by (simp add: str_chars_def utf8_chars_ascii code_point_def)

text \<open>The definitions that evaluate an operation on a literal.\<close>

lemmas str_eval =
  byte_def utf8_width_def code_point_def str_chars_def is_whitespace_def is_control_def str_trim_def
  is_ascii_lowercase_def is_ascii_uppercase_def is_ascii_digit_def to_ascii_lowercase_def
  to_ascii_uppercase_def eq_ignore_ascii_case_def digit_value_def digits_value_def
  parse_unsigned_def parse_i64_def starts_with_def ends_with_def trim_start_matches_def
  trim_end_matches_def contains_char_def rsplit_once_def split_first_def rsplit_first_def
  char_of_def bit_0

lemma parse_unsigned_bound: "parse_unsigned w s = Some n \<Longrightarrow> n < 2 ^ w"
  by (auto simp: parse_unsigned_def Let_def split: if_splits)

section \<open>Machines that keep an invariant\<close>

lemma list_all_true [simp]: "list_all (\<lambda>_. True) xs"
  by (simp add: list_all_iff)

text \<open>
  The contract of a component that is driven by requests: every admitted operation keeps what the
  component's state promises. A client then has it after any sequence of such operations.
\<close>

locale guarded_machine =
  fixes step :: "'op \<Rightarrow> 's \<Rightarrow> 's"
    and inv :: "'s \<Rightarrow> bool"
    and admitted :: "'op \<Rightarrow> bool"
  assumes step_inv: "admitted op \<Longrightarrow> inv s \<Longrightarrow> inv (step op s)"
begin

lemma run_inv: "inv s \<Longrightarrow> list_all admitted ops \<Longrightarrow> inv (fold step ops s)"
  by (induction ops arbitrary: s) (simp_all add: step_inv)

lemma prefix_inv: "inv s \<Longrightarrow> list_all admitted ops \<Longrightarrow> inv (fold step (take n ops) s)"
  by (rule run_inv) (auto simp: list_all_iff dest: in_set_takeD)

end

section \<open>Step lists that survive a crash\<close>

text \<open>Every step of a list is taken in a state in which it is safe.\<close>

fun all_safe :: "('st \<Rightarrow> 'd \<Rightarrow> 'd) \<Rightarrow> ('st \<Rightarrow> 'd \<Rightarrow> bool) \<Rightarrow> 'st list \<Rightarrow> 'd \<Rightarrow> bool" where
  "all_safe exec safe [] d = True"
| "all_safe exec safe (s # ss) d = (safe s d \<and> all_safe exec safe ss (exec s d))"

lemma all_safe_append:
  "all_safe exec safe (xs @ ys) d \<longleftrightarrow> all_safe exec safe xs d \<and> all_safe exec safe ys (fold exec xs d)"
  by (induction xs arbitrary: d) auto

text \<open>
  The contract between a routine that changes durable state in steps and the recovery that runs
  after a crash: a promise that safe steps keep, and that recovery turns into the outcome.
\<close>

locale crash_safe =
  fixes exec :: "'st \<Rightarrow> 'd \<Rightarrow> 'd"
    and safe :: "'st \<Rightarrow> 'd \<Rightarrow> bool"
    and promise :: "'d \<Rightarrow> bool"
    and recover :: "'d \<Rightarrow> ('e, 'd) result"
    and outcome :: "'d \<Rightarrow> bool"
  assumes keeps: "promise d \<Longrightarrow> safe s d \<Longrightarrow> promise (exec s d)"
    and recovers: "promise d \<Longrightarrow> \<exists>r. recover d = Inr r \<and> outcome r"
begin

lemma run_promise: "promise d \<Longrightarrow> all_safe exec safe ss d \<Longrightarrow> promise (fold exec ss d)"
  by (induction ss arbitrary: d) (auto simp: keeps)

lemma prefix_promise: "promise d \<Longrightarrow> all_safe exec safe ss d \<Longrightarrow> promise (fold exec (take n ss) d)"
proof (induction ss arbitrary: d n)
  case (Cons s ss)
  then show ?case by (cases n) (auto simp: keeps)
qed simp

lemma crash_recovers:
  "promise d \<Longrightarrow> all_safe exec safe ss d \<Longrightarrow> \<exists>r. recover (fold exec (take n ss) d) = Inr r \<and> outcome r"
  by (rule recovers) (rule prefix_promise)

end

end
