(* ===== verification/Web_Types.thy ===== *)
theory Web_Types
  imports Rust_Base
begin

text \<open>
  The data every component exchanges: the crate's \<^verbatim>\<open>Error\<close> with its HTTP status and text
  (\<^verbatim>\<open>src/error.rs\<close>), JSON values as \<^verbatim>\<open>serde_json::Value\<close> presents them, header maps as
  \<^verbatim>\<open>http::HeaderMap\<close> presents them, and the two routines that read them in several places.

  JSON values and header maps come from third-party crates. Only their data is modelled: a
  value is one of the JSON kinds, an object is the list of its members in the order the map
  iterates, a header map is the list of its fields with lower-case names. Parsing JSON text and
  header names are arguments of the definitions that use them.
\<close>

section \<open>Errors\<close>

datatype io_kind = NotFound | InvalidInput | AlreadyExists | OtherIo

datatype error =
    BadRequest string
  | InvalidConfig string
  | InvalidComponent string
  | InvalidIdentity string
  | PackagePolicy string nat
  | SigningStatusUnavailable
  | IdentityMismatch
  | MissingHandshake
  | RouteNotFound
  | MethodNotAllowed
  | Denied
  | Deadline
  | GuestExitedWithoutResponse
  | GuestRejectedResponse string
  | Guest string
  | Io io_kind string
  | Database string
  | ConfigDatabase string
  | Http string
  | Dhttp string
  | Task string
  | ShutdownDeadline

type_synonym 'a res = "(error, 'a) result"

definition error_status :: "error \<Rightarrow> nat" where
  "error_status e = (case e of
       PackagePolicy _ status \<Rightarrow> status
     | SigningStatusUnavailable \<Rightarrow> 503
     | BadRequest _ \<Rightarrow> 400
     | IdentityMismatch \<Rightarrow> 421
     | RouteNotFound \<Rightarrow> 404
     | MethodNotAllowed \<Rightarrow> 405
     | Denied \<Rightarrow> 403
     | InvalidIdentity _ \<Rightarrow> 403
     | Deadline \<Rightarrow> 504
     | Dhttp _ \<Rightarrow> 502
     | _ \<Rightarrow> 500)"

definition error_text :: "error \<Rightarrow> string" where
  "error_text e = (case e of
       PackagePolicy code _ \<Rightarrow> code
     | SigningStatusUnavailable \<Rightarrow> ''signing_status_unavailable''
     | BadRequest s \<Rightarrow> s
     | InvalidConfig s \<Rightarrow> s
     | InvalidComponent s \<Rightarrow> s
     | InvalidIdentity s \<Rightarrow> s
     | Guest s \<Rightarrow> ''guest execution: '' @ s
     | Io _ s \<Rightarrow> ''I/O: '' @ s
     | Database s \<Rightarrow> ''access database: '' @ s
     | ConfigDatabase s \<Rightarrow> ''configuration database: '' @ s
     | Http s \<Rightarrow> ''HTTP: '' @ s
     | Dhttp s \<Rightarrow> ''DHTTP: '' @ s
     | Task s \<Rightarrow> ''application task: '' @ s
     | GuestRejectedResponse s \<Rightarrow> ''guest rejected response: '' @ s
     | IdentityMismatch \<Rightarrow> ''request authority does not match endpoint''
     | MissingHandshake \<Rightarrow> ''trusted handshake is missing''
     | RouteNotFound \<Rightarrow> ''route not found''
     | MethodNotAllowed \<Rightarrow> ''method not allowed''
     | Denied \<Rightarrow> ''permission denied''
     | Deadline \<Rightarrow> ''execution deadline exceeded''
     | GuestExitedWithoutResponse \<Rightarrow> ''guest exited without a response''
     | ShutdownDeadline \<Rightarrow> ''application shutdown deadline exceeded'')"

text \<open>\<^verbatim>\<open>StatusCode::is_server_error\<close>.\<close>

definition is_server_error :: "nat \<Rightarrow> bool" where
  "is_server_error n = (500 \<le> n \<and> n < 600)"

section \<open>JSON values\<close>

text \<open>Integers are the numbers with an exact integer value; \<open>JFloat\<close> keeps the text of any other.\<close>

datatype json =
    JNull
  | JBool bool
  | JInt int
  | JFloat string
  | JStr string
  | JArr "json list"
  | JObj "(string \<times> json) list"

fun jget :: "json \<Rightarrow> string \<Rightarrow> json option" where
  "jget (JObj m) k = map_of m k"
| "jget _ k = None"

text \<open>\<^verbatim>\<open>value["key"]\<close>: \<^verbatim>\<open>null\<close> where the member is missing.\<close>

definition jidx :: "json \<Rightarrow> string \<Rightarrow> json" where
  "jidx v k = (case jget v k of None \<Rightarrow> JNull | Some x \<Rightarrow> x)"

fun as_str :: "json \<Rightarrow> string option" where
  "as_str (JStr s) = Some s"
| "as_str _ = None"

fun as_array :: "json \<Rightarrow> json list option" where
  "as_array (JArr xs) = Some xs"
| "as_array _ = None"

fun as_object :: "json \<Rightarrow> (string \<times> json) list option" where
  "as_object (JObj m) = Some m"
| "as_object _ = None"

fun as_bool :: "json \<Rightarrow> bool option" where
  "as_bool (JBool b) = Some b"
| "as_bool _ = None"

fun as_i64 :: "json \<Rightarrow> int option" where
  "as_i64 (JInt n) = (if - (2 ^ 63) \<le> n \<and> n < 2 ^ 63 then Some n else None)"
| "as_i64 _ = None"

fun as_u64 :: "json \<Rightarrow> nat option" where
  "as_u64 (JInt n) = (if 0 \<le> n \<and> n < 2 ^ 64 then Some (nat n) else None)"
| "as_u64 _ = None"

text \<open>\<^verbatim>\<open>opt.filter(p)\<close> and \<^verbatim>\<open>opt.is_none_or(p)\<close>, \<^verbatim>\<open>opt.is_some_and(p)\<close>.\<close>

definition opt_filter :: "('a \<Rightarrow> bool) \<Rightarrow> 'a option \<Rightarrow> 'a option" where
  "opt_filter p m = (case m of None \<Rightarrow> None | Some x \<Rightarrow> if p x then Some x else None)"

definition is_none_or :: "('a \<Rightarrow> bool) \<Rightarrow> 'a option \<Rightarrow> bool" where
  "is_none_or p m = (case m of None \<Rightarrow> True | Some x \<Rightarrow> p x)"

definition is_some_and :: "('a \<Rightarrow> bool) \<Rightarrow> 'a option \<Rightarrow> bool" where
  "is_some_and p m = (case m of None \<Rightarrow> False | Some x \<Rightarrow> p x)"

definition or_else :: "'a option \<Rightarrow> 'a option \<Rightarrow> 'a option" where
  "or_else a b = (case a of None \<Rightarrow> b | Some x \<Rightarrow> Some x)"

lemma opt_filter_Some_iff [simp]: "opt_filter p m = Some x \<longleftrightarrow> m = Some x \<and> p x"
  by (auto simp: opt_filter_def split: option.splits)

lemma is_none_or_simps [simp]: "is_none_or p None" "is_none_or p (Some x) = p x"
  by (simp_all add: is_none_or_def)

lemma is_some_and_simps [simp]: "\<not> is_some_and p None" "is_some_and p (Some x) = p x"
  by (simp_all add: is_some_and_def)

lemma is_some_and_iff: "is_some_and p m \<longleftrightarrow> (\<exists>x. m = Some x \<and> p x)"
  by (cases m) auto

lemma is_none_or_iff: "is_none_or p m \<longleftrightarrow> (\<forall>x. m = Some x \<longrightarrow> p x)"
  by (cases m) auto

lemma opt_filter_simps [simp]:
  "opt_filter p None = None" "opt_filter p (Some x) = (if p x then Some x else None)"
  by (simp_all add: opt_filter_def)

lemma or_else_simps [simp]: "or_else None b = b" "or_else (Some x) b = Some x"
  by (simp_all add: or_else_def)

lemma as_str_Some_iff [simp]: "as_str v = Some s \<longleftrightarrow> v = JStr s"
  by (cases v) auto

lemma as_array_Some_iff [simp]: "as_array v = Some xs \<longleftrightarrow> v = JArr xs"
  by (cases v) auto

lemma as_object_Some_iff [simp]: "as_object v = Some m \<longleftrightarrow> v = JObj m"
  by (cases v) auto

lemma as_bool_Some_iff [simp]: "as_bool v = Some b \<longleftrightarrow> v = JBool b"
  by (cases v) auto

lemma jidx_JObj [simp]:
  "jidx (JObj m) k = (case map_of m k of None \<Rightarrow> JNull | Some x \<Rightarrow> x)"
  by (simp add: jidx_def)

section \<open>Header maps\<close>

type_synonym headers = "(string \<times> string) list"

definition get_all :: "string \<Rightarrow> headers \<Rightarrow> string list" where
  "get_all n h = map snd (filter (\<lambda>f. fst f = n) h)"

definition get_header :: "string \<Rightarrow> headers \<Rightarrow> string option" where
  "get_header n h = map_of h n"

definition contains_key :: "string \<Rightarrow> headers \<Rightarrow> bool" where
  "contains_key n h = (n \<in> fst ` set h)"

definition remove_header :: "string \<Rightarrow> headers \<Rightarrow> headers" where
  "remove_header n h = filter (\<lambda>f. fst f \<noteq> n) h"

text \<open>\<^verbatim>\<open>insert\<close> replaces every field of the name.\<close>

definition insert_header :: "string \<Rightarrow> string \<Rightarrow> headers \<Rightarrow> headers" where
  "insert_header n v h = remove_header n h @ [(n, v)]"

text \<open>\<^verbatim>\<open>HeaderValue::to_str\<close> accepts visible ASCII and the tab.\<close>

definition header_to_str :: "string \<Rightarrow> string option" where
  "header_to_str v = (if list_all (\<lambda>c. 32 \<le> byte c \<and> byte c < 127 \<or> byte c = 9) v
                      then Some v else None)"

lemma contains_key_remove [simp]:
  "contains_key n (remove_header m h) \<longleftrightarrow> n \<noteq> m \<and> contains_key n h"
  by (auto simp: contains_key_def remove_header_def)

lemma contains_key_insert [simp]:
  "contains_key n (insert_header m v h) \<longleftrightarrow> n = m \<or> contains_key n h"
  by (auto simp: contains_key_def insert_header_def remove_header_def)

lemma get_all_remove_other [simp]: "n \<noteq> m \<Longrightarrow> get_all n (remove_header m h) = get_all n h"
  by (induction h) (auto simp: get_all_def remove_header_def)

lemma get_all_remove_same [simp]: "get_all n (remove_header n h) = []"
  by (auto simp: get_all_def remove_header_def filter_empty_conv)

lemma get_all_insert_same [simp]: "get_all n (insert_header n v h) = [v]"
  by (auto simp: get_all_def insert_header_def remove_header_def filter_empty_conv)

lemma get_all_insert_other [simp]:
  "n \<noteq> m \<Longrightarrow> get_all n (insert_header m v h) = get_all n h"
  by (induction h) (auto simp: get_all_def insert_header_def remove_header_def)

text \<open>
  \<^verbatim>\<open>.and_then(to_str).and_then(|v| v.split(';').next()).is_some_and(|v| v.trim().eq_ignore_ascii_case(t))\<close>:
  the media type test that several handlers make of their request.
\<close>

definition content_type_is :: "string \<Rightarrow> headers \<Rightarrow> bool" where
  "content_type_is t h =
     is_some_and (\<lambda>v. eq_ignore_ascii_case (str_trim (split_first (CHR '';'') v)) t)
       (Option.bind (get_header ''content-type'' h) header_to_str)"

end
