(* ===== verification/Signing.thy ===== *)
theory Signing
  imports Web_Types
begin

unbundle bit_operations_syntax

text \<open>
  Offline developer trust (\<^verbatim>\<open>src/package/signing.rs\<close>): the rules a package's certificate chain must
  meet, the facts taken from it, the publication receipt of the store, and the cache of revocation
  lists with its monotonic numbers.

  Parsing of certificates and lists, path validation, signatures, SHA-256, Base64 and JSON come from
  other crates: they are the fields of \<open>pki\<close>. A parsed certificate is a record of what the code
  reads from it; an extension is \<open>None\<close> when it is malformed and \<open>Some None\<close> when it is absent.
\<close>

section \<open>Certificates\<close>

datatype general_name = DNSName string | OtherName

record key_purposes =
  ep_code_signing :: bool
  ep_any :: bool
  ep_server_auth :: bool
  ep_client_auth :: bool
  ep_email_protection :: bool
  ep_time_stamping :: bool
  ep_ocsp_signing :: bool
  ep_other :: "string list"

record basic_constraints =
  bc_critical :: bool
  bc_ca :: bool
  bc_path_len :: "nat option"

record key_usage =
  ku_critical :: bool
  ku_flags :: "16 word"

record certificate =
  ct_key_algorithm :: string
  ct_key_parameter :: "string option"
  ct_signature_algorithm :: string
  ct_basic :: "basic_constraints option option"
  ct_key_usage :: "key_usage option option"
  ct_purposes :: "key_purposes option option"
  ct_alt_names :: "general_name list option option"
  ct_common_names :: "string option list"
  ct_subject :: string
  ct_serial :: string
  ct_public_key :: string
  ct_not_before :: int
  ct_not_after :: int

record subject_key =
  sk_text :: string
  sk_owner :: string
  sk_client_and_server :: bool
  sk_sequence :: nat

record revocation_list =
  rl_rest_empty :: bool
  rl_issuer :: string
  rl_algorithm :: string
  rl_algorithms_agree :: bool
  rl_extensions_ok :: bool
  rl_critical :: bool
  rl_entry_critical :: bool
  rl_signed_part :: string
  rl_signature :: string
  rl_number :: "string option"
  rl_revoked :: "string list"
  rl_last_update :: int
  rl_next_update :: "int option"

record pki =
  parse_cert :: "string \<Rightarrow> (string \<times> certificate) option"
  subject_key_of :: "string list \<Rightarrow> subject_key option"
  path_ok :: "string \<Rightarrow> string \<Rightarrow> string list \<Rightarrow> int \<Rightarrow> string \<Rightarrow> bool"
  valid_for_name :: "string \<Rightarrow> string \<Rightarrow> bool"
  verify_sig :: "string \<Rightarrow> string \<Rightarrow> string \<Rightarrow> bool option"
  parse_crl :: "string \<Rightarrow> revocation_list option"
  sha256 :: "string \<Rightarrow> string"
  base64_decode :: "string \<Rightarrow> string option"
  parse_json :: "string \<Rightarrow> json option"
  normalize_name :: "string \<Rightarrow> string option"
  root_der :: string

type_synonym package_files = "(string \<times> string) list"

definition policy :: "string \<Rightarrow> nat \<Rightarrow> error" where
  "policy code status = PackagePolicy code status"

definition decode_certificate :: "pki \<Rightarrow> error \<Rightarrow> json \<Rightarrow> string res" where
  "decode_certificate p bad v = try_r (ok_or (as_str v) bad) (\<lambda>s. ok_or (base64_decode p s) bad)"

definition certificates :: "pki \<Rightarrow> package_files \<Rightarrow> string list res" where
  "certificates p files =
     (let bad = policy ''developer_certificate_required'' 422 in
     try_r (ok_or (map_of files ''signature.json'') bad) (\<lambda>data.
     try_r (ok_or (parse_json p data) bad) (\<lambda>envelope.
     try_r (ok_or (opt_filter (\<lambda>chain. 2 \<le> length chain \<and> length chain \<le> 3)
              (as_array (jidx envelope ''certificates''))) bad) (\<lambda>chain.
     collect_r (decode_certificate p bad) chain))))"

section \<open>The chain policy\<close>

definition parse_whole :: "pki \<Rightarrow> error \<Rightarrow> string \<Rightarrow> certificate res" where
  "parse_whole p bad der =
     try_r (ok_or (parse_cert p der) bad) (\<lambda>(remaining, cert).
     try_r (ensure_r (remaining = []) bad) (\<lambda>_. Inr cert))"

definition present :: "error \<Rightarrow> 'a option option \<Rightarrow> 'a res" where
  "present bad ext = try_r (ok_or ext bad) (\<lambda>v. ok_or v bad)"

text \<open>The checks of the leaf (index 0) and of the issuer (index 1).\<close>

definition role_ok :: "nat \<Rightarrow> basic_constraints \<Rightarrow> key_usage \<Rightarrow> key_purposes \<Rightarrow> bool" where
  "role_ok index bc ku eku = (\<not> (\<not> bc_critical bc \<or> \<not> ku_critical ku \<or>
     \<not> ep_code_signing eku \<or> ep_any eku \<or> ep_server_auth eku \<noteq> ep_client_auth eku \<or>
     ep_email_protection eku \<or> ep_time_stamping eku \<or> ep_ocsp_signing eku \<or> ep_other eku \<noteq> [] \<or>
     index = 0 \<and> (bc_ca bc \<or> bc_path_len bc \<noteq> None \<or> ku_flags ku \<noteq> 1) \<or>
     index = 1 \<and> (\<not> bc_ca bc \<or> bc_path_len bc \<noteq> Some 0 \<or> ku_flags ku AND 33 \<noteq> 33 \<or>
                  ku_flags ku AND NOT 97 \<noteq> 0)))"

definition check_certificate :: "nat \<Rightarrow> certificate \<Rightarrow> unit res" where
  "check_certificate index cert =
     (let bad = policy ''signing_certificate_untrusted'' 422 in
     try_r (ensure_r (\<not> (ct_key_algorithm cert \<noteq> ''1.2.840.10045.2.1'' \<or>
              is_none_or (\<lambda>oid. oid \<noteq> ''1.3.132.0.34'') (ct_key_parameter cert) \<or>
              ct_signature_algorithm cert \<noteq> ''1.2.840.10045.4.3.3'')) bad) (\<lambda>_.
     try_r (present bad (ct_basic cert)) (\<lambda>bc.
     try_r (present bad (ct_key_usage cert)) (\<lambda>ku.
     try_r (present bad (ct_purposes cert)) (\<lambda>eku.
     ensure_r (role_ok index bc ku eku) (policy ''developer_certificate_required'' 422))))))"

definition code_signing_oid :: string where "code_signing_oid = ''1.3.6.1.5.5.7.3.3''"
definition server_auth_oid :: string where "server_auth_oid = ''1.3.6.1.5.5.7.3.1''"

definition verify_chain_with_root :: "pki \<Rightarrow> string list \<Rightarrow> string \<Rightarrow> int \<Rightarrow> unit res" where
  "verify_chain_with_root p chain domain at =
     (let bad = policy ''signing_certificate_untrusted'' 422;
          mismatch = policy ''signing_identity_mismatch'' 403 in
     try_r (ensure_r (2 \<le> length chain \<and> length chain \<le> 3 \<and> at \<ge> 0) bad) (\<lambda>_.
     try_r (collect_r (parse_whole p bad) chain) (\<lambda>parsed.
     try_r (check_certificate 0 (parsed ! 0)) (\<lambda>_.
     try_r (check_certificate 1 (parsed ! 1)) (\<lambda>_.
     try_r (present bad (ct_alt_names (parsed ! 0))) (\<lambda>names.
     try_r (ensure_r (names = [DNSName domain] \<and> normalize_name p domain = Some domain) mismatch) (\<lambda>_.
     try_r (ensure_r (ct_common_names (parsed ! 0) = [Some domain]) mismatch) (\<lambda>_.
     try_r (ok_or (subject_key_of p chain) bad) (\<lambda>ski.
     try_r (ensure_r (sk_client_and_server ski) bad) (\<lambda>_.
     try_r (ensure_r (\<not> (length chain = 3 \<and> chain ! 2 \<noteq> root_der p)) bad) (\<lambda>_.
     ensure_r (path_ok p (root_der p) (chain ! 0) [chain ! 1] at code_signing_oid) bad)))))))))))"

record signer_facts =
  sf_leaf_fingerprint :: string
  sf_issuer_id :: string
  sf_serial :: string
  sf_ski :: string
  sf_sequence :: nat
  sf_owner_hash :: string
  sf_not_before :: int
  sf_not_after :: int

definition facts :: "pki \<Rightarrow> package_files \<Rightarrow> string \<Rightarrow> int \<Rightarrow> signer_facts res" where
  "facts p files domain at =
     try_r (certificates p files) (\<lambda>chain.
     try_r (verify_chain_with_root p chain domain at) (\<lambda>_.
     let leaf = snd (the (parse_cert p (chain ! 0))) in
     try_r (ok_or (subject_key_of p chain) (policy ''signing_identity_mismatch'' 403)) (\<lambda>ski.
     Inr \<lparr>sf_leaf_fingerprint = hex_text (sha256 p (chain ! 0)), sf_issuer_id = hex_text (sha256 p (chain ! 1)),
          sf_serial = to_ascii_uppercase (hex_text (ct_serial leaf)), sf_ski = sk_text ski, sf_sequence = sk_sequence ski,
          sf_owner_hash = sk_owner ski, sf_not_before = ct_not_before leaf, sf_not_after = ct_not_after leaf\<rparr>)))"

section \<open>The publication receipt\<close>

definition store_name :: string where "store_name = ''store.dhttp.net''"

definition store_owner :: string where
  "store_owner = ''ffc3e50e1dfb7baca1cc07a7cbfcf8cb34a9bf5a9c25024fcf9a9786bb230746''"

text \<open>Equality of JSON objects does not depend on the order of their members.\<close>

definition same_object :: "json \<Rightarrow> (string \<times> json) list \<Rightarrow> bool" where
  "same_object v m = is_some_and (\<lambda>o'. set (map fst o') = set (map fst m) \<and> list_all (\<lambda>(k, x). map_of o' k = Some x) m) (as_object v)"

definition expected_receipt :: "json \<Rightarrow> int \<Rightarrow> (string \<times> json) list" where
  "expected_receipt metadata at =
     [(''format'', JStr ''pishoo-publication/1''), (''registry'', JStr store_name),
      (''registry_owner_hash'', JStr store_owner), (''author'', jidx metadata ''author''),
      (''name'', jidx metadata ''name''), (''version'', jidx metadata ''version''),
      (''package_sha256'', jidx metadata ''package_sha256''), (''size'', jidx metadata ''size''),
      (''author_owner_hash'', jidx metadata ''author_owner_hash''),
      (''leaf_fingerprint_sha256'', jidx (jidx metadata ''signature'') ''leaf_fingerprint_sha256''),
      (''issuer_id'', jidx (jidx metadata ''signature'') ''issuer_id''), (''verified_at'', JInt at)]"

definition receipt_prefix :: string where
  "receipt_prefix = ''pishoo-publication-receipt-v1'' @ [CHR 0x00]"

definition verify_receipt_with_root :: "pki \<Rightarrow> json \<Rightarrow> int \<Rightarrow> unit res" where
  "verify_receipt_with_root p metadata at =
     (let bad = policy ''package_publication_invalid'' 422; receipt = jidx metadata ''publication_receipt'' in
     try_r (ok_or (as_str (jidx receipt ''payload'')) bad) (\<lambda>encoded.
     try_r (ok_or (base64_decode p encoded) bad) (\<lambda>payload.
     try_r (ensure_r (length payload \<le> 16 * 1024) bad) (\<lambda>_.
     try_r (ok_or (parse_json p payload) bad) (\<lambda>v.
     try_r (ensure_r (same_object v (expected_receipt metadata at)) bad) (\<lambda>_.
     try_r (ok_or (opt_filter (\<lambda>c. 2 \<le> length c \<and> length c \<le> 3) (as_array (jidx receipt ''certificates''))) bad) (\<lambda>cs.
     try_r (collect_r (decode_certificate p bad) cs) (\<lambda>chain.
     try_r (ensure_r (\<not> (length chain = 3 \<and> chain ! 2 \<noteq> root_der p)) bad) (\<lambda>_.
     try_r (ensure_r (path_ok p (root_der p) (chain ! 0) [chain ! 1] at server_auth_oid) bad) (\<lambda>_.
     try_r (ensure_r (valid_for_name p (chain ! 0) store_name) bad) (\<lambda>_.
     try_r (ok_or (subject_key_of p chain) bad) (\<lambda>ski.
     try_r (ensure_r (sk_owner ski = store_owner) bad) (\<lambda>_.
     try_r (parse_whole p bad (chain ! 0)) (\<lambda>cert.
     try_r (ok_or (as_str (jidx receipt ''signature'')) bad) (\<lambda>sig64.
     try_r (ok_or (base64_decode p sig64) bad) (\<lambda>sig.
     try_r (ok_or (verify_sig p (ct_public_key cert) (receipt_prefix @ payload) sig) bad) (\<lambda>ok.
     ensure_r ok bad)))))))))))))))))"

definition verify_receipt :: "pki \<Rightarrow> int \<Rightarrow> json \<Rightarrow> int \<Rightarrow> unit res" where
  "verify_receipt p now metadata at =
     try_r (ensure_r (\<not> (at \<le> 0 \<or> at > now \<or> jidx (jidx metadata ''signature'') ''purpose'' \<noteq> JStr ''code_signing''))
              (policy ''package_publication_invalid'' 422)) (\<lambda>_.
     verify_receipt_with_root p metadata at)"

section \<open>Revocation lists\<close>

definition crl_invalid :: error where
  "crl_invalid = policy ''signing_revocation_list_invalid'' 422"

text \<open>\<open>ku.value.crl_sign()\<close> is bit 6 of the flags.\<close>

definition crl_sign :: "key_usage \<Rightarrow> bool" where
  "crl_sign ku = bit (ku_flags ku) 6"

text \<open>The number of a list, its length first, so that comparing bytes compares numbers.\<close>

definition validate_crl :: "pki \<Rightarrow> string \<Rightarrow> string list \<Rightarrow> int \<Rightarrow> bool \<Rightarrow> string res" where
  "validate_crl p bytes chain now enforce =
     try_r (ensure_r (length bytes \<le> 4 * 1024 * 1024) crl_invalid) (\<lambda>_.
     try_r (ok_or (parse_crl p bytes) crl_invalid) (\<lambda>crl.
     try_r (ok_or (parse_cert p (chain ! 1)) crl_invalid) (\<lambda>(_, issuer).
     try_r (ok_or (parse_cert p (chain ! 0)) crl_invalid) (\<lambda>(_, leaf).
     try_r (ensure_r (rl_rest_empty crl \<and> rl_issuer crl = ct_subject issuer) crl_invalid) (\<lambda>_.
     try_r (ok_or (ct_key_usage issuer) crl_invalid) (\<lambda>ku.
     try_r (ensure_r (\<not> is_none_or (\<lambda>ku. \<not> crl_sign ku) ku \<and>
              rl_algorithm crl = ''1.2.840.10045.4.3.3'' \<and> rl_algorithms_agree crl \<and> rl_extensions_ok crl \<and>
              \<not> rl_critical crl \<and> \<not> rl_entry_critical crl) crl_invalid) (\<lambda>_.
     try_r (ok_or (verify_sig p (ct_public_key issuer) (rl_signed_part crl) (rl_signature crl)) crl_invalid) (\<lambda>ok.
     try_r (ensure_r ok crl_invalid) (\<lambda>_.
     try_r (ok_or (rl_number crl) crl_invalid) (\<lambda>number.
     try_r (ensure_r (length number \<le> 20) crl_invalid) (\<lambda>_.
     try_r (if enforce then
              try_r (ensure_r (ct_serial leaf \<notin> set (rl_revoked crl)) (policy ''signing_certificate_revoked'' 403)) (\<lambda>_.
              ensure_r (\<not> (rl_last_update crl > now \<or>
                          is_none_or (\<lambda>t. t \<le> now \<or> t \<le> rl_last_update crl) (rl_next_update crl)))
                (policy ''signing_revocation_list_stale'' 503))
            else Inr ()) (\<lambda>_.
     Inr (char_of (length number) # number)))))))))))))"

definition transpose_r :: "'a res option \<Rightarrow> 'a option res" where
  "transpose_r m = (case m of None \<Rightarrow> Inr None | Some (Inl e) \<Rightarrow> Inl e | Some (Inr x) \<Rightarrow> Inr (Some x))"

text \<open>\<open>Option\<close> orders \<open>None\<close> before every \<open>Some\<close>.\<close>

definition opt_less :: "string option \<Rightarrow> string option \<Rightarrow> bool" where
  "opt_less a b = (case (a, b) of (_, None) \<Rightarrow> False | (None, Some _) \<Rightarrow> True | (Some x, Some y) \<Rightarrow> x < y)"

text \<open>
  \<^verbatim>\<open>check_revocations\<close>; the cache is the file of the chain's issuer, as it is before and after. A
  list that is selected is stored before it is enforced, so the cache changes on an error too.
\<close>

definition check_revocations ::
  "pki \<Rightarrow> package_files \<Rightarrow> string option \<Rightarrow> json \<Rightarrow> int \<Rightarrow> unit res \<times> string option"
where
  "check_revocations p files cached supplied now =
     (case certificates p files of
        Inl e \<Rightarrow> (Inl e, cached)
      | Inr chain \<Rightarrow>
          (case try_r (ensure_r (is_none_or (\<lambda>b. length b \<le> 4 * 1024 * 1024) cached) crl_invalid) (\<lambda>_.
                try_r (transpose_r (map_option (\<lambda>s. ok_or (base64_decode p s) crl_invalid) (as_str supplied))) (\<lambda>incoming.
                try_r (transpose_r (map_option (\<lambda>b. validate_crl p b chain now False) cached)) (\<lambda>old.
                try_r (transpose_r (map_option (\<lambda>b. validate_crl p b chain now False) incoming)) (\<lambda>new.
                Inr (incoming, old, new))))) of
             Inl e \<Rightarrow> (Inl e, cached)
           | Inr (incoming, old, new) \<Rightarrow>
               let selected = (case (old, new) of
                     (Some o', Some n) \<Rightarrow> if o' \<ge> n then cached else incoming
                   | (None, Some n) \<Rightarrow> incoming
                   | (_, None) \<Rightarrow> cached);
                   cached' = (if selected \<noteq> None \<and> incoming = selected \<and> opt_less old new then selected else cached) in
               (case selected of
                  None \<Rightarrow> (Inr (), cached')
                | Some bytes \<Rightarrow> (try_r (validate_crl p bytes chain now True) (\<lambda>_. Inr ()), cached'))))"


text \<open>The directory of cached lists: one file per issuer, named by the digest of its certificate.\<close>

definition crl_key :: "pki \<Rightarrow> string \<Rightarrow> string" where
  "crl_key p issuer = hex_text (sha256 p issuer)"

type_synonym crl_request = "package_files \<times> json \<times> int"

definition crl_step :: "pki \<Rightarrow> crl_request \<Rightarrow> (string \<Rightarrow> string option) \<Rightarrow> (string \<Rightarrow> string option)" where
  "crl_step p req store = (case req of (files, supplied, now) \<Rightarrow>
     (case certificates p files of
        Inl _ \<Rightarrow> store
      | Inr chain \<Rightarrow> let k = crl_key p (chain ! 1) in
          store(k := snd (check_revocations p files (store k) supplied now))))"

section \<open>Lemmas\<close>

text \<open>The number of a list that the issuer has signed; it depends neither on the leaf nor on the time.\<close>

definition crl_number :: "pki \<Rightarrow> string \<Rightarrow> string \<Rightarrow> string res" where
  "crl_number p issuer bytes = validate_crl p bytes [issuer, issuer] 0 False"

lemma validate_crl_number:
  assumes "validate_crl p bytes chain now enforce = Inr n"
  shows "crl_number p (chain ! 1) bytes = Inr n"
  using assms by (auto simp: crl_number_def validate_crl_def try_r_Inr_iff split: prod.splits)

lemma validate_crl_enforced:
  assumes "validate_crl p bytes chain now True = Inr n"
  shows "\<exists>crl leaf rest. parse_crl p bytes = Some crl \<and> parse_cert p (chain ! 0) = Some (rest, leaf) \<and>
    ct_serial leaf \<notin> set (rl_revoked crl) \<and> rl_last_update crl \<le> now \<and>
    (\<exists>t. rl_next_update crl = Some t \<and> now < t)"
  using assms by (auto simp: validate_crl_def try_r_Inr_iff is_none_or_iff split: prod.splits)

lemma transpose_r_Inr_iff:
  "transpose_r m = Inr x \<longleftrightarrow> (case m of None \<Rightarrow> x = None | Some r \<Rightarrow> \<exists>y. r = Inr y \<and> x = Some y)"
  by (auto simp: transpose_r_def split: option.splits sum.splits)

text \<open>How a check ends: refused with the cache as it was, or with a selected list that is then enforced.\<close>

lemma check_revocations_cases:
  assumes "check_revocations p files cached supplied now = (res, cached')" and "certificates p files = Inr chain"
  obtains (refused) e where "res = Inl e" "cached' = cached"
  | (unlisted) "res = Inr ()" "cached = None" "cached' = None" "as_str supplied = None"
  | (kept) b o' where "cached = Some b" "cached' = cached" "validate_crl p b chain now False = Inr o'"
      "res = try_r (validate_crl p b chain now True) (\<lambda>_. Inr ())"
  | (replaced) b n where "cached' = Some b" "validate_crl p b chain now False = Inr n"
      "\<And>c. cached = Some c \<Longrightarrow> \<exists>o'. validate_crl p c chain now False = Inr o' \<and> o' < n"
      "res = try_r (validate_crl p b chain now True) (\<lambda>_. Inr ())"
proof -
  let ?sel = "try_r (ensure_r (is_none_or (\<lambda>b. length b \<le> 4 * 1024 * 1024) cached) crl_invalid) (\<lambda>_.
                try_r (transpose_r (map_option (\<lambda>s. ok_or (base64_decode p s) crl_invalid) (as_str supplied))) (\<lambda>incoming.
                try_r (transpose_r (map_option (\<lambda>b. validate_crl p b chain now False) cached)) (\<lambda>old.
                try_r (transpose_r (map_option (\<lambda>b. validate_crl p b chain now False) incoming)) (\<lambda>new.
                Inr (incoming, old, new)))))"
  show ?thesis
  proof (cases ?sel)
    case (Inl e)
    with assms show ?thesis by (intro refused) (auto simp: check_revocations_def)
  next
    case (Inr x)
    obtain incoming old new where x: "x = (incoming, old, new)" by (cases x)
    from Inr x have
      inc: "as_str supplied = None \<longleftrightarrow> incoming = None" and
      old: "case cached of None \<Rightarrow> old = None | Some b \<Rightarrow> \<exists>o'. validate_crl p b chain now False = Inr o' \<and> old = Some o'" and
      new: "case incoming of None \<Rightarrow> new = None | Some b \<Rightarrow> \<exists>n. validate_crl p b chain now False = Inr n \<and> new = Some n"
      by (auto simp: try_r_Inr_iff transpose_r_Inr_iff split: option.splits)
    have res: "(res, cached') = (let selected = (case (old, new) of
                     (Some o', Some n) \<Rightarrow> if o' \<ge> n then cached else incoming
                   | (None, Some n) \<Rightarrow> incoming
                   | (_, None) \<Rightarrow> cached);
                   cached' = (if selected \<noteq> None \<and> incoming = selected \<and> opt_less old new then selected else cached) in
               (case selected of
                  None \<Rightarrow> (Inr (), cached')
                | Some bytes \<Rightarrow> (try_r (validate_crl p bytes chain now True) (\<lambda>_. Inr ()), cached')))"
      using assms Inr x by (simp add: check_revocations_def)
    show ?thesis
    proof (cases cached)
      case None
      then have "old = None" using old by simp
      show ?thesis
      proof (cases incoming)
        case None
        with new inc \<open>cached = None\<close> \<open>old = None\<close> res show ?thesis by (intro unlisted) (auto simp: Let_def)
      next
        case (Some b)
        then obtain n where "validate_crl p b chain now False = Inr n" "new = Some n" using new by auto
        with Some \<open>cached = None\<close> \<open>old = None\<close> res show ?thesis
          by (intro replaced [of b n]) (auto simp: Let_def opt_less_def)
      qed
    next
      case (Some c)
      then obtain o' where c: "validate_crl p c chain now False = Inr o'" "old = Some o'" using old by auto
      show ?thesis
      proof (cases incoming)
        case None
        with new Some c res show ?thesis by (intro kept [of c o']) (auto simp: Let_def)
      next
        case (Some b)
        then obtain n where n: "validate_crl p b chain now False = Inr n" "new = Some n" using new by auto
        show ?thesis
        proof (cases "o' \<ge> n")
          case True
          with n c \<open>cached = Some c\<close> Some res show ?thesis
            by (intro kept [of c o']) (auto simp: Let_def opt_less_def)
        next
          case False
          with n c \<open>cached = Some c\<close> Some res show ?thesis
            by (intro replaced [of b n]) (auto simp: Let_def opt_less_def)
        qed
      qed
    qed
  qed
qed

lemma check_revocations_number:
  assumes "check_revocations p files cached supplied now = (res, cached')" and "certificates p files = Inr chain"
    and "cached = Some b" and "crl_number p (chain ! 1) b = Inr n"
  shows "\<exists>b' n'. cached' = Some b' \<and> crl_number p (chain ! 1) b' = Inr n' \<and> n \<le> n'"
  using assms(1,2)
proof (cases rule: check_revocations_cases)
  case refused
  with assms show ?thesis by auto
next
  case unlisted
  with assms show ?thesis by simp
next
  case (kept b o')
  with assms show ?thesis by auto
next
  case (replaced b' n')
  from replaced(3) [OF assms(3)] obtain m where "validate_crl p b chain now False = Inr m" "m < n'" by blast
  with validate_crl_number [of p b chain now False m] assms(4) have "n < n'" by simp
  with replaced(1,2) validate_crl_number show ?thesis by fastforce
qed

section \<open>Properties\<close>

text \<open>
  Property C20: a revocation list is never rolled back. Whatever packages, supplied lists and errors
  an identity sees, the list cached for an issuer is only ever replaced by one that the same issuer
  has signed and whose number is not smaller, as long as no other issuer's certificate has the same
  digest.
\<close>

theorem crl_never_rolls_back:
  assumes "store (crl_key p issuer) = Some b" and "crl_number p issuer b = Inr n"
    and "\<forall>(files, supplied, now) \<in> set reqs. \<forall>chain. certificates p files = Inr chain \<longrightarrow>
           crl_key p (chain ! 1) = crl_key p issuer \<longrightarrow> chain ! 1 = issuer"
  shows "\<exists>b' n'. fold (crl_step p) reqs store (crl_key p issuer) = Some b' \<and> crl_number p issuer b' = Inr n' \<and> n \<le> n'"
  using assms
proof (induction reqs arbitrary: store b n)
  case (Cons req reqs)
  obtain files supplied now where req: "req = (files, supplied, now)" by (cases req)
  have "\<exists>b' n'. crl_step p req store (crl_key p issuer) = Some b' \<and> crl_number p issuer b' = Inr n' \<and> n \<le> n'"
  proof (cases "certificates p files")
    case (Inl e)
    with Cons.prems req show ?thesis by (simp add: crl_step_def)
  next
    case (Inr chain)
    show ?thesis
    proof (cases "crl_key p (chain ! 1) = crl_key p issuer")
      case True
      then have ch: "chain ! 1 = issuer" using Cons.prems(3) Inr req by auto
      obtain res cached' where c: "check_revocations p files (store (crl_key p issuer)) supplied now = (res, cached')"
        by (cases "check_revocations p files (store (crl_key p issuer)) supplied now")
      from check_revocations_number [OF c Inr Cons.prems(1)] Cons.prems(2) ch
      have "\<exists>b' n'. cached' = Some b' \<and> crl_number p issuer b' = Inr n' \<and> n \<le> n'" by simp
      with c Inr req ch show ?thesis by (simp add: crl_step_def)
    next
      case False
      with Cons.prems Inr req show ?thesis by (simp add: crl_step_def Let_def)
    qed
  qed
  then obtain b1 n1 where 1: "crl_step p req store (crl_key p issuer) = Some b1" "crl_number p issuer b1 = Inr n1" "n \<le> n1"
    by blast
  from Cons.IH [of "crl_step p req store" b1 n1, OF 1(1,2)] Cons.prems(3) obtain b' n' where
    "fold (crl_step p) reqs (crl_step p req store) (crl_key p issuer) = Some b'" "crl_number p issuer b' = Inr n'" "n1 \<le> n'"
    by auto
  with 1(3) show ?case by (auto intro: order_trans)
qed auto

definition example_cert :: "string \<Rightarrow> certificate" where
  "example_cert s = \<lparr>ct_key_algorithm = [], ct_key_parameter = None, ct_signature_algorithm = [], ct_basic = None,
     ct_key_usage = Some (Some \<lparr>ku_critical = True, ku_flags = 64\<rparr>), ct_purposes = None, ct_alt_names = None,
     ct_common_names = [], ct_subject = s, ct_serial = s, ct_public_key = s, ct_not_before = 0, ct_not_after = 100\<rparr>"

text \<open>Every text is a list with itself as its number, signed by the issuer \<open>I\<close>.\<close>

definition example_pki :: pki where
  "example_pki = \<lparr>parse_cert = (\<lambda>s. Some ([], example_cert s)), subject_key_of = (\<lambda>_. None),
     path_ok = (\<lambda>_ _ _ _ _. True), valid_for_name = (\<lambda>_ _. True), verify_sig = (\<lambda>_ _ _. Some True),
     parse_crl = (\<lambda>s. Some \<lparr>rl_rest_empty = True, rl_issuer = ''I'', rl_algorithm = ''1.2.840.10045.4.3.3'',
        rl_algorithms_agree = True, rl_extensions_ok = True, rl_critical = False, rl_entry_critical = False,
        rl_signed_part = s, rl_signature = [], rl_number = Some s, rl_revoked = [''X''], rl_last_update = 0,
        rl_next_update = Some 100\<rparr>),
     sha256 = (\<lambda>s. s), base64_decode = Some,
     parse_json = (\<lambda>_. Some (JObj [(''certificates'', JArr [JStr ''L'', JStr ''I''])])),
     normalize_name = Some, root_der = ''R''\<rparr>"

lemma example_crl [simp]:
  "certificates example_pki [(''signature.json'', [])] = Inr [''L'', ''I'']"
  "crl_key example_pki = hex_text" "base64_decode example_pki = Some"
  "length s \<le> 20 \<Longrightarrow> crl_number example_pki ''I'' s = Inr (char_of (length s) # s)"
  "length s \<le> 20 \<Longrightarrow> 0 \<le> now \<Longrightarrow> now < 100 \<Longrightarrow>
     validate_crl example_pki s [''L'', ''I''] now enforce = Inr (char_of (length s) # s)"
  by (simp_all add: certificates_def decode_certificate_def crl_key_def fun_eq_iff crl_number_def validate_crl_def
      example_pki_def example_cert_def crl_sign_def Let_def)

lemma example_check:
  "check_revocations example_pki [(''signature.json'', [])] (Some ''5'') (JStr ''7'') 10 = (Inr (), Some ''7'')"
  by (simp add: check_revocations_def transpose_r_def opt_less_def less_char_def str_eval)

text \<open>
  A package passes the revocation check only against the list that is cached
  afterwards: that list is signed by the package's issuer, is current, and does not name the
  package's certificate; there is no list at all only when none was cached and none supplied.
\<close>

lemma revocation_enforced:
  assumes "check_revocations p files cached supplied now = (Inr (), cached')" and "certificates p files = Inr chain"
  shows "(cached' = None \<and> cached = None \<and> as_str supplied = None) \<or>
    (\<exists>b crl leaf rest. cached' = Some b \<and> is_ok (crl_number p (chain ! 1) b) \<and> parse_crl p b = Some crl \<and>
       parse_cert p (chain ! 0) = Some (rest, leaf) \<and> ct_serial leaf \<notin> set (rl_revoked crl) \<and>
       rl_last_update crl \<le> now \<and> (\<exists>t. rl_next_update crl = Some t \<and> now < t))"
  using assms
proof (cases rule: check_revocations_cases)
  case (kept b o')
  then obtain n where "validate_crl p b chain now True = Inr n" by (cases "validate_crl p b chain now True") auto
  with kept validate_crl_enforced [OF this] validate_crl_number [OF this] show ?thesis by (auto simp: is_ok_iff)
next
  case (replaced b n)
  then obtain n where "validate_crl p b chain now True = Inr n" by (cases "validate_crl p b chain now True") auto
  with replaced validate_crl_enforced [OF this] validate_crl_number [OF this] show ?thesis by (auto simp: is_ok_iff)
qed auto


theorem crl_never_rolls_back_witness:
  "\<exists>b' n'. fold (crl_step example_pki) [([(''signature.json'', [])], JStr ''7'', 10), ([(''signature.json'', [])], JStr ''6'', 10)]
      (\<lambda>k. if k = hex_text ''I'' then Some ''5'' else None) (hex_text ''I'') = Some b' \<and>
    crl_number example_pki ''I'' b' = Inr n' \<and> char_of (1 :: nat) # ''5'' \<le> n'"
  using crl_never_rolls_back [of "\<lambda>k. if k = hex_text ''I'' then Some ''5'' else None" example_pki "''I''" "''5''" "char_of (1 :: nat) # ''5''"
     "[([(''signature.json'', [])], JStr ''7'', 10), ([(''signature.json'', [])], JStr ''6'', 10)]"]
  by simp

lemma revocation_enforced_witness:
  "\<exists>b. snd (check_revocations example_pki [(''signature.json'', [])] (Some ''5'') (JStr ''7'') 10) = Some b \<and>
     is_ok (crl_number example_pki ''I'' b)"
  using revocation_enforced [OF example_check] by (auto simp: example_check)

end
