(* ===== verification/Waz.thy ===== *)
theory Waz
  imports Signing "HOL-Library.Multiset"
begin

text \<open>
  The package container (the codec at the end of \<^verbatim>\<open>src/package/format.rs\<close>): which entry names it
  accepts, the checks that make every byte of the archive belong to exactly one entry, and the
  payload digest that a publisher signs.

  The \<^verbatim>\<open>zip\<close> crate is an argument: \<open>zip_open\<close> gives its offset and its entries with the values it
  reports for them, or \<open>None\<close> where it refuses the bytes.
\<close>

section \<open>Entry names\<close>

definition waz_limit :: nat where "waz_limit = 64 * 1024 * 1024"

definition waz_path :: "string \<Rightarrow> bool" where
  "waz_path p = (p \<noteq> [] \<and> length p \<le> 1024 \<and>
     \<not> contains_char [CHR 0x5C, CHR '':'', CHR ''?'', CHR ''#'', CHR ''%''] p \<and>
     \<not> list_ex (\<lambda>c. is_control c \<or> is_whitespace c) (str_chars p) \<and>
     length (split_on (CHR ''/'') p) \<le> 33 \<and>
     list_all (\<lambda>part. \<not> (part = [] \<or> part = ''.'' \<or> part = ''..'')) (split_on (CHR ''/'') p) \<and>
     (p = ''manifest.json'' \<or> p = ''signature.json'' \<or> p = ''backend.wasm'' \<or> p = ''README.md'' \<or>
      p = ''CHANGELOG.md'' \<or> starts_with ''public/'' p))"

section \<open>Reading\<close>

record zip_entry =
  ze_name :: string
  ze_is_dir :: bool
  ze_encrypted :: bool
  ze_method :: nat
  ze_unix_mode :: "nat option"
  ze_size :: nat
  ze_compressed :: nat
  ze_crc32 :: nat
  ze_header_start :: nat
  ze_data_start :: nat
  ze_central_start :: nat
  ze_content :: "string option"

type_synonym 'a waz_res = "(string, 'a) result"

text \<open>\<^verbatim>\<open>u16::from_le_bytes\<close> and \<^verbatim>\<open>u32::from_le_bytes\<close> of a slice, and \<^verbatim>\<open>bytes.get(a..b)\<close>.\<close>

definition u16_at :: "string \<Rightarrow> nat \<Rightarrow> nat" where
  "u16_at bs i = byte (bs ! i) + 256 * byte (bs ! (i + 1))"

definition u32_at :: "string \<Rightarrow> nat \<Rightarrow> nat" where
  "u32_at bs i = u16_at bs i + 65536 * u16_at bs (i + 2)"

definition slice :: "string \<Rightarrow> nat \<Rightarrow> nat \<Rightarrow> string" where
  "slice bs a b = take (b - a) (drop a bs)"

definition get_slice :: "string \<Rightarrow> nat \<Rightarrow> nat \<Rightarrow> string option" where
  "get_slice bs a b = (if a \<le> b \<and> b \<le> length bs then Some (slice bs a b) else None)"

text \<open>Addition of \<^verbatim>\<open>usize\<close> values with an overflow check.\<close>

definition checked_add :: "nat \<Rightarrow> nat \<Rightarrow> nat option" where
  "checked_add a b = (if a + b < 2 ^ 64 then Some (a + b) else None)"

definition local_magic :: string where "local_magic = [CHR ''P'', CHR ''K'', CHR 0x03, CHR 0x04]"
definition central_magic :: string where "central_magic = [CHR ''P'', CHR ''K'', CHR 0x01, CHR 0x02]"
definition end_magic :: string where "end_magic = [CHR ''P'', CHR ''K'', CHR 0x05, CHR 0x06]"

definition waz_is_zip :: "string \<Rightarrow> bool" where
  "waz_is_zip bs = starts_with local_magic bs"

definition entry_limit :: "string \<Rightarrow> nat \<Rightarrow> nat" where
  "entry_limit name remaining =
     min (if name = ''manifest.json'' then 1024 * 1024
          else if name = ''signature.json'' then 64 * 1024
          else if name = ''backend.wasm'' then waz_limit
          else 16 * 1024 * 1024) remaining"

definition entry_kind_ok :: "zip_entry \<Rightarrow> bool" where
  "entry_kind_ok e = (\<not> ze_is_dir e \<and> \<not> ze_encrypted e \<and> (ze_method e = 0 \<or> ze_method e = 8) \<and>
     is_none_or (\<lambda>m. let kind = (m div 4096) mod 16 in kind = 0 \<or> kind = 8) (ze_unix_mode e))"

definition central_length :: "string \<Rightarrow> nat \<Rightarrow> nat" where
  "central_length bs c = 46 + u16_at bs (c + 28) + u16_at bs (c + 30) + u16_at bs (c + 32)"

text \<open>\<^verbatim>\<open>flags & !0x0806 == 0\<close>.\<close>

definition flags_ok :: "nat \<Rightarrow> bool" where
  "flags_ok f = ((word_of_nat f :: 16 word) AND NOT 0x0806 = 0)"

record waz_state =
  ws_files :: package_files
  ws_spans :: "(nat \<times> nat) list"
  ws_central :: "(nat \<times> nat) list"
  ws_remaining :: nat

definition read_entry ::
  "(string \<Rightarrow> bool) \<Rightarrow> string \<Rightarrow> nat \<Rightarrow> nat \<Rightarrow> zip_entry \<Rightarrow> waz_state \<Rightarrow> waz_state waz_res"
where
  "read_entry utf8 bs dir_start end_pos e st =
     try_r (ensure_r (utf8 (ze_name e)) ''utf8'') (\<lambda>_.
     let name = ze_name e in
     try_r (ensure_r (waz_path name \<and> entry_kind_ok e \<and> name \<notin> fst ` set (ws_files st))
              (''invalid, duplicate or unsupported ZIP entry: '' @ name)) (\<lambda>_.
     try_r (ensure_r (ze_size e \<le> entry_limit name (ws_remaining st))
              (''ZIP entry exceeds its decompressed size limit: '' @ name)) (\<lambda>_.
     let start = ze_header_start e; data = ze_data_start e in
     try_r (ok_or (checked_add data (ze_compressed e)) ''ZIP span overflow'') (\<lambda>stop.
     try_r (ok_or (checked_add start 30) ''ZIP header overflow'') (\<lambda>header_end.
     try_r (ok_or (get_slice bs start header_end) ''truncated ZIP local header'') (\<lambda>header.
     let name_length = u16_at header 26; extra_length = u16_at header 28; flags = u16_at header 6;
         central_start = ze_central_start e in
     try_r (ok_or (checked_add central_start 46) ''ZIP directory overflow'') (\<lambda>central_head_end.
     try_r (ok_or (get_slice bs central_start central_head_end) ''truncated ZIP central header'') (\<lambda>central.
     try_r (ok_or (checked_add central_start (central_length central 0)) ''ZIP directory span overflow'') (\<lambda>central_end.
     try_r (ensure_r (slice central 0 4 = central_magic \<and> dir_start \<le> central_start \<and> central_end \<le> end_pos \<and>
              u16_at central 8 = flags \<and> central_start \<notin> fst ` set (ws_central st)) ''invalid ZIP central header'') (\<lambda>_.
     try_r (ensure_r (slice header 0 4 = local_magic \<and> flags_ok flags \<and>
              get_slice bs (start + 30) (start + 30 + name_length) = Some name \<and>
              start + 30 + name_length + extra_length = data \<and>
              u16_at header 8 = (if ze_method e = 0 then 0 else 8) \<and> u32_at header 14 = ze_crc32 e \<and>
              u32_at header 18 = ze_compressed e \<and> u32_at header 22 = ze_size e \<and>
              stop \<le> dir_start \<and> start \<notin> fst ` set (ws_spans st))
              ''ZIP local header disagrees with the central directory'') (\<lambda>_.
     try_r (ok_or (ze_content e) ''ZIP read error'') (\<lambda>content.
     try_r (ensure_r (length content = ze_size e) ''ZIP decompressed size disagrees with header'') (\<lambda>_.
     Inr \<lparr>ws_files = ws_files st @ [(name, content)], ws_spans = ws_spans st @ [(start, stop)],
          ws_central = ws_central st @ [(central_start, central_end)],
          ws_remaining = ws_remaining st - length content\<rparr>)))))))))))))"

text \<open>The spans in the order of a \<^verbatim>\<open>BTreeMap\<close>: each must begin where the one before it ended.\<close>

fun check_spans :: "string \<Rightarrow> nat \<Rightarrow> (nat \<times> nat) list \<Rightarrow> nat waz_res" where
  "check_spans msg cursor [] = Inr cursor"
| "check_spans msg cursor ((start, stop) # spans) =
     try_r (ensure_r (start = cursor) msg) (\<lambda>_. check_spans msg stop spans)"

text \<open>The ancestors of a name, nearest first: the loop over \<^verbatim>\<open>rsplit_once('/')\<close>.\<close>

function ancestors :: "string \<Rightarrow> string list" where
  "ancestors name = (case rsplit_once (CHR ''/'') name of None \<Rightarrow> [] | Some (parent, _) \<Rightarrow> parent # ancestors parent)"
  by auto
termination
  by (relation "measure length") (auto simp: rsplit_once_Some_iff)

declare ancestors.simps [simp del]

definition check_directory ::
  "string list \<Rightarrow> string \<Rightarrow> string list \<Rightarrow> string list waz_res" where
  "check_directory names parent directories =
     try_r (ensure_r (parent \<notin> set names) ''ZIP file conflicts with a directory'') (\<lambda>_.
     let ds = List.insert parent directories in
     try_r (ensure_r (length ds + length names \<le> 10000) ''ZIP expanded directory entry budget exceeded'') (\<lambda>_.
     Inr ds))"

definition waz_read ::
  "(string \<Rightarrow> bool) \<Rightarrow> (string \<Rightarrow> (nat \<times> zip_entry list) option) \<Rightarrow> string \<Rightarrow> package_files waz_res"
where
  "waz_read utf8 zip_open bs =
     try_r (ensure_r (length bs \<le> waz_limit \<and> waz_is_zip bs \<and> 22 \<le> length bs) ''expected a bounded standard ZIP package'') (\<lambda>_.
     let end_pos = length bs - 22; eocd = drop end_pos bs; count = u16_at eocd 10;
         dir_size = u32_at eocd 12; dir_start = u32_at eocd 16 in
     try_r (ensure_r (slice eocd 0 4 = end_magic \<and> u16_at eocd 4 = 0 \<and> u16_at eocd 6 = 0 \<and> u16_at eocd 20 = 0 \<and>
              u16_at eocd 8 = count \<and> count \<noteq> 0 \<and> count \<le> 4096 \<and> checked_add dir_start dir_size = Some end_pos)
              ''invalid ZIP end record or entry budget'') (\<lambda>_.
     try_r (ok_or (zip_open bs) ''zip'') (\<lambda>(offset, entries).
     try_r (ensure_r (length entries = count \<and> offset = 0) ''ZIP central directory disagrees with archive'') (\<lambda>_.
     try_r (fold_r (read_entry utf8 bs dir_start end_pos) entries
              \<lparr>ws_files = [], ws_spans = [], ws_central = [], ws_remaining = waz_limit\<rparr>) (\<lambda>st.
     try_r (check_spans ''overlapping or unindexed ZIP data'' 0 (sort_key fst (ws_spans st))) (\<lambda>cursor.
     try_r (ensure_r (cursor = dir_start) ''unindexed ZIP data before directory'') (\<lambda>_.
     try_r (check_spans ''overlapping or unindexed ZIP directory'' cursor (sort_key fst (ws_central st))) (\<lambda>cursor'.
     try_r (ensure_r (cursor' = end_pos) ''unindexed ZIP directory data'') (\<lambda>_.
     let files = sort_key fst (ws_files st); names = map fst files in
     try_r (fold_r (check_directory names) (concat (map ancestors names)) []) (\<lambda>_.
     try_r (ensure_r (''manifest.json'' \<in> set names) ''ZIP package requires manifest.json'') (\<lambda>_.
     Inr files)))))))))))"

section \<open>The signed payload\<close>

text \<open>\<^verbatim>\<open>to_le_bytes\<close> on \<open>n\<close> bytes.\<close>

fun le_bytes :: "nat \<Rightarrow> nat \<Rightarrow> string" where
  "le_bytes 0 v = []"
| "le_bytes (Suc n) v = char_of (v mod 256) # le_bytes n (v div 256)"

definition payload_entry :: "(string \<Rightarrow> string) \<Rightarrow> string \<times> string \<Rightarrow> string" where
  "payload_entry sha f = (case f of (name, content) \<Rightarrow>
     le_bytes 4 (length name) @ name @ le_bytes 8 (length content) @ sha content)"

definition payload_input :: "(string \<Rightarrow> string) \<Rightarrow> package_files \<Rightarrow> string" where
  "payload_input sha files = ''pishoo-waz-payload-v1'' @ [CHR 0x00] @
     concat (map (payload_entry sha) (filter (\<lambda>f. fst f \<noteq> ''signature.json'') files))"

definition waz_payload :: "(string \<Rightarrow> string) \<Rightarrow> package_files \<Rightarrow> string" where
  "waz_payload sha files = hex_text (sha (payload_input sha files))"


section \<open>Lemmas\<close>

definition local_span :: "zip_entry \<Rightarrow> nat \<times> nat" where
  "local_span e = (ze_header_start e, ze_data_start e + ze_compressed e)"

definition central_span :: "string \<Rightarrow> zip_entry \<Rightarrow> nat \<times> nat" where
  "central_span bs e = (ze_central_start e,
     ze_central_start e + central_length (slice bs (ze_central_start e) (ze_central_start e + 46)) 0)"

lemma checked_add_Some [simp]: "checked_add a b = Some c \<longleftrightarrow> c = a + b \<and> a + b < 2 ^ 64"
  by (auto simp: checked_add_def)

lemma get_slice_Some [simp]: "get_slice bs a b = Some s \<longleftrightarrow> a \<le> b \<and> b \<le> length bs \<and> s = slice bs a b"
  by (auto simp: get_slice_def)

lemma read_entry_ok:
  assumes "read_entry utf8 bs ds ep e st = Inr st'"
  obtains content where
    "st' = \<lparr>ws_files = ws_files st @ [(ze_name e, content)], ws_spans = ws_spans st @ [local_span e],
        ws_central = ws_central st @ [central_span bs e], ws_remaining = ws_remaining st - length content\<rparr>"
    "waz_path (ze_name e)" "utf8 (ze_name e)" "ze_name e \<notin> fst ` set (ws_files st)" "length content \<le> ws_remaining st"
    "fst (local_span e) \<le> snd (local_span e)" "length content = ze_size e"
  using assms
  by (auto simp: read_entry_def try_r_Inr_iff Let_def local_span_def central_span_def entry_limit_def)

text \<open>What the loop over the entries has collected.\<close>

definition read_ok :: "string \<Rightarrow> zip_entry list \<Rightarrow> waz_state \<Rightarrow> bool" where
  "read_ok bs es st =
     (map fst (ws_files st) = map ze_name es \<and> distinct (map fst (ws_files st)) \<and>
      (\<forall>n \<in> set (map fst (ws_files st)). waz_path n) \<and>
      ws_spans st = map local_span es \<and> (\<forall>e \<in> set es. fst (local_span e) \<le> snd (local_span e)) \<and>
      ws_central st = map (central_span bs) es \<and>
      sum_list (map (\<lambda>f. length (snd f)) (ws_files st)) + ws_remaining st = waz_limit)"

lemma read_okD:
  assumes "read_ok bs es st"
  shows "map fst (ws_files st) = map ze_name es" "distinct (map fst (ws_files st))"
    "n \<in> set (map fst (ws_files st)) \<Longrightarrow> waz_path n" "ws_spans st = map local_span es"
    "ws_central st = map (central_span bs) es"
    "sum_list (map (\<lambda>f. length (snd f)) (ws_files st)) \<le> waz_limit"
  using assms unfolding read_ok_def by (blast, blast, blast, blast, blast, linarith)

lemma read_entries_ok:
  assumes "fold_r (read_entry utf8 bs ds ep) es' st = Inr st'" and "read_ok bs es st"
  shows "read_ok bs (es @ es') st'"
  using assms
proof (induction es' arbitrary: es st)
  case (Cons e es')
  then obtain st1 where st1: "read_entry utf8 bs ds ep e st = Inr st1" "fold_r (read_entry utf8 bs ds ep) es' st1 = Inr st'"
    by (auto simp: try_r_Inr_iff)
  from Cons.prems(2) have names: "fst ` set (ws_files st) = ze_name ` set es"
    unfolding read_ok_def by (metis list.set_map)
  from st1(1) have "read_ok bs (es @ [e]) st1"
    by (rule read_entry_ok) (use Cons.prems(2) names in \<open>auto simp: read_ok_def\<close>)
  from Cons.IH [OF st1(2) this] show ?case by simp
qed simp

lemma read_ok_start: "read_ok bs [] \<lparr>ws_files = [], ws_spans = [], ws_central = [], ws_remaining = waz_limit\<rparr>"
  by (simp add: read_ok_def)

definition covers :: "nat \<Rightarrow> nat \<times> nat \<Rightarrow> bool" where
  "covers i span = (fst span \<le> i \<and> i < snd span)"

lemma covers_pair: "covers i (a, b) \<longleftrightarrow> a \<le> i \<and> i < b"
  by (simp add: covers_def)

lemma check_spans_tile:
  assumes "check_spans msg c xs = Inr e" and "\<And>s. s \<in> set xs \<Longrightarrow> fst s \<le> snd s"
  shows "c \<le> e \<and> (\<forall>i. length (filter (covers i) xs) = (if c \<le> i \<and> i < e then 1 else 0))"
  using assms
proof (induction msg c xs rule: check_spans.induct)
  case (2 msg cursor start stop spans)
  then have "stop \<le> e \<and> (\<forall>i. length (filter (covers i) spans) = (if stop \<le> i \<and> i < e then 1 else 0))" "start = cursor"
    by (auto simp: try_r_Inr_iff)
  moreover have "start \<le> stop" using "2.prems"(2) [of "(start, stop)"] by simp
  ultimately show ?case by (auto simp: covers_pair simp flip: length_0_conv)
qed simp

lemma length_filter_sort: "length (filter P (sort_key f xs)) = length (filter P xs)"
  by (metis mset_filter mset_sort size_mset)

lemma ancestor_iff: "a \<in> set (ancestors n) \<longleftrightarrow> (\<exists>t. n = a @ CHR ''/'' # t)"
proof (induction n rule: ancestors.induct)
  case (1 n)
  show ?case
  proof (cases "rsplit_once (CHR ''/'') n")
    case None
    then have "CHR ''/'' \<notin> set n" by (simp add: rsplit_once_def split_once_None_iff)
    with None show ?thesis by (subst ancestors.simps) auto
  next
    case (Some x)
    then obtain p b where x: "x = (p, b)" "n = p @ CHR ''/'' # b" "CHR ''/'' \<notin> set b"
      by (cases x) (auto simp: rsplit_once_Some_iff)
    have "(\<exists>t. n = a @ CHR ''/'' # t) \<longleftrightarrow> a = p \<or> (\<exists>t. p = a @ CHR ''/'' # t)"
    proof
      assume "\<exists>t. n = a @ CHR ''/'' # t"
      then obtain t where "p @ CHR ''/'' # b = a @ CHR ''/'' # t" using x by auto
      then obtain us where "p = a @ us \<and> us @ CHR ''/'' # b = CHR ''/'' # t \<or>
          p @ us = a \<and> CHR ''/'' # b = us @ CHR ''/'' # t"
        unfolding append_eq_append_conv2 by blast
      with x(3) show "a = p \<or> (\<exists>t. p = a @ CHR ''/'' # t)"
        by (cases us) auto
    qed (use x in auto)
    moreover have "a \<in> set (ancestors p) \<longleftrightarrow> (\<exists>t. p = a @ CHR ''/'' # t)"
      using 1 [of "(p, b)"] Some x(1) by simp
    ultimately show ?thesis by (subst ancestors.simps) (simp add: Some x(1))
  qed
qed

lemma check_directories_ok:
  assumes "fold_r (check_directory names) ps ds = Inr ds'"
  shows "set ps \<inter> set names = {}"
  using assms by (induction ps arbitrary: ds) (auto simp: try_r_Inr_iff check_directory_def Let_def)

text \<open>What the signed payload of an archive determines.\<close>

definition signed_files :: "package_files \<Rightarrow> package_files" where
  "signed_files files = filter (\<lambda>f. fst f \<noteq> ''signature.json'') files"

lemma length_le_bytes [simp]: "length (le_bytes n v) = n"
  by (induction n arbitrary: v) auto

lemma le_bytes_inject:
  "a < 256 ^ n \<Longrightarrow> b < 256 ^ n \<Longrightarrow> le_bytes n a = le_bytes n b \<longleftrightarrow> a = b"
proof (induction n arbitrary: a b)
  case (Suc n)
  then have "a div 256 < 256 ^ n" "b div 256 < 256 ^ n"
    by (simp_all add: less_mult_imp_div_less mult.commute)
  with Suc.IH have "le_bytes n (a div 256) = le_bytes n (b div 256) \<longleftrightarrow> a div 256 = b div 256" by blast
  moreover have "(char_of (a mod 256) :: char) = char_of (b mod 256) \<longleftrightarrow> a mod 256 = b mod 256"
    by (metis byte_char_of mod_mod_trivial)
  ultimately show ?case by auto (metis div_mult_mod_eq)
qed simp

lemma payload_entry_pair:
  "payload_entry sha (n, c) = le_bytes 4 (length n) @ n @ le_bytes 8 (length c) @ sha c"
  by (simp add: payload_entry_def)

text \<open>Two lists of files that the payload digest cannot tell apart without a collision of its own.\<close>

definition same_entry :: "(string \<Rightarrow> string) \<Rightarrow> string \<times> string \<Rightarrow> string \<times> string \<Rightarrow> bool" where
  "same_entry sha f g = (fst f = fst g \<and> length (snd f) = length (snd g) \<and> sha (snd f) = sha (snd g))"

lemma payload_entries_inject:
  assumes "concat (map (payload_entry sha) fs) = concat (map (payload_entry sha) gs)"
    and "\<And>x. length (sha x) = 32"
    and "\<And>f. f \<in> set fs \<union> set gs \<Longrightarrow> length (fst f) < 2 ^ 32 \<and> length (snd f) < 2 ^ 64"
  shows "list_all2 (same_entry sha) fs gs"
  using assms(1,3)
proof (induction fs gs rule: list_induct2')
  case (2 f fs)
  then show ?case by (cases f) (auto simp: payload_entry_pair dest: arg_cong [of _ _ length])
next
  case (3 g gs)
  then show ?case by (cases g) (auto simp: payload_entry_pair dest: arg_cong [of _ _ length])
next
  case (4 f fs g gs)
  obtain n c m d where fg: "f = (n, c)" "g = (m, d)" by (cases f, cases g)
  have eq: "le_bytes 4 (length n) @ n @ le_bytes 8 (length c) @ sha c @ concat (map (payload_entry sha) fs) =
      le_bytes 4 (length m) @ m @ le_bytes 8 (length d) @ sha d @ concat (map (payload_entry sha) gs)"
    using 4(2) by (simp add: fg payload_entry_pair)
  then have "length n = length m" and eq: "n @ le_bytes 8 (length c) @ sha c @ concat (map (payload_entry sha) fs) =
      m @ le_bytes 8 (length d) @ sha d @ concat (map (payload_entry sha) gs)"
    using 4(3) [of f] 4(3) [of g] by (simp_all add: fg le_bytes_inject)
  then have "n = m" "le_bytes 8 (length c) = le_bytes 8 (length d)" "sha c = sha d"
    "concat (map (payload_entry sha) fs) = concat (map (payload_entry sha) gs)"
    using assms(2) by auto
  with 4(1,3) 4(3) [of f] 4(3) [of g] show ?case by (simp add: fg same_entry_def le_bytes_inject)
qed simp

lemma payload_entries_cong:
  "list_all2 (same_entry sha) fs gs \<Longrightarrow> concat (map (payload_entry sha) fs) = concat (map (payload_entry sha) gs)"
  by (induction rule: list_all2_induct) (auto simp: same_entry_def payload_entry_def split: prod.splits)

lemma same_entries_eq:
  "list_all2 (same_entry sha) fs gs \<Longrightarrow> inj_on sha A \<Longrightarrow> snd ` set fs \<union> snd ` set gs \<subseteq> A \<Longrightarrow> fs = gs"
  by (induction rule: list_all2_induct) (auto simp: same_entry_def dest: inj_onD intro: prod_eqI)

section \<open>A one-file archive\<close>

text \<open>A stored \<^verbatim>\<open>manifest.json\<close> with the two bytes of an empty object: header, data, directory, end record.\<close>

definition example_waz :: string where
  "example_waz = [CHR 0x50, CHR 0x4B, CHR 0x03, CHR 0x04, CHR 0x14, CHR 0x00, CHR 0x00, CHR 0x00, CHR 0x00, CHR 0x00,
      CHR 0x00, CHR 0x00, CHR 0x21, CHR 0x00, CHR 0x43, CHR 0xBF, CHR 0xA6, CHR 0xA3, CHR 0x02, CHR 0x00,
      CHR 0x00, CHR 0x00, CHR 0x02, CHR 0x00, CHR 0x00, CHR 0x00, CHR 0x0D, CHR 0x00, CHR 0x00, CHR 0x00] @
      ''manifest.json'' @ ''{}'' @
      [CHR 0x50, CHR 0x4B, CHR 0x01, CHR 0x02, CHR 0x14, CHR 0x03, CHR 0x14, CHR 0x00, CHR 0x00, CHR 0x00,
      CHR 0x00, CHR 0x00, CHR 0x00, CHR 0x00, CHR 0x21, CHR 0x00, CHR 0x43, CHR 0xBF, CHR 0xA6, CHR 0xA3,
      CHR 0x02, CHR 0x00, CHR 0x00, CHR 0x00, CHR 0x02, CHR 0x00, CHR 0x00, CHR 0x00, CHR 0x0D, CHR 0x00,
      CHR 0x00, CHR 0x00, CHR 0x00, CHR 0x00, CHR 0x00, CHR 0x00, CHR 0x00, CHR 0x00, CHR 0x00, CHR 0x00,
      CHR 0xA4, CHR 0x81, CHR 0x00, CHR 0x00, CHR 0x00, CHR 0x00] @
      ''manifest.json'' @
      [CHR 0x50, CHR 0x4B, CHR 0x05, CHR 0x06, CHR 0x00, CHR 0x00, CHR 0x00, CHR 0x00, CHR 0x01, CHR 0x00,
      CHR 0x01, CHR 0x00, CHR 0x3B, CHR 0x00, CHR 0x00, CHR 0x00, CHR 0x2D, CHR 0x00, CHR 0x00, CHR 0x00,
      CHR 0x00, CHR 0x00]"

definition example_entry :: zip_entry where
  "example_entry = \<lparr>ze_name = ''manifest.json'', ze_is_dir = False, ze_encrypted = False, ze_method = 0,
     ze_unix_mode = Some 33188, ze_size = 2, ze_compressed = 2, ze_crc32 = 2745614147, ze_header_start = 0,
     ze_data_start = 43, ze_central_start = 45, ze_content = Some ''{}''\<rparr>"

definition example_open :: "string \<Rightarrow> (nat \<times> zip_entry list) option" where
  "example_open bs = (if bs = example_waz then Some (0, [example_entry]) else None)"

lemma example_length: "length example_waz = 126"
  by (simp add: example_waz_def)

lemma example_path: "waz_path ''manifest.json''"
  by (simp add: waz_path_def str_eval)

lemma example_ancestors: "ancestors ''manifest.json'' = []"
  by (subst ancestors.simps) (simp add: rsplit_once_def)

lemma example_header: "slice example_waz 0 30 = take 30 example_waz"
  by (simp add: slice_def)

lemmas waz_eval = slice_def get_slice_def u16_at_def u32_at_def example_waz_def byte_def

lemma example_step:
  "read_entry (\<lambda>_. True) example_waz 45 104 example_entry
     \<lparr>ws_files = [], ws_spans = [], ws_central = [], ws_remaining = waz_limit\<rparr> =
   Inr \<lparr>ws_files = [(''manifest.json'', ''{}'')], ws_spans = [(0, 45)], ws_central = [(45, 104)],
     ws_remaining = waz_limit - 2\<rparr>"
  by (simp add: read_entry_def example_entry_def example_path waz_limit_def checked_add_def local_magic_def
      central_magic_def entry_kind_ok_def entry_limit_def central_length_def flags_ok_def is_none_or_def
      waz_eval Let_def)

lemma example_read: "waz_read (\<lambda>_. True) example_open example_waz = Inr [(''manifest.json'', ''{}'')]"
proof -
  have "waz_is_zip example_waz" "slice (drop 104 example_waz) 0 4 = end_magic"
    by (simp_all add: waz_is_zip_def local_magic_def end_magic_def waz_eval starts_with_def)
  moreover have "u16_at (drop 104 example_waz) 4 = 0" "u16_at (drop 104 example_waz) 6 = 0"
      "u16_at (drop 104 example_waz) 20 = 0" "u16_at (drop 104 example_waz) 8 = 1" "u16_at (drop 104 example_waz) 10 = 1"
      "u32_at (drop 104 example_waz) 12 = 59" "u32_at (drop 104 example_waz) 16 = 45"
    by (simp_all add: waz_eval)
  moreover have "126 \<le> waz_limit" "checked_add 45 59 = Some 104"
    by (simp_all add: waz_limit_def checked_add_def)
  moreover have "example_open example_waz = Some (0, [example_entry])"
    by (simp add: example_open_def)
  moreover have "126 - 22 = (104::nat)" "22 \<le> (126::nat)" by simp_all
  ultimately show ?thesis
    apply (simp only: waz_read_def example_length Let_def simp_thms ensure_r_simps try_r_simps ok_or_simps prod.case)
    apply (simp add: example_step example_ancestors)
    done
qed

section \<open>Properties\<close>

lemma waz_read_state:
  assumes "waz_read utf8 zip_open bs = Inr files"
  obtains es st cursor ds where
    "zip_open bs = Some (0, es)" "read_ok bs es st" "files = sort_key fst (ws_files st)"
    "check_spans ''overlapping or unindexed ZIP data'' 0 (sort_key fst (ws_spans st)) = Inr cursor"
    "check_spans ''overlapping or unindexed ZIP directory'' cursor (sort_key fst (ws_central st)) = Inr (length bs - 22)"
    "fold_r (check_directory (map fst files)) (concat (map ancestors (map fst files))) [] = Inr ds"
    "''manifest.json'' \<in> set (map fst files)"
proof -
  obtain off es where z: "zip_open bs = Some (off, es)"
    using assms by (cases "zip_open bs") (auto simp: waz_read_def Let_def try_r_Inr_iff)
  let ?stop = "length bs - 22" and ?start = "u32_at (drop (length bs - 22) bs) 16"
  have "off = 0 \<and> (\<exists>st ds. fold_r (read_entry utf8 bs ?start ?stop) es
      \<lparr>ws_files = [], ws_spans = [], ws_central = [], ws_remaining = waz_limit\<rparr> = Inr st \<and>
    files = sort_key fst (ws_files st) \<and>
    check_spans ''overlapping or unindexed ZIP data'' 0 (sort_key fst (ws_spans st)) = Inr ?start \<and>
    check_spans ''overlapping or unindexed ZIP directory'' ?start (sort_key fst (ws_central st)) = Inr ?stop \<and>
    fold_r (check_directory (map fst files)) (concat (map ancestors (map fst files))) [] = Inr ds \<and>
    ''manifest.json'' \<in> set (map fst files))"
    using assms
    unfolding waz_read_def Let_def z ok_or_simps try_r_simps prod.case try_r_Inr_iff ensure_r_Inr_iff sum.inject
    by blast
  then obtain st ds where "off = 0" and st: "fold_r (read_entry utf8 bs ?start ?stop) es
      \<lparr>ws_files = [], ws_spans = [], ws_central = [], ws_remaining = waz_limit\<rparr> = Inr st" and
    rest: "files = sort_key fst (ws_files st)"
    "check_spans ''overlapping or unindexed ZIP data'' 0 (sort_key fst (ws_spans st)) = Inr ?start"
    "check_spans ''overlapping or unindexed ZIP directory'' ?start (sort_key fst (ws_central st)) = Inr ?stop"
    "fold_r (check_directory (map fst files)) (concat (map ancestors (map fst files))) [] = Inr ds"
    "''manifest.json'' \<in> set (map fst files)" by blast
  have "read_ok bs es st"
    using read_entries_ok [OF st read_ok_start] by simp
  from that [OF z [unfolded \<open>off = 0\<close>] this rest] show thesis .
qed

lemma sum_member: "x \<in> set xs \<Longrightarrow> f x \<le> sum_list (map f xs)" for f :: "'a \<Rightarrow> nat"
  by (rule member_le_sum_list) auto

lemma read_files_ok:
  assumes "waz_read utf8 zip_open bs = Inr files"
  shows "distinct (map fst files)" "\<And>n. n \<in> set (map fst files) \<Longrightarrow> waz_path n"
    "sum_list (map (\<lambda>f. length (snd f)) files) \<le> waz_limit"
proof -
  from assms obtain es st where r: "read_ok bs es st" "files = sort_key fst (ws_files st)"
    by (rule waz_read_state)
  have m: "mset files = mset (ws_files st)" by (simp add: r)
  then have n: "mset (map fst files) = mset (map fst (ws_files st))" by (simp only: mset_map)
  show "distinct (map fst files)"
    using read_okD(2) [OF r(1)] mset_eq_imp_distinct_iff [OF n] by blast
  show "waz_path n" if "n \<in> set (map fst files)" for n
    using that by (intro read_okD(3) [OF r(1)]) (simp only: mset_eq_setD [OF n])
  have "mset (map (\<lambda>f. length (snd f)) files) = mset (map (\<lambda>f. length (snd f)) (ws_files st))"
    using m by (simp only: mset_map)
  then have "sum_list (map (\<lambda>f. length (snd f)) files) = sum_list (map (\<lambda>f. length (snd f)) (ws_files st))"
    by (metis sum_mset_sum_list)
  then show "sum_list (map (\<lambda>f. length (snd f)) files) \<le> waz_limit" using read_okD(6) [OF r(1)] by (simp only:)
qed

lemma read_sizes:
  assumes "waz_read utf8 zip_open bs = Inr files" and "f \<in> set files"
  shows "length (fst f) < 2 ^ 32 \<and> length (snd f) < 2 ^ 64"
proof -
  have "length (fst f) \<le> 1024" using read_files_ok(2) [OF assms(1), of "fst f"] assms(2) by (simp add: waz_path_def)
  moreover have "length (snd f) \<le> waz_limit"
    using read_files_ok(3) [OF assms(1)] sum_member [OF assms(2), of "\<lambda>f. length (snd f)"] by simp
  ultimately show ?thesis by (simp add: waz_limit_def)
qed

text \<open>
  Property C18: every byte of an accepted archive is accounted for. Before the end record each byte
  lies in exactly one span, the local record or the directory record of exactly one entry: there is
  no hidden data, no overlap and no record that two entries share.
\<close>

theorem waz_bytes_tiled:
  assumes "waz_read utf8 zip_open bs = Inr files"
  shows "\<exists>es. zip_open bs = Some (0, es) \<and> mset (map ze_name es) = mset (map fst files) \<and>
    (\<forall>i. length (filter (covers i) (map local_span es @ map (central_span bs) es)) = (if i < length bs - 22 then 1 else 0))"
proof -
  from assms obtain es st cursor where z: "zip_open bs = Some (0, es)" and r: "read_ok bs es st" and
    files: "files = sort_key fst (ws_files st)" and
    a: "check_spans ''overlapping or unindexed ZIP data'' 0 (sort_key fst (ws_spans st)) = Inr cursor" and
    b: "check_spans ''overlapping or unindexed ZIP directory'' cursor (sort_key fst (ws_central st)) = Inr (length bs - 22)"
    by (rule waz_read_state)
  have A: "0 \<le> cursor \<and> (\<forall>i. length (filter (covers i) (sort_key fst (ws_spans st))) = (if 0 \<le> i \<and> i < cursor then 1 else 0))"
    by (rule check_spans_tile [OF a]) (use r in \<open>auto simp: read_ok_def\<close>)
  have B: "cursor \<le> length bs - 22 \<and> (\<forall>i. length (filter (covers i) (sort_key fst (ws_central st))) =
      (if cursor \<le> i \<and> i < length bs - 22 then 1 else 0))"
    by (rule check_spans_tile [OF b]) (use r in \<open>auto simp: read_ok_def central_span_def\<close>)
  have "map local_span es @ map (central_span bs) es = ws_spans st @ ws_central st"
    using r by (simp add: read_ok_def)
  then have "length (filter (covers i) (map local_span es @ map (central_span bs) es)) = (if i < length bs - 22 then 1 else 0)" for i
    using A B by (simp add: length_filter_sort)
  moreover have "mset (map ze_name es) = mset (map fst files)"
    using r unfolding files read_ok_def by (metis mset_map mset_sort)
  ultimately show ?thesis using z by blast
qed

theorem waz_bytes_tiled_witness:
  "\<forall>i. length (filter (covers i) [local_span example_entry, central_span example_waz example_entry]) = (if i < 104 then 1 else 0)"
proof
  fix i
  have "example_open example_waz = Some (0, [example_entry])" by (simp add: example_open_def)
  with waz_bytes_tiled [OF example_read] have "length (filter (covers i) (map local_span [example_entry] @
      map (central_span example_waz) [example_entry])) = (if i < length example_waz - 22 then 1 else 0)"
    by (metis option.inject prod.inject)
  then show "length (filter (covers i) [local_span example_entry, central_span example_waz example_entry]) = (if i < 104 then 1 else 0)"
    unfolding example_length by simp
qed

text \<open>
  Property C25: what an accepted archive unpacks to is safe to write. Names are distinct and allowed,
  so none is absolute or has an empty, \<^verbatim>\<open>.\<close> or \<^verbatim>\<open>..\<close> segment; no file is also the directory of
  another; the manifest is there; and all contents together stay within the limit.
\<close>

theorem waz_files_safe:
  assumes "waz_read utf8 zip_open bs = Inr files"
  shows "distinct (map fst files) \<and> sorted (map fst files) \<and> ''manifest.json'' \<in> set (map fst files) \<and>
    (\<forall>name \<in> set (map fst files). waz_path name \<and> (\<forall>dir \<in> set (map fst files). \<not> (\<exists>t. name = dir @ CHR ''/'' # t))) \<and>
    sum_list (map (\<lambda>f. length (snd f)) files) \<le> waz_limit"
proof -
  from assms obtain ds where
    dirs: "fold_r (check_directory (map fst files)) (concat (map ancestors (map fst files))) [] = Inr ds" and
    man: "''manifest.json'' \<in> set (map fst files)" and sorted: "sorted (map fst files)"
    by (rule waz_read_state) auto
  have conf: "\<not> (\<exists>t. name = dir @ CHR ''/'' # t)" if "name \<in> set (map fst files)" "dir \<in> set (map fst files)" for name dir
  proof
    assume "\<exists>t. name = dir @ CHR ''/'' # t"
    then have "dir \<in> set (ancestors name)" by (simp only: ancestor_iff)
    with that(1) have "dir \<in> set (concat (map ancestors (map fst files)))" by force
    with check_directories_ok [OF dirs] that(2) show False by blast
  qed
  with read_files_ok [OF assms] man sorted show ?thesis by blast
qed

theorem waz_files_safe_witness:
  "waz_path ''manifest.json'' \<and> sum_list (map (\<lambda>f. length (snd f)) [(''manifest.json'', ''{}'')]) \<le> waz_limit"
  using waz_files_safe [OF example_read] by simp

text \<open>
  Property C19: the payload digest commits to everything in the archive but the signature. For two
  accepted archives, the bytes that are hashed are equal exactly when the archives have the same names
  in the same order with contents of the same size and the same hash; and where the hash does not
  collide on the finitely many texts in question (the two hashed texts and the contents of the files of
  the two archives), the digests are equal exactly when the files are, byte for byte and under the same names.
\<close>

theorem waz_payload_binding:
  assumes "waz_read utf8 zip_open a = Inr fs" and "waz_read utf8 zip_open b = Inr gs"
    and "\<And>x. length (sha x) = 32"
  shows "(payload_input sha fs = payload_input sha gs \<longleftrightarrow> list_all2 (same_entry sha) (signed_files fs) (signed_files gs)) \<and>
    (inj_on sha ({payload_input sha fs, payload_input sha gs} \<union> snd ` set (signed_files fs) \<union> snd ` set (signed_files gs)) \<longrightarrow>
       (waz_payload sha fs = waz_payload sha gs \<longleftrightarrow> signed_files fs = signed_files gs))"
proof -
  let ?p = "\<lambda>fs. concat (map (payload_entry sha) (signed_files fs))"
  have input: "payload_input sha fs = payload_input sha gs \<longleftrightarrow> ?p fs = ?p gs"
    by (simp add: payload_input_def signed_files_def)
  have "list_all2 (same_entry sha) (signed_files fs) (signed_files gs)" if "?p fs = ?p gs"
    using that assms(3) by (rule payload_entries_inject)
      (use read_sizes [OF assms(1)] read_sizes [OF assms(2)] in \<open>auto simp: signed_files_def\<close>)
  with payload_entries_cong
  have same: "?p fs = ?p gs \<longleftrightarrow> list_all2 (same_entry sha) (signed_files fs) (signed_files gs)" by blast
  have "signed_files fs = signed_files gs" if "waz_payload sha fs = waz_payload sha gs"
    "inj_on sha ({payload_input sha fs, payload_input sha gs} \<union> snd ` set (signed_files fs) \<union> snd ` set (signed_files gs))"
  proof -
    have "payload_input sha fs = payload_input sha gs"
      using that unfolding waz_payload_def hex_text_inject by (auto dest: inj_onD)
    with input same have "list_all2 (same_entry sha) (signed_files fs) (signed_files gs)" by blast
    then show ?thesis using that(2) by (rule same_entries_eq) auto
  qed
  moreover have "waz_payload sha fs = waz_payload sha gs" if "signed_files fs = signed_files gs"
    using that input by (simp add: waz_payload_def)
  ultimately show ?thesis using input same by blast
qed

theorem waz_payload_binding_witness:
  "inj_on (\<lambda>x. replicate 32 (hd x)) {payload_input (\<lambda>x. replicate 32 (hd x)) [(''manifest.json'', ''{}'')], ''{}''} \<and>
   waz_payload (\<lambda>x. replicate 32 (hd x)) [(''manifest.json'', ''{}'')] = hex_text (replicate 32 (CHR ''p'')) \<and>
   (waz_payload (\<lambda>x. replicate 32 (hd x)) [(''manifest.json'', ''{}'')] = waz_payload (\<lambda>x. replicate 32 (hd x)) [(''manifest.json'', ''{}'')] \<longleftrightarrow>
     signed_files [(''manifest.json'', ''{}'')] = signed_files [(''manifest.json'', ''{}'')])"
proof -
  have inj: "inj_on (\<lambda>x. replicate 32 (hd x)) {payload_input (\<lambda>x. replicate 32 (hd x)) [(''manifest.json'', ''{}'')], ''{}''}"
    by (simp add: payload_input_def)
  have "waz_payload (\<lambda>x. replicate 32 (hd x)) [(''manifest.json'', ''{}'')] = hex_text (replicate 32 (CHR ''p''))"
    by (simp add: waz_payload_def payload_input_def)
  with waz_payload_binding [OF example_read example_read, of "\<lambda>x. replicate 32 (hd x)"] inj show ?thesis
    by (simp add: signed_files_def)
qed

end
