(* ===== verification/Proxy.thy ===== *)
theory Proxy
  imports Web_Types
begin

text \<open>
  The reverse proxy: which configured location serves a request (\<^verbatim>\<open>proxy_pass\<close> of
  \<^verbatim>\<open>src/routes.rs\<close>) and how the request is rewritten, sent to a local upstream and answered,
  WebSocket upgrades included (\<^verbatim>\<open>src/routes/proxy.rs\<close>).

  The network, the HTTP/1.1 client and the parsers of the \<^verbatim>\<open>http\<close> crate are the fields of
  \<open>http_env\<close>; SHA-1 and Base64 are fields too.
\<close>

section \<open>Requests, responses and the environment\<close>

text \<open>The parts of a URI that the program reads and writes; a path comes with its rq_query.\<close>

record uri_parts =
  up_scheme :: "string option"
  up_authority :: "string option"
  up_path :: "(string \<times> string option) option"

record proxy_location =
  pl_location :: string
  pl_pass :: uri_parts

record request =
  rq_meth :: string
  rq_path :: string
  rq_query :: "string option"
  rq_headers :: headers
  rq_protocol :: "string option"

record response =
  rs_status :: nat
  rs_headers :: headers

text \<open>\<^verbatim>\<open>std::net::SocketAddr\<close> as far as the program looks at it.\<close>

record socket_addr =
  sa_text :: string
  sa_loopback :: bool
  sa_port :: nat

record http_env =
  parse_socket :: "string \<Rightarrow> socket_addr option"
  parse_path :: "string \<Rightarrow> (string \<times> string option) option"
  parse_uri :: "string \<Rightarrow> uri_parts option"
  uri_from_parts :: "uri_parts \<Rightarrow> bool"
  parse_header_name :: "string \<Rightarrow> string option"
  header_value_ok :: "string \<Rightarrow> bool"
  sha1 :: "string \<Rightarrow> string"
  base64 :: "string \<Rightarrow> string"

text \<open>What the upstream connection of one request does: an error, or a response.\<close>

type_synonym upstream = "socket_addr \<Rightarrow> request \<Rightarrow> response res"

definition plain_response :: "nat \<Rightarrow> response" where
  "plain_response n = \<lparr>rs_status = n, rs_headers = []\<rparr>"

definition reject :: "error \<Rightarrow> response" where
  "reject e = plain_response (error_status e)"

section \<open>Choosing a location\<close>

definition reserved :: "string \<Rightarrow> bool" where
  "reserved p = (p = ''/std'' \<or> starts_with ''/std/'' p)"

text \<open>\<^verbatim>\<open>Iterator::max_by_key\<close>: the last of the greatest elements.\<close>

fun max_by_key :: "('a \<Rightarrow> nat) \<Rightarrow> 'a list \<Rightarrow> 'a option" where
  "max_by_key f [] = None"
| "max_by_key f (x # xs) = (case max_by_key f xs of
       None \<Rightarrow> Some x
     | Some y \<Rightarrow> if f x \<le> f y then Some y else Some x)"

definition is_exact :: "string \<Rightarrow> proxy_location \<Rightarrow> bool" where
  "is_exact p l = (strip_prefix ''= '' (pl_location l) = Some p)"

definition needs_slash :: "string \<Rightarrow> proxy_location \<Rightarrow> bool" where
  "needs_slash p l = (ends_with ''/'' (pl_location l) \<and>
                      trim_end_matches (CHR ''/'') (pl_location l) = p)"

definition serves_prefix :: "string \<Rightarrow> proxy_location \<Rightarrow> bool" where
  "serves_prefix p l =
     (starts_with ''/'' (pl_location l) \<and>
      (pl_location l = ''/'' \<or>
       p = trim_end_matches (CHR ''/'') (pl_location l) \<or>
       starts_with (trim_end_matches (CHR ''/'') (pl_location l) @ ''/'') p))"

datatype route_choice = Redirect string | Forward proxy_location | NoRoute

definition choose_route :: "proxy_location list \<Rightarrow> string \<Rightarrow> string option \<Rightarrow> route_choice" where
  "choose_route proxies p q =
     (if reserved p then NoRoute
      else let exact = find (is_exact p) proxies in
        case (exact, find (needs_slash p) proxies) of
          (None, Some route) \<Rightarrow> Redirect (case q of Some q \<Rightarrow> pl_location route @ ''?'' @ q
                                               | None \<Rightarrow> pl_location route)
        | _ \<Rightarrow> (case or_else exact
                     (max_by_key (\<lambda>l. length (pl_location l)) (filter (serves_prefix p) proxies)) of
                 None \<Rightarrow> NoRoute
               | Some route \<Rightarrow> Forward route))"

section \<open>Rewriting headers and the URI\<close>

definition hop_headers :: "string list" where
  "hop_headers = [''connection'', ''keep-alive'', ''proxy-connection'', ''proxy-authenticate'',
     ''proxy-authorization'', ''te'', ''transfer-encoding'', ''upgrade'']"

definition connection_names :: "(string \<Rightarrow> string option) \<Rightarrow> headers \<Rightarrow> string list" where
  "connection_names pn h =
     List.map_filter (\<lambda>s. pn (str_trim s))
       (concat (map (split_on (CHR '','')) (List.map_filter header_to_str (get_all ''connection'' h))))"

definition clean_hop_headers :: "(string \<Rightarrow> string option) \<Rightarrow> headers \<Rightarrow> headers" where
  "clean_hop_headers pn h = fold remove_header hop_headers (fold remove_header (connection_names pn h) h)"

definition header_token :: "headers \<Rightarrow> string \<Rightarrow> string \<Rightarrow> bool" where
  "header_token h n token =
     list_ex (\<lambda>v. eq_ignore_ascii_case (str_trim v) token)
       (concat (map (split_on (CHR '','')) (List.map_filter header_to_str (get_all n h))))"

definition proxy_uri :: "http_env \<Rightarrow> proxy_location \<Rightarrow> string \<Rightarrow> string option \<Rightarrow> uri_parts res" where
  "proxy_uri env route p q =
     try_r (case up_path (pl_pass route) of
              Some (base, _) \<Rightarrow>
                try_r (if starts_with ''= '' (pl_location route) then Inr []
                       else ok_or (strip_prefix (pl_location route) p) RouteNotFound)
                  (\<lambda>suffix. Inr (base @ suffix))
            | None \<Rightarrow> Inr p) (\<lambda>target.
     let text = (case q of Some q \<Rightarrow> target @ ''?'' @ q | None \<Rightarrow> target) in
     try_r (ok_or (parse_path env text) (BadRequest ''invalid upstream path'')) (\<lambda>pq.
     let parts = \<lparr>up_scheme = up_scheme (pl_pass route), up_authority = up_authority (pl_pass route),
                  up_path = Some pq\<rparr> in
     try_r (ensure_r (uri_from_parts env parts) (BadRequest ''invalid upstream URI'')) (\<lambda>_.
     Inr parts)))"

section \<open>The proxied exchange\<close>

definition is_websocket :: "request \<Rightarrow> bool" where
  "is_websocket r = (rq_meth r = ''CONNECT'' \<and> rq_protocol r = Some ''websocket'')"

text \<open>\<^verbatim>\<open>path_and_query\<close> as text, the request target of HTTP/1.1.\<close>

definition pq_text :: "(string \<times> string option) option \<Rightarrow> string" where
  "pq_text pq = (case pq of None \<Rightarrow> ''/'' | Some (p, None) \<Rightarrow> p | Some (p, Some q) \<Rightarrow> p @ ''?'' @ q)"

definition upgrade_headers :: "string \<Rightarrow> headers \<Rightarrow> headers" where
  "upgrade_headers key h =
     insert_header ''sec-websocket-key'' key
    (insert_header ''sec-websocket-version'' ''13''
    (insert_header ''upgrade'' ''websocket''
    (insert_header ''connection'' ''Upgrade''
    (remove_header ''sec-websocket-accept''
    (remove_header ''content-length'' h)))))"

text \<open>The fields an upgrade sets itself.\<close>

definition upgrade_names :: "string set" where
  "upgrade_names = {''connection'', ''upgrade'', ''sec-websocket-version'', ''sec-websocket-key''}"

definition upgrade_request :: "string \<Rightarrow> request \<Rightarrow> request" where
  "upgrade_request key r = r\<lparr>rq_meth := ''GET'', rq_headers := upgrade_headers key (rq_headers r)\<rparr>"

text \<open>
  Everything before the connection: the checks of the request, the upstream URI and its address,
  the cleaned headers and, for a WebSocket, the HTTP/1.1 upgrade with a key made from the nonce
  (\<open>None\<close> where the random source fails).
\<close>

definition proxy_request ::
  "http_env \<Rightarrow> string option \<Rightarrow> proxy_location \<Rightarrow> request \<Rightarrow> (socket_addr \<times> request \<times> string option) res"
where
  "proxy_request env nonce route r =
     (let websocket = is_websocket r in
     try_r (ensure_r (\<not> (websocket \<and>
              (is_none_or (\<lambda>v. v \<noteq> ''13'') (get_header ''sec-websocket-version'' (rq_headers r)) \<or>
               contains_key ''trailer'' (rq_headers r))))
            (BadRequest ''WebSocket requires version 13 and no trailers'')) (\<lambda>_.
     try_r (proxy_uri env route (rq_path r) (rq_query r)) (\<lambda>uri.
     try_r (ok_or (up_authority uri) (BadRequest ''invalid proxy authority'')) (\<lambda>auth.
     try_r (ok_or (parse_socket env auth) (BadRequest ''invalid proxy address'')) (\<lambda>address.
     try_r (ensure_r (up_scheme uri = Some ''http'' \<and> sa_loopback address)
            (BadRequest ''proxy target must be local HTTP/TCP'')) (\<lambda>_.
     try_r (ensure_r (header_value_ok env auth) (BadRequest ''invalid proxy authority'')) (\<lambda>_.
     try_r (ok_or (parse_path env (pq_text (up_path uri))) (BadRequest ''invalid upstream path'')) (\<lambda>pq.
     let r1 = r\<lparr>rq_path := fst pq, rq_query := snd pq, rq_protocol := None,
                rq_headers := insert_header ''host'' auth
                            (clean_hop_headers (parse_header_name env) (rq_headers r))\<rparr> in
     if websocket then
       try_r (ok_or nonce (Io OtherIo ''random source'')) (\<lambda>n.
       let key = base64 env n in Inr (address, upgrade_request key r1, Some key))
     else Inr (address, r1, None)))))))))"

text \<open>The checks of an upstream's \<^verbatim>\<open>101\<close>: the token headers, the accept digest, the sub-protocol.\<close>

definition ws_guid :: string where
  "ws_guid = ''258EAFA5-E914-47DA-95CA-C5AB0DC85B11''"

definition accept_ok :: "http_env \<Rightarrow> string \<Rightarrow> headers \<Rightarrow> bool" where
  "accept_ok env key h =
     (header_token h ''connection'' ''upgrade'' \<and> header_token h ''upgrade'' ''websocket'' \<and>
      length (get_all ''sec-websocket-accept'' h) = 1 \<and>
      get_header ''sec-websocket-accept'' h = Some (base64 env (sha1 env (key @ ws_guid))))"

definition offered_protocols :: "headers \<Rightarrow> string list" where
  "offered_protocols h =
     map str_trim (concat (map (split_on (CHR '',''))
       (List.map_filter header_to_str (get_all ''sec-websocket-protocol'' h))))"

definition protocol_ok :: "headers \<Rightarrow> headers \<Rightarrow> unit res" where
  "protocol_ok offered h =
     (case get_header ''sec-websocket-protocol'' h of
        None \<Rightarrow> Inr ()
      | Some v \<Rightarrow>
          try_r (ok_or (header_to_str v) (Io OtherIo ''header value'')) (\<lambda>p.
          ensure_r (p \<noteq> [] \<and> CHR '','' \<notin> set p \<and>
                    length (get_all ''sec-websocket-protocol'' h) = 1 \<and>
                    p \<in> set (offered_protocols offered))
            (Io OtherIo ''unoffered upstream WebSocket protocol'')))"

definition proxy_response ::
  "http_env \<Rightarrow> string option \<Rightarrow> headers \<Rightarrow> unit res \<Rightarrow> response \<Rightarrow> response res" where
  "proxy_response env key offered upgraded resp =
     (let clean = clean_hop_headers (parse_header_name env) in
      case key of
        None \<Rightarrow> Inr (resp\<lparr>rs_headers := clean (rs_headers resp)\<rparr>)
      | Some key \<Rightarrow>
          if rs_status resp \<noteq> 101 then
            if 200 \<le> rs_status resp \<and> rs_status resp < 300
            then Inl (Io OtherIo ''upstream did not upgrade WebSocket'')
            else Inr (resp\<lparr>rs_headers := clean (rs_headers resp)\<rparr>)
          else
            try_r (ensure_r (accept_ok env key (rs_headers resp))
                     (Io OtherIo ''invalid upstream WebSocket handshake'')) (\<lambda>_.
            try_r (protocol_ok offered (rs_headers resp)) (\<lambda>_.
            try_r upgraded (\<lambda>_.
            Inr \<lparr>rs_status = 200, rs_headers = remove_header ''content-length''
                  (remove_header ''sec-websocket-accept'' (clean (rs_headers resp)))\<rparr>))))"

text \<open>\<^verbatim>\<open>upgraded\<close> is what waiting for the upgraded connection gives.\<close>

definition proxy ::
  "http_env \<Rightarrow> string option \<Rightarrow> upstream \<Rightarrow> unit res \<Rightarrow> proxy_location \<Rightarrow> request \<Rightarrow> response res" where
  "proxy env nonce send upgraded route r =
     try_r (proxy_request env nonce route r) (\<lambda>(address, r', key).
     try_r (send address r') (\<lambda>resp.
     proxy_response env key (rq_headers r) upgraded resp))"

definition proxy_pass ::
  "(proxy_location \<Rightarrow> request \<Rightarrow> response res) \<Rightarrow> proxy_location list \<Rightarrow> request \<Rightarrow> response" where
  "proxy_pass forward proxies r =
     (case choose_route proxies (rq_path r) (rq_query r) of
        NoRoute \<Rightarrow> reject RouteNotFound
      | Redirect target \<Rightarrow> \<lparr>rs_status = 301, rs_headers = [(''location'', target)]\<rparr>
      | Forward route \<Rightarrow>
          (case forward route r of
             Inr resp \<Rightarrow> resp
           | Inl (Io _ _) \<Rightarrow> plain_response 502
           | Inl e \<Rightarrow> reject e))"

section \<open>Lemmas\<close>

lemma max_by_key_None_iff [simp]: "max_by_key f xs = None \<longleftrightarrow> xs = []"
  by (cases xs) (auto split: option.splits)

lemma max_by_key_Some:
  "max_by_key f xs = Some x \<Longrightarrow> x \<in> set xs \<and> (\<forall>y \<in> set xs. f y \<le> f x)"
proof (induction xs arbitrary: x)
  case (Cons a xs)
  show ?case
  proof (cases "max_by_key f xs")
    case None
    with Cons.prems show ?thesis by auto
  next
    case (Some y)
    with Cons.IH [OF Some] Cons.prems show ?thesis by (auto split: if_splits)
  qed
qed simp

lemma contains_key_fold_remove:
  "contains_key n (fold remove_header ns h) \<longleftrightarrow> n \<notin> set ns \<and> contains_key n h"
  by (induction ns arbitrary: h) auto

lemma get_all_fold_remove:
  "n \<notin> set ns \<Longrightarrow> get_all n (fold remove_header ns h) = get_all n h"
  by (induction ns arbitrary: h) auto

lemma clean_hop_headers_keys:
  "contains_key n (clean_hop_headers pn h) \<longleftrightarrow>
     n \<notin> set hop_headers \<and> n \<notin> set (connection_names pn h) \<and> contains_key n h"
  by (auto simp: clean_hop_headers_def contains_key_fold_remove)

lemma clean_hop_headers_keeps:
  "n \<notin> set hop_headers \<Longrightarrow> n \<notin> set (connection_names pn h) \<Longrightarrow>
     get_all n (clean_hop_headers pn h) = get_all n h"
  by (simp add: clean_hop_headers_def get_all_fold_remove)

lemma choose_route_forward:
  assumes "choose_route proxies p q = Forward route"
  shows "\<not> reserved p" and "route \<in> set proxies"
    and "is_exact p route \<or>
         find (is_exact p) proxies = None \<and> find (needs_slash p) proxies = None \<and>
         serves_prefix p route \<and>
         (\<forall>l \<in> set proxies. serves_prefix p l \<longrightarrow> length (pl_location l) \<le> length (pl_location route))"
proof -
  show "\<not> reserved p"
    using assms by (auto simp: choose_route_def split: if_splits)
  let ?best = "max_by_key (\<lambda>l. length (pl_location l)) (filter (serves_prefix p) proxies)"
  consider (exact) "find (is_exact p) proxies = Some route"
    | (best) "find (is_exact p) proxies = None" "find (needs_slash p) proxies = None" "?best = Some route"
    using assms
    by (auto simp: choose_route_def Let_def split: if_splits option.splits)
  then have "route \<in> set proxies \<and> (is_exact p route \<or>
         find (is_exact p) proxies = None \<and> find (needs_slash p) proxies = None \<and>
         serves_prefix p route \<and>
         (\<forall>l \<in> set proxies. serves_prefix p l \<longrightarrow> length (pl_location l) \<le> length (pl_location route)))"
  proof cases
    case exact
    then show ?thesis by (auto simp: find_Some_iff)
  next
    case best
    with max_by_key_Some [OF best(3)] show ?thesis by auto
  qed
  then show "route \<in> set proxies"
    and "is_exact p route \<or>
         find (is_exact p) proxies = None \<and> find (needs_slash p) proxies = None \<and>
         serves_prefix p route \<and>
         (\<forall>l \<in> set proxies. serves_prefix p l \<longrightarrow> length (pl_location l) \<le> length (pl_location route))"
    by blast+
qed

section \<open>Properties\<close>

text \<open>What the location table promises for a request, independently of how it is searched.\<close>

definition route_spec :: "proxy_location list \<Rightarrow> string \<Rightarrow> string option \<Rightarrow> route_choice \<Rightarrow> bool" where
  "route_spec proxies p q c = (case c of
     Forward route \<Rightarrow> \<not> reserved p \<and> route \<in> set proxies \<and>
       (is_exact p route \<or>
        (\<forall>l \<in> set proxies. \<not> is_exact p l \<and> \<not> needs_slash p l) \<and> serves_prefix p route \<and>
        (\<forall>l \<in> set proxies. serves_prefix p l \<longrightarrow> length (pl_location l) \<le> length (pl_location route)))
   | Redirect target \<Rightarrow> \<not> reserved p \<and> (\<forall>l \<in> set proxies. \<not> is_exact p l) \<and>
       (\<exists>l \<in> set proxies. needs_slash p l \<and>
          target = pl_location l @ (case q of None \<Rightarrow> [] | Some q \<Rightarrow> ''?'' @ q))
   | NoRoute \<Rightarrow> reserved p \<or>
       (\<forall>l \<in> set proxies. \<not> is_exact p l \<and> \<not> needs_slash p l \<and> \<not> serves_prefix p l))"

text \<open>
  Property C8: the location table decides every request. A reserved path has no route. Otherwise
  an exact location wins; without one a location that only misses the final slash redirects,
  query kept; otherwise the longest location that covers the path serves it; and there is no
  route exactly when no location covers the path in any of these ways.
\<close>

theorem choose_route_spec: "route_spec proxies p q (choose_route proxies p q)"
proof (cases "choose_route proxies p q")
  case (Redirect t)
  then show ?thesis
    by (auto simp: route_spec_def choose_route_def Let_def find_None_iff find_Some_iff
          split: if_splits option.splits)
next
  case (Forward route)
  with choose_route_forward [OF Forward] show ?thesis
    by (auto simp: route_spec_def find_None_iff)
next
  case NoRoute
  then show ?thesis
    by (auto simp: route_spec_def choose_route_def Let_def find_None_iff filter_empty_conv
          or_else_def split: if_splits option.splits)
qed

text \<open>
  Property C1: a proxied request only ever goes to a loopback address over plain HTTP, names the
  configured authority as its only host, and carries no hop-by-hop field of the client: apart from
  the two fields an upgrade sets itself, no fixed hop header and no header that the client's
  \<^verbatim>\<open>Connection\<close> named reaches the upstream.
\<close>

theorem proxy_request_local:
  assumes "proxy_request env nonce route r = Inr (address, r', key)"
  shows "sa_loopback address \<and>
    up_scheme (pl_pass route) = Some ''http'' \<and>
    (\<exists>a. up_authority (pl_pass route) = Some a \<and> parse_socket env a = Some address \<and>
         get_all ''host'' (rq_headers r') = [a]) \<and>
    rq_protocol r' = None \<and>
    (\<forall>n. contains_key n (rq_headers r') \<longrightarrow> n \<in> set hop_headers \<longrightarrow>
         key \<noteq> None \<and> (n = ''connection'' \<or> n = ''upgrade'')) \<and>
    (\<forall>n \<in> set (connection_names (parse_header_name env) (rq_headers r)).
         contains_key n (rq_headers r') \<longrightarrow> n = ''host'' \<or>
         key \<noteq> None \<and> n \<in> upgrade_names)"
proof -
  from assms obtain uri a where
    uri: "proxy_uri env route (rq_path r) (rq_query r) = Inr uri" and
    a: "up_authority uri = Some a" "parse_socket env a = Some address" and
    loc: "up_scheme uri = Some ''http''" "sa_loopback address" and
    proto: "rq_protocol r' = None" and
    heads: "let h = insert_header ''host'' a (clean_hop_headers (parse_header_name env) (rq_headers r)) in
        key = None \<and> rq_headers r' = h \<or> (\<exists>k. key = Some k \<and> rq_headers r' = upgrade_headers k h)"
    by (auto simp: proxy_request_def Let_def upgrade_request_def try_r_Inr_iff split: if_splits)
  from uri have u: "up_scheme uri = up_scheme (pl_pass route)" "up_authority uri = up_authority (pl_pass route)"
    by (auto simp: proxy_uri_def Let_def try_r_Inr_iff)
  from heads have host: "get_all ''host'' (rq_headers r') = [a]"
    by (auto simp: Let_def upgrade_headers_def)
  have keys: "contains_key n (rq_headers r') \<Longrightarrow>
      n = ''host'' \<or> contains_key n (clean_hop_headers (parse_header_name env) (rq_headers r)) \<or>
      key \<noteq> None \<and> n \<in> upgrade_names" for n
    using heads by (auto simp: Let_def upgrade_headers_def upgrade_names_def)
  have hop: "key \<noteq> None \<and> (n = ''connection'' \<or> n = ''upgrade'')"
    if "contains_key n (rq_headers r')" "n \<in> set hop_headers" for n
    using keys [OF that(1)] that(2) by (auto simp: clean_hop_headers_keys hop_headers_def upgrade_names_def)
  have named: "n = ''host'' \<or> key \<noteq> None \<and> n \<in> upgrade_names"
    if "n \<in> set (connection_names (parse_header_name env) (rq_headers r))" "contains_key n (rq_headers r')" for n
    using keys [OF that(2)] that(1) unfolding clean_hop_headers_keys by blast
  from u a loc have "up_scheme (pl_pass route) = Some ''http''" "up_authority (pl_pass route) = Some a"
    by simp_all
  then show ?thesis
    using loc(2) a(2) host proto by (intro conjI allI impI ballI exI [of _ a]) (use hop named in fast)+
qed

text \<open>An environment in which exactly the one upstream of the example parses.\<close>

definition example_env :: http_env where
  "example_env = \<lparr>
     parse_socket = (\<lambda>s. if s = ''127.0.0.1:80'' then Some \<lparr>sa_text = s, sa_loopback = True, sa_port = 80\<rparr> else None),
     parse_path = (\<lambda>s. Some (s, None)),
     parse_uri = (\<lambda>s. case split_str_once ''://'' s of None \<Rightarrow> None | Some (a, b) \<Rightarrow>
        Some \<lparr>up_scheme = Some a, up_authority = Some (split_first (CHR ''/'') b),
              up_path = Some (case dropWhile (\<lambda>c. c \<noteq> CHR ''/'') b of [] \<Rightarrow> ''/'' | p \<Rightarrow> p, None)\<rparr>),
     uri_from_parts = (\<lambda>_. True),
     parse_header_name = (\<lambda>s. if s = [] then None else Some (to_ascii_lowercase s)),
     header_value_ok = (\<lambda>_. True), sha1 = (\<lambda>s. s), base64 = (\<lambda>s. s)\<rparr>"

definition example_route :: proxy_location where
  "example_route = \<lparr>pl_location = ''/a'',
     pl_pass = \<lparr>up_scheme = Some ''http'', up_authority = Some ''127.0.0.1:80'', up_path = Some (''/b'', None)\<rparr>\<rparr>"

definition example_request :: request where
  "example_request = \<lparr>rq_meth = ''GET'', rq_path = ''/a/x'', rq_query = None,
     rq_headers = [(''connection'', ''X''), (''x'', ''7''), (''accept'', ''*'')], rq_protocol = None\<rparr>"

lemma example_forward:
  "proxy_request example_env None example_route example_request =
     Inr (\<lparr>sa_text = ''127.0.0.1:80'', sa_loopback = True, sa_port = 80\<rparr>,
          example_request\<lparr>rq_path := ''/b/x'', rq_headers := [(''accept'', ''*''), (''host'', ''127.0.0.1:80'')]\<rparr>, None)"
  by (simp add: proxy_request_def proxy_uri_def example_env_def example_route_def example_request_def
      starts_with_def Let_def pq_text_def is_websocket_def clean_hop_headers_def connection_names_def
      hop_headers_def remove_header_def insert_header_def get_all_def header_to_str_def str_eval)

theorem proxy_request_local_witness:
  "sa_loopback \<lparr>sa_text = ''127.0.0.1:80'', sa_loopback = True, sa_port = 80\<rparr> \<and>
   rq_headers (fst (snd (projr (proxy_request example_env None example_route example_request)))) =
     [(''accept'', ''*''), (''host'', ''127.0.0.1:80'')]"
  using proxy_request_local [OF example_forward] by (simp add: example_forward)

text \<open>
  Property C11: a WebSocket request is answered with success only after a checked upgrade: the
  upstream answered 101 with the right accept digest, exactly once, and with a sub-protocol the
  client offered, if any; the answer is then 200, without the handshake's own fields. In no other
  case does a success status of the upstream reach the client.
\<close>

theorem websocket_upgrade_checked:
  assumes "proxy_response env (Some key) offered upgraded resp = Inr resp'"
    and "200 \<le> rs_status resp'" and "rs_status resp' < 300"
  shows "rs_status resp = 101 \<and> rs_status resp' = 200 \<and> upgraded = Inr () \<and>
    get_all ''sec-websocket-accept'' (rs_headers resp) = [base64 env (sha1 env (key @ ws_guid))] \<and>
    (case get_all ''sec-websocket-protocol'' (rs_headers resp) of
       [] \<Rightarrow> True | [p] \<Rightarrow> p \<in> set (offered_protocols offered) | _ \<Rightarrow> False) \<and>
    (\<forall>n. contains_key n (rs_headers resp') \<longrightarrow>
       n \<notin> set hop_headers \<and> n \<noteq> ''sec-websocket-accept'' \<and> n \<noteq> ''content-length'')"
proof -
  from assms have st: "rs_status resp = 101" "upgraded = Inr ()" "accept_ok env key (rs_headers resp)"
      "protocol_ok offered (rs_headers resp) = Inr ()" "rs_status resp' = 200" and
    h: "rs_headers resp' = remove_header ''content-length'' (remove_header ''sec-websocket-accept''
          (clean_hop_headers (parse_header_name env) (rs_headers resp)))"
    by (auto simp: proxy_response_def Let_def try_r_Inr_iff split: if_splits)
  have hd: "get_header n hs = (case get_all n hs of [] \<Rightarrow> None | v # _ \<Rightarrow> Some v)" for n and hs :: headers
    by (induction hs) (auto simp: get_header_def get_all_def split: list.splits)
  from st(3) have acc: "get_all ''sec-websocket-accept'' (rs_headers resp) = [base64 env (sha1 env (key @ ws_guid))]"
    by (auto simp: accept_ok_def hd length_Suc_conv split: list.splits)
  from st(4) have "case get_all ''sec-websocket-protocol'' (rs_headers resp) of
       [] \<Rightarrow> True | [p] \<Rightarrow> p \<in> set (offered_protocols offered) | _ \<Rightarrow> False"
    by (auto simp: protocol_ok_def hd try_r_Inr_iff header_to_str_def split: list.splits if_splits)
  with st acc h show ?thesis by (simp add: clean_hop_headers_keys)
qed

definition example_upgrade :: response where
  "example_upgrade = \<lparr>rs_status = 101, rs_headers = [(''connection'', ''upgrade''), (''upgrade'', ''websocket''),
     (''sec-websocket-accept'', ''k'' @ ws_guid)]\<rparr>"

theorem websocket_upgrade_checked_witness:
  "proxy_response example_env (Some ''k'') [] (Inr ()) example_upgrade =
     Inr \<lparr>rs_status = 200, rs_headers = []\<rparr> \<and>
   get_all ''sec-websocket-accept'' (rs_headers example_upgrade) = [''k'' @ ws_guid]"
proof -
  have ok: "proxy_response example_env (Some ''k'') [] (Inr ()) example_upgrade =
     Inr \<lparr>rs_status = 200, rs_headers = []\<rparr>"
    by (simp add: proxy_response_def example_upgrade_def example_env_def accept_ok_def header_token_def
        protocol_ok_def clean_hop_headers_def connection_names_def hop_headers_def remove_header_def
        get_all_def get_header_def header_to_str_def Let_def str_eval)
  show ?thesis
    using ok websocket_upgrade_checked [OF ok] by (simp add: example_env_def)
qed

end
