(* ===== verification/Settings.thy ===== *)
theory Settings
  imports Proxy
begin

text \<open>
  The identity's service configuration (\<^verbatim>\<open>src/setup.rs\<close>): validation of the proxy table, the
  version rules of the setting database, reading a configuration and the transactional
  \<^verbatim>\<open>/std/sys/listen\<close> and \<^verbatim>\<open>/std/sys/mount\<close> resources.

  A database is a record of its tables; a table that does not exist is \<^const>\<open>None\<close>. A transaction
  is a function from the tables to an error or new tables, so a failed one changes nothing. File
  ownership and the directory layout are not modelled.
\<close>

section \<open>State\<close>

record pkg_row =
  pr_name :: string
  pr_author :: "string option"
  pr_has_lib :: bool
  pr_has_app :: bool

text \<open>\<^verbatim>\<open>.volume/sys/setting/database\<close>; \<open>db_check\<close> is the answer of \<^verbatim>\<open>PRAGMA quick_check\<close>.\<close>

record setting_db =
  db_version :: int
  db_check :: string
  db_setting :: "(string \<times> string) list option"
  db_proxy :: "(string \<times> string) list option"
  db_other_objects :: bool

text \<open>
  The three attached databases of an identity and the archived setting directories. The registry
  tables other than \<^verbatim>\<open>package\<close> only matter by their presence here. \<open>vol_attached\<close> says whether the
  two attached database files exist and, if so, whether both are regular files.
\<close>

record volume =
  vol_setting :: "setting_db option"
  vol_regular :: bool
  vol_attached :: "bool option"
  vol_real_dirs :: bool
  vol_packages :: "pkg_row list option"
  vol_dependency_table :: bool
  vol_capability_tables :: bool
  vol_signing_columns :: bool
  vol_registry_version :: int
  vol_archive :: "setting_db list"

record server_config =
  cfg_listen :: string
  cfg_proxies :: "proxy_location list"

definition is_standard_author :: "string \<Rightarrow> bool" where
  "is_standard_author a = (a = ''std.dhttp.net'' \<or> a = ''dev.genmeta.tech.dhttp.net'')"

section \<open>The proxy table\<close>

definition valid_path :: "string \<Rightarrow> bool" where
  "valid_path p = (starts_with ''/'' p \<and> \<not> contains_str ''//'' p \<and>
     \<not> contains_char [CHR ''?'', CHR ''#'', CHR ''%'', CHR 0x5C] p \<and>
     \<not> list_ex (\<lambda>s. s = ''.'' \<or> s = ''..'') (split_on (CHR ''/'') p) \<and>
     \<not> list_ex (\<lambda>c. is_whitespace c \<or> is_control c) (str_chars p))"

definition location_path :: "string \<Rightarrow> string" where
  "location_path l = (case strip_prefix ''= '' l of Some p \<Rightarrow> p | None \<Rightarrow> l)"

definition parse_proxy :: "http_env \<Rightarrow> (string \<times> string) \<Rightarrow> string list \<Rightarrow> proxy_location res" where
  "parse_proxy env row seen = (case row of (loc, upstream) \<Rightarrow>
     let p = location_path loc in
     try_r (ensure_r (valid_path p \<and> loc \<notin> set seen \<and> \<not> reserved p)
              (InvalidConfig (''invalid or reserved proxy location: '' @ loc))) (\<lambda>_.
     let bare = parse_socket env upstream;
         uri = (case bare of Some a \<Rightarrow> ''http://'' @ sa_text a | None \<Rightarrow> upstream) in
     try_r (ok_or (parse_uri env uri) (InvalidConfig ''invalid proxy URI'')) (\<lambda>parts.
     let address = Option.bind (up_authority parts) (parse_socket env) in
     try_r (ensure_r (\<not> (up_scheme parts \<noteq> Some ''http'' \<or>
                is_none_or (\<lambda>a. \<not> sa_loopback a \<or> sa_port a = 0) address \<or>
                contains_char [CHR ''?'', CHR ''#'', CHR ''$''] upstream))
              (InvalidConfig ''proxy_pass must identify a local HTTP/TCP endpoint'')) (\<lambda>_.
     Inr \<lparr>pl_location = loc,
          pl_pass = (if bare \<noteq> None \<or>
                        is_some_and (\<lambda>(_, rest). CHR ''/'' \<notin> set rest) (split_str_once ''://'' uri)
                     then parts\<lparr>up_path := None\<rparr> else parts)\<rparr>))))"

fun parse_proxies_loop ::
  "http_env \<Rightarrow> (string \<times> string) list \<Rightarrow> string list \<Rightarrow> proxy_location list res" where
  "parse_proxies_loop env [] seen = Inr []"
| "parse_proxies_loop env (row # rows) seen =
     try_r (parse_proxy env row seen) (\<lambda>l.
     try_r (parse_proxies_loop env rows (fst row # seen)) (\<lambda>ls. Inr (l # ls)))"

definition parse_proxies :: "http_env \<Rightarrow> (string \<times> string) list \<Rightarrow> proxy_location list res" where
  "parse_proxies env rows =
     try_r (parse_proxies_loop env rows []) (\<lambda>ls. Inr (sort_key pl_location ls))"

text \<open>\<^verbatim>\<open>parse_proxies\<close> has checked that scheme and authority are present.\<close>

definition upstream_text :: "proxy_location \<Rightarrow> string" where
  "upstream_text l =
     (case up_scheme (pl_pass l) of Some s \<Rightarrow> s | None \<Rightarrow> []) @ ''://'' @
     (case up_authority (pl_pass l) of Some a \<Rightarrow> a | None \<Rightarrow> []) @
     (case up_path (pl_pass l) of None \<Rightarrow> [] | pq \<Rightarrow> pq_text pq)"

definition parse_proxy_json :: "http_env \<Rightarrow> json \<Rightarrow> proxy_location list res" where
  "parse_proxy_json env payload =
     try_r (ok_or (as_array payload) (BadRequest ''mount requires an array'')) (\<lambda>items.
     try_r (collect_r (\<lambda>value.
        try_r (ok_or (opt_filter (\<lambda>m. length m = 2) (as_object value)) (BadRequest ''invalid proxy fields'')) (\<lambda>_.
        try_r (ok_or (Option.bind (jget value ''location'') as_str) (BadRequest ''proxy location must be a string'')) (\<lambda>l.
        try_r (ok_or (Option.bind (jget value ''proxy_pass'') as_str) (BadRequest ''proxy_pass must be a string'')) (\<lambda>u.
        Inr (l, u))))) items) (\<lambda>rows.
     map_err (\<lambda>e. BadRequest (error_text e)) (parse_proxies env rows)))"

section \<open>Reading a configuration\<close>

definition valid_listen :: "string \<Rightarrow> bool" where
  "valid_listen v = (v = ''loopback'' \<or> v = ''internal'' \<or> v = ''external'' \<or> v = ''all'')"

text \<open>A table the query names must exist; SQLite reports its absence as an error.\<close>

definition no_table :: error where
  "no_table = ConfigDatabase ''no such table''"

definition read_config :: "http_env \<Rightarrow> setting_db \<Rightarrow> server_config res" where
  "read_config env db =
     try_r (ensure_r (db_version db = 3)
        (InvalidConfig (''unsupported schema '' @ int_text (db_version db) @
           ''; reinitialize the identity service (existing data preserved)''))) (\<lambda>_.
     try_r (ok_or (db_setting db) no_table) (\<lambda>setting.
     let stored = map_of setting ''listen'';
         listen = (case stored of None \<Rightarrow> ''off'' | Some v \<Rightarrow> v) in
     try_r (ensure_r (\<not> (listen \<noteq> ''off'' \<and> \<not> valid_listen listen)) (InvalidConfig ''invalid listen mode'')) (\<lambda>_.
     try_r (ensure_r (\<not> (listen = ''off'' \<and> stored \<noteq> None))
        (InvalidConfig ''disabled listening must have no KV record'')) (\<lambda>_.
     try_r (ok_or (db_proxy db) no_table) (\<lambda>rows.
     try_r (parse_proxies env (sort_key fst rows)) (\<lambda>ls.
     Inr \<lparr>cfg_listen = listen, cfg_proxies = ls\<rparr>))))))"

definition occupies :: "string \<Rightarrow> proxy_location \<Rightarrow> bool" where
  "occupies mount l = (location_path (pl_location l) = mount \<or>
                       starts_with (mount @ ''/'') (location_path (pl_location l)))"

definition check_proxy_mounts :: "pkg_row list option \<Rightarrow> proxy_location list \<Rightarrow> unit res" where
  "check_proxy_mounts packages proxies =
     try_r (ensure_r (\<not> list_ex (\<lambda>l. reserved (location_path (pl_location l))) proxies)
              (InvalidConfig ''proxy cannot occupy /std'')) (\<lambda>_.
     (case packages of None \<Rightarrow> Inr () | Some rows \<Rightarrow>
     try_r (fold_r (\<lambda>name _. (let mount = ''/app/'' @ name in
              case find (occupies mount) proxies of None \<Rightarrow> Inr ()
              | Some l \<Rightarrow> Inl (InvalidConfig (''proxy '' @ pl_location l @ '' conflicts with installed App '' @ mount))))
            (sort (map pr_name (filter pr_has_app rows))) ()) (\<lambda>_.
     fold_r (\<lambda>name _. (let mount = ''/'' @ name in
              case find (occupies mount) proxies of None \<Rightarrow> Inr ()
              | Some l \<Rightarrow> Inl (InvalidConfig (''proxy '' @ pl_location l @ '' conflicts with installed Lib '' @ mount))))
            (sort (map pr_name (filter (\<lambda>r. pr_has_lib r \<and> is_none_or (\<lambda>a. \<not> is_standard_author a) (pr_author r)) rows))) ())))"

text \<open>\<^verbatim>\<open>read_server_config\<close>, and \<^verbatim>\<open>upgrade_settings\<close>, which makes the same two checks.\<close>

definition read_server_config :: "http_env \<Rightarrow> pkg_row list option \<Rightarrow> setting_db \<Rightarrow> server_config res" where
  "read_server_config env packages db =
     try_r (read_config env db) (\<lambda>c.
     try_r (check_proxy_mounts packages (cfg_proxies c)) (\<lambda>_. Inr c))"

section \<open>Opening and initializing\<close>

definition open_config :: "volume \<Rightarrow> bool \<Rightarrow> setting_db res" where
  "open_config vol writable = (case vol_setting vol of
       None \<Rightarrow> Inl (Io NotFound ''database'')
     | Some db \<Rightarrow>
         try_r (ensure_r (vol_regular vol) (InvalidConfig ''configuration must be a regular file'')) (\<lambda>_.
         try_r (ensure_r (\<not> (db_version db \<noteq> 3 \<and> \<not> (db_version db = 0 \<and> writable)))
            (InvalidConfig (''unsupported configuration schema '' @ int_text (db_version db) @
               ''; reinitialize the identity service (existing data preserved)''))) (\<lambda>_.
         try_r (ok_or (vol_attached vol) (Io NotFound ''attached database'')) (\<lambda>regular.
         try_r (ensure_r regular (InvalidConfig ''attached database must be a regular file'')) (\<lambda>_.
         Inr db)))))"

definition empty_db :: setting_db where
  "empty_db = \<lparr>db_version = 0, db_check = ''ok'', db_setting = None, db_proxy = None, db_other_objects = False\<rparr>"

definition occupied :: "setting_db \<Rightarrow> bool" where
  "occupied db = (db_setting db \<noteq> None \<or> db_proxy db \<noteq> None \<or> db_other_objects db)"

text \<open>
  The existing setting database before initialization: schemas 1 and 2 are archived, schema 3 and
  an unoccupied schema 0 are used as they are, every other one is refused.
\<close>

definition archive_old :: "volume \<Rightarrow> volume res" where
  "archive_old vol = (case vol_setting vol of
       None \<Rightarrow> Inr vol
     | Some db \<Rightarrow>
         try_r (ensure_r (vol_regular vol) (InvalidConfig ''configuration must be a regular file'')) (\<lambda>_.
         if db_version db = 1 \<or> db_version db = 2 then
           try_r (ensure_r (vol_real_dirs vol) (InvalidConfig ''configuration directory must be a real directory'')) (\<lambda>_.
           Inr (vol\<lparr>vol_setting := None, vol_archive := vol_archive vol @ [db]\<rparr>))
         else
           try_r (ensure_r (\<not> (db_version db \<noteq> 3 \<and> (db_version db \<noteq> 0 \<or> occupied db)))
              (InvalidConfig (''unsupported configuration schema '' @ int_text (db_version db) @
                 ''; existing data preserved''))) (\<lambda>_.
           Inr vol)))"

definition create_schema :: "volume \<Rightarrow> setting_db \<Rightarrow> volume" where
  "create_schema vol db =
     vol\<lparr>vol_setting := Some (db\<lparr>db_version := 3,
            db_setting := Some (case db_setting db of None \<Rightarrow> [] | Some t \<Rightarrow> t),
            db_proxy := Some (case db_proxy db of None \<Rightarrow> [] | Some t \<Rightarrow> t)\<rparr>),
         vol_packages := Some (case vol_packages vol of None \<Rightarrow> [] | Some t \<Rightarrow> t),
         vol_signing_columns := (case vol_packages vol of None \<Rightarrow> True | Some _ \<Rightarrow> vol_signing_columns vol),
         vol_dependency_table := True, vol_capability_tables := True, vol_registry_version := 4\<rparr>"

definition initialize_config :: "volume \<Rightarrow> volume res" where
  "initialize_config vol0 =
     try_r (archive_old vol0) (\<lambda>vol1.
     try_r (ensure_r (vol_real_dirs vol1) (InvalidConfig ''volume must contain real directories'')) (\<lambda>_.
     let vol2 = (case vol_setting vol1 of None \<Rightarrow> vol1\<lparr>vol_setting := Some empty_db, vol_regular := True\<rparr>
                 | Some _ \<Rightarrow> vol1);
         vol = vol2\<lparr>vol_attached := Some (case vol_attached vol2 of None \<Rightarrow> True | Some regular \<Rightarrow> regular)\<rparr> in
     try_r (open_config vol True) (\<lambda>db.
     try_r (ensure_r (db_check db = ''ok'') (InvalidConfig (db_check db))) (\<lambda>_.
     if db_version db = 3 then
       try_r (ensure_r (db_setting db \<noteq> None \<and> db_proxy db \<noteq> None \<and> vol_packages vol \<noteq> None \<and>
                        vol_dependency_table vol \<and> vol_capability_tables vol)
                (InvalidConfig ''incomplete package registry schema'')) (\<lambda>_.
       Inr (vol\<lparr>vol_signing_columns := True\<rparr>))
     else
       try_r (ensure_r (db_version db = 0)
                (InvalidConfig ''unsupported configuration schema; existing data preserved'')) (\<lambda>_.
       Inr (create_schema vol db))))))"

section \<open>The configuration resources\<close>

definition validate_listen_patch :: "json \<Rightarrow> unit res" where
  "validate_listen_patch payload =
     try_r (ok_or (opt_filter (\<lambda>m. length m = 1) (as_object payload))
              (BadRequest ''listen PATCH requires exactly one listen field'')) (\<lambda>m.
     fold_r (\<lambda>(key, value) _. ensure_r (key = ''listen'' \<and>
               is_some_and (\<lambda>mode. mode = ''internal'' \<or> mode = ''external'' \<or> mode = ''all'' \<or> mode = ''off'')
                 (as_str value))
               (BadRequest (''invalid listen field: '' @ key))) m ())"

definition parse_deletion ::
  "http_env \<Rightarrow> (string \<Rightarrow> (string \<times> string) list) \<Rightarrow> string \<Rightarrow> string \<Rightarrow> string option \<Rightarrow> proxy_location option res"
where
  "parse_deletion env parse_query mtd p q = (case q of
       None \<Rightarrow> Inr None
     | Some q \<Rightarrow>
         try_r (ensure_r (p = ''/std/sys/mount'' \<and> mtd = ''DELETE'') (BadRequest ''unsupported query parameters'')) (\<lambda>_.
         let params = parse_query q in
         try_r (ensure_r (length params = 2 \<and> length (filter (\<lambda>kv. fst kv = ''location'') params) = 1 \<and>
                          length (filter (\<lambda>kv. fst kv = ''proxy_pass'') params) = 1)
                  (BadRequest ''unmount requires exactly location and proxy_pass'')) (\<lambda>_.
         try_r (parse_proxy_json env (JArr [JObj [(''location'', JStr (the (map_of params ''location''))),
                                                 (''proxy_pass'', JStr (the (map_of params ''proxy_pass'')))]])) (\<lambda>ls.
         Inr (Some (hd ls))))))"

text \<open>The statements of the write transaction, between the two validations.\<close>

definition write_config ::
  "http_env \<Rightarrow> string \<Rightarrow> proxy_location option \<Rightarrow> proxy_location option \<Rightarrow> json option \<Rightarrow> setting_db \<Rightarrow> setting_db res"
where
  "write_config env mtd deletion rule payload db =
     (let setting = the (db_setting db); rows = the (db_proxy db);
          no_listen = db\<lparr>db_setting := Some (filter (\<lambda>kv. fst kv \<noteq> ''listen'') setting)\<rparr> in
      if mtd = ''DELETE'' then
        (case deletion of
           Some rule \<Rightarrow>
             try_r (read_config env db) (\<lambda>current.
             (case find (\<lambda>l. pl_location l = pl_location rule) (cfg_proxies current) of
                None \<Rightarrow> Inr db
              | Some existing \<Rightarrow>
                  try_r (ensure_r (upstream_text existing = upstream_text rule) (Io InvalidInput ''mount upstream changed'')) (\<lambda>_.
                  Inr (db\<lparr>db_proxy := Some (filter (\<lambda>r. fst r \<noteq> pl_location rule) rows)\<rparr>))))
         | None \<Rightarrow> Inr no_listen)
      else (case rule of
          Some rule \<Rightarrow> Inr (db\<lparr>db_proxy := Some (filter (\<lambda>r. fst r \<noteq> pl_location rule) rows @
                                              [(pl_location rule, upstream_text rule)])\<rparr>)
        | None \<Rightarrow>
            (case as_str (jidx (the payload) ''listen'') of
               Some mode \<Rightarrow> if mode = ''off'' then Inr no_listen
                           else Inr (db\<lparr>db_setting := Some (filter (\<lambda>kv. fst kv \<noteq> ''listen'') setting @ [(''listen'', mode)])\<rparr>)
             | None \<Rightarrow> Inl (BadRequest ''unreachable''))))"

definition config_reply :: "string \<Rightarrow> server_config \<Rightarrow> json" where
  "config_reply p c =
     (if p = ''/std/sys/listen'' then JObj [(''listen'', JStr (cfg_listen c))]
      else JArr (map (\<lambda>l. JObj [(''location'', JStr (pl_location l)), (''proxy_pass'', JStr (upstream_text l))])
                 (cfg_proxies c)))"

text \<open>The checks of the request before any database is opened: the rule to delete, the rule to store.\<close>

definition config_plan ::
  "http_env \<Rightarrow> (string \<Rightarrow> (string \<times> string) list) \<Rightarrow> string \<Rightarrow> string \<Rightarrow> string option \<Rightarrow> json option
     \<Rightarrow> (proxy_location option \<times> proxy_location option) res"
where
  "config_plan env parse_query mtd p q payload =
     try_r (ensure_r (p = ''/std/sys/listen'' \<or> p = ''/std/sys/mount'') RouteNotFound) (\<lambda>_.
     try_r (parse_deletion env parse_query mtd p q) (\<lambda>deletion.
     try_r (ensure_r (\<not> (p = ''/std/sys/mount'' \<and> mtd = ''DELETE'' \<and> deletion = None))
              (BadRequest ''unmount requires location and proxy_pass'')) (\<lambda>_.
     if mtd = ''GET'' then Inr (deletion, None)
     else if mtd = ''PATCH'' then
       try_r (ok_or payload (BadRequest ''missing configuration'')) (\<lambda>v.
       if p = ''/std/sys/listen''
       then try_r (validate_listen_patch v) (\<lambda>_. Inr (deletion, None))
       else try_r (parse_proxy_json env (JArr [v])) (\<lambda>ls. Inr (deletion, Some (hd ls))))
     else if mtd = ''DELETE'' \<and> payload = None then Inr (deletion, None)
     else Inl MethodNotAllowed)))"

text \<open>The write transaction: the stored configuration is valid before and after it.\<close>

definition config_tx ::
  "http_env \<Rightarrow> pkg_row list option \<Rightarrow> string \<Rightarrow> proxy_location option \<Rightarrow> proxy_location option \<Rightarrow> json option
     \<Rightarrow> setting_db \<Rightarrow> (setting_db \<times> server_config) res"
where
  "config_tx env packages mtd deletion rule payload db =
     try_r (read_server_config env packages db) (\<lambda>_.
     try_r (write_config env mtd deletion rule payload db) (\<lambda>db'.
     try_r (read_server_config env packages db') (\<lambda>c. Inr (db', c))))"

definition config_database ::
  "http_env \<Rightarrow> (string \<Rightarrow> (string \<times> string) list) \<Rightarrow> volume \<Rightarrow> string \<Rightarrow> string \<Rightarrow> string option \<Rightarrow> json option
     \<Rightarrow> json res \<times> volume"
where
  "config_database env parse_query vol mtd p q payload =
     (case config_plan env parse_query mtd p q payload of
        Inl e \<Rightarrow> (Inl e, vol)
      | Inr (deletion, rule) \<Rightarrow>
          if mtd = ''GET'' then
            (try_r (ensure_r (payload = None) (BadRequest ''GET does not accept a body'')) (\<lambda>_.
             try_r (open_config vol False) (\<lambda>db.
             try_r (read_server_config env (vol_packages vol) db) (\<lambda>c. Inr (config_reply p c)))), vol)
          else
            (case initialize_config vol of
               Inl e \<Rightarrow> (Inl e, vol)
             | Inr vol1 \<Rightarrow>
                 (case try_r (open_config vol1 True) (config_tx env (vol_packages vol1) mtd deletion rule payload) of
                    Inl e \<Rightarrow> (Inl e, vol1)
                  | Inr (db', c) \<Rightarrow>
                      (Inr (if mtd = ''DELETE'' then JNull else config_reply p c),
                       vol1\<lparr>vol_setting := Some db'\<rparr>))))"

section \<open>Lemmas\<close>

text \<open>What one accepted row of the proxy table guarantees.\<close>

definition proxy_ok :: "http_env \<Rightarrow> proxy_location \<Rightarrow> bool" where
  "proxy_ok env l =
     (valid_path (location_path (pl_location l)) \<and> \<not> reserved (location_path (pl_location l)) \<and>
      up_scheme (pl_pass l) = Some ''http'' \<and>
      is_some_and (\<lambda>a. is_some_and (\<lambda>sa. sa_loopback sa \<and> sa_port sa \<noteq> 0) (parse_socket env a))
        (up_authority (pl_pass l)))"

lemma parse_proxy_ok:
  assumes "parse_proxy env row seen = Inr l"
  shows "proxy_ok env l" and "pl_location l = fst row" and "fst row \<notin> set seen"
  using assms
  by (auto simp: parse_proxy_def proxy_ok_def Let_def try_r_Inr_iff is_some_and_iff is_none_or_iff
        split: prod.splits if_splits option.splits bind_splits)

lemma parse_proxies_loop_ok:
  assumes "parse_proxies_loop env rows seen = Inr ls"
  shows "\<forall>l \<in> set ls. proxy_ok env l" and "map pl_location ls = map fst rows"
    and "distinct (map fst rows) \<and> set (map fst rows) \<inter> set seen = {}"
  using assms
proof (induction rows arbitrary: seen ls)
  case (Cons row rows)
  case 1
  with Cons.IH show ?case by (auto simp: try_r_Inr_iff parse_proxy_ok)
next
  case (Cons row rows)
  case 2
  with Cons.IH show ?case by (auto simp: try_r_Inr_iff parse_proxy_ok)
next
  case (Cons row rows)
  case 3
  then obtain l ls' where "parse_proxy env row seen = Inr l"
    and "parse_proxies_loop env rows (fst row # seen) = Inr ls'"
    by (auto simp: try_r_Inr_iff)
  with Cons.IH(3) [of "fst row # seen" ls'] parse_proxy_ok(3) [of env row seen l] show ?case by auto
qed auto

lemma parse_proxies_ok:
  assumes "parse_proxies env rows = Inr ls"
  shows "\<forall>l \<in> set ls. proxy_ok env l"
    and "set (map pl_location ls) = set (map fst rows)"
    and "distinct (map pl_location ls)" and "sorted (map pl_location ls)"
proof -
  from assms obtain us where us: "parse_proxies_loop env rows [] = Inr us" "ls = sort_key pl_location us"
    by (auto simp: parse_proxies_def try_r_Inr_iff)
  note facts = parse_proxies_loop_ok [OF us(1)]
  show "\<forall>l \<in> set ls. proxy_ok env l" using facts(1) us(2) by simp
  show "set (map pl_location ls) = set (map fst rows)"
    using facts(2) us(2) by (metis list.set_map set_sort)
  show "sorted (map pl_location ls)" using us(2) by simp
  have "distinct (map pl_location us)" using facts by simp
  then show "distinct (map pl_location ls)"
    using us(2) by (metis distinct_map inj_on_def set_sort distinct_sort)
qed

lemma fold_r_unit: "fold_r f xs () = Inr () \<longleftrightarrow> (\<forall>x \<in> set xs. f x () = Inr ())"
  by (induction xs) (auto simp: try_r_Inr_iff)

lemma check_proxy_mounts_ok:
  assumes "check_proxy_mounts (Some rows) proxies = Inr ()" and "r \<in> set rows" and "l \<in> set proxies"
  shows "pr_has_app r \<longrightarrow> \<not> occupies (''/app/'' @ pr_name r) l"
    and "pr_has_lib r \<longrightarrow> is_none_or (\<lambda>a. \<not> is_standard_author a) (pr_author r) \<longrightarrow> \<not> occupies (''/'' @ pr_name r) l"
  using assms
  by (auto simp: check_proxy_mounts_def try_r_Inr_iff fold_r_unit Let_def find_None_iff image_iff
        split: option.splits)

lemma read_config_ok:
  assumes "read_config env db = Inr c"
  shows "\<forall>l \<in> set (cfg_proxies c). proxy_ok env l"
    and "cfg_listen c = ''off'' \<or> valid_listen (cfg_listen c)"
  using assms parse_proxies_ok(1)
  by (auto simp: read_config_def try_r_Inr_iff Let_def)

lemma empty_config_reads:
  "read_server_config env pkgs (create_schema_db) = Inr \<lparr>cfg_listen = ''off'', cfg_proxies = []\<rparr>"
  if "db_version create_schema_db = 3" "db_setting create_schema_db = Some []" "db_proxy create_schema_db = Some []"
  using that
  by (auto simp: read_server_config_def read_config_def parse_proxies_def check_proxy_mounts_def
        fold_r_unit try_r_Inr_iff Let_def split: option.splits)

text \<open>A stored configuration of the current schema can be read and collides with no package.\<close>

definition vol_ok :: "http_env \<Rightarrow> volume \<Rightarrow> bool" where
  "vol_ok env vol = (case vol_setting vol of None \<Rightarrow> True
     | Some db \<Rightarrow> db_version db = 3 \<longrightarrow> is_ok (read_server_config env (vol_packages vol) db))"

lemma archive_old_cases:
  assumes "archive_old vol = Inr vol1"
  obtains (emptied) "vol1 = vol\<lparr>vol_setting := None, vol_archive := vol_archive vol @
        (case vol_setting vol of Some old \<Rightarrow> if db_version old = 1 \<or> db_version old = 2 then [old] else []
         | None \<Rightarrow> [])\<rparr>"
      "\<And>old. vol_setting vol = Some old \<Longrightarrow> db_version old \<in> {1, 2}"
  | (kept) db where "vol1 = vol" "vol_setting vol = Some db" "vol_regular vol"
      "db_version db = 3 \<or> db_version db = 0 \<and> \<not> occupied db"
  using assms
  by (auto simp: archive_old_def try_r_Inr_iff split: option.splits if_splits)

lemma initialize_config_cases:
  assumes "initialize_config vol = Inr vol'"
  obtains (current) db where "vol_setting vol = Some db" "db_version db = 3"
      "vol' = vol\<lparr>vol_signing_columns := True, vol_attached := Some True\<rparr>" "vol_packages vol \<noteq> None"
      "db_setting db \<noteq> None" "db_proxy db \<noteq> None" "vol_dependency_table vol" "vol_capability_tables vol"
      "vol_regular vol" "vol_real_dirs vol" "db_check db = ''ok''"
  | (fresh) db where "vol_setting vol' = Some db" "db_version db = 3" "db_check db = ''ok''"
      "db_setting db = Some []" "db_proxy db = Some []"
      "vol_packages vol' = Some (case vol_packages vol of None \<Rightarrow> [] | Some t \<Rightarrow> t)"
      "vol_dependency_table vol'" "vol_capability_tables vol'" "vol_regular vol'" "vol_real_dirs vol'" "vol_attached vol' = Some True"
      "vol_archive vol' = vol_archive vol @ (case vol_setting vol of Some old \<Rightarrow>
          if db_version old = 1 \<or> db_version old = 2 then [old] else [] | None \<Rightarrow> [])"
      "\<And>old. vol_setting vol = Some old \<Longrightarrow> db_version old \<in> {1, 2} \<or> db_version old = 0 \<and> \<not> occupied old"
proof -
  from assms obtain vol1 where vol1: "archive_old vol = Inr vol1"
    by (auto simp: initialize_config_def try_r_Inr_iff)
  from vol1 show ?thesis
  proof (cases rule: archive_old_cases)
    case emptied
    with assms vol1 show ?thesis
      by (intro fresh [of "the (vol_setting vol')"])
        (auto simp: initialize_config_def open_config_def create_schema_def empty_db_def Let_def
          try_r_Inr_iff)
  next
    case (kept db)
    show ?thesis
    proof (cases "db_version db = 3")
      case True
      with kept assms vol1 show ?thesis
        by (intro current [of db])
          (auto simp: initialize_config_def open_config_def Let_def try_r_Inr_iff)
    next
      case False
      with kept assms vol1 show ?thesis
        by (intro fresh [of "the (vol_setting vol')"])
          (auto simp: initialize_config_def open_config_def create_schema_def occupied_def Let_def
            try_r_Inr_iff)
    qed
  qed
qed

text \<open>A database that opens for reading has nothing to initialize but the columns of the signatures.\<close>

lemma opened_initialized:
  assumes "open_config vol False = Inr db" and "initialize_config vol = Inr vol'"
  shows "vol' = vol\<lparr>vol_signing_columns := True\<rparr>"
proof -
  from assms(1) have db: "vol_setting vol = Some db" "db_version db = 3" "vol_attached vol = Some True"
    by (auto simp: open_config_def try_r_Inr_iff split: option.splits)
  from assms(2) show ?thesis
  proof (cases rule: initialize_config_cases)
    case (current db')
    with db(3) show ?thesis by (cases vol) simp
  next
    case (fresh db')
    from fresh(13) [OF db(1)] db(2) show ?thesis by simp
  qed
qed

lemma initialize_config_vol_ok:
  assumes "initialize_config vol = Inr vol'" and "vol_ok env vol"
  shows "vol_ok env vol'"
  using assms(1)
proof (cases rule: initialize_config_cases)
  case (current db)
  with assms(2) show ?thesis by (simp add: vol_ok_def)
next
  case (fresh db)
  then show ?thesis by (simp add: vol_ok_def empty_config_reads)
qed

text \<open>Where a request leaves the volume: untouched, initialized only, or initialized and committed.\<close>

lemma config_database_cases:
  assumes "config_database env pq vol mtd p q payload = (res, vol')"
  obtains (same) "vol' = vol" "mtd = ''GET'' \<or> \<not> is_ok res"
  | (initialized) "initialize_config vol = Inr vol'" "\<not> is_ok res" "mtd \<noteq> ''GET''"
  | (committed) vol1 db db' c deletion rule where "mtd \<noteq> ''GET''" "initialize_config vol = Inr vol1"
      "vol_setting vol1 = Some db" "is_ok (read_server_config env (vol_packages vol1) db)"
      "write_config env mtd deletion rule payload db = Inr db'"
      "read_server_config env (vol_packages vol1) db' = Inr c"
      "vol' = vol1\<lparr>vol_setting := Some db'\<rparr>"
      "res = Inr (if mtd = ''DELETE'' then JNull else config_reply p c)"
proof -
  consider (plan) e where "config_plan env pq mtd p q payload = Inl e"
    | (get) d r where "config_plan env pq mtd p q payload = Inr (d, r)" "mtd = ''GET''"
    | (init) d r e where "config_plan env pq mtd p q payload = Inr (d, r)" "mtd \<noteq> ''GET''" "initialize_config vol = Inl e"
    | (tx) d r vol1 where "config_plan env pq mtd p q payload = Inr (d, r)" "mtd \<noteq> ''GET''" "initialize_config vol = Inr vol1"
    by (cases "config_plan env pq mtd p q payload"; cases "initialize_config vol"; cases "mtd = ''GET''") auto
  then show ?thesis
  proof cases
    case (tx d r vol1)
    show ?thesis
    proof (cases "try_r (open_config vol1 True) (config_tx env (vol_packages vol1) mtd d r payload)")
      case (Inl e)
      with tx assms show ?thesis by (intro initialized) (auto simp: config_database_def)
    next
      case (Inr x)
      then obtain db' c where x: "x = (db', c)" by (cases x)
      from Inr x obtain db where "vol_setting vol1 = Some db"
        "config_tx env (vol_packages vol1) mtd d r payload db = Inr (db', c)"
        by (auto simp: open_config_def try_r_Inr_iff split: option.splits)
      with tx assms Inr x show ?thesis
        by (intro committed [of vol1 db d r db' c]) (auto simp: config_database_def config_tx_def try_r_Inr_iff is_ok_iff)
    qed
  qed (use assms in \<open>auto intro!: same simp: config_database_def\<close>)
qed

section \<open>Interfaces\<close>

text \<open>A request to the configuration resources as an operation on the volume.\<close>

type_synonym config_op = "string \<times> string \<times> string option \<times> json option"

definition config_step :: "http_env \<Rightarrow> (string \<Rightarrow> (string \<times> string) list) \<Rightarrow> config_op \<Rightarrow> volume \<Rightarrow> volume" where
  "config_step env pq op vol = (case op of (mtd, p, q, payload) \<Rightarrow> snd (config_database env pq vol mtd p q payload))"

lemma config_database_vol_ok:
  assumes "config_database env pq vol mtd p q payload = (res, vol')" and "vol_ok env vol"
  shows "vol_ok env vol'"
  using assms(1)
proof (cases rule: config_database_cases)
  case same
  with assms show ?thesis by simp
next
  case initialized
  with assms show ?thesis by (simp add: initialize_config_vol_ok)
next
  case (committed vol1 db db' c deletion rule)
  then show ?thesis by (simp add: vol_ok_def)
qed

interpretation cfg: guarded_machine "config_step env pq" "vol_ok env" "\<lambda>_. True" for env pq
proof unfold_locales
  fix vol op
  assume "vol_ok env vol"
  then show "vol_ok env (config_step env pq op vol)"
    by (auto simp: config_step_def split: prod.splits intro: config_database_vol_ok [OF prod.collapse [symmetric]])
qed

section \<open>Properties\<close>

text \<open>
  Property C7: whatever sequence of requests the configuration resources serve, the stored
  settings stay readable: every proxy row parses to a local HTTP endpoint at an unreserved, clean
  location, no row occupies the mount of an installed App or ordinary Lib, and the listen mode is
  one of the known ones.
\<close>

theorem config_requests_keep_settings_valid:
  assumes "vol_ok env vol" and "vol_setting (fold (config_step env pq) ops vol) = Some db" and "db_version db = 3"
  shows "\<exists>c. read_config env db = Inr c \<and>
    (cfg_listen c = ''off'' \<or> valid_listen (cfg_listen c)) \<and>
    (\<forall>l \<in> set (cfg_proxies c). proxy_ok env l) \<and>
    (\<forall>rows. vol_packages (fold (config_step env pq) ops vol) = Some rows \<longrightarrow>
      (\<forall>r \<in> set rows. \<forall>l \<in> set (cfg_proxies c).
        (pr_has_app r \<longrightarrow> \<not> occupies (''/app/'' @ pr_name r) l) \<and>
        (pr_has_lib r \<longrightarrow> is_none_or (\<lambda>a. \<not> is_standard_author a) (pr_author r) \<longrightarrow>
           \<not> occupies (''/'' @ pr_name r) l)))"
proof -
  let ?v = "fold (config_step env pq) ops vol"
  have "vol_ok env ?v" using assms(1) by (rule cfg.run_inv) simp
  with assms(2,3) obtain c where c: "read_config env db = Inr c" "check_proxy_mounts (vol_packages ?v) (cfg_proxies c) = Inr ()"
    by (auto simp: vol_ok_def is_ok_iff read_server_config_def try_r_Inr_iff)
  with read_config_ok [OF c(1)] check_proxy_mounts_ok show ?thesis by fastforce
qed

text \<open>A volume with one App and one mount request for it, refused, and one beside it, stored.\<close>

definition example_volume :: volume where
  "example_volume = \<lparr>vol_setting = None, vol_regular = True, vol_attached = Some True, vol_real_dirs = True,
     vol_packages = Some [\<lparr>pr_name = ''x'', pr_author = None, pr_has_lib = False, pr_has_app = True\<rparr>],
     vol_dependency_table = True, vol_capability_tables = True, vol_signing_columns = True,
     vol_registry_version = 4, vol_archive = []\<rparr>"

definition example_mount :: "string \<Rightarrow> config_op" where
  "example_mount l = (''PATCH'', ''/std/sys/mount'', None,
     Some (JObj [(''location'', JStr l), (''proxy_pass'', JStr ''http://127.0.0.1:80'')]))"

lemmas settings_eval =
  config_step_def config_database_def config_plan_def config_tx_def parse_deletion_def parse_proxy_json_def
  parse_proxies_def parse_proxy_def valid_path_def location_path_def reserved_def read_server_config_def
  read_config_def check_proxy_mounts_def occupies_def write_config_def initialize_config_def archive_old_def
  open_config_def create_schema_def empty_db_def upstream_text_def pq_text_def valid_listen_def
  example_env_def example_volume_def example_mount_def

lemma example_mount_stored:
  "vol_setting (fold (config_step example_env (\<lambda>_. [])) [example_mount ''/app/x'', example_mount ''/b''] example_volume) =
     Some \<lparr>db_version = 3, db_check = ''ok'', db_setting = Some [],
           db_proxy = Some [(''/b'', ''http://127.0.0.1:80'')], db_other_objects = False\<rparr>"
  by (simp add: settings_eval is_some_and_def is_none_or_def Let_def str_eval)

theorem config_requests_keep_settings_valid_witness:
  "\<exists>c. read_config example_env \<lparr>db_version = 3, db_check = ''ok'', db_setting = Some [],
           db_proxy = Some [(''/b'', ''http://127.0.0.1:80'')], db_other_objects = False\<rparr> = Inr c \<and>
       (\<forall>l \<in> set (cfg_proxies c). proxy_ok example_env l)"
proof -
  have ok: "vol_ok example_env example_volume" by (simp add: vol_ok_def example_volume_def)
  show ?thesis
    using config_requests_keep_settings_valid [OF ok example_mount_stored] by auto
qed

lemma map_of_replace: "map_of (filter (\<lambda>r. fst r \<noteq> k) rows @ [(k, v)]) = (map_of rows)(k \<mapsto> v)"
  by (induction rows) (auto simp: map_add_def fun_eq_iff split: option.splits)

lemma map_of_drop: "map_of (filter (\<lambda>r. fst r \<noteq> k) rows) = (map_of rows)(k := None)"
  by (induction rows) (auto simp: fun_eq_iff)

lemma initialized_opens:
  assumes "initialize_config vol = Inr vol1" and "vol_setting vol1 = Some db"
  shows "vol_regular vol1" and "db_version db = 3" and "vol_attached vol1 = Some True"
  using assms by (cases rule: initialize_config_cases, auto)+

lemma parse_proxy_json_single:
  assumes "parse_proxy_json env (JArr [v]) = Inr ls"
  obtains l where "ls = [l]"
proof -
  from assms obtain row where "parse_proxies env [row] = Inr ls"
    by (auto simp: parse_proxy_json_def try_r_Inr_iff)
  then show thesis using that by (auto simp: parse_proxies_def try_r_Inr_iff)
qed

text \<open>
  Property C10: a successful mount request stores exactly the requested rule: the row of its
  location becomes the normalized upstream, every other row and every setting keep their values,
  and a following read of the resource gives the reply of the request and changes nothing.
\<close>

theorem mount_patch_stores:
  assumes "config_database env pq vol ''PATCH'' ''/std/sys/mount'' None (Some v) = (Inr reply, vol')"
  shows "\<exists>rule vol1 db db'. parse_proxy_json env (JArr [v]) = Inr [rule] \<and>
    initialize_config vol = Inr vol1 \<and> vol_setting vol1 = Some db \<and> vol' = vol1\<lparr>vol_setting := Some db'\<rparr> \<and>
    db_setting db' = db_setting db \<and>
    map_of (the (db_proxy db')) = (map_of (the (db_proxy db)))(pl_location rule \<mapsto> upstream_text rule) \<and>
    config_database env pq vol' ''GET'' ''/std/sys/mount'' None None = (Inr reply, vol')"
proof -
  obtain d r where plan: "config_plan env pq ''PATCH'' ''/std/sys/mount'' None (Some v) = Inr (d, r)"
    using assms by (auto simp: config_database_def split: sum.splits)
  then obtain ls where ls: "parse_proxy_json env (JArr [v]) = Inr ls" "r = Some (hd ls)"
    by (auto simp: config_plan_def parse_deletion_def try_r_Inr_iff)
  then obtain rule where rule: "parse_proxy_json env (JArr [v]) = Inr [rule]" "r = Some rule"
    by (metis parse_proxy_json_single list.sel(1))
  from assms plan rule(2) obtain vol1 db db' c where
    vol1: "initialize_config vol = Inr vol1" and
    op: "open_config vol1 True = Inr db" and
    tx: "config_tx env (vol_packages vol1) ''PATCH'' d (Some rule) (Some v) db = Inr (db', c)" and
    vol': "vol' = vol1\<lparr>vol_setting := Some db'\<rparr>" and reply: "reply = config_reply ''/std/sys/mount'' c"
    by (auto simp: config_database_def try_r_Inr_iff split: sum.splits prod.splits)
  from op have db: "vol_setting vol1 = Some db" by (auto simp: open_config_def try_r_Inr_iff split: option.splits)
  note opens = initialized_opens [OF vol1 db]
  from tx have db': "db' = db\<lparr>db_proxy := Some (filter (\<lambda>r. fst r \<noteq> pl_location rule) (the (db_proxy db)) @
        [(pl_location rule, upstream_text rule)])\<rparr>"
    and rd: "read_server_config env (vol_packages vol1) db' = Inr c"
    by (auto simp: config_tx_def write_config_def try_r_Inr_iff Let_def)
  have "config_database env pq vol' ''GET'' ''/std/sys/mount'' None None = (Inr reply, vol')"
    using opens rd by (simp add: config_database_def config_plan_def parse_deletion_def open_config_def vol' reply db')
  moreover have "db_setting db' = db_setting db"
    and "map_of (the (db_proxy db')) = (map_of (the (db_proxy db)))(pl_location rule \<mapsto> upstream_text rule)"
    by (simp_all add: db' map_of_replace del: map_of_append)
  ultimately show ?thesis using rule(1) vol1 db vol' by blast
qed

definition example_mount_doc :: json where
  "example_mount_doc = JObj [(''location'', JStr ''/b''), (''proxy_pass'', JStr ''http://127.0.0.1:80'')]"

lemma example_mount_reply:
  "config_database example_env (\<lambda>_. []) example_volume ''PATCH'' ''/std/sys/mount'' None (Some example_mount_doc) =
     (Inr (JArr [example_mount_doc]),
      example_volume\<lparr>vol_setting := Some \<lparr>db_version = 3, db_check = ''ok'', db_setting = Some [],
        db_proxy = Some [(''/b'', ''http://127.0.0.1:80'')], db_other_objects = False\<rparr>\<rparr>)"
  by (simp add: settings_eval example_mount_doc_def config_reply_def is_some_and_def is_none_or_def Let_def str_eval)

theorem mount_patch_stores_witness:
  "fst (config_database example_env (\<lambda>_. []) (example_volume\<lparr>vol_setting := Some \<lparr>db_version = 3, db_check = ''ok'',
      db_setting = Some [], db_proxy = Some [(''/b'', ''http://127.0.0.1:80'')], db_other_objects = False\<rparr>\<rparr>)
      ''GET'' ''/std/sys/mount'' None None) = Inr (JArr [example_mount_doc])"
  using mount_patch_stores [OF example_mount_reply] by auto

text \<open>
  Initialization never loses stored data. The current schema is kept as it is, an old
  schema is archived unchanged, any other occupied database is refused, and registered packages are
  kept; a second initialization changes nothing but the signing columns it may still have to add.
\<close>

lemma initialize_config_preserves:
  assumes "initialize_config vol = Inr vol'"
  shows "(case vol_setting vol of None \<Rightarrow> vol_archive vol' = vol_archive vol
     | Some db \<Rightarrow>
        (db_version db = 3 \<and> vol_setting vol' = Some db \<and> vol_archive vol' = vol_archive vol) \<or>
        (db_version db \<in> {1, 2} \<and> vol_archive vol' = vol_archive vol @ [db]) \<or>
        (db_version db = 0 \<and> \<not> occupied db \<and> vol_archive vol' = vol_archive vol)) \<and>
    (\<forall>rows. vol_packages vol = Some rows \<longrightarrow> vol_packages vol' = Some rows) \<and>
    initialize_config vol' = Inr (vol'\<lparr>vol_signing_columns := True\<rparr>)"
  using assms
proof (cases rule: initialize_config_cases)
  case (current db)
  then show ?thesis
    by (auto simp: initialize_config_def archive_old_def open_config_def Let_def try_r_Inr_iff)
next
  case (fresh db)
  have again: "initialize_config vol' = Inr (vol'\<lparr>vol_signing_columns := True\<rparr>)"
    using fresh by (simp add: initialize_config_def archive_old_def open_config_def)
  show ?thesis
  proof (cases "vol_setting vol")
    case None
    with fresh again show ?thesis by simp
  next
    case (Some old)
    with fresh(12,13) fresh(6) again show ?thesis by auto
  qed
qed

lemma initialize_config_preserves_witness:
  "let old = \<lparr>db_version = 2, db_check = ''ok'', db_setting = Some [(''listen'', ''all'')], db_proxy = None, db_other_objects = True\<rparr> in
   \<exists>vol'. initialize_config (example_volume\<lparr>vol_setting := Some old\<rparr>) = Inr vol' \<and> vol_archive vol' = [old]"
proof -
  let ?old = "\<lparr>db_version = 2, db_check = ''ok'', db_setting = Some [(''listen'', ''all'')], db_proxy = None, db_other_objects = True\<rparr>"
  have "is_ok (initialize_config (example_volume\<lparr>vol_setting := Some ?old\<rparr>))"
    by (simp add: settings_eval Let_def)
  then obtain vol' where v: "initialize_config (example_volume\<lparr>vol_setting := Some ?old\<rparr>) = Inr vol'"
    by (auto simp: is_ok_iff)
  from initialize_config_preserves [OF v] v show ?thesis by (auto simp: example_volume_def)
qed

lemma prefix_of_location:
  assumes "\<not> contains_str ''//'' (pl_location r)" and "starts_with ''/'' p" and "serves_prefix p r"
    and "\<not> needs_slash p r"
  shows "\<exists>suffix. p = pl_location r @ suffix"
proof (cases "ends_with ''/'' (pl_location r)")
  case False
  then have "trim_end_matches (CHR ''/'') (pl_location r) = pl_location r"
    by (intro trim_end_matches_last) (metis append_butlast_last_id ends_with_iff)
  with assms(2,3) show ?thesis by (auto simp: serves_prefix_def starts_with_iff)
next
  case True
  then obtain t where t: "pl_location r = t @ ''/''" by (auto simp: ends_with_iff)
  with assms(1) have "t = [] \<or> last t \<noteq> CHR ''/''"
    by (metis append.assoc append_Cons append_Nil append_butlast_last_id contains_str_iff)
  then have "trim_end_matches (CHR ''/'') (pl_location r) = t"
    unfolding t trim_end_matches_def by (cases t rule: rev_cases) auto
  with assms t True show ?thesis
    by (auto simp: serves_prefix_def needs_slash_def starts_with_iff)
qed

text \<open>
  Property C9: the table that validation accepts and the rewriting of the URI fit together. A
  request with an absolute path that the location table forwards never loses its route while its
  upstream URI is built: the target is the configured base followed by the rest of the path, or
  the path itself where the rule has no base, and only the parser of that target can refuse it.
\<close>

theorem forwarded_path_resolves:
  assumes "parse_proxies env rows = Inr proxies" and "choose_route proxies p q = Forward route"
    and "starts_with ''/'' p"
  shows "proxy_uri env route p q \<noteq> Inl RouteNotFound \<and>
    (\<forall>uri. proxy_uri env route p q = Inr uri \<longrightarrow>
      (\<exists>target. up_path uri = parse_path env (target @ (case q of None \<Rightarrow> [] | Some q \<Rightarrow> ''?'' @ q)) \<and>
        (case up_path (pl_pass route) of
           None \<Rightarrow> target = p
         | Some (base, _) \<Rightarrow> target = base \<and> is_exact p route \<or>
             (\<exists>suffix. p = pl_location route @ suffix \<and> target = base @ suffix))))"
proof -
  note route = choose_route_forward [OF assms(2)]
  have ok: "proxy_ok env route" using parse_proxies_ok(1) [OF assms(1)] route(2) by blast
  have cover: "starts_with ''= '' (pl_location route) \<and> is_exact p route \<or>
      \<not> starts_with ''= '' (pl_location route) \<and> (\<exists>suffix. p = pl_location route @ suffix)"
  proof (cases "is_exact p route")
    case True
    then show ?thesis by (auto simp: is_exact_def starts_with_def)
  next
    case False
    with route have pre: "serves_prefix p route" "\<not> needs_slash p route"
      by (auto simp: find_None_iff)
    then have slash: "starts_with ''/'' (pl_location route)" by (simp add: serves_prefix_def)
    then have plain: "\<not> starts_with ''= '' (pl_location route)" by (auto simp: starts_with_iff)
    then have "location_path (pl_location route) = pl_location route"
      by (auto simp: location_path_def starts_with_def split: option.splits)
    with ok have "\<not> contains_str ''//'' (pl_location route)" by (simp add: proxy_ok_def valid_path_def)
    from prefix_of_location [OF this assms(3) pre] plain show ?thesis by blast
  qed
  let ?full = "\<lambda>target. target @ (case q of None \<Rightarrow> [] | Some q \<Rightarrow> ''?'' @ q)"
  define target where "target = (case up_path (pl_pass route) of None \<Rightarrow> p
      | Some (base, _) \<Rightarrow> if starts_with ''= '' (pl_location route) then base
                         else base @ drop (length (pl_location route)) p)"
  have target: "case up_path (pl_pass route) of None \<Rightarrow> target = p
       | Some (base, _) \<Rightarrow> target = base \<and> is_exact p route \<or>
             (\<exists>suffix. p = pl_location route @ suffix \<and> target = base @ suffix)"
    using cover by (auto simp: target_def split: option.splits)
  have uri: "proxy_uri env route p q = try_r (ok_or (parse_path env (?full target)) (BadRequest ''invalid upstream path'')) (\<lambda>pq.
       let parts = \<lparr>up_scheme = up_scheme (pl_pass route), up_authority = up_authority (pl_pass route), up_path = Some pq\<rparr> in
       try_r (ensure_r (uri_from_parts env parts) (BadRequest ''invalid upstream URI'')) (\<lambda>_. Inr parts))"
    using cover by (cases q) (auto simp: proxy_uri_def target_def split: option.splits)
  from uri have "proxy_uri env route p q \<noteq> Inl RouteNotFound"
    by (auto simp: Let_def try_r_Inl_iff ok_or_def split: option.splits)
  moreover have "up_path u = parse_path env (?full target)" if "proxy_uri env route p q = Inr u" for u
    using that unfolding uri by (auto simp: Let_def try_r_Inr_iff)
  ultimately show ?thesis using target by blast
qed

theorem forwarded_path_resolves_witness:
  "proxy_uri example_env example_route ''/a/x'' None \<noteq> Inl RouteNotFound"
proof -
  have rows: "parse_proxies example_env [(''/a'', ''http://127.0.0.1:80/b'')] = Inr [example_route]"
    by (simp add: settings_eval example_route_def Let_def str_eval)
  have fwd: "choose_route [example_route] ''/a/x'' None = Forward example_route"
    by (simp add: choose_route_def reserved_def is_exact_def needs_slash_def serves_prefix_def
        example_route_def Let_def str_eval)
  show ?thesis
    using forwarded_path_resolves [OF rows fwd] by (simp add: starts_with_def)
qed

end
