(* ===== verification/Registry.thy ===== *)
theory Registry
  imports Settings "HOL-Library.Product_Lexorder"
begin

text \<open>
  The package registry of an identity (\<^verbatim>\<open>src/package/files.rs\<close>, \<^verbatim>\<open>src/routes/capabilities.rs\<close> and
  the tables of \<^verbatim>\<open>src/package/sql/schema.sql\<close>): package identifiers, the registration of a package
  with its exact dependencies, the search for dependency cycles, removal, and the replacement of a
  Lib's permission declarations.

  A table is the list of its rows. An \<^verbatim>\<open>INSERT\<close> checks the table's constraints as SQLite does and
  fails with a database error; a \<^verbatim>\<open>DELETE\<close> cascades where the schema says so. The normalization of
  DHTTP names (\<^verbatim>\<open>dhttp_home::normalize_name\<close>) and the JSON printer are arguments.
\<close>

section \<open>Identifiers\<close>

type_synonym normalizer = "string \<Rightarrow> string option"

definition package_name_ok :: "string \<Rightarrow> bool" where
  "package_name_ok name = (\<not> (length name > 63 \<or>
     \<not> is_some_and is_ascii_lowercase (case name of [] \<Rightarrow> None | c # _ \<Rightarrow> Some c) \<or>
     \<not> list_all (\<lambda>b. is_ascii_lowercase b \<or> is_ascii_digit b \<or> b = CHR ''-'') name))"

definition valid_id :: "normalizer \<Rightarrow> string \<Rightarrow> unit res" where
  "valid_id norm pid =
     try_r (case split_once (CHR ''/'') pid of
              Some (publisher, name) \<Rightarrow>
                if norm publisher = Some publisher then Inr name
                else Inl (BadRequest ''invalid Lib publisher'')
            | None \<Rightarrow> Inr pid) (\<lambda>name.
     ensure_r (package_name_ok name) (BadRequest ''invalid Lib id''))"

text \<open>\<^verbatim>\<open>id.rsplit('/').next().unwrap()\<close> and \<^verbatim>\<open>id.split('/').next()\<close>.\<close>

definition short_name :: "string \<Rightarrow> string" where
  "short_name pid = rsplit_first (CHR ''/'') pid"

definition id_author :: "string \<Rightarrow> string option" where
  "id_author pid = map_option fst (split_once (CHR ''/'') pid)"

section \<open>Tables\<close>

record package_row =
  pk_name :: string
  pk_author :: "string option"
  pk_version :: string
  pk_title :: "string option"
  pk_description :: "string option"
  pk_license :: "string option"
  pk_repository :: "string option"
  pk_installed_at :: "int option"
  pk_upgraded_at :: "int option"
  pk_has_lib :: bool
  pk_has_app :: bool
  pk_owner_hash :: "string option"
  pk_sha256 :: "string option"
  pk_leaf :: "string option"

record dependency_row =
  dp_package :: string
  dp_dependency :: string
  dp_version :: string

record capability_row =
  cp_lib :: string
  cp_id :: string
  cp_title :: string

record operation_row =
  op_lib :: string
  op_cap :: string
  op_method :: string
  op_path :: string

record registry =
  rg_packages :: "package_row list"
  rg_dependencies :: "dependency_row list"
  rg_capabilities :: "capability_row list"
  rg_operations :: "operation_row list"

text \<open>\<^verbatim>\<open>CASE WHEN author IS NULL THEN name ELSE author||'/'||name END\<close>.\<close>

definition row_id :: "package_row \<Rightarrow> string" where
  "row_id p = (case pk_author p of None \<Rightarrow> pk_name p | Some a \<Rightarrow> a @ ''/'' @ pk_name p)"

definition find_package :: "registry \<Rightarrow> string \<Rightarrow> package_row option" where
  "find_package reg name = find (\<lambda>p. pk_name p = name) (rg_packages reg)"

definition constraint_failed :: error where
  "constraint_failed = ConfigDatabase ''constraint failed''"

definition conflict_error :: "string \<Rightarrow> error" where
  "conflict_error s = Io InvalidInput s"

section \<open>Reading the registry\<close>

definition in_kind :: "string \<Rightarrow> package_row \<Rightarrow> bool" where
  "in_kind kind p = (if kind = ''app'' then pk_has_app p else if kind = ''lib'' then pk_has_lib p else True)"

definition registered_packages ::
  "normalizer \<Rightarrow> registry \<Rightarrow> string \<Rightarrow> string option \<Rightarrow> (string \<times> string) list res"
where
  "registered_packages norm reg kind pid =
     try_r (fold_r (\<lambda>p records.
        try_r (valid_id norm (row_id p)) (\<lambda>_.
        try_r (ensure_r (\<not> (short_name (row_id p) \<noteq> pk_name p \<or>
                           list_ex (\<lambda>r. short_name (fst r) = pk_name p) records))
                 (InvalidConfig ''invalid or conflicting installed package name'')) (\<lambda>_.
        Inr (records @ [(row_id p, pk_version p)]))))
       (sort_key row_id (filter (\<lambda>p. in_kind kind p \<and> is_none_or (\<lambda>i. row_id p = i) pid) (rg_packages reg))) [])
     (\<lambda>records.
     try_r (ensure_r (\<not> (pid \<noteq> None \<and> records = [])) RouteNotFound) (\<lambda>_. Inr records))"

definition check_name :: "registry \<Rightarrow> string \<Rightarrow> string \<Rightarrow> unit res" where
  "check_name reg pid kind =
     (case find (\<lambda>p. in_kind kind p \<and> pk_name p = short_name pid \<and> row_id p \<noteq> pid) (rg_packages reg) of
        Some other \<Rightarrow> Inl (conflict_error (''name is already installed as '' @ row_id other @ ''; cannot install '' @ pid))
      | None \<Rightarrow> Inr ())"

text \<open>A row with its title filled in, and its dependencies as author, name and version.\<close>

definition registered_metadata ::
  "registry \<Rightarrow> string \<Rightarrow> (package_row \<times> (string option \<times> string \<times> string) list) res"
where
  "registered_metadata reg pid =
     try_r (ok_or (find (\<lambda>p. row_id p = pid) (rg_packages reg)) RouteNotFound) (\<lambda>p.
     Inr (p\<lparr>pk_title := Some (case pk_title p of None \<Rightarrow> pk_name p | Some t \<Rightarrow> t)\<rparr>,
          sort_key (\<lambda>(a, n, _). (case a of None \<Rightarrow> [] | Some a \<Rightarrow> [a], n))
            (List.map_filter (\<lambda>d. map_option (\<lambda>q. (pk_author q, pk_name q, dp_version d)) (find_package reg (dp_dependency d)))
              (filter (\<lambda>d. dp_package d = short_name pid) (rg_dependencies reg)))))"

definition installed_packages ::
  "normalizer \<Rightarrow> registry \<Rightarrow> string option
     \<Rightarrow> (package_row \<times> (string option \<times> string \<times> string) list) list res"
where
  "installed_packages norm reg pid =
     try_r (registered_packages norm reg ''pkg'' pid) (\<lambda>rows.
     try_r (collect_r (\<lambda>r. registered_metadata reg (fst r)) rows) (\<lambda>values.
     (case pid of None \<Rightarrow> Inr values
      | Some _ \<Rightarrow> if values = [] then Inl RouteNotFound else Inr [last values])))"

section \<open>Permission declarations\<close>

type_synonym group_decl = "string \<times> string \<times> (string \<times> string) list"

definition insert_capability :: "capability_row \<Rightarrow> registry \<Rightarrow> registry res" where
  "insert_capability c reg =
     try_r (ensure_r (cp_id c \<noteq> [] \<and>
              trim_end_matches (CHR '' '') (trim_start_matches (CHR '' '') (cp_title c)) \<noteq> [] \<and>
              \<not> list_ex (\<lambda>d. cp_lib d = cp_lib c \<and> cp_id d = cp_id c) (rg_capabilities reg)) constraint_failed) (\<lambda>_.
     Inr (reg\<lparr>rg_capabilities := rg_capabilities reg @ [c]\<rparr>))"

definition insert_operation :: "operation_row \<Rightarrow> registry \<Rightarrow> registry res" where
  "insert_operation p reg =
     try_r (ensure_r (op_method p \<noteq> [] \<and> to_ascii_uppercase (op_method p) = op_method p \<and>
              starts_with ''/'' (op_path p) \<and> length (op_path p) > 1 \<and>
              \<not> list_ex (\<lambda>q. op_method q = op_method p \<and> op_path q = op_path p) (rg_operations reg) \<and>
              list_ex (\<lambda>c. cp_lib c = op_lib p \<and> cp_id c = op_cap p) (rg_capabilities reg)) constraint_failed) (\<lambda>_.
     Inr (reg\<lparr>rg_operations := rg_operations reg @ [p]\<rparr>))"

definition permissions :: "string \<Rightarrow> group_decl list \<Rightarrow> registry \<Rightarrow> registry res" where
  "permissions name groups reg =
     fold_r (\<lambda>(pid, title, endpoints) reg.
        try_r (insert_capability \<lparr>cp_lib = name, cp_id = pid, cp_title = title\<rparr> reg)
          (fold_r (\<lambda>(m, p). insert_operation \<lparr>op_lib = name, op_cap = pid, op_method = m, op_path = p\<rparr>) endpoints))
       groups
       (reg\<lparr>rg_capabilities := filter (\<lambda>c. cp_lib c \<noteq> name) (rg_capabilities reg),
            rg_operations := filter (\<lambda>p. op_lib p \<noteq> name) (rg_operations reg)\<rparr>)"

section \<open>Dependencies\<close>

definition dependency_names :: "dependency_row list \<Rightarrow> string \<Rightarrow> string list" where
  "dependency_names deps current = map dp_dependency (filter (\<lambda>d. dp_package d = current) deps)"

text \<open>
  The loop of \<^verbatim>\<open>check_dependency_cycle\<close>: the worklist with its last element first, the names seen.
  The answer is whether \<open>name\<close> was met.
\<close>

function cycle_loop :: "dependency_row list \<Rightarrow> string \<Rightarrow> string list \<Rightarrow> string list \<Rightarrow> bool" where
  "cycle_loop deps name [] seen = False"
| "cycle_loop deps name (current # pending) seen =
     (if current = name then True
      else if current \<in> set seen then cycle_loop deps name pending seen
      else cycle_loop deps name (rev (dependency_names deps current) @ pending) (current # seen))"
  by pat_completeness auto
termination
proof (relation "measures [\<lambda>(deps, name, pending, seen).
      card ((set (map dp_dependency deps) \<union> set pending) - set seen),
      \<lambda>(deps, name, pending, seen). length pending]", goal_cases)
  case 1
  then show ?case by simp
next
  case (2 deps name current pending seen)
  let ?a = "(set (map dp_dependency deps) \<union> set pending) - set seen"
  let ?b = "(set (map dp_dependency deps) \<union> set (current # pending)) - set seen"
  have "card ?a \<le> card ?b" by (rule card_mono) auto
  then show ?case by auto
next
  case (3 deps name current pending seen)
  let ?a = "(set (map dp_dependency deps) \<union> set (rev (dependency_names deps current) @ pending)) - set (current # seen)"
  let ?b = "(set (map dp_dependency deps) \<union> set (current # pending)) - set seen"
  have "current \<in> ?b" "current \<notin> ?a" using 3(2) by auto
  moreover have "?a \<subseteq> ?b" by (auto simp: dependency_names_def)
  ultimately have "?a \<subset> ?b" by blast
  then have "card ?a < card ?b" by (intro psubset_card_mono) auto
  then show ?case by simp
qed

definition check_dependency_cycle :: "dependency_row list \<Rightarrow> string \<Rightarrow> string \<Rightarrow> unit res" where
  "check_dependency_cycle deps pid dependency =
     ensure_r (\<not> cycle_loop deps (short_name pid) [short_name dependency] [])
       (conflict_error (''cyclic backend dependency involving '' @ pid))"

text \<open>\<^verbatim>\<open>INSERT INTO package_dependency\<close> with its key, check and references.\<close>

definition insert_dependency :: "dependency_row \<Rightarrow> registry \<Rightarrow> registry res" where
  "insert_dependency d reg =
     try_r (ensure_r (dp_package d \<noteq> dp_dependency d \<and>
              \<not> list_ex (\<lambda>e. dp_package e = dp_package d \<and> dp_dependency e = dp_dependency d) (rg_dependencies reg) \<and>
              find_package reg (dp_package d) \<noteq> None \<and> find_package reg (dp_dependency d) \<noteq> None) constraint_failed) (\<lambda>_.
     Inr (reg\<lparr>rg_dependencies := rg_dependencies reg @ [d]\<rparr>))"


section \<open>Registration\<close>

text \<open>The metadata of a package, completed with the evidence of its signature.\<close>

record package_meta =
  pm_publisher :: string
  pm_name :: string
  pm_version :: string
  pm_title :: "string option"
  pm_description :: "string option"
  pm_license :: "string option"
  pm_repository :: "string option"
  pm_has_lib :: bool
  pm_has_app :: bool
  pm_owner_hash :: "string option"
  pm_sha256 :: "string option"
  pm_leaf :: "string option"
  pm_dependencies :: "(string \<times> string \<times> string) list"

definition declared_dependencies :: "package_meta \<Rightarrow> (string \<times> string) list" where
  "declared_dependencies m = map (\<lambda>(publisher, name, version). (publisher @ ''/'' @ name, version)) (pm_dependencies m)"

definition http_methods :: "string list" where
  "http_methods = [''get'', ''head'', ''post'', ''put'', ''patch'', ''delete'', ''options'', ''trace'']"

definition access_groups :: "json \<Rightarrow> json option" where
  "access_groups doc = or_else (jget doc ''x-access-groups'') (jget (jidx doc ''x-pishoo'') ''access-groups'')"

definition operation_group :: "json \<Rightarrow> json option" where
  "operation_group op = or_else (jget op ''x-access-group'') (jget (jidx op ''x-pishoo'') ''access-group'')"

definition json_text :: "(json \<Rightarrow> string) \<Rightarrow> json \<Rightarrow> string" where
  "json_text render v = (case as_str v of Some s \<Rightarrow> s | None \<Rightarrow> render v)"

definition capability_rows :: "(json \<Rightarrow> string) \<Rightarrow> json \<Rightarrow> group_decl list" where
  "capability_rows render doc =
     (case Option.bind (access_groups doc) as_object of
        None \<Rightarrow> []
      | Some groups \<Rightarrow>
          sort (map (\<lambda>(gid, group).
            (gid, json_text render (jidx group ''title''),
             sort (concat (map (\<lambda>(path, item).
                List.map_filter (\<lambda>m. if Option.bind (operation_group (jidx item m)) as_str = Some gid
                                     then Some (to_ascii_uppercase m, path) else None) http_methods)
                (the (as_object (jidx doc ''paths'')))))))
            groups))"

definition mount_prefix :: "string option \<Rightarrow> string \<Rightarrow> string" where
  "mount_prefix author name = (if is_some_and is_standard_author author then ''/std'' else ''/'' @ name)"

text \<open>The declarations a package registers: mounted paths, and the App root for \<^verbatim>\<open>"app": true\<close> groups.\<close>

definition registered_groups ::
  "(json \<Rightarrow> string) \<Rightarrow> string option \<Rightarrow> string \<Rightarrow> package_meta \<Rightarrow> json res \<Rightarrow> group_decl list res"
where
  "registered_groups render author name meta doc =
     (if \<not> pm_has_lib meta then Inr []
      else try_r doc (\<lambda>document.
        collect_r (\<lambda>(gid, title, endpoints).
          let mounted = map (\<lambda>(m, p). (m, mount_prefix author name @ p)) endpoints in
          if is_some_and (\<lambda>group. jidx group ''app'' = JBool True) (Option.bind (access_groups document) (\<lambda>g. jget g gid)) then
            try_r (ensure_r (pm_has_app meta)
                     (InvalidComponent ''app capability requires this package's public resources'')) (\<lambda>_.
            Inr (gid, title, mounted @ [(''GET'', ''/app/'' @ name)]))
          else Inr (gid, title, mounted)) (capability_rows render document)))"

definition new_row :: "int \<Rightarrow> string \<Rightarrow> string option \<Rightarrow> package_meta \<Rightarrow> package_row" where
  "new_row now name author m =
     \<lparr>pk_name = name, pk_author = author, pk_version = pm_version m, pk_title = pm_title m,
      pk_description = pm_description m, pk_license = pm_license m, pk_repository = pm_repository m,
      pk_installed_at = Some now, pk_upgraded_at = None, pk_has_lib = pm_has_lib m,
      pk_has_app = pm_has_app m, pk_owner_hash = pm_owner_hash m, pk_sha256 = pm_sha256 m,
      pk_leaf = pm_leaf m\<rparr>"

text \<open>\<^verbatim>\<open>ON CONFLICT(name) DO UPDATE\<close>: everything but the time of the first installation.\<close>

definition upgraded_row :: "int \<Rightarrow> package_row \<Rightarrow> package_row \<Rightarrow> package_row" where
  "upgraded_row now new old = new\<lparr>pk_installed_at := pk_installed_at old, pk_upgraded_at := Some now\<rparr>"

definition upsert_package :: "int \<Rightarrow> string \<Rightarrow> string option \<Rightarrow> package_meta \<Rightarrow> registry \<Rightarrow> registry res" where
  "upsert_package now name author m reg =
     try_r (ensure_r (pm_has_lib m \<or> pm_has_app m) constraint_failed) (\<lambda>_.
     (case find_package reg name of
        None \<Rightarrow> Inr (reg\<lparr>rg_packages := rg_packages reg @ [new_row now name author m]\<rparr>)
      | Some _ \<Rightarrow> Inr (reg\<lparr>rg_packages := map (\<lambda>p. if pk_name p = name
                    then upgraded_row now (new_row now name author m) p else p) (rg_packages reg)\<rparr>)))"

text \<open>One iteration of the loop over the declared dependencies.\<close>

definition add_dependency :: "string \<Rightarrow> (string \<times> string) \<Rightarrow> registry \<Rightarrow> registry res" where
  "add_dependency pid dep reg = (case dep of (dependency, version) \<Rightarrow>
     (case split_once (CHR ''/'') dependency of
        None \<Rightarrow> Inl (conflict_error ''unreachable'')
      | Some (dependency_author, dependency_name) \<Rightarrow>
          try_r (ensure_r (list_ex (\<lambda>p. pk_author p = Some dependency_author \<and> pk_name p = dependency_name \<and>
                                        pk_version p = version) (rg_packages reg))
                   (conflict_error (''dependency '' @ dependency @ ''@'' @ version @ '' is not installed''))) (\<lambda>_.
          try_r (check_dependency_cycle (rg_dependencies reg) pid dependency) (\<lambda>_.
          insert_dependency \<lparr>dp_package = short_name pid, dp_dependency = dependency_name, dp_version = version\<rparr> reg))))"

definition drop_dependencies :: "string \<Rightarrow> registry \<Rightarrow> registry" where
  "drop_dependencies name reg = reg\<lparr>rg_dependencies := filter (\<lambda>d. dp_package d \<noteq> name) (rg_dependencies reg)\<rparr>"

definition required_by :: "registry \<Rightarrow> string \<Rightarrow> string \<Rightarrow> string list" where
  "required_by reg pid version =
     map (\<lambda>(p, d). row_id p @ '' requires '' @ pid @ ''@'' @ dp_version d)
       (sort_key (\<lambda>(p, _). pk_name p)
         (List.map_filter (\<lambda>d. map_option (\<lambda>p. (p, d)) (find_package reg (dp_package d)))
           (filter (\<lambda>d. dp_dependency d = short_name pid \<and> dp_version d \<noteq> version) (rg_dependencies reg))))"

definition save_registration ::
  "(json \<Rightarrow> string) \<Rightarrow> int \<Rightarrow> string \<Rightarrow> package_meta \<Rightarrow> json res \<Rightarrow> registry \<Rightarrow> registry res"
where
  "save_registration render now pid meta doc reg =
     try_r (check_name reg pid ''pkg'') (\<lambda>_.
     let name = short_name pid; author = id_author pid in
     try_r (ensure_r (\<not> (case map_option pk_owner_hash (find_package reg name) of
                          Some (Some owner) \<Rightarrow> pm_owner_hash meta \<noteq> Some owner | _ \<Rightarrow> False))
              (PackagePolicy ''publisher_ownership_conflict'' 409)) (\<lambda>_.
     try_r (ensure_r (required_by reg pid (pm_version meta) = [])
              (conflict_error (''package version is required by installed dependencies: '' @
                 join_with ''; '' (required_by reg pid (pm_version meta))))) (\<lambda>_.
     try_r (upsert_package now name author meta reg) (\<lambda>reg1.
     try_r (fold_r (add_dependency pid) (declared_dependencies meta) (drop_dependencies name reg1)) (\<lambda>reg2.
     try_r (registered_groups render author name meta doc) (\<lambda>groups.
     permissions name groups reg2))))))"

text \<open>The registrations of one installation: every changed package gives up its constraints first.\<close>

type_synonym change = "string \<times> package_meta \<times> json res"

definition register_packages :: "(json \<Rightarrow> string) \<Rightarrow> int \<Rightarrow> change list \<Rightarrow> registry \<Rightarrow> registry res" where
  "register_packages render now changed reg =
     fold_r (\<lambda>(pid, meta, doc). save_registration render now pid meta doc) changed
       (fold (\<lambda>(pid, _, _). drop_dependencies (short_name pid)) changed reg)"

text \<open>The database part of \<^verbatim>\<open>remove_package\<close>: \<^const>\<open>None\<close> where the package is not installed and nothing is done.\<close>

definition remove_package :: "normalizer \<Rightarrow> string \<Rightarrow> registry \<Rightarrow> registry option res" where
  "remove_package norm pid reg =
     try_r (valid_id norm pid) (\<lambda>_.
     if registered_packages norm reg ''pkg'' (Some pid) = Inl RouteNotFound then Inr None
     else
       let short = short_name pid in
       try_r (ensure_r (\<not> list_ex (\<lambda>d. dp_dependency d = short) (rg_dependencies reg))
                (conflict_error ''package is required by installed dependencies'')) (\<lambda>_.
       try_r (permissions short [] reg) (\<lambda>reg1.
       Inr (Some (drop_dependencies short
         (reg1\<lparr>rg_packages := filter (\<lambda>p. pk_name p \<noteq> short) (rg_packages reg1)\<rparr>))))))"


section \<open>Preparing the database\<close>

text \<open>
  \<^verbatim>\<open>migrate_registration\<close>, which an installation or a removal runs first, in a transaction of its own:
  the operations that earlier releases mounted below \<^verbatim>\<open>/std\<close> for the Libs of other publishers move below
  the Lib's own mount; references and exact dependencies are checked. A table that still has the layout
  with the \<^verbatim>\<open>/std/\<close> check is rebuilt before with the same rows; a table has no layout here.
\<close>

definition legacy_operation :: "registry \<Rightarrow> operation_row \<Rightarrow> bool" where
  "legacy_operation reg p = (starts_with ''/std/'' (op_path p) \<and>
     list_ex (\<lambda>row. pk_name row = op_lib p \<and> pk_has_lib row \<and> \<not> is_some_and is_standard_author (pk_author row)) (rg_packages reg))"

definition migrated_operation :: "registry \<Rightarrow> operation_row \<Rightarrow> operation_row" where
  "migrated_operation reg p =
     (if legacy_operation reg p then p\<lparr>op_path := ''/'' @ op_lib p @ drop 4 (op_path p)\<rparr> else p)"

definition migrate_registration :: "registry \<Rightarrow> registry res" where
  "migrate_registration reg =
     (let operations = map (migrated_operation reg) (rg_operations reg) in
     try_r (ensure_r (distinct (map (\<lambda>p. (op_method p, op_path p)) operations)) constraint_failed) (\<lambda>_.
     try_r (ensure_r (list_all (\<lambda>d. find_package reg (dp_package d) \<noteq> None \<and> find_package reg (dp_dependency d) \<noteq> None) (rg_dependencies reg) \<and>
              list_all (\<lambda>p. list_ex (\<lambda>c. cp_lib c = op_lib p \<and> cp_id c = op_cap p) (rg_capabilities reg)) operations)
              (InvalidConfig ''broken installation references'')) (\<lambda>_.
     try_r (ensure_r (\<not> list_ex (\<lambda>d. is_some_and (\<lambda>p. pk_version p \<noteq> dp_version d) (find_package reg (dp_dependency d))) (rg_dependencies reg))
              (InvalidConfig ''broken exact package dependencies'')) (\<lambda>_.
     Inr (reg\<lparr>rg_operations := operations\<rparr>)))))"

section \<open>Writing declarations over HTTP\<close>

definition valid_text :: "json \<Rightarrow> bool" where
  "valid_text v = is_some_and (\<lambda>t. str_trim t \<noteq> [] \<and> \<not> list_ex is_control (str_chars t)) (as_str v)"

definition valid_title :: "json \<Rightarrow> bool" where
  "valid_title t = (valid_text t \<or>
     is_some_and (\<lambda>m. length m = 2 \<and> valid_text (jidx t ''en'') \<and> valid_text (jidx t ''zh-CN'')) (as_object t))"

definition declare_endpoint ::
  "(string \<times> string) list \<Rightarrow> json \<Rightarrow> (string \<times> string) list \<times> (string \<times> string) list
     \<Rightarrow> ((string \<times> string) list \<times> (string \<times> string) list) res"
where
  "declare_endpoint available operation st = (case st of (endpoints, declared) \<Rightarrow>
     try_r (ensure_r (\<not> is_none_or (\<lambda>m. length m \<noteq> 2) (as_object operation))
              (BadRequest ''endpoint requires exactly method and path'')) (\<lambda>_.
     try_r (ok_or (as_str (jidx operation ''method'')) (BadRequest ''invalid endpoint method'')) (\<lambda>m.
     try_r (ok_or (as_str (jidx operation ''path'')) (BadRequest ''invalid endpoint path'')) (\<lambda>p.
     try_r (ensure_r ((m, p) \<in> set available \<and> (m, p) \<notin> set endpoints)
              (BadRequest ''endpoint is unavailable or belongs to multiple groups'')) (\<lambda>_.
     Inr ((m, p) # endpoints, declared @ [(m, p)]))))))"

definition declare_group ::
  "normalizer \<Rightarrow> (json \<Rightarrow> string) \<Rightarrow> (string \<times> string) list \<Rightarrow> json
     \<Rightarrow> string list \<times> (string \<times> string) list \<times> group_decl list
     \<Rightarrow> (string list \<times> (string \<times> string) list \<times> group_decl list) res"
where
  "declare_group norm render available grp st = (case st of (ids, endpoints, rows) \<Rightarrow>
     try_r (ok_or (opt_filter (\<lambda>m. length m = 3) (as_object grp))
              (BadRequest ''group requires exactly id, title and endpoints'')) (\<lambda>_.
     try_r (ok_or (Option.bind (jget grp ''id'') as_str) (BadRequest ''invalid group id'')) (\<lambda>gid.
     try_r (valid_id norm gid) (\<lambda>_.
     try_r (ensure_r (\<not> (CHR ''/'' \<in> set gid \<or> gid \<in> set ids)) (BadRequest ''invalid or duplicate group id'')) (\<lambda>_.
     let title = jidx grp ''title'' in
     try_r (ensure_r (valid_title title) (BadRequest ''title must be text or contain en and zh-CN text'')) (\<lambda>_.
     try_r (ok_or (opt_filter (\<lambda>xs. xs \<noteq> []) (Option.bind (jget grp ''endpoints'') as_array))
              (BadRequest ''group must contain endpoints'')) (\<lambda>operations.
     try_r (fold_r (declare_endpoint available) operations (endpoints, [])) (\<lambda>(endpoints', declared).
     Inr (gid # ids, endpoints', rows @ [(gid, json_text render title, declared)])))))))))"

text \<open>
  \<^verbatim>\<open>write_declarations\<close>; \<open>lib_operations\<close> is what opening and validating the installed component
  gives, its operations as method and path.
\<close>

definition write_declarations ::
  "normalizer \<Rightarrow> (json \<Rightarrow> string) \<Rightarrow> (string \<times> string) list res \<Rightarrow> string \<Rightarrow> string \<Rightarrow> json \<Rightarrow> registry \<Rightarrow> registry res"
where
  "write_declarations norm render lib_operations name mtd groups reg =
     (let installed = find (\<lambda>p. pk_name p = name \<and> pk_has_lib p) (rg_packages reg) in
     try_r (ensure_r (\<not> (mtd = ''PUT'' \<and> installed = None)) RouteNotFound) (\<lambda>_.
     try_r (ok_or (as_array groups) (BadRequest ''permissions must be an array'')) (\<lambda>gs.
     try_r (if mtd = ''PUT'' \<and> gs \<noteq> [] then
              try_r lib_operations (\<lambda>ops.
              Inr ((if is_some_and pk_has_app installed then [(''GET'', ''/app/'' @ name)] else []) @
                   map (\<lambda>(m, p). (m, mount_prefix (Option.bind installed pk_author) name @ p)) ops))
            else Inr []) (\<lambda>available.
     try_r (fold_r (declare_group norm render available) gs ([], [], [])) (\<lambda>(_, _, rows).
     permissions name rows reg)))))"

section \<open>The registry's invariant\<close>

definition dep_graph :: "dependency_row list \<Rightarrow> (string \<times> string) set" where
  "dep_graph deps = (\<lambda>d. (dp_package d, dp_dependency d)) ` set deps"

text \<open>Packages and dependencies: unique names, exact dependencies that are installed, no cycle.\<close>

definition graph_ok :: "registry \<Rightarrow> bool" where
  "graph_ok reg =
     (distinct (map pk_name (rg_packages reg)) \<and>
      (\<forall>p \<in> set (rg_packages reg). CHR ''/'' \<notin> set (pk_name p) \<and> (pk_has_lib p \<or> pk_has_app p)) \<and>
      (\<forall>d \<in> set (rg_dependencies reg). dp_package d \<in> pk_name ` set (rg_packages reg) \<and>
         (\<exists>p \<in> set (rg_packages reg). pk_name p = dp_dependency d \<and> pk_version p = dp_version d)) \<and>
      distinct (map (\<lambda>d. (dp_package d, dp_dependency d)) (rg_dependencies reg)) \<and>
      acyclic (dep_graph (rg_dependencies reg)))"

text \<open>Declarations: unique groups, one group per operation, every group belongs to an installed Lib.\<close>

definition acl_keys_ok :: "registry \<Rightarrow> bool" where
  "acl_keys_ok reg =
     (distinct (map (\<lambda>c. (cp_lib c, cp_id c)) (rg_capabilities reg)) \<and>
      distinct (map (\<lambda>p. (op_method p, op_path p)) (rg_operations reg)) \<and>
      (\<forall>p \<in> set (rg_operations reg). \<exists>c \<in> set (rg_capabilities reg). cp_lib c = op_lib p \<and> cp_id c = op_cap p))"

definition acl_owned :: "registry \<Rightarrow> bool" where
  "acl_owned reg = (\<forall>c \<in> set (rg_capabilities reg).
     \<exists>p \<in> set (rg_packages reg). pk_name p = cp_lib c \<and> pk_has_lib p)"

definition registry_ok :: "registry \<Rightarrow> bool" where
  "registry_ok reg = (graph_ok reg \<and> acl_keys_ok reg \<and> acl_owned reg)"

section \<open>The cycle search\<close>

lemma reach_leaves:
  assumes "(s, t) \<in> G\<^sup>*" and "s \<in> A" and "t \<notin> A" and "\<And>a b. a \<in> A \<Longrightarrow> (a, b) \<in> G \<Longrightarrow> b \<in> A \<union> B"
  shows "\<exists>b \<in> B. (b, t) \<in> G\<^sup>*"
  using assms(1,2)
proof (induction rule: converse_rtrancl_induct)
  case base
  with assms(3) show ?case by simp
next
  case (step y z)
  with assms(4) [of y z] show ?case by blast
qed

lemma dep_graph_names: "(a, b) \<in> dep_graph deps \<longleftrightarrow> b \<in> set (dependency_names deps a)"
  by (auto simp: dep_graph_def dependency_names_def)

lemma cycle_loop_iff:
  assumes "name \<notin> set seen"
    and "\<And>a b. a \<in> set seen \<Longrightarrow> (a, b) \<in> dep_graph deps \<Longrightarrow> b \<in> set seen \<union> set pending"
  shows "cycle_loop deps name pending seen \<longleftrightarrow> (\<exists>c \<in> set pending. (c, name) \<in> (dep_graph deps)\<^sup>*)"
  using assms
proof (induction deps name pending seen rule: cycle_loop.induct)
  case (2 deps name current pending seen)
  let ?G = "dep_graph deps"
  consider (found) "current = name" | (again) "current \<noteq> name" "current \<in> set seen"
    | (new) "current \<noteq> name" "current \<notin> set seen" by blast
  then show ?case
  proof cases
    case again
    have cl: "b \<in> set seen \<union> set pending" if "a \<in> set seen" "(a, b) \<in> ?G" for a b
      using "2.prems"(2) [OF that] again by auto
    have "\<exists>c \<in> set pending. (c, name) \<in> ?G\<^sup>*" if "(current, name) \<in> ?G\<^sup>*"
      by (rule reach_leaves [OF that again(2) "2.prems"(1) cl])
    moreover have "cycle_loop deps name pending seen \<longleftrightarrow> (\<exists>c \<in> set pending. (c, name) \<in> ?G\<^sup>*)"
      by (rule "2.IH"(1) [OF again(1,2) "2.prems"(1)]) (rule cl)
    ultimately show ?thesis using again by auto
  next
    case new
    have "(current, name) \<in> ?G\<^sup>* \<longleftrightarrow> (\<exists>c \<in> set (dependency_names deps current). (c, name) \<in> ?G\<^sup>*)"
      unfolding dep_graph_names [symmetric]
      using new(1) by (metis converse_rtranclE converse_rtrancl_into_rtrancl dep_graph_names)
    moreover have "cycle_loop deps name (rev (dependency_names deps current) @ pending) (current # seen) \<longleftrightarrow>
        (\<exists>c \<in> set (rev (dependency_names deps current) @ pending). (c, name) \<in> ?G\<^sup>*)"
      using new "2.prems" by (intro "2.IH"(2)) (auto simp: dep_graph_names)
    ultimately show ?thesis using new by auto
  qed auto
qed simp

lemma check_dependency_cycle_iff:
  "check_dependency_cycle deps pid dependency = Inr u \<longleftrightarrow> (short_name dependency, short_name pid) \<notin> (dep_graph deps)\<^sup>*"
  using cycle_loop_iff [of "short_name pid" "[]" deps "[short_name dependency]"]
  by (simp add: check_dependency_cycle_def del: cycle_loop.simps)


section \<open>Every operation keeps the invariant\<close>

lemma short_name_no_slash [simp]: "CHR ''/'' \<notin> set (short_name pid)"
  by (simp add: short_name_def)

lemma short_name_after [simp]: "CHR ''/'' \<notin> set b \<Longrightarrow> short_name (a @ CHR ''/'' # b) = b"
  by (simp add: short_name_def)

lemma find_package_None_iff [simp]: "find_package reg n = None \<longleftrightarrow> n \<notin> pk_name ` set (rg_packages reg)"
  by (auto simp: find_package_def find_None_iff)

lemma find_package_Some: "find_package reg n = Some p \<Longrightarrow> p \<in> set (rg_packages reg) \<and> pk_name p = n"
  by (auto simp: find_package_def find_Some_iff)

lemma find_package_cong: "rg_packages reg = rg_packages reg' \<Longrightarrow> find_package reg = find_package reg'"
  by (rule ext) (simp add: find_package_def)

lemma drop_dependencies_simps [simp]:
  "rg_packages (drop_dependencies n reg) = rg_packages reg"
  "rg_capabilities (drop_dependencies n reg) = rg_capabilities reg"
  "rg_operations (drop_dependencies n reg) = rg_operations reg"
  "set (rg_dependencies (drop_dependencies n reg)) = {d \<in> set (rg_dependencies reg). dp_package d \<noteq> n}"
  by (auto simp: drop_dependencies_def)

lemma dep_graph_mono: "set a \<subseteq> set b \<Longrightarrow> dep_graph a \<subseteq> dep_graph b"
  by (auto simp: dep_graph_def)

lemma dep_graph_snoc: "dep_graph (ds @ [d]) = insert (dp_package d, dp_dependency d) (dep_graph ds)"
  by (auto simp: dep_graph_def)

lemma drop_dependencies_graph_ok: "graph_ok reg \<Longrightarrow> graph_ok (drop_dependencies n reg)"
  by (auto simp: graph_ok_def drop_dependencies_def dep_graph_def distinct_map intro: inj_on_subset acyclic_subset)

lemma add_dependency_ok:
  assumes "add_dependency pid dep reg = Inr reg'" and "graph_ok reg"
  shows "graph_ok reg'" and "rg_packages reg' = rg_packages reg"
    and "rg_capabilities reg' = rg_capabilities reg" and "rg_operations reg' = rg_operations reg"
proof -
  from assms(1) obtain dependency version da dn p where
    sp: "dependency = da @ CHR ''/'' # dn" and
    p: "p \<in> set (rg_packages reg)" "pk_name p = dn" "pk_version p = version" and
    cyc: "check_dependency_cycle (rg_dependencies reg) pid dependency = Inr ()" and
    ins: "insert_dependency \<lparr>dp_package = short_name pid, dp_dependency = dn, dp_version = version\<rparr> reg = Inr reg'"
    by (auto simp: add_dependency_def try_r_Inr_iff list_ex_iff split_once_Some_iff split: prod.splits option.splits)
  have "CHR ''/'' \<notin> set dn" using p assms(2) by (auto simp: graph_ok_def)
  with sp cyc have acyc: "(dn, short_name pid) \<notin> (dep_graph (rg_dependencies reg))\<^sup>*"
    by (simp add: check_dependency_cycle_iff)
  show "rg_packages reg' = rg_packages reg" "rg_capabilities reg' = rg_capabilities reg"
      "rg_operations reg' = rg_operations reg"
    using ins by (auto simp: insert_dependency_def try_r_Inr_iff)
  let ?d = "\<lparr>dp_package = short_name pid, dp_dependency = dn, dp_version = version\<rparr>"
  have reg': "rg_dependencies reg' = rg_dependencies reg @ [?d]"
    and new: "(short_name pid, dn) \<notin> set (map (\<lambda>d. (dp_package d, dp_dependency d)) (rg_dependencies reg))"
    and inst: "short_name pid \<in> pk_name ` set (rg_packages reg)"
    using ins by (auto simp: insert_dependency_def try_r_Inr_iff list_ex_iff)
  have "acyclic (dep_graph (rg_dependencies reg'))"
    using assms(2) acyc by (simp add: reg' dep_graph_snoc acyclic_insert graph_ok_def)
  moreover have "distinct (map (\<lambda>d. (dp_package d, dp_dependency d)) (rg_dependencies reg'))"
    using assms(2) new by (simp add: reg' graph_ok_def)
  ultimately show "graph_ok reg'"
    using assms(2) p inst by (auto simp: graph_ok_def reg' \<open>rg_packages reg' = rg_packages reg\<close>)
qed

lemma add_dependencies_ok:
  assumes "fold_r (add_dependency pid) deps reg = Inr reg'" and "graph_ok reg"
  shows "graph_ok reg' \<and> rg_packages reg' = rg_packages reg \<and> rg_capabilities reg' = rg_capabilities reg \<and>
    rg_operations reg' = rg_operations reg"
proof (rule fold_r_invariant [OF assms(1), where I = "\<lambda>r. graph_ok r \<and> rg_packages r = rg_packages reg \<and>
    rg_capabilities r = rg_capabilities reg \<and> rg_operations r = rg_operations reg"])
  fix x s s'
  assume "graph_ok s \<and> rg_packages s = rg_packages reg \<and> rg_capabilities s = rg_capabilities reg \<and>
      rg_operations s = rg_operations reg" and "add_dependency pid x s = Inr s'"
  then show "graph_ok s' \<and> rg_packages s' = rg_packages reg \<and> rg_capabilities s' = rg_capabilities reg \<and>
      rg_operations s' = rg_operations reg"
    using add_dependency_ok by metis
qed (use assms(2) add_dependency_ok in \<open>auto\<close>)

text \<open>What \<^const>\<open>required_by\<close> being empty means for the installed dependents.\<close>

lemma required_by_empty:
  assumes "graph_ok reg" and "required_by reg pid version = []"
    and "d \<in> set (rg_dependencies reg)" and "dp_dependency d = short_name pid"
  shows "dp_version d = version"
proof (rule ccontr)
  assume "dp_version d \<noteq> version"
  with assms(3,4) have mem: "d \<in> set (filter (\<lambda>d. dp_dependency d = short_name pid \<and> dp_version d \<noteq> version) (rg_dependencies reg))"
    by simp
  from assms(1,3) have inst: "dp_package d \<in> pk_name ` set (rg_packages reg)" by (auto simp: graph_ok_def)
  then obtain p where "find_package reg (dp_package d) = Some p" by (cases "find_package reg (dp_package d)") auto
  with mem inst have "(p, d) \<in> set (List.map_filter (\<lambda>d. map_option (\<lambda>p. (p, d)) (find_package reg (dp_package d)))
      (filter (\<lambda>d. dp_dependency d = short_name pid \<and> dp_version d \<noteq> version) (rg_dependencies reg)))"
    unfolding List.map_filter_def by (auto intro!: image_eqI [of _ _ d] dest: find_package_Some)
  moreover from assms(2) have "sort_key (\<lambda>(p, _). pk_name p)
      (List.map_filter (\<lambda>d. map_option (\<lambda>p. (p, d)) (find_package reg (dp_package d)))
        (filter (\<lambda>d. dp_dependency d = short_name pid \<and> dp_version d \<noteq> version) (rg_dependencies reg))) = []"
    by (simp add: required_by_def)
  ultimately show False by (simp add: sort_key_Nil)
qed

lemma new_row_simps [simp]:
  "pk_name (new_row now n author m) = n" "pk_version (new_row now n author m) = pm_version m"
  "pk_has_lib (new_row now n author m) = pm_has_lib m" "pk_has_app (new_row now n author m) = pm_has_app m"
  "pk_author (new_row now n author m) = author" "pk_owner_hash (new_row now n author m) = pm_owner_hash m"
  by (simp_all add: new_row_def)

lemma upgraded_row_simps [simp]:
  "pk_name (upgraded_row now new old) = pk_name new" "pk_version (upgraded_row now new old) = pk_version new"
  "pk_has_lib (upgraded_row now new old) = pk_has_lib new" "pk_has_app (upgraded_row now new old) = pk_has_app new"
  "pk_author (upgraded_row now new old) = pk_author new" "pk_owner_hash (upgraded_row now new old) = pk_owner_hash new"
  by (simp_all add: upgraded_row_def)

lemma upsert_package_cases:
  assumes "upsert_package now n author m reg = Inr reg'"
  obtains (fresh) "n \<notin> pk_name ` set (rg_packages reg)" "pm_has_lib m \<or> pm_has_app m"
      "reg' = reg\<lparr>rg_packages := rg_packages reg @ [new_row now n author m]\<rparr>"
  | (upgrade) "n \<in> pk_name ` set (rg_packages reg)" "pm_has_lib m \<or> pm_has_app m"
      "reg' = reg\<lparr>rg_packages := map (\<lambda>p. if pk_name p = n then upgraded_row now (new_row now n author m) p else p)
         (rg_packages reg)\<rparr>"
proof (cases "find_package reg n")
  case None
  with assms show ?thesis by (intro fresh) (auto simp: upsert_package_def try_r_Inr_iff)
next
  case (Some q)
  with assms find_package_Some [OF Some] show ?thesis
    by (intro upgrade) (auto simp: upsert_package_def try_r_Inr_iff)
qed

lemma map_keys_update: "map pk_name (map (\<lambda>p. if pk_name p = n then f p else p) ps) = map pk_name ps"
  if "\<And>p. pk_name (f p) = n"
  using that by (induction ps) auto

definition upserted :: "string \<Rightarrow> string option \<Rightarrow> package_meta \<Rightarrow> package_row \<Rightarrow> bool" where
  "upserted n author m p = (pk_name p = n \<and> pk_version p = pm_version m \<and> pk_has_lib p = pm_has_lib m \<and>
     pk_has_app p = pm_has_app m \<and> pk_author p = author \<and> pk_owner_hash p = pm_owner_hash m \<and>
     (pm_has_lib m \<or> pm_has_app m))"

lemma upsert_package_row:
  assumes "upsert_package now n author m reg = Inr reg'"
  shows "pk_name ` set (rg_packages reg') = insert n (pk_name ` set (rg_packages reg))"
    and "distinct (map pk_name (rg_packages reg)) \<Longrightarrow> distinct (map pk_name (rg_packages reg'))"
    and "\<And>p. p \<in> set (rg_packages reg') \<Longrightarrow> p \<in> set (rg_packages reg) \<and> pk_name p \<noteq> n \<or> upserted n author m p"
    and "\<And>p. p \<in> set (rg_packages reg) \<Longrightarrow> pk_name p \<noteq> n \<Longrightarrow> p \<in> set (rg_packages reg')"
    and "rg_dependencies reg' = rg_dependencies reg \<and> rg_capabilities reg' = rg_capabilities reg \<and>
         rg_operations reg' = rg_operations reg"
proof -
  let ?f = "\<lambda>p. if pk_name p = n then upgraded_row now (new_row now n author m) p else p"
  have keys: "map pk_name (map ?f ps) = map pk_name ps" for ps by (rule map_keys_update) simp
  have up: "upserted n author m (?f p)" if "pm_has_lib m \<or> pm_has_app m" "pk_name p = n" for p
    using that by (simp add: upserted_def)
  have img: "pk_name ` set (map ?f ps) = pk_name ` set ps" for ps using keys [of ps] by (metis list.set_map)
  show "pk_name ` set (rg_packages reg') = insert n (pk_name ` set (rg_packages reg))"
    using assms by (cases rule: upsert_package_cases) (simp_all add: img insert_absorb del: set_map)
  show "distinct (map pk_name (rg_packages reg'))" if "distinct (map pk_name (rg_packages reg))"
    using assms by (cases rule: upsert_package_cases) (use that in \<open>simp_all add: keys del: map_map\<close>)
  show "p \<in> set (rg_packages reg) \<and> pk_name p \<noteq> n \<or> upserted n author m p" if "p \<in> set (rg_packages reg')" for p
    using assms
  proof (cases rule: upsert_package_cases)
    case fresh
    with that show ?thesis by (auto simp: upserted_def)
  next
    case upgrade
    with that obtain q where "q \<in> set (rg_packages reg)" "p = ?f q" by auto
    with up [OF upgrade(2)] show ?thesis by (cases "pk_name q = n") auto
  qed
  show "p \<in> set (rg_packages reg')" if "p \<in> set (rg_packages reg)" "pk_name p \<noteq> n" for p
    using assms by (cases rule: upsert_package_cases) (use that in auto)
  show "rg_dependencies reg' = rg_dependencies reg \<and> rg_capabilities reg' = rg_capabilities reg \<and>
         rg_operations reg' = rg_operations reg"
    using assms by (cases rule: upsert_package_cases) simp_all
qed

lemma upsert_package_graph_ok:
  assumes "upsert_package now (short_name pid) author m reg = Inr reg'" and "graph_ok reg"
    and "required_by reg pid (pm_version m) = []"
  shows "graph_ok reg'"
proof -
  let ?n = "short_name pid"
  note row = upsert_package_row [OF assms(1)]
  obtain r where r: "r \<in> set (rg_packages reg')" "pk_name r = ?n" using row(1) by (metis imageE insertI1)
  then have rv: "pk_version r = pm_version m" using row(3) [OF r(1)] by (auto simp: upserted_def)
  have dep: "\<exists>p \<in> set (rg_packages reg'). pk_name p = dp_dependency d \<and> pk_version p = dp_version d"
    if d: "d \<in> set (rg_dependencies reg)" for d
  proof (cases "dp_dependency d = ?n")
    case True
    with required_by_empty [OF assms(2,3) d] r rv show ?thesis by auto
  next
    case False
    with assms(2) d row(4) show ?thesis by (fastforce simp: graph_ok_def)
  qed
  have flags: "CHR ''/'' \<notin> set (pk_name p) \<and> (pk_has_lib p \<or> pk_has_app p)" if "p \<in> set (rg_packages reg')" for p
    using row(3) [OF that] assms(2) by (auto simp: graph_ok_def upserted_def)
  show ?thesis
    using assms(2) row(1,2,5) dep flags by (auto simp: graph_ok_def)
qed


lemma insert_capability_ok:
  assumes "insert_capability c reg = Inr reg'" and "acl_keys_ok reg"
  shows "acl_keys_ok reg'" and "rg_capabilities reg' = rg_capabilities reg @ [c]"
    and "reg' = reg\<lparr>rg_capabilities := rg_capabilities reg @ [c]\<rparr>"
  using assms by (auto simp: insert_capability_def acl_keys_ok_def try_r_Inr_iff list_ex_iff; blast)+

lemma insert_operation_ok:
  assumes "insert_operation p reg = Inr reg'" and "acl_keys_ok reg"
  shows "acl_keys_ok reg'" and "rg_capabilities reg' = rg_capabilities reg"
    and "rg_packages reg' = rg_packages reg" and "rg_dependencies reg' = rg_dependencies reg"
    and "rg_operations reg' = rg_operations reg @ [p]"
  using assms by (auto simp: insert_operation_def acl_keys_ok_def try_r_Inr_iff list_ex_iff; blast)+

text \<open>What the two loops of \<^const>\<open>permissions\<close> keep of the registry they start from.\<close>

definition acl_grows :: "string \<Rightarrow> registry \<Rightarrow> registry \<Rightarrow> bool" where
  "acl_grows name reg reg' =
     (acl_keys_ok reg' \<and> rg_packages reg' = rg_packages reg \<and> rg_dependencies reg' = rg_dependencies reg \<and>
      (\<exists>cs ops. rg_capabilities reg' = rg_capabilities reg @ cs \<and> rg_operations reg' = rg_operations reg @ ops \<and>
         (\<forall>c \<in> set cs. cp_lib c = name) \<and> (\<forall>p \<in> set ops. op_lib p = name)))"

lemma acl_grows_trans: "acl_grows n a b \<Longrightarrow> acl_grows n b c \<Longrightarrow> acl_grows n a c"
  unfolding acl_grows_def by force

lemma acl_grows_capability:
  "insert_capability c reg = Inr reg' \<Longrightarrow> acl_keys_ok reg \<Longrightarrow> acl_grows (cp_lib c) reg reg'"
  using insert_capability_ok(1) [of c reg reg'] insert_capability_ok(3) [of c reg reg'] by (simp add: acl_grows_def)

lemma acl_grows_operation:
  "insert_operation p reg = Inr reg' \<Longrightarrow> acl_keys_ok reg \<Longrightarrow> acl_grows (op_lib p) reg reg'"
  using insert_operation_ok [of p reg reg'] by (auto simp: acl_grows_def)

lemma acl_grows_fold:
  assumes "fold_r f xs reg = Inr reg'" and "acl_keys_ok reg"
    and "\<And>x r r'. x \<in> set xs \<Longrightarrow> f x r = Inr r' \<Longrightarrow> acl_keys_ok r \<Longrightarrow> acl_grows n r r'"
  shows "acl_grows n reg reg'"
proof (rule fold_r_invariant [OF assms(1)])
  show "acl_grows n reg reg" using assms(2) by (simp add: acl_grows_def)
  fix x r r' assume "x \<in> set xs" "acl_grows n reg r" "f x r = Inr r'"
  then show "acl_grows n reg r'"
    using assms(3) [of x r r'] acl_grows_trans by (auto simp: acl_grows_def)
qed

definition cleared :: "string \<Rightarrow> registry \<Rightarrow> registry" where
  "cleared name reg = reg\<lparr>rg_capabilities := filter (\<lambda>c. cp_lib c \<noteq> name) (rg_capabilities reg),
     rg_operations := filter (\<lambda>p. op_lib p \<noteq> name) (rg_operations reg)\<rparr>"

lemma cleared_keys_ok: "acl_keys_ok reg \<Longrightarrow> acl_keys_ok (cleared name reg)"
  by (fastforce simp: acl_keys_ok_def cleared_def distinct_map intro: inj_on_subset)

lemma permissions_grows:
  assumes "permissions name groups reg = Inr reg'" and "acl_keys_ok reg"
  shows "acl_grows name (cleared name reg) reg'"
proof -
  let ?g = "\<lambda>(gid, title, endpoints) reg. try_r (insert_capability \<lparr>cp_lib = name, cp_id = gid, cp_title = title\<rparr> reg)
     (fold_r (\<lambda>(m, p). insert_operation \<lparr>op_lib = name, op_cap = gid, op_method = m, op_path = p\<rparr>) endpoints)"
  have eq: "fold_r ?g groups (cleared name reg) = Inr reg'" using assms(1) by (simp add: permissions_def cleared_def)
  have step: "acl_grows name r r'" if "?g x r = Inr r'" "acl_keys_ok r" for x r r'
  proof -
    obtain gid title endpoints where x: "x = (gid, title, endpoints)" by (cases x)
    from that x obtain r1 where r1: "insert_capability \<lparr>cp_lib = name, cp_id = gid, cp_title = title\<rparr> r = Inr r1"
      "fold_r (\<lambda>(m, p). insert_operation \<lparr>op_lib = name, op_cap = gid, op_method = m, op_path = p\<rparr>) endpoints r1 = Inr r'"
      by (auto simp: try_r_Inr_iff)
    have g1: "acl_grows name r r1" using acl_grows_capability [OF r1(1) that(2)] by simp
    then have "acl_keys_ok r1" by (simp add: acl_grows_def)
    then have "acl_grows name r1 r'"
      by (rule acl_grows_fold [OF r1(2)]) (auto dest!: acl_grows_operation)
    with g1 show ?thesis by (rule acl_grows_trans)
  qed
  show ?thesis by (rule acl_grows_fold [OF eq cleared_keys_ok [OF assms(2)]]) (rule step)
qed

lemma permissions_ok:
  assumes "permissions name groups reg = Inr reg'" and "acl_keys_ok reg"
  shows "acl_keys_ok reg'" and "rg_packages reg' = rg_packages reg" and "rg_dependencies reg' = rg_dependencies reg"
    and "\<And>c. c \<in> set (rg_capabilities reg') \<Longrightarrow> cp_lib c \<noteq> name \<Longrightarrow> c \<in> set (rg_capabilities reg)"
    and "groups = [] \<Longrightarrow> reg' = cleared name reg"
proof -
  note g = permissions_grows [OF assms]
  show "acl_keys_ok reg'" "rg_packages reg' = rg_packages reg" "rg_dependencies reg' = rg_dependencies reg"
    using g by (auto simp: acl_grows_def cleared_def)
  show "c \<in> set (rg_capabilities reg)" if "c \<in> set (rg_capabilities reg')" "cp_lib c \<noteq> name" for c
    using g that by (auto simp: acl_grows_def cleared_def)
  show "reg' = cleared name reg" if "groups = []"
    using assms(1) that by (simp add: permissions_def cleared_def)
qed


lemma registered_groups_no_lib: "\<not> pm_has_lib m \<Longrightarrow> registered_groups render a n m doc = Inr []"
  by (simp add: registered_groups_def)

lemma save_registration_steps:
  assumes "save_registration render now pid m doc reg = Inr reg'"
  obtains reg1 reg2 groups where
    "check_name reg pid ''pkg'' = Inr ()" "required_by reg pid (pm_version m) = []"
    "\<And>p owner. find_package reg (short_name pid) = Some p \<Longrightarrow> pk_owner_hash p = Some owner \<Longrightarrow> pm_owner_hash m = Some owner"
    "upsert_package now (short_name pid) (id_author pid) m reg = Inr reg1"
    "fold_r (add_dependency pid) (declared_dependencies m) (drop_dependencies (short_name pid) reg1) = Inr reg2"
    "registered_groups render (id_author pid) (short_name pid) m doc = Inr groups"
    "permissions (short_name pid) groups reg2 = Inr reg'"
proof -
  from assms obtain u1 u2 u3 reg1 reg2 groups where
    steps: "check_name reg pid ''pkg'' = Inr u1" "required_by reg pid (pm_version m) = []"
    "\<not> (case map_option pk_owner_hash (find_package reg (short_name pid)) of
         Some (Some owner) \<Rightarrow> pm_owner_hash m \<noteq> Some owner | _ \<Rightarrow> False)"
    "upsert_package now (short_name pid) (id_author pid) m reg = Inr reg1"
    "fold_r (add_dependency pid) (declared_dependencies m) (drop_dependencies (short_name pid) reg1) = Inr reg2"
    "registered_groups render (id_author pid) (short_name pid) m doc = Inr groups"
    "permissions (short_name pid) groups reg2 = Inr reg'"
    unfolding save_registration_def Let_def try_r_Inr_iff ensure_r_Inr_iff by blast
  from steps(3) have "pm_owner_hash m = Some owner"
    if "find_package reg (short_name pid) = Some p" "pk_owner_hash p = Some owner" for p owner
    using that by simp
  with steps that show thesis by simp
qed

lemma save_registration_ok:
  assumes "save_registration render now pid m doc reg = Inr reg'" and "registry_ok reg"
  shows "registry_ok reg'"
proof -
  let ?n = "short_name pid"
  from assms(1) obtain reg1 reg2 groups where
    req: "required_by reg pid (pm_version m) = []" and
    up: "upsert_package now ?n (id_author pid) m reg = Inr reg1" and
    deps: "fold_r (add_dependency pid) (declared_dependencies m) (drop_dependencies ?n reg1) = Inr reg2" and
    gr: "registered_groups render (id_author pid) ?n m doc = Inr groups" and
    perm: "permissions ?n groups reg2 = Inr reg'"
    by (rule save_registration_steps)
  note row = upsert_package_row [OF up]
  from assms(2) have ok: "graph_ok reg" "acl_keys_ok reg" "acl_owned reg" by (simp_all add: registry_ok_def)
  have g1: "graph_ok (drop_dependencies ?n reg1)"
    using upsert_package_graph_ok [OF up ok(1) req] by (rule drop_dependencies_graph_ok)
  have reg2: "graph_ok reg2" "rg_packages reg2 = rg_packages reg1" "rg_capabilities reg2 = rg_capabilities reg"
      "rg_operations reg2 = rg_operations reg"
    using add_dependencies_ok [OF deps g1] row(5) by simp_all
  have keys2: "acl_keys_ok reg2" using ok(2) reg2 by (simp add: acl_keys_ok_def)
  note p = permissions_ok [OF perm keys2]
  have g': "graph_ok reg'" using reg2(1) p(2,3) by (simp add: graph_ok_def)
  have "acl_owned reg'"
    unfolding acl_owned_def
  proof (intro ballI)
    fix c assume c: "c \<in> set (rg_capabilities reg')"
    show "\<exists>q \<in> set (rg_packages reg'). pk_name q = cp_lib c \<and> pk_has_lib q"
    proof (cases "cp_lib c = ?n")
      case False
      with c p(4) reg2(3) ok(3) obtain q where "q \<in> set (rg_packages reg)" "pk_name q = cp_lib c" "pk_has_lib q"
        by (fastforce simp: acl_owned_def)
      with row(4) False p(2) reg2(2) show ?thesis by auto
    next
      case True
      have lib: "pm_has_lib m"
      proof (rule ccontr)
        assume "\<not> pm_has_lib m"
        with gr have "groups = []" by (simp add: registered_groups_no_lib)
        with p(5) c True show False by (simp add: cleared_def)
      qed
      obtain q where q: "q \<in> set (rg_packages reg1)" "pk_name q = ?n" using row(1) by (metis imageE insertI1)
      with row(3) [OF q(1)] lib have "pk_has_lib q" by (auto simp: upserted_def)
      with q True p(2) reg2(2) show ?thesis by auto
    qed
  qed
  with g' p(1) show ?thesis by (simp add: registry_ok_def)
qed

lemma drop_dependencies_ok: "registry_ok reg \<Longrightarrow> registry_ok (drop_dependencies n reg)"
  unfolding registry_ok_def using drop_dependencies_graph_ok by (auto simp: acl_keys_ok_def acl_owned_def)

lemma register_packages_ok:
  assumes "register_packages render now changed reg = Inr reg'" and "registry_ok reg"
  shows "registry_ok reg'"
proof -
  have "registry_ok (fold (\<lambda>(pid, _, _). drop_dependencies (short_name pid)) changed reg)"
    using assms(2) by (induction changed arbitrary: reg) (auto simp: drop_dependencies_ok)
  then show ?thesis
    by (rule fold_r_invariant [OF assms(1) [unfolded register_packages_def]]) (auto intro: save_registration_ok)
qed

lemma remove_package_ok:
  assumes "remove_package norm pid reg = Inr (Some reg')" and "registry_ok reg"
  shows "registry_ok reg'"
proof -
  let ?n = "short_name pid"
  from assms(1) obtain reg1 where
    free: "\<And>d. d \<in> set (rg_dependencies reg) \<Longrightarrow> dp_dependency d \<noteq> ?n" and
    perm: "permissions ?n [] reg = Inr reg1" and
    reg': "reg' = drop_dependencies ?n (reg1\<lparr>rg_packages := filter (\<lambda>p. pk_name p \<noteq> ?n) (rg_packages reg1)\<rparr>)"
    by (auto simp: remove_package_def Let_def try_r_Inr_iff list_ex_iff split: if_splits)
  from assms(2) have ok: "graph_ok reg" "acl_keys_ok reg" "acl_owned reg" by (simp_all add: registry_ok_def)
  have reg1: "reg1 = cleared ?n reg" using permissions_ok(5) [OF perm ok(2)] by simp
  have deps: "rg_dependencies reg' = filter (\<lambda>d. dp_package d \<noteq> ?n) (rg_dependencies reg)"
    and pkgs: "rg_packages reg' = filter (\<lambda>p. pk_name p \<noteq> ?n) (rg_packages reg)"
    and caps: "rg_capabilities reg' = filter (\<lambda>c. cp_lib c \<noteq> ?n) (rg_capabilities reg)"
    by (simp_all add: reg' reg1 cleared_def drop_dependencies_def)
  have keys: "acl_keys_ok reg'"
    using cleared_keys_ok [OF ok(2)] by (simp add: reg' reg1 acl_keys_ok_def)
  have owned: "acl_owned reg'"
    using ok(3) by (fastforce simp: acl_owned_def pkgs caps)
  have "acyclic (dep_graph (rg_dependencies reg'))"
    by (rule acyclic_subset [OF _ dep_graph_mono, of "rg_dependencies reg"])
      (use ok(1) in \<open>auto simp: graph_ok_def deps\<close>)
  moreover have "distinct (map (\<lambda>d. (dp_package d, dp_dependency d)) (rg_dependencies reg'))"
    "distinct (map pk_name (rg_packages reg'))"
    using ok(1) by (simp_all add: graph_ok_def deps pkgs distinct_map_filter)
  moreover have "\<forall>d \<in> set (rg_dependencies reg'). dp_package d \<in> pk_name ` set (rg_packages reg') \<and>
      (\<exists>p \<in> set (rg_packages reg'). pk_name p = dp_dependency d \<and> pk_version p = dp_version d)"
    using ok(1) free by (fastforce simp: graph_ok_def deps pkgs)
  ultimately have "graph_ok reg'" using ok(1) by (simp add: graph_ok_def pkgs)
  with keys owned show ?thesis by (simp add: registry_ok_def)
qed

lemma declare_group_needs_endpoint: "declare_group norm render [] g st = Inr st' \<Longrightarrow> False"
  by (auto simp: declare_group_def declare_endpoint_def Let_def try_r_Inr_iff neq_Nil_conv split: prod.splits)

lemma write_declarations_ok:
  assumes "write_declarations norm render ops name mtd groups reg = Inr reg'" and "registry_ok reg"
  shows "registry_ok reg'"
proof -
  from assms(2) have ok: "graph_ok reg" "acl_keys_ok reg" "acl_owned reg" by (simp_all add: registry_ok_def)
  let ?inst = "find (\<lambda>p. pk_name p = name \<and> pk_has_lib p) (rg_packages reg)"
  from assms(1) obtain gs available st where
    put: "\<not> (mtd = ''PUT'' \<and> ?inst = None)" and
    avr: "(if mtd = ''PUT'' \<and> gs \<noteq> [] then try_r ops (\<lambda>ops.
              Inr ((if is_some_and pk_has_app ?inst then [(''GET'', ''/app/'' @ name)] else []) @
                   map (\<lambda>(m, p). (m, mount_prefix (Option.bind ?inst pk_author) name @ p)) ops))
            else Inr []) = Inr available" and
    st: "fold_r (declare_group norm render available) gs ([], [], []) = Inr st" and
    pst: "(case st of (_, _, rows) \<Rightarrow> permissions name rows reg) = Inr reg'"
    unfolding write_declarations_def Let_def try_r_Inr_iff ensure_r_Inr_iff by blast
  obtain ids eps rows where rows: "st = (ids, eps, rows)" by (cases st)
  from st pst rows have fold: "fold_r (declare_group norm render available) gs ([], [], []) = Inr (ids, eps, rows)"
    and perm: "permissions name rows reg = Inr reg'" by simp_all
  note p = permissions_ok [OF perm ok(2)]
  have inst: "?inst \<noteq> None \<or> rows = []"
  proof (cases "mtd = ''PUT''")
    case False
    with avr have "available = []" by simp
    with fold have "gs = []"
      by (cases gs) (auto simp: try_r_Inr_iff dest: declare_group_needs_endpoint)
    with fold show ?thesis by simp
  qed (use put in simp)
  have "acl_owned reg'"
    unfolding acl_owned_def
  proof (intro ballI)
    fix c assume c: "c \<in> set (rg_capabilities reg')"
    show "\<exists>q \<in> set (rg_packages reg'). pk_name q = cp_lib c \<and> pk_has_lib q"
    proof (cases "cp_lib c = name")
      case True
      with inst p(5) c have "?inst \<noteq> None" by (auto simp: cleared_def)
      with True p(2) show ?thesis by (auto simp: find_None_iff)
    next
      case False
      with c p(4) ok(3) p(2) show ?thesis by (auto simp: acl_owned_def)
    qed
  qed
  with p ok(1) show ?thesis by (simp add: registry_ok_def graph_ok_def)
qed

lemma migrate_registration_fields:
  assumes "migrate_registration reg = Inr reg'"
  shows "rg_packages reg' = rg_packages reg" and "rg_dependencies reg' = rg_dependencies reg"
    and "rg_capabilities reg' = rg_capabilities reg" and "rg_operations reg' = map (migrated_operation reg) (rg_operations reg)"
    and "distinct (map (\<lambda>p. (op_method p, op_path p)) (rg_operations reg'))"
  using assms by (auto simp: migrate_registration_def Let_def try_r_Inr_iff)

lemma migrated_operation_simps [simp]:
  "op_lib (migrated_operation reg p) = op_lib p" "op_cap (migrated_operation reg p) = op_cap p"
  "op_method (migrated_operation reg p) = op_method p"
  by (simp_all add: migrated_operation_def)

lemma migrate_registration_ok:
  assumes "migrate_registration reg = Inr reg'" and "registry_ok reg"
  shows "registry_ok reg'"
  using assms(2) migrate_registration_fields [OF assms(1)]
  by (auto simp: registry_ok_def graph_ok_def acl_keys_ok_def acl_owned_def)

text \<open>A registry without operations of earlier releases is left as it is; a consistent one is accepted.\<close>

definition current_operations :: "registry \<Rightarrow> bool" where
  "current_operations reg = list_all (\<lambda>p. \<not> legacy_operation reg p) (rg_operations reg)"

lemma current_operations_same:
  assumes "current_operations reg"
  shows "map (migrated_operation reg) (rg_operations reg) = rg_operations reg"
  using assms by (intro map_idI) (auto simp: current_operations_def list_all_iff migrated_operation_def)

lemma migrate_registration_current:
  assumes "migrate_registration reg = Inr reg'" and "current_operations reg"
  shows "reg' = reg"
  using migrate_registration_fields [OF assms(1)] current_operations_same [OF assms(2)] by (cases reg; cases reg') simp

text \<open>Once prepared, a registry has no such operations left, and the next preparation changes nothing.\<close>

lemma migrated_current:
  assumes "migrate_registration reg = Inr reg'" and "graph_ok reg" and "\<forall>p \<in> set (rg_packages reg). pk_name p \<noteq> ''std''"
  shows "current_operations reg'"
proof -
  note f = migrate_registration_fields [OF assms(1)]
  have "\<not> legacy_operation reg' (migrated_operation reg p)" for p
  proof
    assume l: "legacy_operation reg' (migrated_operation reg p)"
    then have "legacy_operation reg p" by (auto simp: legacy_operation_def f(1) migrated_operation_def split: if_splits)
    then obtain rest row where p: "op_path p = ''/std/'' @ rest" "row \<in> set (rg_packages reg)" "pk_name row = op_lib p"
      by (auto simp: legacy_operation_def starts_with_iff list_ex_iff)
    with l \<open>legacy_operation reg p\<close> obtain more where "op_lib p @ ''/'' @ rest = ''std'' @ ''/'' @ more"
      by (auto simp: legacy_operation_def migrated_operation_def starts_with_iff)
    then have "takeWhile (\<lambda>c. c \<noteq> CHR ''/'') (op_lib p @ ''/'' @ rest) = takeWhile (\<lambda>c. c \<noteq> CHR ''/'') (''std'' @ ''/'' @ more)" by simp
    moreover have "CHR ''/'' \<notin> set (op_lib p)" using assms(2) p by (auto simp: graph_ok_def)
    ultimately have "op_lib p = ''std''" by (auto simp: takeWhile_append split: if_splits)
    with assms(3) p show False by auto
  qed
  then show ?thesis by (auto simp: current_operations_def list_all_iff f(4))
qed

section \<open>The registry as a machine\<close>

text \<open>
  The requests that change the registry: an installation at a time, a removal, and a write of
  permission declarations together with what the installed component offers. A failed one rolls back.
\<close>

datatype registry_op =
    Install int "change list"
  | Uninstall string
  | Declare "(string \<times> string) list res" string string json
  | Prepare

definition registry_step :: "normalizer \<Rightarrow> (json \<Rightarrow> string) \<Rightarrow> registry_op \<Rightarrow> registry \<Rightarrow> registry" where
  "registry_step norm render op reg = (case op of
     Install now changed \<Rightarrow> (case register_packages render now changed reg of Inl _ \<Rightarrow> reg | Inr reg' \<Rightarrow> reg')
   | Uninstall pid \<Rightarrow> (case remove_package norm pid reg of Inr (Some reg') \<Rightarrow> reg' | _ \<Rightarrow> reg)
   | Declare ops name mtd groups \<Rightarrow>
       (case write_declarations norm render ops name mtd groups reg of Inl _ \<Rightarrow> reg | Inr reg' \<Rightarrow> reg')
   | Prepare \<Rightarrow> (case migrate_registration reg of Inl _ \<Rightarrow> reg | Inr reg' \<Rightarrow> reg'))"

interpretation reg: guarded_machine "registry_step norm render" registry_ok "\<lambda>_. True" for norm render
  by unfold_locales
    (auto simp: registry_step_def register_packages_ok remove_package_ok write_declarations_ok migrate_registration_ok
      split: registry_op.splits sum.splits option.splits)

definition empty_registry :: registry where
  "empty_registry = \<lparr>rg_packages = [], rg_dependencies = [], rg_capabilities = [], rg_operations = []\<rparr>"

lemma empty_registry_ok: "registry_ok empty_registry"
  by (simp add: empty_registry_def registry_ok_def graph_ok_def acl_keys_ok_def acl_owned_def dep_graph_def acyclic_def)


section \<open>Properties\<close>

text \<open>
  Property C12: whatever sequence of installations, removals and permission writes an identity
  serves, and whenever its database is prepared for one of them, with failures anywhere, the registry stays consistent: names are unique, every recorded
  dependency is installed in exactly the recorded version, dependencies form no cycle, an operation
  belongs to at most one permission group, and every group belongs to an installed Lib.
\<close>

theorem registry_stays_consistent:
  assumes "registry_ok reg"
  shows "registry_ok (fold (registry_step norm render) ops reg)"
  using assms by (rule reg.run_inv) simp

text \<open>
  Property C22: the search for dependency cycles is exact. It always ends, refuses an edge exactly
  when the package is reachable from its new dependency through the recorded dependencies, and an
  accepted edge keeps the graph without cycles.
\<close>

theorem dependency_cycle_search_exact:
  "(is_ok (check_dependency_cycle deps pid dependency) \<longleftrightarrow>
      (short_name dependency, short_name pid) \<notin> (dep_graph deps)\<^sup>*) \<and>
   (acyclic (insert (short_name pid, short_name dependency) (dep_graph deps)) \<longleftrightarrow>
      acyclic (dep_graph deps) \<and> is_ok (check_dependency_cycle deps pid dependency))"
proof -
  have "is_ok (check_dependency_cycle deps pid dependency) \<longleftrightarrow>
      (short_name dependency, short_name pid) \<notin> (dep_graph deps)\<^sup>*"
    using check_dependency_cycle_iff [of deps pid dependency "()"] by (auto simp: is_ok_iff)
  then show ?thesis by (auto simp: acyclic_insert)
qed

lemma find_package_row:
  "distinct (map pk_name (rg_packages reg)) \<Longrightarrow> p \<in> set (rg_packages reg) \<Longrightarrow> find_package reg (pk_name p) = Some p"
  unfolding find_package_def by (rule find_key_unique)

lemma find_map_update:
  assumes "\<And>p. pk_name (f p) = n"
  shows "find (\<lambda>p. pk_name p = k) (map (\<lambda>p. if pk_name p = n then f p else p) ps) =
    (if k = n then map_option f (find (\<lambda>p. pk_name p = n) ps) else find (\<lambda>p. pk_name p = k) ps)"
  using assms by (induction ps) auto

lemma upsert_package_find:
  assumes "upsert_package now n author m reg = Inr reg'"
  shows "find_package reg' k = (if k \<noteq> n then find_package reg k
     else Some (case find_package reg n of None \<Rightarrow> new_row now n author m
                | Some old \<Rightarrow> upgraded_row now (new_row now n author m) old))"
  using assms
proof (cases rule: upsert_package_cases)
  case fresh
  then have "find (\<lambda>p. pk_name p = n) (rg_packages reg) = None" by (auto simp: find_None_iff)
  with fresh show ?thesis by (auto simp: find_package_def find_append split: option.splits)
next
  case upgrade
  then have "find_package reg n \<noteq> None" by simp
  with upgrade show ?thesis
    by (auto simp: find_package_def find_map_update split: option.splits)
qed

lemma save_registration_packages:
  assumes "save_registration render now pid m doc reg = Inr reg'" and "registry_ok reg"
  shows "find_package reg' k = (if k \<noteq> short_name pid then find_package reg k
     else Some (case find_package reg (short_name pid) of None \<Rightarrow> new_row now (short_name pid) (id_author pid) m
                | Some old \<Rightarrow> upgraded_row now (new_row now (short_name pid) (id_author pid) m) old))"
proof -
  from assms(1) obtain reg1 reg2 groups where
    req: "required_by reg pid (pm_version m) = []" and
    up: "upsert_package now (short_name pid) (id_author pid) m reg = Inr reg1" and
    deps: "fold_r (add_dependency pid) (declared_dependencies m) (drop_dependencies (short_name pid) reg1) = Inr reg2" and
    perm: "permissions (short_name pid) groups reg2 = Inr reg'"
    by (rule save_registration_steps)
  from assms(2) have ok: "graph_ok reg" "acl_keys_ok reg" by (simp_all add: registry_ok_def)
  have "graph_ok (drop_dependencies (short_name pid) reg1)"
    using upsert_package_graph_ok [OF up ok(1) req] by (rule drop_dependencies_graph_ok)
  note d = add_dependencies_ok [OF deps this]
  have "acl_keys_ok reg2" using ok(2) d upsert_package_row(5) [OF up] by (simp add: acl_keys_ok_def)
  from permissions_ok(2) [OF perm this] d have "rg_packages reg' = rg_packages reg1" by simp
  then have "find_package reg' k = find_package reg1 k" by (simp add: find_package_def)
  then show ?thesis by (simp add: upsert_package_find [OF up])
qed

lemma add_dependency_rows:
  assumes "add_dependency pid dep reg = Inr reg'"
  shows "rg_dependencies reg' = rg_dependencies reg @
    [\<lparr>dp_package = short_name pid, dp_dependency = snd (the (split_once (CHR ''/'') (fst dep))), dp_version = snd dep\<rparr>]"
  using assms by (auto simp: add_dependency_def insert_dependency_def try_r_Inr_iff split: prod.splits option.splits)

lemma add_dependencies_rows:
  assumes "fold_r (add_dependency pid) deps reg = Inr reg'"
  shows "rg_dependencies reg' = rg_dependencies reg @
    map (\<lambda>dep. \<lparr>dp_package = short_name pid, dp_dependency = snd (the (split_once (CHR ''/'') (fst dep))), dp_version = snd dep\<rparr>) deps"
  using assms by (induction deps arbitrary: reg) (auto simp: try_r_Inr_iff add_dependency_rows)

text \<open>
  A successful registration records exactly the package. Its row carries the metadata
  and keeps the time of the first installation on an upgrade; its dependencies are exactly the
  declared ones, in order; every other package keeps its row and its dependencies.
\<close>

lemma registration_effect:
  assumes "save_registration render now pid m doc reg = Inr reg'" and "registry_ok reg"
  shows "(\<exists>row. find_package reg' (short_name pid) = Some row \<and> pk_version row = pm_version m \<and>
      pk_author row = id_author pid \<and> pk_has_lib row = pm_has_lib m \<and> pk_has_app row = pm_has_app m \<and>
      pk_owner_hash row = pm_owner_hash m \<and> pk_sha256 row = pm_sha256 m \<and>
      (pk_installed_at row, pk_upgraded_at row) = (case find_package reg (short_name pid) of
         None \<Rightarrow> (Some now, None) | Some old \<Rightarrow> (pk_installed_at old, Some now))) \<and>
    map (\<lambda>d. (dp_dependency d, dp_version d)) (filter (\<lambda>d. dp_package d = short_name pid) (rg_dependencies reg')) =
      map (\<lambda>dep. (snd (the (split_once (CHR ''/'') (fst dep))), snd dep)) (declared_dependencies m) \<and>
    (\<forall>k. k \<noteq> short_name pid \<longrightarrow> find_package reg' k = find_package reg k \<and>
       filter (\<lambda>d. dp_package d = k) (rg_dependencies reg') = filter (\<lambda>d. dp_package d = k) (rg_dependencies reg))"
proof -
  from assms(1) obtain reg1 reg2 groups where
    req: "required_by reg pid (pm_version m) = []" and
    up: "upsert_package now (short_name pid) (id_author pid) m reg = Inr reg1" and
    deps: "fold_r (add_dependency pid) (declared_dependencies m) (drop_dependencies (short_name pid) reg1) = Inr reg2" and
    perm: "permissions (short_name pid) groups reg2 = Inr reg'"
    by (rule save_registration_steps)
  have "rg_dependencies reg' = rg_dependencies reg2"
  proof -
    from assms(2) have ok: "graph_ok reg" "acl_keys_ok reg" by (simp_all add: registry_ok_def)
    have "graph_ok (drop_dependencies (short_name pid) reg1)"
      using upsert_package_graph_ok [OF up ok(1) req] by (rule drop_dependencies_graph_ok)
    then have "acl_keys_ok reg2"
      using add_dependencies_ok [OF deps] ok(2) upsert_package_row(5) [OF up] by (simp add: acl_keys_ok_def)
    then show ?thesis by (rule permissions_ok(3) [OF perm])
  qed
  with add_dependencies_rows [OF deps] upsert_package_row(5) [OF up] have
    d: "rg_dependencies reg' = filter (\<lambda>d. dp_package d \<noteq> short_name pid) (rg_dependencies reg) @
      map (\<lambda>dep. \<lparr>dp_package = short_name pid, dp_dependency = snd (the (split_once (CHR ''/'') (fst dep))), dp_version = snd dep\<rparr>)
        (declared_dependencies m)"
    by (simp add: drop_dependencies_def)
  have own: "filter (\<lambda>d. dp_package d = short_name pid) (rg_dependencies reg') =
      map (\<lambda>dep. \<lparr>dp_package = short_name pid, dp_dependency = snd (the (split_once (CHR ''/'') (fst dep))), dp_version = snd dep\<rparr>)
        (declared_dependencies m)"
    by (auto simp: d filter_empty_conv intro!: filter_True)
  have other: "filter (\<lambda>d. dp_package d = k) (rg_dependencies reg') = filter (\<lambda>d. dp_package d = k) (rg_dependencies reg)"
    if "k \<noteq> short_name pid" for k
    using that by (auto simp: d filter_empty_conv intro!: filter_cong)
  note pk = save_registration_packages [OF assms]
  have row: "\<exists>row. find_package reg' (short_name pid) = Some row \<and> pk_version row = pm_version m \<and>
      pk_author row = id_author pid \<and> pk_has_lib row = pm_has_lib m \<and> pk_has_app row = pm_has_app m \<and>
      pk_owner_hash row = pm_owner_hash m \<and> pk_sha256 row = pm_sha256 m \<and>
      (pk_installed_at row, pk_upgraded_at row) = (case find_package reg (short_name pid) of
         None \<Rightarrow> (Some now, None) | Some old \<Rightarrow> (pk_installed_at old, Some now))"
    by (cases "find_package reg (short_name pid)") (simp_all add: pk new_row_def upgraded_row_def del: find_package_None_iff)
  have other_pk: "find_package reg' k = find_package reg k" if "k \<noteq> short_name pid" for k
    using that by (simp add: pk)
  have "map (\<lambda>d. (dp_dependency d, dp_version d)) (filter (\<lambda>d. dp_package d = short_name pid) (rg_dependencies reg')) =
      map (\<lambda>dep. (snd (the (split_once (CHR ''/'') (fst dep))), snd dep)) (declared_dependencies m)"
    by (simp add: own comp_def)
  with row other other_pk show ?thesis by blast
qed

definition example_meta :: "string \<Rightarrow> (string \<times> string \<times> string) list \<Rightarrow> package_meta" where
  "example_meta v deps = \<lparr>pm_publisher = ''a.b'', pm_name = ''x'', pm_version = v, pm_title = None,
     pm_description = None, pm_license = None, pm_repository = None, pm_has_lib = False, pm_has_app = True,
     pm_owner_hash = Some ''o'', pm_sha256 = Some ''h'', pm_leaf = Some ''l'', pm_dependencies = deps\<rparr>"

definition example_registry :: registry where
  "example_registry = fold (registry_step (\<lambda>s. Some s) (\<lambda>_. []))
     [Install 1 [(''a.b/y'', example_meta ''1'' [], Inr JNull)],
      Install 2 [(''a.b/x'', example_meta ''1'' [(''a.b'', ''y'', ''1'')], Inr JNull)],
      Install 3 [(''a.b/y'', example_meta ''2'' [], Inr JNull)]] empty_registry"

lemmas registry_eval =
  example_meta_def registry_step_def register_packages_def save_registration_def check_name_def
  short_name_def id_author_def find_package_def required_by_def List.map_filter_def upsert_package_def new_row_def
  upgraded_row_def declared_dependencies_def drop_dependencies_def add_dependency_def check_dependency_cycle_def
  dependency_names_def insert_dependency_def registered_groups_def permissions_def empty_registry_def row_id_def in_kind_def

lemma example_registry_eval:
  "map (\<lambda>p. (pk_name p, pk_version p)) (rg_packages example_registry) = [(''y'', ''1''), (''x'', ''1'')] \<and>
   map dp_dependency (rg_dependencies example_registry) = [''y'']"
  by (simp add: example_registry_def registry_eval str_eval Let_def)

theorem registry_stays_consistent_witness:
  "registry_ok example_registry \<and> map pk_name (rg_packages example_registry) = [''y'', ''x'']"
proof
  show "registry_ok example_registry"
    unfolding example_registry_def by (rule registry_stays_consistent [OF empty_registry_ok])
  have "map pk_name (rg_packages example_registry) = map fst (map (\<lambda>p. (pk_name p, pk_version p)) (rg_packages example_registry))"
    by simp
  then show "map pk_name (rg_packages example_registry) = [''y'', ''x'']" by (simp only: example_registry_eval) simp
qed

lemma registration_effect_witness:
  "\<exists>reg'. save_registration (\<lambda>_. []) 9 ''a.b/x'' (example_meta ''2'' []) (Inr JNull) empty_registry = Inr reg' \<and>
     (\<exists>row. find_package reg' ''x'' = Some row \<and> pk_version row = ''2'')"
proof -
  obtain reg' where r: "save_registration (\<lambda>_. []) 9 ''a.b/x'' (example_meta ''2'' []) (Inr JNull) empty_registry = Inr reg'"
    by (simp add: registry_eval str_eval Let_def)
  from registration_effect [OF r empty_registry_ok] r show ?thesis
    by (auto simp: short_name_def example_meta_def str_eval)
qed


definition owner_of :: "registry \<Rightarrow> string \<Rightarrow> string option" where
  "owner_of reg n = Option.bind (find_package reg n) pk_owner_hash"

lemma save_registration_owner:
  assumes "save_registration render now pid m doc reg = Inr reg'" and "registry_ok reg" and "owner_of reg n = Some h"
  shows "owner_of reg' n = Some h"
proof (cases "n = short_name pid")
  case True
  with assms(3) obtain p where p: "find_package reg (short_name pid) = Some p" "pk_owner_hash p = Some h"
    by (auto simp: owner_of_def bind_eq_Some_conv)
  from assms(1) have "pm_owner_hash m = Some h" by (rule save_registration_steps) (use p in blast)
  with True p show ?thesis by (simp add: owner_of_def save_registration_packages [OF assms(1,2)])
next
  case False
  with assms(3) show ?thesis by (simp add: owner_of_def save_registration_packages [OF assms(1,2)])
qed

lemma register_packages_owner:
  assumes "register_packages render now changed reg = Inr reg'" and "registry_ok reg" and "owner_of reg n = Some h"
  shows "owner_of reg' n = Some h"
proof -
  let ?r = "fold (\<lambda>(pid, _, _). drop_dependencies (short_name pid)) changed reg"
  have "registry_ok ?r \<and> owner_of ?r n = Some h"
    using assms(2,3)
    by (induction changed arbitrary: reg) (auto simp: drop_dependencies_ok owner_of_def find_package_def)
  then have "registry_ok reg' \<and> owner_of reg' n = Some h"
    by (rule fold_r_invariant [OF assms(1) [unfolded register_packages_def]])
      (auto intro: save_registration_ok save_registration_owner)
  then show ?thesis by simp
qed

lemma permissions_find: "permissions name groups reg = Inr reg' \<Longrightarrow> acl_keys_ok reg \<Longrightarrow> find_package reg' = find_package reg"
  by (rule find_package_cong) (rule permissions_ok(2))

lemma registry_step_owner:
  assumes "registry_ok reg" and "owner_of reg n = Some h" and "\<And>pid. op = Uninstall pid \<Longrightarrow> short_name pid \<noteq> n"
  shows "owner_of (registry_step norm render op reg) n = Some h"
proof -
  have keys: "acl_keys_ok reg" using assms(1) by (simp add: registry_ok_def)
  show ?thesis
  proof (cases op)
    case (Install now changed)
    with assms show ?thesis
      by (auto simp: registry_step_def intro: register_packages_owner split: sum.splits)
  next
    case (Uninstall pid)
    have "owner_of reg' n = Some h" if "remove_package norm pid reg = Inr (Some reg')" for reg'
    proof -
      from that obtain reg1 where "permissions (short_name pid) [] reg = Inr reg1"
        "reg' = drop_dependencies (short_name pid) (reg1\<lparr>rg_packages := filter (\<lambda>p. pk_name p \<noteq> short_name pid) (rg_packages reg1)\<rparr>)"
        by (auto simp: remove_package_def Let_def try_r_Inr_iff split: if_splits)
      with assms(2) permissions_ok(2) [OF _ keys] assms(3) [OF Uninstall] show ?thesis
        by (auto simp: owner_of_def find_package_def find_filter)
    qed
    with Uninstall assms(2) show ?thesis
      by (auto simp: registry_step_def split: sum.splits option.splits)
  next
    case (Declare ops name mtd groups)
    have "owner_of reg' n = Some h" if "write_declarations norm render ops name mtd groups reg = Inr reg'" for reg'
      using that assms(2) permissions_find [OF _ keys]
      by (auto simp: write_declarations_def Let_def try_r_Inr_iff owner_of_def)
    with Declare assms(2) show ?thesis by (auto simp: registry_step_def split: sum.splits)
  next
    case Prepare
    have "owner_of reg' n = Some h" if "migrate_registration reg = Inr reg'" for reg'
      using find_package_cong [OF migrate_registration_fields(1) [OF that]] assms(2) by (simp add: owner_of_def)
    with Prepare assms(2) show ?thesis by (simp add: registry_step_def split: sum.splits)
  qed
qed


text \<open>
  A publisher keeps its packages. Once a package is registered with the hash of its
  owner, no sequence of installations, permission writes and removals of other packages changes
  that owner: only removing the package itself gives the name away.
\<close>

lemma publisher_owner_kept:
  assumes "registry_ok reg" and "owner_of reg n = Some h"
    and "\<forall>pid. Uninstall pid \<in> set ops \<longrightarrow> short_name pid \<noteq> n"
  shows "owner_of (fold (registry_step norm render) ops reg) n = Some h"
  using assms
proof (induction ops arbitrary: reg)
  case (Cons op ops)
  have "owner_of (registry_step norm render op reg) n = Some h"
    using Cons.prems by (intro registry_step_owner) auto
  with Cons reg.step_inv [OF TrueI Cons.prems(1)] show ?case by simp
qed simp

lemma publisher_owner_kept_witness:
  "owner_of (fold (registry_step Some (\<lambda>_. [])) [Install 5 [(''a.b/y'', example_meta ''3'' []\<lparr>pm_owner_hash := Some ''z''\<rparr>, Inr JNull)]]
     example_registry) ''y'' = Some ''o''"
proof (rule publisher_owner_kept)
  show "registry_ok example_registry"
    unfolding example_registry_def by (rule reg.run_inv [OF empty_registry_ok]) simp
  show "owner_of example_registry ''y'' = Some ''o''"
    by (simp add: owner_of_def example_registry_def registry_eval str_eval Let_def)
qed simp

end
