(* ===== verification/Package_Format.thy ===== *)
theory Package_Format
  imports Waz Registry
begin

text \<open>
  What makes a package acceptable (\<^verbatim>\<open>src/package/format.rs\<close> and \<^verbatim>\<open>src/package/manifest.rs\<close>): the
  manifest and the metadata derived from it, the OpenAPI document embedded in its backend, the
  permission declarations of that document, the publisher's signature over the payload, and the
  signature that a bare component may carry.

  The parsers of WebAssembly, of OpenAPI documents and of URLs, and the syntax of grantees and
  effects, come from other crates. They are the fields of \<open>tools\<close>, beside the \<^typ>\<open>pki\<close> and the
  ZIP reader of the container. An object of JSON is the list of its members in the order of
  the keys, as \<^verbatim>\<open>serde_json\<close> keeps it.
\<close>

section \<open>The crates behind the format\<close>

datatype wasm_payload =
    ComponentVersion
  | ModuleSection
  | ComponentSection
  | WasmEnd
  | CustomSection string string nat
  | OtherPayload

text \<open>An event of \<^verbatim>\<open>wasmparser::Parser::parse_all\<close>, with the end of its section where it is one.\<close>

record wasm_event =
  we_payload :: wasm_payload
  we_section_end :: "nat option"

record parsed_url =
  pu_scheme :: string
  pu_host :: "string option"
  pu_username :: string
  pu_password :: "string option"

record api_item =
  ai_reference :: bool
  ai_methods :: "(string \<times> string option) list"

record api_doc =
  ad_openapi :: string
  ad_version :: string
  ad_paths :: "(string \<times> api_item) list option"

record tools =
  tk_pki :: pki
  tk_utf8 :: "string \<Rightarrow> bool"
  tk_zip :: "string \<Rightarrow> (nat \<times> zip_entry list) option"
  tk_wasm :: "string \<Rightarrow> wasm_event option list"
  tk_url :: "string \<Rightarrow> parsed_url option"
  tk_openapi :: "string \<Rightarrow> api_doc option"
  tk_grantee :: "string \<Rightarrow> bool"
  tk_effect :: "string \<Rightarrow> bool"

section \<open>Names, versions, texts\<close>

definition invalid :: "string \<Rightarrow> error" where
  "invalid message = InvalidComponent message"

definition text_field :: "json \<Rightarrow> string \<Rightarrow> string res" where
  "text_field value key =
     ok_or (opt_filter (\<lambda>s. str_trim s \<noteq> []) (Option.bind (jget value key) as_str))
       (invalid (''missing or empty '' @ key))"

definition release_version :: "string \<Rightarrow> bool" where
  "release_version value =
     (let parts = split_on (CHR ''.'') value in
      length parts = 3 \<and>
      list_all (\<lambda>part. part \<noteq> [] \<and> list_all is_ascii_digit part \<and> parse_u64 part \<noteq> None \<and>
                        (length part = 1 \<or> \<not> starts_with ''0'' part)) parts)"

definition valid_name :: "string \<Rightarrow> bool" where
  "valid_name value = (length value \<le> 63 \<and>
     is_some_and is_ascii_lowercase (case value of [] \<Rightarrow> None | c # _ \<Rightarrow> Some c) \<and>
     list_all (\<lambda>b. is_ascii_lowercase b \<or> is_ascii_digit b \<or> b = CHR ''-'') value)"

text \<open>\<^verbatim>\<open>path == mount || path.strip_prefix(mount).is_some_and(|tail| tail.starts_with('/'))\<close>.\<close>

definition under_mount :: "string \<Rightarrow> string \<Rightarrow> bool" where
  "under_mount path mount = (path = mount \<or> is_some_and (starts_with ''/'') (strip_prefix mount path))"

section \<open>The manifest\<close>

definition unknown_keys :: "string list \<Rightarrow> json \<Rightarrow> bool" where
  "unknown_keys known v = is_none_or (list_ex (\<lambda>(k, _). k \<notin> set known)) (as_object v)"

definition read_dependency ::
  "normalizer \<Rightarrow> string \<Rightarrow> json \<Rightarrow> string list \<times> json list \<Rightarrow> (string list \<times> json list) res"
where
  "read_dependency norm pid dependency st = (case st of (ids, out) \<Rightarrow>
     try_r (text_field dependency ''author'') (\<lambda>author.
     try_r (text_field dependency ''name'') (\<lambda>dep_name.
     try_r (text_field dependency ''version'') (\<lambda>dep_version.
     let dep_id = author @ ''/'' @ dep_name in
     try_r (ensure_r (\<not> (is_none_or (\<lambda>m. length m \<noteq> 3) (as_object dependency) \<or> \<not> is_ok (valid_id norm dep_id) \<or>
                         norm author \<noteq> Some author \<or> \<not> release_version dep_version \<or> dep_id \<in> set ids \<or> dep_id = pid))
              (invalid ''invalid, duplicate or self package dependency'')) (\<lambda>_.
     Inr (dep_id # ids,
          out @ [JObj [(''name'', JStr dep_name), (''publisher'', JStr author), (''version'', JStr dep_version)]]))))))"

text \<open>What the host part of a repository URL is: the text up to the next separator.\<close>

definition authority :: "string \<Rightarrow> string" where
  "authority rest = takeWhile (\<lambda>c. c \<notin> {CHR ''/'', CHR ''?'', CHR ''#''}) rest"

definition repository_ok :: "string \<Rightarrow> parsed_url \<Rightarrow> bool" where
  "repository_ok raw url = (\<not> (pu_scheme url \<noteq> ''https'' \<or> pu_host url = None \<or>
     \<not> (8 \<le> length raw \<and> eq_ignore_ascii_case (take 8 raw) ''https://'') \<or>
     authority (drop 8 raw) = [] \<or> pu_username url \<noteq> [] \<or> pu_password url \<noteq> None \<or>
     CHR ''@'' \<in> set (authority (drop 8 raw)) \<or> list_ex is_whitespace (str_chars raw)))"

definition read_repository :: "(string \<Rightarrow> parsed_url option) \<Rightarrow> json \<Rightarrow> (string \<times> json) list res" where
  "read_repository parse_url package = (case jget package ''repository'' of
     None \<Rightarrow> Inr []
   | Some repository \<Rightarrow>
       try_r (ok_or (opt_filter (\<lambda>s. str_trim s \<noteq> []) (as_str repository)) (invalid ''repository must be a nonempty HTTPS URL'')) (\<lambda>raw.
       try_r (ok_or (parse_url raw) (invalid ''invalid repository URL'')) (\<lambda>url.
       try_r (ensure_r (repository_ok raw url)
                (invalid ''repository must be an HTTPS URL with a host and without credentials'')) (\<lambda>_.
       Inr [(''repository'', repository)]))))"

definition package_metadata :: "tools \<Rightarrow> package_files \<Rightarrow> json res" where
  "package_metadata tk files =
     (let norm = normalize_name (tk_pki tk) in
     try_r (ok_or (map_of files ''manifest.json'') (invalid ''missing manifest.json'')) (\<lambda>data.
     try_r (ok_or (parse_json (tk_pki tk) data) (invalid ''invalid package manifest'')) (\<lambda>manifest.
     try_r (ensure_r (\<not> (jidx manifest ''format'' \<noteq> JStr ''waz/1'' \<or>
              unknown_keys [''format'', ''package'', ''dependencies'', ''backend'', ''frontend''] manifest))
              (invalid ''unsupported WAZ manifest format or field'')) (\<lambda>_.
     let package = jidx manifest ''package'' in
     try_r (ensure_r (\<not> unknown_keys [''author'', ''name'', ''version'', ''title'', ''description'', ''license'',
                          ''release-notes'', ''repository''] package) (invalid ''unknown WAZ package field'')) (\<lambda>_.
     try_r (text_field package ''author'') (\<lambda>publisher.
     try_r (text_field package ''name'') (\<lambda>name.
     let pid = publisher @ ''/'' @ name in
     try_r (map_err (\<lambda>_. invalid ''invalid full package identity'') (valid_id norm pid)) (\<lambda>_.
     try_r (ensure_r (norm publisher = Some publisher) (invalid ''author must be normalized'')) (\<lambda>_.
     try_r (text_field package ''version'') (\<lambda>version.
     try_r (ensure_r (release_version version) (invalid ''version must be MAJOR.MINOR.PATCH'')) (\<lambda>_.
     try_r (ok_or (opt_filter (\<lambda>v. length v \<le> 100) (as_array (jidx manifest ''dependencies'')))
              (invalid ''dependencies requires an explicit array with at most 100 packages'')) (\<lambda>dependencies.
     try_r (fold_r (read_dependency norm pid) dependencies ([], [])) (\<lambda>(_, dependencies_out).
     let has_lib = jget manifest ''backend'' \<noteq> None; has_app = jget manifest ''frontend'' \<noteq> None; names = map fst files in
     try_r (ensure_r (\<not> (has_lib \<and> jidx manifest ''backend'' \<noteq> JStr ''backend.wasm'' \<or>
              has_app \<and> jidx manifest ''frontend'' \<noteq> JStr ''public'' \<or>
              has_lib \<noteq> (''backend.wasm'' \<in> set names) \<or>
              has_app \<noteq> list_ex (starts_with ''public/'') names \<or>
              has_app \<and> ''public/index.html'' \<notin> set names \<or>
              \<not> has_lib \<and> \<not> has_app)) (invalid ''WAZ manifest runtime paths disagree with package files'')) (\<lambda>_.
     try_r (text_field package ''title'') (\<lambda>title.
     try_r (text_field package ''description'') (\<lambda>description.
     try_r (text_field package ''license'') (\<lambda>license.
     try_r (text_field package ''release-notes'') (\<lambda>notes.
     try_r (read_repository (tk_url tk) package) (\<lambda>repository.
     Inr (JObj ([(''changelog'', JStr notes), (''dependencies'', JArr dependencies_out), (''description'', JStr description)] @
                (if has_app then [(''entry'', JStr ''/'')] else []) @
                [(''has_app'', JBool has_app), (''has_lib'', JBool has_lib), (''id'', JStr pid), (''license'', JStr license),
                 (''name'', JStr name), (''publisher'', JStr publisher)] @
                repository @ [(''title'', JStr title), (''version'', JStr version)])))))))))))))))))))))"

section \<open>Embedded OpenAPI documents\<close>

definition openapi_item :: "wasm_event option \<Rightarrow> string option \<times> nat \<Rightarrow> (string option \<times> nat) res" where
  "openapi_item item st = (case st of (document, depth) \<Rightarrow>
     try_r (ok_or item (invalid ''malformed backend'')) (\<lambda>e.
     (case we_payload e of
        ModuleSection \<Rightarrow> Inr (document, depth + 1)
      | ComponentSection \<Rightarrow> Inr (document, depth + 1)
      | WasmEnd \<Rightarrow> Inr (document, if depth > 0 then depth - 1 else depth)
      | CustomSection name data _ \<Rightarrow>
          if name = ''pishoo:openapi'' then
            try_r (ensure_r (\<not> (depth \<noteq> 0 \<or> document \<noteq> None \<or> length data > 1024 * 1024))
                     (invalid ''OpenAPI must be a unique bounded top-level section'')) (\<lambda>_.
            Inr (Some data, depth))
          else Inr (document, depth)
      | _ \<Rightarrow> Inr (document, depth))))"

definition package_openapi :: "tools \<Rightarrow> package_files \<Rightarrow> string res" where
  "package_openapi tk files =
     try_r (ok_or (map_of files ''backend.wasm'') (invalid ''package has no backend'')) (\<lambda>backend.
     try_r (fold_r openapi_item (tk_wasm tk backend) (None, 0)) (\<lambda>(document, _).
     ok_or document (invalid ''missing embedded OpenAPI'')))"

text \<open>\<^verbatim>\<open>manifest.rs\<close> has its own copy of \<^const>\<open>valid_path\<close>, equal to that of the settings.\<close>

definition operation_ids :: "(string \<times> string option) \<Rightarrow> string list \<Rightarrow> string list res" where
  "operation_ids operation ids = (case snd operation of
     None \<Rightarrow> Inr ids
   | Some i \<Rightarrow> try_r (ensure_r (i \<notin> set ids) (invalid ''duplicate operationId'')) (\<lambda>_. Inr (i # ids)))"

definition api_path_item :: "(string \<times> api_item) \<Rightarrow> string list \<Rightarrow> string list res" where
  "api_path_item entry ids = (case entry of (path, item) \<Rightarrow>
     try_r (ensure_r (\<not> (\<not> valid_path path \<or> contains_char [CHR 0x7B, CHR 0x7D] path)) (invalid ''unsupported API path'')) (\<lambda>_.
     try_r (ensure_r (\<not> ai_reference item) (invalid ''path-level references are unsupported'')) (\<lambda>_.
     fold_r operation_ids (ai_methods item) ids)))"

definition validate_openapi :: "tools \<Rightarrow> string \<Rightarrow> api_doc res" where
  "validate_openapi tk bytes =
     try_r (ensure_r (length bytes \<le> 1024 * 1024) (invalid ''OpenAPI exceeds 1 MiB'')) (\<lambda>_.
     try_r (ok_or (tk_openapi tk bytes) (invalid ''OpenAPI'')) (\<lambda>openapi.
     try_r (ensure_r (starts_with ''3.1.'' (ad_openapi openapi)) (invalid ''only OpenAPI 3.1.x is supported'')) (\<lambda>_.
     try_r (ok_or (ad_paths openapi) (invalid ''missing OpenAPI paths'')) (\<lambda>paths.
     try_r (fold_r api_path_item paths []) (\<lambda>_.
     Inr openapi)))))"

section \<open>Permission declarations of an OpenAPI document\<close>

text \<open>The modern and the legacy place of a declaration; both at once are an error.\<close>

definition one_of :: "string \<Rightarrow> 'a option \<Rightarrow> 'a option \<Rightarrow> 'a option res" where
  "one_of message modern legacy =
     (if modern \<noteq> None \<and> legacy \<noteq> None then Inl (invalid message) else Inr (or_else modern legacy))"

definition check_rule :: "tools \<Rightarrow> json \<Rightarrow> string list \<Rightarrow> string list res" where
  "check_rule tk rule grantees =
     try_r (ensure_r (\<not> is_none_or (\<lambda>m. length m \<noteq> 2) (as_object rule)) (invalid ''initial-access requires only grantee and effect'')) (\<lambda>_.
     try_r (text_field rule ''grantee'') (\<lambda>grantee.
     try_r (ensure_r (tk_grantee tk grantee) (invalid ''invalid grantee'')) (\<lambda>_.
     try_r (text_field rule ''effect'') (\<lambda>effect.
     try_r (ensure_r (tk_effect tk effect) (invalid ''invalid effect'')) (\<lambda>_.
     try_r (ensure_r (grantee \<notin> set grantees) (invalid ''duplicate initial-access grantee'')) (\<lambda>_.
     Inr (grantee # grantees)))))))"

definition check_initial_access :: "tools \<Rightarrow> json \<Rightarrow> unit res" where
  "check_initial_access tk extension = (case jget extension ''initial-access'' of
     None \<Rightarrow> Inr ()
   | Some initial \<Rightarrow>
       try_r (ok_or (as_array initial) (invalid ''initial-access must be an array'')) (\<lambda>rules.
       try_r (fold_r (check_rule tk) rules []) (\<lambda>grantees.
       ensure_r (\<not> (''*?'' \<in> set grantees \<and> (''**'' \<in> set grantees \<or> ''?'' \<in> set grantees)))
         (invalid ''conflicting wildcard grantees''))))"

text \<open>
  The state of the loop over the operations: the ids seen, and the pairs of a group and an
  operation annotated with it. A map from groups to nonempty sets is the set of its pairs.
\<close>

definition check_operation ::
  "tools \<Rightarrow> json \<Rightarrow> string list \<times> (string \<times> string) list \<Rightarrow> (string list \<times> (string \<times> string) list) res"
where
  "check_operation tk operation st = (case st of (operations, annotated) \<Rightarrow>
     try_r (text_field operation ''operationId'') (\<lambda>oid.
     try_r (text_field operation ''summary'') (\<lambda>_.
     try_r (ensure_r (oid \<notin> set operations) (invalid ''duplicate operationId'')) (\<lambda>_.
     let extension = jidx operation ''x-pishoo'' in
     try_r (ensure_r (\<not> is_some_and (list_ex (\<lambda>(k, _). k \<notin> {''access-group'', ''initial-access''})) (as_object extension))
              (invalid ''template operations are unsupported'')) (\<lambda>_.
     try_r (one_of ''duplicate access-group declarations'' (jget operation ''x-access-group'') (jget extension ''access-group'')) (\<lambda>grp.
     try_r (case grp of
              None \<Rightarrow> Inr annotated
            | Some g \<Rightarrow> try_r (ok_or (opt_filter valid_name (as_str g)) (invalid ''invalid access-group'')) (\<lambda>g.
                        Inr ((g, oid) # annotated))) (\<lambda>annotated'.
     try_r (check_initial_access tk extension) (\<lambda>_.
     Inr (oid # operations, annotated')))))))))"

definition check_methods ::
  "tools \<Rightarrow> json \<Rightarrow> string list \<times> (string \<times> string) list \<Rightarrow> (string list \<times> (string \<times> string) list) res"
where
  "check_methods tk item = fold_r (\<lambda>m st. case jget item m of None \<Rightarrow> Inr st | Some operation \<Rightarrow> check_operation tk operation st) http_methods"

definition check_path ::
  "tools \<Rightarrow> string \<times> json \<Rightarrow> string list \<times> (string \<times> string) list \<Rightarrow> (string list \<times> (string \<times> string) list) res"
where
  "check_path tk entry st = (case entry of (path, item) \<Rightarrow>
     try_r (ensure_r (\<not> list_ex (under_mount path) [''/api'', ''/app'']) (invalid ''business API cannot contain host mounting prefixes'')) (\<lambda>_.
     check_methods tk item st))"

definition check_title :: "json \<Rightarrow> unit res" where
  "check_title grp = (case as_object (jidx grp ''title'') of
     Some titles \<Rightarrow>
       try_r (ensure_r (\<not> (length titles \<noteq> 2 \<or> ''en'' \<notin> fst ` set titles \<or> ''zh-CN'' \<notin> fst ` set titles))
                (invalid ''localized group title requires en and zh-CN'')) (\<lambda>_.
       try_r (text_field (jidx grp ''title'') ''en'') (\<lambda>_.
       try_r (text_field (jidx grp ''title'') ''zh-CN'') (\<lambda>_. Inr ())))
   | None \<Rightarrow> try_r (text_field grp ''title'') (\<lambda>_. Inr ()))"

text \<open>The state of the loop over the groups: the pairs declared, and whether a group has the App entry.\<close>

definition check_member ::
  "string list \<Rightarrow> string \<Rightarrow> json \<Rightarrow> (string \<times> string) list \<Rightarrow> (string \<times> string) list res"
where
  "check_member operations name v declared =
     try_r (ok_or (opt_filter (\<lambda>i. i \<in> set operations) (as_str v)) (invalid ''unknown group operation'')) (\<lambda>i.
     try_r (ensure_r (i \<notin> snd ` set declared) (invalid ''overlapping or duplicate group operation'')) (\<lambda>_.
     Inr ((name, i) # declared)))"

definition check_group ::
  "string list \<Rightarrow> string \<times> json \<Rightarrow> (string \<times> string) list \<times> bool \<Rightarrow> ((string \<times> string) list \<times> bool) res"
where
  "check_group operations entry st = (case (entry, st) of ((name, grp), (declared, app_group)) \<Rightarrow>
     try_r (ensure_r (valid_name name) (invalid ''invalid group name'')) (\<lambda>_.
     try_r (check_title grp) (\<lambda>_.
     try_r (ensure_r (\<not> is_some_and (\<lambda>app. as_bool app = None) (jget grp ''app'')) (invalid ''group app must be a boolean'')) (\<lambda>_.
     let app = (jidx grp ''app'' = JBool True) in
     try_r (ensure_r (\<not> (app \<and> app_group)) (invalid ''app entry belongs to multiple groups'')) (\<lambda>_.
     try_r (ok_or (opt_filter (\<lambda>v. v \<noteq> []) (as_array (jidx grp ''operations''))) (invalid ''group must contain operations'')) (\<lambda>ids.
     try_r (fold_r (check_member operations name) ids declared) (\<lambda>declared'.
     Inr (declared', app_group \<or> app))))))))"

definition validate_declarations :: "tools \<Rightarrow> json \<Rightarrow> unit res" where
  "validate_declarations tk document =
     try_r (text_field (jidx document ''info'') ''title'') (\<lambda>_.
     let extension = jidx document ''x-pishoo'' in
     try_r (ensure_r (jget extension ''templates'' = None) (invalid ''external templates are not part of store v1'')) (\<lambda>_.
     try_r (ensure_r (\<not> is_some_and (list_ex (\<lambda>(k, _). k \<noteq> ''access-groups'')) (as_object extension))
              (invalid ''OpenAPI cannot declare package metadata'')) (\<lambda>_.
     try_r (one_of ''duplicate access-groups declarations'' (jget document ''x-access-groups'') (jget extension ''access-groups'')) (\<lambda>groups.
     try_r (ok_or (as_object (jidx document ''paths'')) (invalid ''paths must be an object'')) (\<lambda>paths.
     try_r (fold_r (check_path tk) paths ([], [])) (\<lambda>(operations, annotated).
     try_r (case groups of
              None \<Rightarrow> Inr ([], False)
            | Some gs \<Rightarrow> try_r (ok_or (as_object gs) (invalid ''access-groups must be an object'')) (\<lambda>gs.
                         fold_r (check_group operations) gs ([], False))) (\<lambda>(declared, _).
     ensure_r (set declared = set annotated) (invalid ''access-groups disagree with operation annotations''))))))))"

section \<open>Contents and signature\<close>

definition component_magic :: string where
  "component_magic = [CHR 0x00, CHR ''a'', CHR ''s'', CHR ''m'', CHR 0x0D, CHR 0x00, CHR 0x01, CHR 0x00]"

definition backend_item :: "wasm_event option \<Rightarrow> unit \<Rightarrow> unit res" where
  "backend_item item _ =
     try_r (ok_or item (invalid ''malformed backend'')) (\<lambda>e.
     (case we_payload e of
        CustomSection name _ _ \<Rightarrow>
          ensure_r (name \<noteq> ''pishoo:signature'') (invalid ''backend must not embed a second publisher signature'')
      | _ \<Rightarrow> Inr ()))"

definition native_prefixes :: "string list" where
  "native_prefixes = [''/acl'', ''/contact'', ''/contacts'', ''/sys'', ''/pishoo'', ''/file'', ''/dhttp'']"

definition standard_paths_ok :: "string \<Rightarrow> string list \<Rightarrow> unit res" where
  "standard_paths_ok name paths =
     try_r (ensure_r (\<not> list_ex (\<lambda>path. reserved path \<or> list_ex (under_mount path) native_prefixes) paths)
              (invalid ''standard Lib conflicts with a reserved API path'')) (\<lambda>_.
     ensure_r (\<not> list_ex (\<lambda>path. \<not> under_mount path (''/'' @ name)) paths)
       (invalid ''standard Lib paths must stay under its package name''))"

definition str_or_empty :: "json \<Rightarrow> string" where
  "str_or_empty v = (case as_str v of None \<Rightarrow> [] | Some s \<Rightarrow> s)"

definition validate_backend_api :: "tools \<Rightarrow> package_files \<Rightarrow> json \<Rightarrow> unit res" where
  "validate_backend_api tk files metadata =
     try_r (package_openapi tk files) (\<lambda>raw.
     try_r (validate_openapi tk raw) (\<lambda>api.
     try_r (if is_standard_author (str_or_empty (jidx metadata ''publisher''))
            then standard_paths_ok (the (as_str (jidx metadata ''name''))) (map fst (the (ad_paths api)))
            else Inr ()) (\<lambda>_.
     try_r (ok_or (parse_json (tk_pki tk) raw) (invalid ''invalid OpenAPI JSON'')) (\<lambda>document.
     try_r (ensure_r (jidx (jidx document ''info'') ''version'' = jidx metadata ''version'')
              (invalid ''OpenAPI version differs from package version'')) (\<lambda>_.
     try_r (validate_declarations tk document) (\<lambda>_.
     ensure_r (\<not> (jidx metadata ''has_app'' \<noteq> JBool True \<and>
                   is_some_and (list_ex (\<lambda>(_, grp). jidx grp ''app'' = JBool True)) (Option.bind (access_groups document) as_object)))
       (invalid ''app capability requires this package's public resources'')))))))"

definition validate_contents :: "tools \<Rightarrow> package_files \<Rightarrow> json res" where
  "validate_contents tk files =
     try_r (package_metadata tk files) (\<lambda>metadata.
     try_r (ensure_r (jidx metadata ''name'' \<noteq> JStr ''std'') (invalid ''package name conflicts with the native std namespace'')) (\<lambda>_.
     try_r (ensure_r (\<not> (jidx metadata ''name'' = JStr ''app'' \<and> jidx metadata ''has_lib'' = JBool True \<and>
                         \<not> is_standard_author (str_or_empty (jidx metadata ''publisher''))))
              (invalid ''ordinary Lib name conflicts with the frontend app namespace'')) (\<lambda>_.
     try_r (case map_of files ''backend.wasm'' of
              None \<Rightarrow> Inr ()
            | Some backend \<Rightarrow>
                try_r (ensure_r (take 8 backend = component_magic) (invalid ''backend must be a WASM component'')) (\<lambda>_.
                try_r (fold_r backend_item (tk_wasm tk backend) ()) (\<lambda>_.
                validate_backend_api tk files metadata))) (\<lambda>_.
     Inr metadata))))"

definition signature_prefix :: string where
  "signature_prefix = ''pishoo-waz-signature-v1'' @ [CHR 0x00]"

definition signer_certificate :: "pki \<Rightarrow> json \<Rightarrow> string res" where
  "signer_certificate p v =
     try_r (ok_or (as_str v) (invalid ''invalid certificate encoding'')) (\<lambda>s.
     try_r (ok_or (base64_decode p s) (invalid ''invalid certificate encoding'')) (\<lambda>der.
     try_r (ensure_r (der \<noteq> []) (invalid ''empty signer certificate'')) (\<lambda>_. Inr der)))"

definition verify_signature :: "tools \<Rightarrow> package_files \<Rightarrow> json \<Rightarrow> unit res" where
  "verify_signature tk files document =
     (let p = tk_pki tk in
     try_r (ok_or (opt_filter (\<lambda>data. length data \<le> 64 * 1024) (map_of files ''signature.json''))
              (invalid ''missing or oversized publisher signature'')) (\<lambda>data.
     try_r (ok_or (parse_json p data) (invalid ''invalid signature envelope'')) (\<lambda>envelope.
     try_r (ensure_r (\<not> (is_none_or (\<lambda>m. length m \<noteq> 3) (as_object envelope) \<or> as_u64 (jidx envelope ''version'') \<noteq> Some 1 \<or>
                         is_none_or (\<lambda>cs. cs = []) (as_array (jidx envelope ''certificates''))))
              (invalid ''unsupported signature envelope'')) (\<lambda>_.
     try_r (text_field envelope ''signature'') (\<lambda>encoded.
     try_r (ok_or (base64_decode p encoded) (invalid ''invalid signature encoding'')) (\<lambda>signature.
     try_r (ensure_r (\<not> (signature = [] \<or> length signature > 8192)) (invalid ''invalid signature size'')) (\<lambda>_.
     try_r (collect_r (signer_certificate p) (the (as_array (jidx envelope ''certificates'')))) (\<lambda>certificates.
     try_r (ok_or (parse_cert p (certificates ! 0)) (invalid ''invalid signer certificate'')) (\<lambda>(remaining, certificate).
     try_r (ensure_r (remaining = []) (invalid ''trailing signer certificate data'')) (\<lambda>_.
     let publisher = the (as_str (jidx document ''publisher'')) in
     try_r (ok_or (subject_key_of p certificates) (invalid ''invalid signer owner_hash'')) (\<lambda>_.
     try_r (ok_or (ct_alt_names certificate) (invalid ''invalid signer names'')) (\<lambda>names.
     try_r (ensure_r (\<not> is_none_or (\<lambda>ns. DNSName publisher \<notin> set ns) names)
              (invalid ''signer certificate and publisher disagree'')) (\<lambda>_.
     let input = signature_prefix @ unhex (waz_payload (sha256 p) files) in
     try_r (ok_or (verify_sig p (ct_public_key certificate) input signature) (invalid ''unsupported publisher signing key'')) (\<lambda>ok.
     ensure_r ok (policy ''package_signature_invalid'' 422)))))))))))))))"

definition read_package_at :: "tools \<Rightarrow> string \<Rightarrow> int \<Rightarrow> package_files res" where
  "read_package_at tk bytes at =
     try_r (map_err invalid (waz_read (tk_utf8 tk) (tk_zip tk) bytes)) (\<lambda>files.
     try_r (validate_contents tk files) (\<lambda>metadata.
     try_r (certificates (tk_pki tk) files) (\<lambda>chain.
     try_r (verify_chain_with_root (tk_pki tk) chain (the (as_str (jidx metadata ''publisher''))) at) (\<lambda>_.
     try_r (verify_signature tk files metadata) (\<lambda>_. Inr files)))))"

section \<open>Bare components\<close>

record lib_scan =
  ls_document :: "string option"
  ls_depth :: nat
  ls_component :: bool
  ls_section_end :: nat
  ls_signature :: "(nat \<times> string) option"

definition lib_payload :: "nat \<Rightarrow> wasm_payload \<Rightarrow> lib_scan \<Rightarrow> lib_scan res" where
  "lib_payload len payload st = (case payload of
     ComponentVersion \<Rightarrow> Inr (if ls_depth st = 0 then st\<lparr>ls_component := True\<rparr> else st)
   | ModuleSection \<Rightarrow> Inr (st\<lparr>ls_depth := ls_depth st + 1\<rparr>)
   | ComponentSection \<Rightarrow> Inr (st\<lparr>ls_depth := ls_depth st + 1\<rparr>)
   | WasmEnd \<Rightarrow> Inr (if ls_depth st > 0 then st\<lparr>ls_depth := ls_depth st - 1\<rparr> else st)
   | CustomSection name data end_pos \<Rightarrow>
       if ls_depth st = 0 \<and> name = ''pishoo:openapi'' then
         try_r (ensure_r (ls_document st = None) (invalid ''duplicate pishoo:openapi section'')) (\<lambda>_.
         try_r (ensure_r (length data \<le> 1024 * 1024) (invalid ''OpenAPI exceeds 1 MiB'')) (\<lambda>_.
         Inr (st\<lparr>ls_document := Some data\<rparr>)))
       else if name = ''pishoo:signature'' then
         try_r (ensure_r (\<not> (ls_depth st \<noteq> 0 \<or> ls_signature st \<noteq> None \<or> end_pos \<noteq> len \<or> length data > 64 * 1024))
                  (invalid ''signature must be a unique bounded final section'')) (\<lambda>_.
         Inr (st\<lparr>ls_signature := Some (ls_section_end st, data)\<rparr>))
       else Inr st
   | OtherPayload \<Rightarrow> Inr st)"

definition lib_item :: "nat \<Rightarrow> wasm_event option \<Rightarrow> lib_scan \<Rightarrow> lib_scan res" where
  "lib_item len item st =
     try_r (ok_or item (invalid ''malformed component'')) (\<lambda>e.
     let next_end = (if ls_depth st = 0 then we_section_end e else None) in
     try_r (lib_payload len (we_payload e) st) (\<lambda>st'.
     Inr (case next_end of None \<Rightarrow> st' | Some n \<Rightarrow> st'\<lparr>ls_section_end := n\<rparr>)))"

definition lib_signature_prefix :: string where
  "lib_signature_prefix = ''pishoo-lib-signature-v1'' @ [CHR 0x00]"

definition lib_certificate :: "pki \<Rightarrow> json \<Rightarrow> string res" where
  "lib_certificate p v =
     try_r (ok_or (as_str v) (invalid ''invalid signer certificate'')) (\<lambda>s.
     ok_or (base64_decode p s) (invalid ''invalid signer certificate encoding''))"

definition verify_component_signature :: "tools \<Rightarrow> string \<Rightarrow> nat \<Rightarrow> string \<Rightarrow> string \<Rightarrow> unit res" where
  "verify_component_signature tk bytes signed_end data document =
     (let p = tk_pki tk in
     try_r (ok_or (parse_json p data) (invalid ''invalid signature envelope'')) (\<lambda>envelope.
     try_r (ensure_r (\<not> (is_none_or (\<lambda>m. length m \<noteq> 3) (as_object envelope) \<or> as_u64 (jidx envelope ''version'') \<noteq> Some 1))
              (invalid ''unsupported signature envelope'')) (\<lambda>_.
     try_r (ok_or (opt_filter (\<lambda>cs. cs \<noteq> []) (as_array (jidx envelope ''certificates''))) (invalid ''missing signer certificates'')) (\<lambda>cs.
     try_r (collect_r (lib_certificate p) cs) (\<lambda>certificates.
     try_r (ok_or (parse_cert p (certificates ! 0)) (invalid ''invalid signer certificate'')) (\<lambda>(remaining, certificate).
     try_r (ensure_r (remaining = []) (invalid ''trailing signer certificate data'')) (\<lambda>_.
     try_r (ok_or (parse_json p document) (invalid ''invalid signed OpenAPI'')) (\<lambda>doc.
     try_r (ok_or (opt_filter (\<lambda>n. normalize_name p n = Some n) (as_str (jidx (jidx doc ''x-pishoo'') ''publisher'')))
              (invalid ''invalid signed publisher'')) (\<lambda>publisher.
     try_r (ok_or (subject_key_of p certificates) (invalid ''invalid signer owner_hash'')) (\<lambda>_.
     try_r (ok_or (ct_alt_names certificate) (invalid ''invalid signer names'')) (\<lambda>names.
     try_r (ensure_r (\<not> is_none_or (\<lambda>ns. DNSName publisher \<notin> set ns) names)
              (invalid ''signer certificate and publisher disagree'')) (\<lambda>_.
     try_r (ok_or (as_str (jidx envelope ''signature'')) (invalid ''missing signature'')) (\<lambda>encoded.
     try_r (ok_or (base64_decode p encoded) (invalid ''invalid signature encoding'')) (\<lambda>signature.
     try_r (ensure_r (\<not> (signature = [] \<or> length signature > 8192)) (invalid ''invalid signature size'')) (\<lambda>_.
     let input = lib_signature_prefix @ sha256 p (take signed_end bytes) in
     try_r (ok_or (verify_sig p (ct_public_key certificate) input signature) (invalid ''unsupported publisher signing key'')) (\<lambda>ok.
     ensure_r ok (invalid ''publisher signature verification failed'')))))))))))))))))"

definition validate_lib :: "tools \<Rightarrow> string \<Rightarrow> api_doc res" where
  "validate_lib tk bytes =
     try_r (ensure_r (length bytes \<le> 64 * 1024 * 1024) (invalid ''component exceeds 64 MiB'')) (\<lambda>_.
     try_r (fold_r (lib_item (length bytes)) (tk_wasm tk bytes)
              \<lparr>ls_document = None, ls_depth = 0, ls_component = False, ls_section_end = 8, ls_signature = None\<rparr>) (\<lambda>st.
     try_r (ensure_r (ls_component st) (invalid ''lib.wasm must be a component'')) (\<lambda>_.
     try_r (ok_or (ls_document st) (invalid ''missing pishoo:openapi section'')) (\<lambda>document.
     try_r (case ls_signature st of
              None \<Rightarrow> Inr ()
            | Some (signed_end, envelope) \<Rightarrow> verify_component_signature tk bytes signed_end envelope document) (\<lambda>_.
     validate_openapi tk document)))))"

end
