(* ===== verification/Package_Example.thy ===== *)
theory Package_Example
  imports Package_Format
begin

text \<open>
  A signed package on which the properties of the format and of the installation are applied: an
  App of \<^verbatim>\<open>a.b/x\<close> with a manifest, a page and a signature, in an archive of 341 bytes, and
  crates that read it. The JSON texts are one letter each, the reader knows what they stand for.
\<close>

section \<open>The archive\<close>

definition example_package :: string where
  "example_package = [CHR 0x50, CHR 0x4B, CHR 0x03, CHR 0x04, CHR 0x14, CHR 0x00, CHR 0x00, CHR 0x00, CHR 0x00, CHR 0x00, CHR 0x00, CHR 0x00,
      CHR 0x21, CHR 0x00, CHR 0x68, CHR 0xF2, CHR 0x01, CHR 0xE1, CHR 0x01, CHR 0x00, CHR 0x00, CHR 0x00, CHR 0x01, CHR 0x00,
      CHR 0x00, CHR 0x00, CHR 0x0D, CHR 0x00, CHR 0x00, CHR 0x00] @
      ''manifest.json'' @ ''m'' @
      [CHR 0x50, CHR 0x4B, CHR 0x03, CHR 0x04, CHR 0x14, CHR 0x00, CHR 0x00, CHR 0x00, CHR 0x00, CHR 0x00, CHR 0x00, CHR 0x00,
      CHR 0x21, CHR 0x00, CHR 0xE7, CHR 0x06, CHR 0x6B, CHR 0x91, CHR 0x01, CHR 0x00, CHR 0x00, CHR 0x00, CHR 0x01, CHR 0x00,
      CHR 0x00, CHR 0x00, CHR 0x11, CHR 0x00, CHR 0x00, CHR 0x00] @
      ''public/index.html'' @ ''h'' @
      [CHR 0x50, CHR 0x4B, CHR 0x03, CHR 0x04, CHR 0x14, CHR 0x00, CHR 0x00, CHR 0x00, CHR 0x00, CHR 0x00, CHR 0x00, CHR 0x00,
      CHR 0x21, CHR 0x00, CHR 0x0B, CHR 0xCF, CHR 0x0E, CHR 0x1B, CHR 0x01, CHR 0x00, CHR 0x00, CHR 0x00, CHR 0x01, CHR 0x00,
      CHR 0x00, CHR 0x00, CHR 0x0E, CHR 0x00, CHR 0x00, CHR 0x00] @
      ''signature.json'' @ ''s'' @
      [CHR 0x50, CHR 0x4B, CHR 0x01, CHR 0x02, CHR 0x14, CHR 0x03, CHR 0x14, CHR 0x00, CHR 0x00, CHR 0x00, CHR 0x00, CHR 0x00,
      CHR 0x00, CHR 0x00, CHR 0x21, CHR 0x00, CHR 0x68, CHR 0xF2, CHR 0x01, CHR 0xE1, CHR 0x01, CHR 0x00, CHR 0x00, CHR 0x00,
      CHR 0x01, CHR 0x00, CHR 0x00, CHR 0x00, CHR 0x0D, CHR 0x00, CHR 0x00, CHR 0x00, CHR 0x00, CHR 0x00, CHR 0x00, CHR 0x00,
      CHR 0x00, CHR 0x00, CHR 0x00, CHR 0x00, CHR 0xA4, CHR 0x81, CHR 0x00, CHR 0x00, CHR 0x00, CHR 0x00] @
      ''manifest.json'' @
      [CHR 0x50, CHR 0x4B, CHR 0x01, CHR 0x02, CHR 0x14, CHR 0x03, CHR 0x14, CHR 0x00, CHR 0x00, CHR 0x00, CHR 0x00, CHR 0x00,
      CHR 0x00, CHR 0x00, CHR 0x21, CHR 0x00, CHR 0xE7, CHR 0x06, CHR 0x6B, CHR 0x91, CHR 0x01, CHR 0x00, CHR 0x00, CHR 0x00,
      CHR 0x01, CHR 0x00, CHR 0x00, CHR 0x00, CHR 0x11, CHR 0x00, CHR 0x00, CHR 0x00, CHR 0x00, CHR 0x00, CHR 0x00, CHR 0x00,
      CHR 0x00, CHR 0x00, CHR 0x00, CHR 0x00, CHR 0xA4, CHR 0x81, CHR 0x2C, CHR 0x00, CHR 0x00, CHR 0x00] @
      ''public/index.html'' @
      [CHR 0x50, CHR 0x4B, CHR 0x01, CHR 0x02, CHR 0x14, CHR 0x03, CHR 0x14, CHR 0x00, CHR 0x00, CHR 0x00, CHR 0x00, CHR 0x00,
      CHR 0x00, CHR 0x00, CHR 0x21, CHR 0x00, CHR 0x0B, CHR 0xCF, CHR 0x0E, CHR 0x1B, CHR 0x01, CHR 0x00, CHR 0x00, CHR 0x00,
      CHR 0x01, CHR 0x00, CHR 0x00, CHR 0x00, CHR 0x0E, CHR 0x00, CHR 0x00, CHR 0x00, CHR 0x00, CHR 0x00, CHR 0x00, CHR 0x00,
      CHR 0x00, CHR 0x00, CHR 0x00, CHR 0x00, CHR 0xA4, CHR 0x81, CHR 0x5C, CHR 0x00, CHR 0x00, CHR 0x00] @
      ''signature.json'' @
      [CHR 0x50, CHR 0x4B, CHR 0x05, CHR 0x06, CHR 0x00, CHR 0x00, CHR 0x00, CHR 0x00, CHR 0x03, CHR 0x00, CHR 0x03, CHR 0x00,
      CHR 0xB6, CHR 0x00, CHR 0x00, CHR 0x00, CHR 0x89, CHR 0x00, CHR 0x00, CHR 0x00, CHR 0x00, CHR 0x00]"

definition example_entryA :: zip_entry where
  "example_entryA = \<lparr>ze_name = ''manifest.json'', ze_is_dir = False, ze_encrypted = False, ze_method = 0,
     ze_unix_mode = Some 33188, ze_size = 1, ze_compressed = 1, ze_crc32 = 3775001192, ze_header_start = 0,
     ze_data_start = 43, ze_central_start = 137, ze_content = Some ''m''\<rparr>"

definition example_entryB :: zip_entry where
  "example_entryB = \<lparr>ze_name = ''public/index.html'', ze_is_dir = False, ze_encrypted = False, ze_method = 0,
     ze_unix_mode = Some 33188, ze_size = 1, ze_compressed = 1, ze_crc32 = 2439710439, ze_header_start = 44,
     ze_data_start = 91, ze_central_start = 196, ze_content = Some ''h''\<rparr>"

definition example_entryC :: zip_entry where
  "example_entryC = \<lparr>ze_name = ''signature.json'', ze_is_dir = False, ze_encrypted = False, ze_method = 0,
     ze_unix_mode = Some 33188, ze_size = 1, ze_compressed = 1, ze_crc32 = 453955339, ze_header_start = 92,
     ze_data_start = 136, ze_central_start = 259, ze_content = Some ''s''\<rparr>"

definition example_files :: package_files where
  "example_files = [(''manifest.json'', ''m''), (''public/index.html'', ''h''), (''signature.json'', ''s'')]"

section \<open>The crates\<close>

definition example_manifest :: json where
  "example_manifest = JObj [(''dependencies'', JArr []), (''format'', JStr ''waz/1''), (''frontend'', JStr ''public''),
     (''package'', JObj [(''author'', JStr ''a.b''), (''description'', JStr ''d''), (''license'', JStr ''l''),
        (''name'', JStr ''x''), (''release-notes'', JStr ''r''), (''title'', JStr ''t''), (''version'', JStr ''1.0.0'')])]"

definition example_envelope :: json where
  "example_envelope = JObj [(''certificates'', JArr [JStr ''L'', JStr ''I'']), (''signature'', JStr ''S''), (''version'', JInt 1)]"

definition example_certificate :: "bool \<Rightarrow> string \<Rightarrow> certificate" where
  "example_certificate ca s = \<lparr>ct_key_algorithm = ''1.2.840.10045.2.1'', ct_key_parameter = Some ''1.3.132.0.34'',
     ct_signature_algorithm = ''1.2.840.10045.4.3.3'',
     ct_basic = Some (Some \<lparr>bc_critical = True, bc_ca = ca, bc_path_len = (if ca then Some 0 else None)\<rparr>),
     ct_key_usage = Some (Some \<lparr>ku_critical = True, ku_flags = (if ca then 97 else 1)\<rparr>),
     ct_purposes = Some (Some \<lparr>ep_code_signing = True, ep_any = False, ep_server_auth = False, ep_client_auth = False,
        ep_email_protection = False, ep_time_stamping = False, ep_ocsp_signing = False, ep_other = []\<rparr>),
     ct_alt_names = Some (Some [DNSName ''a.b'']), ct_common_names = [Some ''a.b''], ct_subject = s, ct_serial = s,
     ct_public_key = s, ct_not_before = 0, ct_not_after = 100\<rparr>"

definition example_digest :: string where
  "example_digest = replicate 32 (CHR ''x'')"

definition example_receipt :: json where
  "example_receipt = JObj [(''author'', JStr ''a.b''), (''author_owner_hash'', JStr ''o''), (''format'', JStr ''pishoo-publication/1''),
     (''issuer_id'', JStr (hex_text example_digest)), (''leaf_fingerprint_sha256'', JStr (hex_text example_digest)),
     (''name'', JStr ''x''), (''package_sha256'', JStr (hex_text example_digest)), (''registry'', JStr store_name),
     (''registry_owner_hash'', JStr store_owner), (''size'', JInt 341), (''verified_at'', JInt 5), (''version'', JStr ''1.0.0'')]"

text \<open>What the store publishes for the package.\<close>

definition example_release :: json where
  "example_release = JObj [(''author'', JStr ''a.b''), (''author_owner_hash'', JStr ''o''), (''changelog'', JStr ''r''),
     (''dependencies'', JArr []), (''description'', JStr ''d''),
     (''download_path'', JStr ''/store/v1/packages/a.b/x/versions/1.0.0/package.waz''), (''id'', JStr ''a.b/x''), (''name'', JStr ''x''),
     (''package_sha256'', JStr (hex_text example_digest)),
     (''publication_receipt'', JObj [(''certificates'', JArr [JStr ''P'', JStr ''I'']), (''payload'', JStr ''p''), (''signature'', JStr ''S'')]),
     (''signature'', JObj [(''issuer_id'', JStr (hex_text example_digest)), (''leaf_fingerprint_sha256'', JStr (hex_text example_digest)),
        (''purpose'', JStr ''code_signing''), (''serial_number'', JStr ''4C''), (''ski'', JStr ''k''), (''verified_at'', JInt 5)]),
     (''signer_certificates'', JArr [JStr ''L'', JStr ''I'']), (''size'', JInt 341), (''status'', JStr ''published''),
     (''title'', JStr ''t''), (''version'', JStr ''1.0.0'')]"

definition example_trust :: pki where
  "example_trust = \<lparr>parse_cert = (\<lambda>s. Some ([], example_certificate (s = ''I'') s)),
     subject_key_of = (\<lambda>c. Some \<lparr>sk_text = ''k'', sk_owner = (if c = [''P'', ''I''] then store_owner else ''o''),
        sk_client_and_server = True, sk_sequence = 1\<rparr>),
     path_ok = (\<lambda>root leaf chain at usage. root = ''R'' \<and> chain = [''I''] \<and> 0 \<le> at \<and> at \<le> 100),
     valid_for_name = (\<lambda>c n. c = ''P'' \<and> n = store_name),
     verify_sig = (\<lambda>key msg sig. Some (sig = ''S'')), parse_crl = (\<lambda>_. None),
     sha256 = (\<lambda>_. example_digest), base64_decode = Some,
     parse_json = (\<lambda>s. if s = ''m'' then Some example_manifest else if s = ''s'' then Some example_envelope
        else if s = ''p'' then Some example_receipt else if s = ''q'' then Some example_release else None),
     normalize_name = (\<lambda>n. if CHR ''/'' \<in> set n then None else Some n), root_der = ''R''\<rparr>"

definition example_tools :: tools where
  "example_tools = \<lparr>tk_pki = example_trust, tk_utf8 = (\<lambda>_. True),
     tk_zip = (\<lambda>bs. if bs = example_package then Some (0, [example_entryA, example_entryB, example_entryC]) else None),
     tk_wasm = (\<lambda>_. []), tk_url = (\<lambda>_. None), tk_openapi = (\<lambda>_. None), tk_grantee = (\<lambda>_. True), tk_effect = (\<lambda>_. True)\<rparr>"

section \<open>Reading it\<close>

lemma example_paths: "waz_path ''manifest.json''" "waz_path ''public/index.html''" "waz_path ''signature.json''"
  by (simp_all add: waz_path_def str_eval)

lemma package_ancestors:
  "ancestors ''manifest.json'' = []" "ancestors ''public/index.html'' = [''public'']" "ancestors ''signature.json'' = []"
proof -
  have "ancestors ''public'' = []" by (subst ancestors.simps) (simp add: rsplit_once_def)
  then show "ancestors ''public/index.html'' = [''public'']" by (subst ancestors.simps) (simp add: rsplit_once_def)
qed (subst ancestors.simps, simp add: rsplit_once_def)+

lemmas package_eval = slice_def get_slice_def u16_at_def u32_at_def example_package_def byte_def

lemmas package_step = read_entry_def example_paths waz_limit_def checked_add_def local_magic_def
      central_magic_def entry_kind_ok_def entry_limit_def central_length_def flags_ok_def is_none_or_def package_eval Let_def

lemma example_stepA:
  "read_entry (\<lambda>_. True) example_package 137 319 example_entryA
     \<lparr>ws_files = [], ws_spans = [], ws_central = [], ws_remaining = waz_limit\<rparr> =
   Inr \<lparr>ws_files = [(''manifest.json'', ''m'')], ws_spans = [(0, 44)], ws_central = [(137, 196)],
     ws_remaining = waz_limit - 1\<rparr>"
  by (simp add: example_entryA_def package_step)

lemma example_stepB:
  "read_entry (\<lambda>_. True) example_package 137 319 example_entryB
     \<lparr>ws_files = [(''manifest.json'', ''m'')], ws_spans = [(0, 44)], ws_central = [(137, 196)], ws_remaining = waz_limit - 1\<rparr> =
   Inr \<lparr>ws_files = [(''manifest.json'', ''m''), (''public/index.html'', ''h'')], ws_spans = [(0, 44), (44, 92)],
     ws_central = [(137, 196), (196, 259)], ws_remaining = waz_limit - 2\<rparr>"
  by (simp add: example_entryB_def package_step)

lemma example_stepC:
  "read_entry (\<lambda>_. True) example_package 137 319 example_entryC
     \<lparr>ws_files = [(''manifest.json'', ''m''), (''public/index.html'', ''h'')], ws_spans = [(0, 44), (44, 92)],
       ws_central = [(137, 196), (196, 259)], ws_remaining = waz_limit - 2\<rparr> =
   Inr \<lparr>ws_files = example_files, ws_spans = [(0, 44), (44, 92), (92, 137)],
     ws_central = [(137, 196), (196, 259), (259, 319)], ws_remaining = waz_limit - 3\<rparr>"
  by (simp add: example_entryC_def example_files_def package_step)

lemma example_package_length: "length example_package = 341"
  by (simp add: example_package_def)

lemma example_package_read: "waz_read (tk_utf8 example_tools) (tk_zip example_tools) example_package = Inr example_files"
proof -
  have "waz_is_zip example_package" "slice (drop 319 example_package) 0 4 = end_magic"
    by (simp_all add: waz_is_zip_def local_magic_def end_magic_def package_eval starts_with_def)
  moreover have "u16_at (drop 319 example_package) 4 = 0" "u16_at (drop 319 example_package) 6 = 0"
      "u16_at (drop 319 example_package) 20 = 0" "u16_at (drop 319 example_package) 8 = 3" "u16_at (drop 319 example_package) 10 = 3"
      "u32_at (drop 319 example_package) 12 = 182" "u32_at (drop 319 example_package) 16 = 137"
    by (simp_all add: package_eval)
  moreover have "341 \<le> waz_limit" "checked_add 137 182 = Some 319"
    by (simp_all add: waz_limit_def checked_add_def)
  moreover have "tk_zip example_tools example_package = Some (0, [example_entryA, example_entryB, example_entryC])"
      "tk_utf8 example_tools = (\<lambda>_. True)"
    by (simp_all add: example_tools_def)
  moreover have "341 - 22 = (319::nat)" "22 \<le> (341::nat)" by simp_all
  moreover have "sort_key fst example_files = example_files" "map fst example_files = [''manifest.json'', ''public/index.html'', ''signature.json'']"
    by (simp_all add: example_files_def less_char_def byte_def)
  ultimately show ?thesis
    apply (simp only: waz_read_def example_package_length Let_def simp_thms ensure_r_simps try_r_simps ok_or_simps prod.case)
    apply (simp add: example_stepA example_stepB example_stepC package_ancestors check_directory_def del: One_nat_def)
    apply (simp add: example_files_def package_ancestors check_directory_def List.insert_def Let_def)
    done
qed

definition example_metadata :: json where
  "example_metadata = JObj [(''changelog'', JStr ''r''), (''dependencies'', JArr []), (''description'', JStr ''d''), (''entry'', JStr ''/''),
     (''has_app'', JBool True), (''has_lib'', JBool False), (''id'', JStr ''a.b/x''), (''license'', JStr ''l''), (''name'', JStr ''x''),
     (''publisher'', JStr ''a.b''), (''title'', JStr ''t''), (''version'', JStr ''1.0.0'')]"

lemma example_metadata: "package_metadata example_tools example_files = Inr example_metadata"
  by (simp add: package_metadata_def example_tools_def example_trust_def example_files_def example_manifest_def unknown_keys_def
      text_field_def valid_id_def package_name_ok_def release_version_def read_repository_def example_metadata_def str_eval Let_def)

lemma example_contents: "validate_contents example_tools example_files = Inr example_metadata"
  by (simp add: validate_contents_def example_metadata) (simp add: example_metadata_def example_files_def)

lemma example_certificates: "certificates example_trust example_files = Inr [''L'', ''I'']"
  by (simp add: certificates_def example_trust_def example_files_def example_envelope_def decode_certificate_def)

lemma example_chain: "0 \<le> at \<Longrightarrow> at \<le> 100 \<Longrightarrow> verify_chain_with_root example_trust [''L'', ''I''] ''a.b'' at = Inr ()"
  by (simp add: verify_chain_with_root_def example_trust_def parse_whole_def check_certificate_def example_certificate_def present_def
      role_ok_def Let_def)

lemma example_signature: "verify_signature example_tools example_files example_metadata = Inr ()"
  by (simp add: verify_signature_def example_tools_def example_trust_def example_files_def example_envelope_def signer_certificate_def
      text_field_def example_certificate_def example_metadata_def str_eval Let_def)

lemma example_reads: "0 \<le> at \<Longrightarrow> at \<le> 100 \<Longrightarrow> read_package_at example_tools example_package at = Inr example_files"
  using example_signature example_chain [of at]
  by (simp add: read_package_at_def example_package_read example_contents example_tools_def [THEN arg_cong, of tk_pki, simplified]
      example_certificates) (simp add: example_metadata_def)

lemma example_simps [simp]:
  "tk_pki example_tools = example_trust"
  "parse_cert example_trust s = Some ([], example_certificate (s = ''I'') s)"
  "sha256 example_trust s = example_digest" "base64_decode example_trust = Some"
  "verify_sig example_trust k m s = Some (s = ''S'')"
  "normalize_name example_trust ''a.b'' = Some ''a.b''"
  by (simp_all add: example_tools_def example_trust_def)

end
