(* ===== verification/Package_Laws.thy ===== *)
theory Package_Laws
  imports Package_Example
begin

text \<open>
  What the checks of \<open>Package_Format\<close> establish: the shape of the metadata that later code
  unwraps without looking, release versions as canonical numbers, permission groups that say
  exactly what the operations are annotated with, and the authenticity of an accepted package.
\<close>

section \<open>The shape of the metadata\<close>

definition dependency_wf :: "normalizer \<Rightarrow> json \<Rightarrow> bool" where
  "dependency_wf norm d = (\<exists>author name version.
     d = JObj [(''name'', JStr name), (''publisher'', JStr author), (''version'', JStr version)] \<and>
     valid_id norm (author @ ''/'' @ name) = Inr () \<and> norm author = Some author \<and> release_version version)"

definition dependency_id :: "json \<Rightarrow> string" where
  "dependency_id d = the (as_str (jidx d ''publisher'')) @ ''/'' @ the (as_str (jidx d ''name''))"

definition metadata_wf :: "normalizer \<Rightarrow> package_files \<Rightarrow> json \<Rightarrow> bool" where
  "metadata_wf norm files m = (\<exists>publisher name version deps has_lib has_app.
     jidx m ''publisher'' = JStr publisher \<and> jidx m ''name'' = JStr name \<and> jidx m ''version'' = JStr version \<and>
     jidx m ''id'' = JStr (publisher @ ''/'' @ name) \<and> valid_id norm (publisher @ ''/'' @ name) = Inr () \<and>
     norm publisher = Some publisher \<and> release_version version \<and>
     jidx m ''dependencies'' = JArr deps \<and> length deps \<le> 100 \<and> (\<forall>d \<in> set deps. dependency_wf norm d) \<and>
     distinct (map dependency_id deps) \<and> publisher @ ''/'' @ name \<notin> set (map dependency_id deps) \<and>
     jidx m ''has_lib'' = JBool has_lib \<and> jidx m ''has_app'' = JBool has_app \<and> (has_lib \<or> has_app) \<and>
     (has_lib \<longleftrightarrow> ''backend.wasm'' \<in> set (map fst files)) \<and>
     (has_app \<longleftrightarrow> (\<exists>n \<in> set (map fst files). starts_with ''public/'' n)) \<and>
     (has_app \<longrightarrow> ''public/index.html'' \<in> set (map fst files)))"

lemma read_dependencies_ok:
  assumes "fold_r (read_dependency norm pid) ds (ids, out) = Inr (ids', out')"
    and "set ids = set (map dependency_id out)" "distinct (map dependency_id out)" "pid \<notin> set (map dependency_id out)"
    "\<forall>d \<in> set out. dependency_wf norm d"
  shows "length out' = length out + length ds \<and> distinct (map dependency_id out') \<and> pid \<notin> set (map dependency_id out') \<and>
    (\<forall>d \<in> set out'. dependency_wf norm d)"
  using assms
proof (induction ds arbitrary: ids out)
  case (Cons d ds)
  from Cons.prems(1) obtain author name version where
    ok: "valid_id norm (author @ ''/'' @ name) = Inr ()" "norm author = Some author" "release_version version"
      "author @ ''/'' @ name \<notin> set ids" "author @ ''/'' @ name \<noteq> pid" and
    rest: "fold_r (read_dependency norm pid) ds ((author @ ''/'' @ name) # ids,
      out @ [JObj [(''name'', JStr name), (''publisher'', JStr author), (''version'', JStr version)]]) = Inr (ids', out')"
    unfolding fold_r.simps try_r_Inr_iff read_dependency_def Let_def prod.case ensure_r_Inr_iff is_ok_iff
    by auto
  have "length out' = length (out @ [JObj [(''name'', JStr name), (''publisher'', JStr author), (''version'', JStr version)]]) + length ds \<and>
    distinct (map dependency_id out') \<and> pid \<notin> set (map dependency_id out') \<and> (\<forall>d \<in> set out'. dependency_wf norm d)"
    by (rule Cons.IH [OF rest]) (use Cons.prems ok in \<open>auto simp: dependency_id_def dependency_wf_def\<close>)
  then show ?case by simp
qed simp

lemma package_metadata_cases:
  assumes "package_metadata tk files = Inr m"
  obtains publisher name version title description license changes deps ds repository has_lib has_app where
    "m = JObj ([(''changelog'', JStr changes), (''dependencies'', JArr deps), (''description'', JStr description)] @
       (if has_app then [(''entry'', JStr ''/'')] else []) @
       [(''has_app'', JBool has_app), (''has_lib'', JBool has_lib), (''id'', JStr (publisher @ ''/'' @ name)), (''license'', JStr license),
        (''name'', JStr name), (''publisher'', JStr publisher)] @
       repository @ [(''title'', JStr title), (''version'', JStr version)])"
    "repository = [] \<or> (\<exists>r. repository = [(''repository'', r)])"
    "valid_id (normalize_name (tk_pki tk)) (publisher @ ''/'' @ name) = Inr ()"
    "normalize_name (tk_pki tk) publisher = Some publisher" "release_version version"
    "length ds \<le> 100"
    "\<exists>ids. fold_r (read_dependency (normalize_name (tk_pki tk)) (publisher @ ''/'' @ name)) ds ([], []) = Inr (ids, deps)"
    "has_lib \<longleftrightarrow> ''backend.wasm'' \<in> set (map fst files)"
    "has_app \<longleftrightarrow> list_ex (starts_with ''public/'') (map fst files)"
    "has_app \<longrightarrow> ''public/index.html'' \<in> set (map fst files)" "has_lib \<or> has_app"
proof -
  have repo: "repository = [] \<or> (\<exists>r. repository = [(''repository'', r)])"
    if "read_repository (tk_url tk) v = Inr repository" for v repository
    using that by (auto simp: read_repository_def try_r_Inr_iff split: option.splits)
  show thesis
    using assms
    unfolding package_metadata_def Let_def try_r_Inr_iff ensure_r_Inr_iff map_err_Inr_iff ok_or_Inr_iff opt_filter_Some_iff
      case_prod_beta
    apply (elim exE conjE)
    apply (rule that)
              apply (erule sum.inject(2) [THEN iffD1, symmetric])
             apply (erule repo)
            apply simp
           apply assumption
          apply assumption
         apply assumption
        apply (rule exI, erule trans, rule arg_cong [where f = Inr], rule prod.collapse [symmetric])
       apply blast+
    done
qed

lemma package_metadata_ok:
  assumes "package_metadata tk files = Inr m"
  shows "metadata_wf (normalize_name (tk_pki tk)) files m"
  using assms
proof (cases rule: package_metadata_cases)
  case (1 publisher name version title description license changes deps ds repository has_lib has_app)
  have fields: "jidx m ''publisher'' = JStr publisher" "jidx m ''name'' = JStr name" "jidx m ''version'' = JStr version"
    "jidx m ''id'' = JStr (publisher @ ''/'' @ name)" "jidx m ''dependencies'' = JArr deps"
    "jidx m ''has_lib'' = JBool has_lib" "jidx m ''has_app'' = JBool has_app"
    using 1(2) by (auto simp: 1(1))
  have deps: "length deps = length ds \<and> distinct (map dependency_id deps) \<and>
      publisher @ ''/'' @ name \<notin> set (map dependency_id deps) \<and> (\<forall>d \<in> set deps. dependency_wf (normalize_name (tk_pki tk)) d)"
    using 1(7) read_dependencies_ok by fastforce
  have "has_app \<longleftrightarrow> (\<exists>n \<in> set (map fst files). starts_with ''public/'' n)"
    using 1(9) unfolding list_ex_iff .
  with deps 1 show ?thesis
    unfolding metadata_wf_def fields json.inject by (intro exI conjI) (assumption | rule refl | simp)+
qed

text \<open>
  Property C26: metadata has the shape that the rest of the program takes for granted. The fields
  that are unwrapped later are there and have their types; the identity is a valid package id of a
  normalized publisher; versions are release versions; dependencies are at most a hundred distinct
  valid packages other than the package itself; and the runtime flags say exactly which resources
  the archive holds, at least one.
\<close>

theorem package_metadata_shape:
  assumes "package_metadata tk files = Inr m"
  shows "metadata_wf (normalize_name (tk_pki tk)) files m"
  using assms by (rule package_metadata_ok)

theorem package_metadata_shape_witness:
  "metadata_wf (normalize_name example_trust) example_files example_metadata"
  using package_metadata_shape [OF example_metadata] by simp

section \<open>Release versions\<close>

lemma digits_value_snoc: "digits_value (s @ [c]) = 10 * digits_value s + digit_value c"
  by (simp add: digits_value_def)

lemma digit_value_char: "n < 10 \<Longrightarrow> digit_value (char_of (48 + n)) = n \<and> is_ascii_digit (char_of (48 + n))"
  by (simp add: digit_value_def is_ascii_digit_def)

lemma digit_char_value:
  assumes "is_ascii_digit c"
  shows "char_of (48 + digit_value c) = c" "digit_value c < 10"
proof -
  from assms have "48 \<le> byte c" "byte c \<le> 57" by (simp_all add: is_ascii_digit_def)
  then show "char_of (48 + digit_value c) = c" "digit_value c < 10"
    by (simp_all add: digit_value_def)
qed

definition canonical_digits :: "string \<Rightarrow> bool" where
  "canonical_digits s = (s \<noteq> [] \<and> list_all is_ascii_digit s \<and> (length s = 1 \<or> hd s \<noteq> CHR ''0''))"

lemma nat_text_canonical: "canonical_digits (nat_text n) \<and> digits_value (nat_text n) = n \<and> (n > 0 \<longrightarrow> hd (nat_text n) \<noteq> CHR ''0'')"
proof (induction n rule: nat_text.induct)
  case (1 n)
  show ?case
  proof (cases "n < 10")
    case True
    moreover have "n > 0 \<Longrightarrow> (char_of (48 + n) :: char) \<noteq> CHR ''0''"
    proof
      assume "n > 0" "(char_of (48 + n) :: char) = CHR ''0''"
      then have "byte (char_of (48 + n)) = 48" by (simp add: byte_def)
      with True \<open>n > 0\<close> show False by simp
    qed
    ultimately show ?thesis
      using digit_value_char [of n] by (subst nat_text.simps, simp)+ (simp add: canonical_digits_def digits_value_def nat_text.simps)
  next
    case False
    with 1 have IH: "canonical_digits (nat_text (n div 10))" "digits_value (nat_text (n div 10)) = n div 10"
      "hd (nat_text (n div 10)) \<noteq> CHR ''0''" by auto
    have "nat_text n = nat_text (n div 10) @ [char_of (48 + n mod 10)]" using False by (subst nat_text.simps) simp
    with IH digit_value_char [of "n mod 10"] show ?thesis
      by (auto simp: canonical_digits_def digits_value_snoc hd_append)
  qed
qed

lemma canonical_nat_text: "canonical_digits s \<Longrightarrow> nat_text (digits_value s) = s"
proof (induction s rule: rev_induct)
  case (snoc c s)
  then have c: "is_ascii_digit c" by (simp add: canonical_digits_def)
  show ?case
  proof (cases "s = []")
    case True
    with digit_char_value [OF c] show ?thesis by (simp add: digits_value_def nat_text.simps)
  next
    case False
    with snoc.prems have s: "canonical_digits s" "hd s \<noteq> CHR ''0''"
      by (auto simp: canonical_digits_def hd_append)
    have "digits_value s > 0"
    proof (rule ccontr)
      assume "\<not> digits_value s > 0"
      with snoc.IH [OF s(1)] have "s = nat_text 0" by simp
      with s(2) show False by (simp add: nat_text.simps char_of_def bit_0)
    qed
    then have "\<not> digits_value (s @ [c]) < 10" by (simp add: digits_value_snoc)
    moreover have "digits_value (s @ [c]) div 10 = digits_value s" "digits_value (s @ [c]) mod 10 = digit_value c"
      using digit_char_value(2) [OF c] by (simp_all add: digits_value_snoc)
    ultimately have "nat_text (digits_value (s @ [c])) = nat_text (digits_value s) @ [char_of (48 + digit_value c)]"
      by (subst nat_text.simps) simp
    then show ?thesis using snoc.IH [OF s(1)] digit_char_value(1) [OF c] by simp
  qed
qed (simp add: canonical_digits_def)

lemma parse_digits: "s \<noteq> [] \<Longrightarrow> list_all is_ascii_digit s \<Longrightarrow> parse_unsigned w s \<noteq> None \<longleftrightarrow> digits_value s < 2 ^ w"
  by (cases s) (auto simp: parse_unsigned_def Let_def is_ascii_digit_def byte_def)

lemma starts_with_char: "starts_with [c] s \<longleftrightarrow> s \<noteq> [] \<and> hd s = c"
  by (cases s) (auto simp: starts_with_iff)

lemma version_part_iff:
  "(part \<noteq> [] \<and> list_all is_ascii_digit part \<and> parse_u64 part \<noteq> None \<and> (length part = 1 \<or> \<not> starts_with ''0'' part)) \<longleftrightarrow>
   (\<exists>n < 2 ^ 64. part = nat_text n)"
proof -
  have "(part \<noteq> [] \<and> list_all is_ascii_digit part \<and> parse_u64 part \<noteq> None \<and> (length part = 1 \<or> \<not> starts_with ''0'' part)) \<longleftrightarrow>
    canonical_digits part \<and> digits_value part < 2 ^ 64"
    unfolding canonical_digits_def starts_with_char using parse_digits [of part 64] by auto
  also have "\<dots> \<longleftrightarrow> (\<exists>n < 2 ^ 64. part = nat_text n)"
    using canonical_nat_text nat_text_canonical by metis
  finally show ?thesis .
qed

lemma nat_text_no_dot: "CHR ''.'' \<notin> set (nat_text n)"
proof -
  have "\<not> is_ascii_digit (CHR ''.'')" by (simp add: is_ascii_digit_def byte_def)
  then show ?thesis using nat_text_canonical [of n] by (auto simp: canonical_digits_def list_all_iff)
qed

text \<open>
  A release version is exactly three numbers below two to the 64th, written in their
  canonical decimal form and joined by dots: no sign, no leading zero, no empty part. So equal
  versions are equal strings, which the exact comparison of dependencies relies on.
\<close>

lemma release_version_canonical:
  "release_version v \<longleftrightarrow>
     (\<exists>a b c. a < 2 ^ 64 \<and> b < 2 ^ 64 \<and> c < 2 ^ 64 \<and> v = nat_text a @ ''.'' @ nat_text b @ ''.'' @ nat_text c)"
proof
  assume "release_version v"
  then have "length (split_on (CHR ''.'') v) = 3" and
    all: "list_all (\<lambda>part. \<exists>n < 2 ^ 64. part = nat_text n) (split_on (CHR ''.'') v)"
    unfolding release_version_def Let_def version_part_iff by blast+
  then obtain x y z where parts: "split_on (CHR ''.'') v = [x, y, z]" by (auto simp: numeral_3_eq_3 length_Suc_conv)
  then obtain a b c where abc: "a < 2 ^ 64" "b < 2 ^ 64" "c < 2 ^ 64" "x = nat_text a" "y = nat_text b" "z = nat_text c"
    using all by auto
  have "v = join_with ''.'' (split_on (CHR ''.'') v)" by (simp add: split_on_join)
  then have "v = nat_text a @ ''.'' @ nat_text b @ ''.'' @ nat_text c" unfolding parts abc by simp
  with abc show "\<exists>a b c. a < 2 ^ 64 \<and> b < 2 ^ 64 \<and> c < 2 ^ 64 \<and> v = nat_text a @ ''.'' @ nat_text b @ ''.'' @ nat_text c"
    by blast
next
  assume "\<exists>a b c. a < 2 ^ 64 \<and> b < 2 ^ 64 \<and> c < 2 ^ 64 \<and> v = nat_text a @ ''.'' @ nat_text b @ ''.'' @ nat_text c"
  then obtain a b c where abc: "a < 2 ^ 64" "b < 2 ^ 64" "c < 2 ^ 64" and v: "v = nat_text a @ ''.'' @ nat_text b @ ''.'' @ nat_text c"
    by blast
  have "split_on (CHR ''.'') v = [nat_text a, nat_text b, nat_text c]"
    unfolding v by (simp add: split_on_append_sep nat_text_no_dot)
  then show "release_version v"
    unfolding release_version_def Let_def version_part_iff using abc by auto
qed

section \<open>Permission declarations\<close>

definition item_operations :: "json \<Rightarrow> json list" where
  "item_operations item = List.map_filter (jget item) http_methods"

definition doc_operations :: "json \<Rightarrow> json list" where
  "doc_operations doc = concat (map (\<lambda>(_, item). item_operations item) (the (as_object (jidx doc ''paths''))))"

definition doc_groups :: "json \<Rightarrow> (string \<times> json) list" where
  "doc_groups doc = (case Option.bind (access_groups doc) as_object of None \<Rightarrow> [] | Some gs \<Rightarrow> gs)"

definition operation_id :: "json \<Rightarrow> string" where
  "operation_id operation = the (as_str (jidx operation ''operationId''))"

text \<open>What the groups list, and what the operations are annotated with: pairs of a group and an operation.\<close>

definition members_of :: "(string \<times> json) list \<Rightarrow> (string \<times> string) set" where
  "members_of gs = {(name, i). \<exists>grp. (name, grp) \<in> set gs \<and> JStr i \<in> set (the (as_array (jidx grp ''operations'')))}"

definition annotations_of :: "json list \<Rightarrow> (string \<times> string) set" where
  "annotations_of ops = {(g, i). \<exists>operation \<in> set ops. operation_id operation = i \<and> operation_group operation = Some (JStr g)}"

definition is_app_group :: "string \<times> json \<Rightarrow> bool" where
  "is_app_group entry = (jidx (snd entry) ''app'' = JBool True)"

lemma text_field_Inr_iff: "text_field v k = Inr s \<longleftrightarrow> jget v k = Some (JStr s) \<and> str_trim s \<noteq> []"
  by (auto simp: text_field_def bind_eq_Some_conv)

lemma one_of_Inr_iff: "one_of m a b = Inr x \<longleftrightarrow> x = or_else a b \<and> (a = None \<or> b = None)"
  by (auto simp: one_of_def)

lemma fold_r_map_filter:
  "fold_r (\<lambda>x st. case f x of None \<Rightarrow> Inr st | Some y \<Rightarrow> g y st) xs st = fold_r g (List.map_filter f xs) st"
  by (induction xs arbitrary: st) (auto simp: map_filter_simps try_r_def split: option.splits sum.splits)

lemma fold_r_ConsE:
  assumes "fold_r f (x # xs) s = Inr t"
  obtains s' where "f x s = Inr s'" "fold_r f xs s' = Inr t"
  using assms unfolding fold_r.simps try_r_Inr_iff by blast

lemma check_path_Inr: "check_path tk (path, item) st = Inr st' \<Longrightarrow> check_methods tk item st = Inr st'"
  by (simp add: check_path_def try_r_Inr_iff)

lemma check_paths_flat:
  assumes "fold_r (check_path tk) paths st = Inr st'"
  shows "fold_r (check_operation tk) (concat (map (\<lambda>(_, item). item_operations item) paths)) st = Inr st'"
  using assms
proof (induction paths arbitrary: st)
  case (Cons entry paths)
  obtain path item where e: "entry = (path, item)" by (cases entry)
  from Cons.prems obtain st1 where st1: "check_path tk entry st = Inr st1" "fold_r (check_path tk) paths st1 = Inr st'"
    by (rule fold_r_ConsE)
  from check_path_Inr [OF st1(1) [unfolded e]] have "fold_r (check_operation tk) (item_operations item) st = Inr st1"
    unfolding check_methods_def fold_r_map_filter item_operations_def .
  with Cons.IH [OF st1(2)] show ?case by (simp add: e fold_r_append)
qed simp

lemma check_operation_ok:
  assumes "check_operation tk operation (ops, ann) = Inr (ops', ann')"
  shows "jget operation ''operationId'' = Some (JStr (operation_id operation)) \<and> operation_id operation \<notin> set ops \<and>
    ops' = operation_id operation # ops \<and>
    set ann' = set ann \<union> {(g, operation_id operation) | g. operation_group operation = Some (JStr g)} \<and>
    (operation_group operation = None \<or> (\<exists>g. operation_group operation = Some (JStr g)))"
  using assms
  by (auto simp: check_operation_def Let_def try_r_Inr_iff text_field_Inr_iff one_of_Inr_iff operation_id_def jidx_def [of operation]
      operation_group_def split: option.splits)

lemma check_operations_ok:
  assumes "fold_r (check_operation tk) ops (seen, ann) = Inr (seen', ann')"
  shows "set seen' = set seen \<union> operation_id ` set ops \<and> set ann' = set ann \<union> annotations_of ops \<and>
    distinct (map operation_id ops) \<and> operation_id ` set ops \<inter> set seen = {} \<and>
    (\<forall>operation \<in> set ops. operation_group operation = None \<or> (\<exists>g. operation_group operation = Some (JStr g)))"
  using assms
proof (induction ops arbitrary: seen ann)
  case (Cons operation ops)
  then obtain seen1 ann1 where 1: "check_operation tk operation (seen, ann) = Inr (seen1, ann1)"
    "fold_r (check_operation tk) ops (seen1, ann1) = Inr (seen', ann')"
    by (auto simp: try_r_Inr_iff)
  note a = check_operation_ok [OF 1(1)] and b = Cons.IH [OF 1(2)]
  have "annotations_of (operation # ops) =
      {(g, operation_id operation) | g. operation_group operation = Some (JStr g)} \<union> annotations_of ops"
    by (auto simp: annotations_of_def)
  with a b show ?case by auto
qed (simp add: annotations_of_def)

lemma check_members_ok:
  assumes "fold_r (check_member ops name) vs declared = Inr declared'"
  shows "set declared' = set declared \<union> {(name, i) | i. JStr i \<in> set vs} \<and>
    (\<forall>v \<in> set vs. \<exists>i \<in> set ops. v = JStr i) \<and> (\<forall>i. JStr i \<in> set vs \<longrightarrow> i \<notin> snd ` set declared)"
  using assms
proof (induction vs arbitrary: declared)
  case (Cons v vs)
  from Cons.prems obtain declared1 where 1: "check_member ops name v declared = Inr declared1"
    "fold_r (check_member ops name) vs declared1 = Inr declared'"
    by (rule fold_r_ConsE)
  from 1(1) obtain i where i: "v = JStr i" "i \<in> set ops" "i \<notin> snd ` set declared" "declared1 = (name, i) # declared"
    by (auto simp: check_member_def try_r_Inr_iff)
  from Cons.IH [OF 1(2)] i show ?case by auto
qed simp

lemma check_group_ok:
  assumes "check_group ops (name, grp) (declared, app) = Inr (declared', app')"
  shows "set declared' = set declared \<union> members_of [(name, grp)] \<and>
    (app' \<longleftrightarrow> app \<or> is_app_group (name, grp)) \<and> \<not> (app \<and> is_app_group (name, grp)) \<and>
    valid_name name \<and> members_of [(name, grp)] \<noteq> {}"
proof -
  from assms obtain vs where vs: "jidx grp ''operations'' = JArr vs" "vs \<noteq> []"
    "fold_r (check_member ops name) vs declared = Inr declared'" and rest: "valid_name name"
    "app' = (app \<or> is_app_group (name, grp))" "\<not> (is_app_group (name, grp) \<and> app)"
    unfolding check_group_def Let_def prod.case try_r_Inr_iff ensure_r_Inr_iff ok_or_Inr_iff opt_filter_Some_iff
      as_array_Some_iff sum.inject prod.inject is_app_group_def snd_conv
    by blast
  have m: "members_of [(name, grp)] = {(name, i) | i. JStr i \<in> set vs}" by (auto simp: members_of_def vs(1))
  obtain v where v: "v \<in> set vs" using vs(2) by (cases vs) auto
  with check_members_ok [OF vs(3)] obtain i where "v = JStr i" by metis
  with v have "members_of [(name, grp)] \<noteq> {}" unfolding m by blast
  with check_members_ok [OF vs(3)] rest m show ?thesis by auto
qed

lemma check_groups_ok:
  assumes "fold_r (check_group ops) gs (declared, app) = Inr (declared', app')"
  shows "set declared' = set declared \<union> members_of gs \<and>
    length (filter is_app_group gs) + (if app then 1 else 0) \<le> 1 \<and>
    (\<forall>g \<in> set gs. valid_name (fst g) \<and> members_of [g] \<noteq> {})"
  using assms
proof (induction gs arbitrary: declared app)
  case (Cons g gs)
  then obtain declared1 app1 where 1: "check_group ops g (declared, app) = Inr (declared1, app1)"
    "fold_r (check_group ops) gs (declared1, app1) = Inr (declared', app')"
    by (auto simp: try_r_Inr_iff)
  have "members_of (g # gs) = members_of [g] \<union> members_of gs" by (cases g) (auto simp: members_of_def)
  with check_group_ok [of ops "fst g" "snd g" declared app declared1 app1] 1 Cons.IH [OF 1(2)] show ?case
    by (auto split: if_splits)
qed (simp add: members_of_def)

text \<open>
  Property C24: the two places where an accepted API declares its permissions say the same thing.
  The operations that a group lists are exactly those annotated with it; operation ids are unique,
  so that no operation belongs to two groups; every group has a valid name and a member; and at
  most one group opens the App.
\<close>

theorem declarations_agree:
  assumes "validate_declarations tk doc = Inr ()"
  shows "members_of (doc_groups doc) = annotations_of (doc_operations doc) \<and>
    distinct (map operation_id (doc_operations doc)) \<and>
    (\<forall>operation \<in> set (doc_operations doc). operation_group operation = None \<or> (\<exists>g. operation_group operation = Some (JStr g))) \<and>
    (\<forall>g \<in> set (doc_groups doc). valid_name (fst g) \<and> members_of [g] \<noteq> {}) \<and>
    length (filter is_app_group (doc_groups doc)) \<le> 1"
proof -
  from assms obtain paths ops ann declared app where
    paths: "jidx doc ''paths'' = JObj paths" "fold_r (check_path tk) paths ([], []) = Inr (ops, ann)" and
    groups: "(case access_groups doc of None \<Rightarrow> Inr ([], False)
            | Some gs \<Rightarrow> try_r (ok_or (as_object gs) (invalid ''access-groups must be an object'')) (\<lambda>gs.
                         fold_r (check_group ops) gs ([], False))) = Inr (declared, app)" and
    same: "set declared = set ann"
    by (auto simp: validate_declarations_def Let_def try_r_Inr_iff one_of_Inr_iff access_groups_def)
  from groups have g: "fold_r (check_group ops) (doc_groups doc) ([], False) = Inr (declared, app)"
    by (auto simp: doc_groups_def try_r_Inr_iff split: option.splits)
  have "fold_r (check_operation tk) (doc_operations doc) ([], []) = Inr (ops, ann)"
    using check_paths_flat [OF paths(2)] by (simp add: doc_operations_def paths(1))
  from check_operations_ok [OF this] check_groups_ok [OF g] same show ?thesis by auto
qed

definition example_doc :: json where
  "example_doc = JObj [(''info'', JObj [(''title'', JStr ''t'')]),
     (''paths'', JObj [(''/a'', JObj [(''get'', JObj [(''operationId'', JStr ''x''), (''summary'', JStr ''s''),
        (''x-access-group'', JStr ''g'')])])]),
     (''x-access-groups'', JObj [(''g'', JObj [(''operations'', JArr [JStr ''x'']), (''title'', JStr ''t'')])])]"

theorem declarations_agree_witness:
  "(''g'', ''x'') \<in> annotations_of (doc_operations example_doc)"
proof -
  have "validate_declarations tk example_doc = Inr ()" for tk
    by (simp add: validate_declarations_def example_doc_def text_field_def one_of_def check_path_def under_mount_def
        check_methods_def http_methods_def check_operation_def check_initial_access_def valid_name_def check_group_def
        check_title_def check_member_def str_eval Let_def)
  from declarations_agree [OF this] show ?thesis
    by (auto simp: members_of_def doc_groups_def example_doc_def access_groups_def)
qed

section \<open>Authenticity\<close>

lemma decode_certificate_Inr: "decode_certificate p bad v = Inr x \<longleftrightarrow> (\<exists>s. v = JStr s \<and> base64_decode p s = Some x)"
  by (auto simp: decode_certificate_def try_r_Inr_iff)

lemma signer_certificate_Inr: "signer_certificate p v = Inr x \<longleftrightarrow> x \<noteq> [] \<and> (\<exists>s. v = JStr s \<and> base64_decode p s = Some x)"
  by (auto simp: signer_certificate_def try_r_Inr_iff)

lemma collect_r_same:
  assumes "collect_r f xs = Inr ys" "collect_r g xs = Inr zs" "\<And>x y z. f x = Inr y \<Longrightarrow> g x = Inr z \<Longrightarrow> y = z"
  shows "ys = zs"
  using assms(1,2)
proof (induction xs arbitrary: ys zs)
  case (Cons x xs)
  then show ?case using assms(3) by (auto simp: try_r_Inr_iff)
qed simp

lemma verify_chain_leaf:
  assumes "verify_chain_with_root p chain domain at = Inr u"
  obtains leaf where "parse_cert p (chain ! 0) = Some ([], leaf)" "ct_alt_names leaf = Some (Some [DNSName domain])"
    "2 \<le> length chain" "path_ok p (root_der p) (chain ! 0) [chain ! 1] at code_signing_oid"
proof -
  from assms obtain parsed where "2 \<le> length chain" "collect_r (parse_whole p (policy ''signing_certificate_untrusted'' 422)) chain = Inr parsed"
    "present (policy ''signing_certificate_untrusted'' 422) (ct_alt_names (parsed ! 0)) = Inr [DNSName domain]"
    "path_ok p (root_der p) (chain ! 0) [chain ! 1] at code_signing_oid"
    unfolding verify_chain_with_root_def Let_def try_r_Inr_iff ensure_r_Inr_iff by blast
  moreover from this have "parse_whole p (policy ''signing_certificate_untrusted'' 422) (chain ! 0) = Inr (parsed ! 0)"
    by (auto simp: collect_r_Inr_iff list_all2_conv_all_nth elim!: allE [of _ 0])
  ultimately show thesis using that by (auto simp: parse_whole_def present_def try_r_Inr_iff)
qed

lemma read_package_at_cases:
  assumes "read_package_at tk bytes at = Inr files"
  obtains m chain where "waz_read (tk_utf8 tk) (tk_zip tk) bytes = Inr files" "validate_contents tk files = Inr m"
    "package_metadata tk files = Inr m" "certificates (tk_pki tk) files = Inr chain"
    "verify_chain_with_root (tk_pki tk) chain (the (as_str (jidx m ''publisher''))) at = Inr ()"
    "verify_signature tk files m = Inr ()"
  using assms
  by (auto simp: read_package_at_def validate_contents_def try_r_Inr_iff intro: that)

text \<open>
  Property C17: an accepted package is authentic. Its chain is trusted for the publisher that its
  manifest names, at the time of publication; the leaf certificate belongs to that publisher alone;
  and the key of that leaf has signed the domain-separated digest of the payload that was read.
\<close>

theorem read_package_authentic:
  assumes "read_package_at tk bytes at = Inr files"
  shows "\<exists>m publisher chain leaf sig. package_metadata tk files = Inr m \<and> jidx m ''publisher'' = JStr publisher \<and>
    certificates (tk_pki tk) files = Inr chain \<and> verify_chain_with_root (tk_pki tk) chain publisher at = Inr () \<and>
    parse_cert (tk_pki tk) (chain ! 0) = Some ([], leaf) \<and> ct_alt_names leaf = Some (Some [DNSName publisher]) \<and>
    sig \<noteq> [] \<and> verify_sig (tk_pki tk) (ct_public_key leaf)
      (signature_prefix @ sha256 (tk_pki tk) (payload_input (sha256 (tk_pki tk)) files)) sig = Some True"
proof -
  let ?p = "tk_pki tk"
  from assms obtain m chain where m: "package_metadata tk files = Inr m" and chain: "certificates ?p files = Inr chain"
    "verify_chain_with_root ?p chain (the (as_str (jidx m ''publisher''))) at = Inr ()" and sig: "verify_signature tk files m = Inr ()"
    by (rule read_package_at_cases)
  obtain publisher where publisher: "jidx m ''publisher'' = JStr publisher"
    using package_metadata_ok [OF m] unfolding metadata_wf_def by blast
  from chain(2) obtain leaf where leaf: "parse_cert ?p (chain ! 0) = Some ([], leaf)" "ct_alt_names leaf = Some (Some [DNSName publisher])"
    by (rule verify_chain_leaf) (simp add: publisher)
  from sig obtain data envelope signature certs rest cert where
    env: "map_of files ''signature.json'' = Some data" "parse_json ?p data = Some envelope" and
    certs: "collect_r (signer_certificate ?p) (the (as_array (jidx envelope ''certificates''))) = Inr certs" and
    cert: "parse_cert ?p (certs ! 0) = Some (rest, cert)" and sig: "signature \<noteq> []"
      "verify_sig ?p (ct_public_key cert) (signature_prefix @ unhex (waz_payload (sha256 ?p) files)) signature = Some True"
    by (auto simp: verify_signature_def Let_def try_r_Inr_iff)
  from chain(1) env have "collect_r (decode_certificate ?p (policy ''developer_certificate_required'' 422))
      (the (as_array (jidx envelope ''certificates''))) = Inr chain"
    by (auto simp: certificates_def Let_def try_r_Inr_iff)
  then have "chain = certs"
    using certs by (rule collect_r_same) (auto simp: decode_certificate_Inr signer_certificate_Inr)
  with cert leaf have "cert = leaf" by simp
  with sig have "signature \<noteq> []" "verify_sig ?p (ct_public_key leaf)
      (signature_prefix @ sha256 ?p (payload_input (sha256 ?p) files)) signature = Some True"
    by (simp_all add: waz_payload_def)
  with m publisher chain leaf show ?thesis by (metis as_str.simps(1) option.sel)
qed

theorem read_package_authentic_witness:
  "\<exists>publisher sig. jidx example_metadata ''publisher'' = JStr publisher \<and> sig \<noteq> [] \<and>
     verify_sig example_trust (ct_public_key (example_certificate False ''L''))
       (signature_prefix @ sha256 example_trust (payload_input (sha256 example_trust) example_files)) sig = Some True"
  using read_package_authentic [OF example_reads [of 5]] by (auto simp: example_metadata example_certificates)

end
