(* ===== verification/Store.thy ===== *)
theory Store
  imports Package_Laws
begin

text \<open>
  Installing from the store (\<^verbatim>\<open>src/package/store.rs\<close>): one bounded request to the pinned store, the
  verification of a release against its publication proof, the download of the whole dependency
  closure of a package, and the order in which the closure is installed.

  The DHTTP endpoint is an argument: what it answers to a request, and whether the answer takes
  longer than the time limit. The clock is the argument \<open>now\<close>.
\<close>

section \<open>Requests to the store\<close>

datatype body_frame = Data string | Trailers | FrameError

record store_response =
  sr_remote :: "(string \<times> string list) option"
  sr_status :: nat
  sr_headers :: headers
  sr_frames :: "body_frame list"

record store_endpoint =
  se_uri_ok :: "string \<Rightarrow> bool"
  se_slow :: "string \<Rightarrow> bool"
  se_get :: "string \<Rightarrow> string \<Rightarrow> store_response option"

definition read_frame :: "nat \<Rightarrow> body_frame \<Rightarrow> string \<Rightarrow> string res" where
  "read_frame limit frame bytes = (case frame of
     FrameError \<Rightarrow> Inl SigningStatusUnavailable
   | Trailers \<Rightarrow> Inl (BadRequest ''store response trailers are unsupported'')
   | Data data \<Rightarrow>
       try_r (ensure_r (\<not> length data > limit - length bytes) (InvalidComponent ''store response exceeds its size limit'')) (\<lambda>_.
       Inr (bytes @ data)))"

definition store_status :: "nat \<Rightarrow> unit res" where
  "store_status status =
     (if status = 200 then Inr ()
      else if status = 404 then Inl RouteNotFound
      else if status = 410 then Inl (BadRequest ''store version has been withdrawn'')
      else Inl SigningStatusUnavailable)"

definition store_get :: "pki \<Rightarrow> store_endpoint \<Rightarrow> string \<Rightarrow> nat \<Rightarrow> string res" where
  "store_get p endpoint path limit =
     (let uri = ''https://'' @ store_name @ path;
          accepted = (if ends_with ''.waz'' path then ''application/zip'' else ''application/json'') in
      if se_slow endpoint path then Inl SigningStatusUnavailable else
      try_r (ensure_r (se_uri_ok endpoint uri) (BadRequest ''invalid store URI'')) (\<lambda>_.
      try_r (ok_or (se_get endpoint uri accepted) SigningStatusUnavailable) (\<lambda>response.
      try_r (ok_or (sr_remote response) MissingHandshake) (\<lambda>(remote, chain).
      try_r (ok_or (subject_key_of p chain) (InvalidIdentity ''invalid store identity'')) (\<lambda>ski.
      try_r (ensure_r (\<not> (remote \<noteq> store_name \<or> sk_owner ski \<noteq> store_owner))
               (InvalidIdentity ''store identity does not match the pinned owner'')) (\<lambda>_.
      try_r (store_status (sr_status response)) (\<lambda>_.
      try_r (ensure_r (content_type_is accepted (sr_headers response)) (InvalidComponent ''unexpected store response content type'')) (\<lambda>_.
      fold_r (read_frame limit) (sr_frames response) []))))))))"

section \<open>Releases\<close>

definition publication_time :: "pki \<Rightarrow> int \<Rightarrow> json \<Rightarrow> int res" where
  "publication_time p now metadata =
     (let signature = jidx metadata ''signature''; bad = policy ''package_policy_upgrade_required'' 422 in
     try_r (ok_or (opt_filter (\<lambda>at. at > 0 \<and> at \<le> now) (as_i64 (jidx signature ''verified_at''))) bad) (\<lambda>at.
     try_r (ensure_r (jidx signature ''purpose'' = JStr ''code_signing'') bad) (\<lambda>_.
     try_r (verify_receipt p now metadata at) (\<lambda>_. Inr at))))"

text \<open>Serial numbers are compared without leading zeros and without case.\<close>

definition plain_serial :: "string \<Rightarrow> string" where
  "plain_serial s = to_ascii_lowercase (trim_start_matches (CHR ''0'') s)"

definition store_dependency :: "json \<Rightarrow> json" where
  "store_dependency d =
     JObj [(''author'', jidx d ''publisher''), (''name'', jidx d ''name''), (''version'', jidx d ''version'')]"

definition same_as_manifest :: "json \<Rightarrow> json \<Rightarrow> string \<Rightarrow> string \<Rightarrow> string \<Rightarrow> bool" where
  "same_as_manifest metadata document publisher name version = (\<not> (
     jidx metadata ''id'' \<noteq> JStr (publisher @ ''/'' @ name) \<or>
     jidx metadata ''name'' \<noteq> JStr name \<or> jidx metadata ''version'' \<noteq> JStr version \<or>
     jidx document ''publisher'' \<noteq> JStr publisher \<or> jidx metadata ''author'' \<noteq> JStr publisher \<or>
     jidx document ''name'' \<noteq> JStr name \<or> jidx document ''version'' \<noteq> JStr version \<or>
     jidx metadata ''dependencies'' \<noteq> JArr (map store_dependency (the (as_array (jidx document ''dependencies'')))) \<or>
     list_ex (\<lambda>key. jidx metadata key \<noteq> jidx document key) [''title'', ''description'', ''changelog''] \<or>
     is_some_and (\<lambda>entry. Some entry \<noteq> jget document ''entry'') (jget metadata ''entry'') \<or>
     is_some_and (\<lambda>license. Some license \<noteq> jget document ''license'') (jget metadata ''license'')))"

definition verify_release :: "tools \<Rightarrow> int \<Rightarrow> string \<Rightarrow> json \<Rightarrow> string \<Rightarrow> string \<Rightarrow> string \<Rightarrow> unit res" where
  "verify_release tk now bytes metadata publisher name version =
     (let p = tk_pki tk; signature = jidx metadata ''signature'' in
     try_r (ensure_r (\<not> (jidx metadata ''package_sha256'' \<noteq> JStr (hex_text (sha256 p bytes)) \<or>
                         as_u64 (jidx metadata ''size'') \<noteq> Some (length bytes)))
              (invalid ''store package digest or size mismatch'')) (\<lambda>_.
     try_r (publication_time p now metadata) (\<lambda>at.
     try_r (read_package_at tk bytes at) (\<lambda>package.
     try_r (Signing.facts p package publisher at) (\<lambda>fc.
     try_r (ensure_r (jidx signature ''leaf_fingerprint_sha256'' = JStr (sf_leaf_fingerprint fc) \<and>
                      jidx signature ''issuer_id'' = JStr (sf_issuer_id fc) \<and> jidx signature ''ski'' = JStr (sf_ski fc))
              (invalid ''publication signature differs from package certificate'')) (\<lambda>_.
     try_r (ensure_r (map_option plain_serial (as_str (jidx signature ''serial_number'')) = Some (plain_serial (sf_serial fc)))
              (invalid ''publication serial differs from package certificate'')) (\<lambda>_.
     try_r (package_metadata tk package) (\<lambda>document.
     try_r (ok_or (parse_json p (the (map_of package ''signature.json''))) (invalid ''invalid signature envelope'')) (\<lambda>envelope.
     try_r (ensure_r (same_as_manifest metadata document publisher name version)
              (invalid ''store metadata differs from signed package manifest'')) (\<lambda>_.
     try_r (ensure_r (jidx envelope ''certificates'' = jidx metadata ''signer_certificates'')
              (invalid ''signer certificates differ from the authenticated store proof'')) (\<lambda>_.
     try_r (ok_or (as_array (jidx envelope ''certificates'')) (invalid ''missing signer certificates'')) (\<lambda>cs.
     try_r (collect_r (lib_certificate p) cs) (\<lambda>certificates.
     try_r (ok_or (subject_key_of p certificates) (invalid ''invalid publisher owner_hash'')) (\<lambda>ski.
     ensure_r (jidx metadata ''author_owner_hash'' = JStr (sk_owner ski))
       (invalid ''publisher owner_hash differs from the authenticated store proof'')))))))))))))))"

text \<open>The check that \<^verbatim>\<open>download_release\<close> makes of the version in the request.\<close>

definition request_version_ok :: "string \<Rightarrow> bool" where
  "request_version_ok version =
     (let parts = split_on (CHR ''.'') version in
      \<not> (length parts \<noteq> 3 \<or>
         list_ex (\<lambda>part. parse_u64 part = None \<or> part = [] \<or> \<not> list_all is_ascii_digit part \<or>
                          length part > 1 \<and> starts_with ''0'' part) parts))"

definition release_path :: "string \<Rightarrow> string \<Rightarrow> string \<Rightarrow> string" where
  "release_path publisher name version = ''/store/v1/packages/'' @ publisher @ ''/'' @ name @ ''/versions/'' @ version"

definition download_release ::
  "tools \<Rightarrow> store_endpoint \<Rightarrow> int \<Rightarrow> string \<Rightarrow> string \<Rightarrow> string \<Rightarrow> (string \<times> json) res"
where
  "download_release tk endpoint now publisher name version =
     (let p = tk_pki tk; pid = publisher @ ''/'' @ name; path = release_path publisher name version in
     try_r (valid_id (normalize_name p) pid) (\<lambda>_.
     try_r (ensure_r (request_version_ok version) (BadRequest ''version must be MAJOR.MINOR.PATCH'')) (\<lambda>_.
     try_r (store_get p endpoint path (8 * 1024 * 1024)) (\<lambda>text.
     try_r (ok_or (parse_json p text) (InvalidComponent ''invalid store metadata'')) (\<lambda>metadata.
     let download = path @ ''/package.waz'' in
     try_r (ensure_r (\<not> (jidx metadata ''id'' \<noteq> JStr pid \<or> jidx metadata ''author'' \<noteq> JStr publisher \<or>
              jidx metadata ''name'' \<noteq> JStr name \<or> jidx metadata ''version'' \<noteq> JStr version \<or>
              jidx metadata ''status'' \<noteq> JStr ''published'' \<or> jidx metadata ''download_path'' \<noteq> JStr download))
              (InvalidComponent ''store release identity, status or download path changed'')) (\<lambda>_.
     try_r (publication_time p now metadata) (\<lambda>_.
     try_r (ok_or (opt_filter (\<lambda>size. size > 0 \<and> size \<le> 64 * 1024 * 1024) (as_u64 (jidx metadata ''size'')))
              (InvalidComponent ''invalid store package size'')) (\<lambda>size.
     try_r (store_get p endpoint download size) (\<lambda>bytes.
     try_r (verify_release tk now bytes metadata publisher name version) (\<lambda>_.
     Inr (bytes, metadata)))))))))))"

section \<open>The dependency closure\<close>

type_synonym resource = "string \<times> string \<times> json"

text \<open>\<^verbatim>\<open>value[key] = x\<close> on an object.\<close>

definition json_set :: "string \<Rightarrow> json \<Rightarrow> json \<Rightarrow> json" where
  "json_set key x v = JObj (insort_key fst (key, x) (filter (\<lambda>e. fst e \<noteq> key) (case as_object v of None \<Rightarrow> [] | Some m \<Rightarrow> m)))"

text \<open>The release of the installed version, for a package that was installed before owners were recorded.\<close>

definition previous_release ::
  "tools \<Rightarrow> store_endpoint \<Rightarrow> int \<Rightarrow> package_row list \<Rightarrow> string \<Rightarrow> string \<Rightarrow> json \<Rightarrow> json res"
where
  "previous_release tk endpoint now installed publisher name proof_doc =
     (case find (\<lambda>row. row_id row = publisher @ ''/'' @ name) installed of
        None \<Rightarrow> Inr proof_doc
      | Some current \<Rightarrow>
          if pk_owner_hash current \<noteq> None then Inr proof_doc
          else (case download_release tk endpoint now publisher name (pk_version current) of
                  Inr (_, previous) \<Rightarrow> Inr (json_set ''_previous_release'' previous proof_doc)
                | Inl SigningStatusUnavailable \<Rightarrow> Inl SigningStatusUnavailable
                | Inl _ \<Rightarrow> Inl (policy ''publisher_ownership_conflict'' 409)))"

definition proof_time :: "json \<Rightarrow> int option" where
  "proof_time proof_doc = as_i64 (jidx (jidx proof_doc ''signature'') ''verified_at'')"

definition resource_document :: "tools \<Rightarrow> string \<Rightarrow> int \<Rightarrow> json res" where
  "resource_document tk bytes at = try_r (read_package_at tk bytes at) (package_metadata tk)"

type_synonym request = "string \<times> string \<times> string"

definition document_requests :: "json \<Rightarrow> request list" where
  "document_requests document =
     map (\<lambda>d. (the (as_str (jidx d ''publisher'')), the (as_str (jidx d ''name'')), the (as_str (jidx d ''version''))))
       (the (as_array (jidx document ''dependencies'')))"

text \<open>One new package of the closure: the checks before the download, and what it adds.\<close>

definition fetch_resource ::
  "tools \<Rightarrow> store_endpoint \<Rightarrow> int \<Rightarrow> package_row list \<Rightarrow> resource list \<Rightarrow> request \<Rightarrow> (resource \<times> request list) res"
where
  "fetch_resource tk endpoint now installed resources req = (case req of (publisher, name, version) \<Rightarrow>
     let pid = publisher @ ''/'' @ name in
     try_r (ensure_r (\<not> length resources \<ge> 100) (BadRequest ''installation exceeds 100 packages'')) (\<lambda>_.
     try_r (ensure_r (\<not> list_ex (\<lambda>(other, _, _). other \<noteq> pid \<and> short_name other = name) resources)
              (conflict_error ''conflicting package authors'')) (\<lambda>_.
     try_r (ensure_r (\<not> list_ex (\<lambda>row. pk_name row = name \<and> row_id row \<noteq> pid) installed)
              (conflict_error (''package '' @ name @ '' is already installed by another author''))) (\<lambda>_.
     try_r (download_release tk endpoint now publisher name version) (\<lambda>(bytes, metadata).
     try_r (previous_release tk endpoint now installed publisher name metadata) (\<lambda>proof_doc.
     try_r (resource_document tk bytes (the (proof_time proof_doc))) (\<lambda>document.
     Inr ((pid, bytes, proof_doc), document_requests document))))))))"

lemma fetch_resource_bound: "fetch_resource tk endpoint now installed resources req = Inr x \<Longrightarrow> length resources < 100"
  by (auto simp: fetch_resource_def Let_def try_r_Inr_iff split: prod.splits)

text \<open>The worklist with its last element first; at most a hundred packages are fetched, so it ends.\<close>

function closure_loop ::
  "tools \<Rightarrow> store_endpoint \<Rightarrow> int \<Rightarrow> package_row list \<Rightarrow> request list \<Rightarrow> resource list \<Rightarrow> resource list res"
where
  "closure_loop tk endpoint now installed [] resources = Inr resources"
| "closure_loop tk endpoint now installed ((publisher, name, version) # pending) resources =
     (case find (\<lambda>(key, _, _). key = publisher @ ''/'' @ name) resources of
        Some (_, _, proof_doc) \<Rightarrow>
          if jidx proof_doc ''version'' \<noteq> JStr version
          then Inl (conflict_error (''conflicting dependency versions for '' @ publisher @ ''/'' @ name))
          else closure_loop tk endpoint now installed pending resources
      | None \<Rightarrow>
          (case fetch_resource tk endpoint now installed resources (publisher, name, version) of
             Inl e \<Rightarrow> Inl e
           | Inr (resource, requests) \<Rightarrow>
               closure_loop tk endpoint now installed (rev requests @ pending) (resources @ [resource])))"
  by pat_completeness auto
termination
  by (relation "measures [\<lambda>(_, _, _, _, _, resources). 100 - length resources, \<lambda>(_, _, _, _, pending, _). length pending]")
    (auto dest: fetch_resource_bound)

section \<open>The order of installation\<close>

definition document_ids :: "json \<Rightarrow> string list" where
  "document_ids document = map (\<lambda>(publisher, name, _). publisher @ ''/'' @ name) (document_requests document)"

definition order_document :: "tools \<Rightarrow> resource \<Rightarrow> json res" where
  "order_document tk r = (case r of (_, bytes, proof_doc) \<Rightarrow>
     try_r (ok_or (proof_time proof_doc) (policy ''package_policy_upgrade_required'' 422)) (\<lambda>at.
     resource_document tk bytes at))"

text \<open>The index of the first package all of whose dependencies are ordered.\<close>

fun find_ready :: "(resource \<Rightarrow> string list res) \<Rightarrow> string list \<Rightarrow> nat \<Rightarrow> resource list \<Rightarrow> nat option res" where
  "find_ready deps ordered i [] = Inr None"
| "find_ready deps ordered i (r # rs) =
     try_r (deps r) (\<lambda>ids. if set ids \<subseteq> set ordered then Inr (Some i) else find_ready deps ordered (i + 1) rs)"

definition resource_deps :: "tools \<Rightarrow> resource \<Rightarrow> string list res" where
  "resource_deps tk r = try_r (order_document tk r) (\<lambda>document. Inr (document_ids document))"

lemma find_ready_bound: "find_ready deps ordered i rs = Inr (Some k) \<Longrightarrow> i \<le> k \<and> k < i + length rs"
  by (induction deps ordered i rs rule: find_ready.induct) (fastforce simp: try_r_Inr_iff split: if_splits)+

function order_loop :: "(resource \<Rightarrow> string list res) \<Rightarrow> resource list \<Rightarrow> resource list \<Rightarrow> resource list res" where
  "order_loop deps resources ordered =
     (if resources = [] then Inr ordered
      else (case find_ready deps (map fst ordered) 0 resources of
              Inl e \<Rightarrow> Inl e
            | Inr None \<Rightarrow> Inl (BadRequest ''cyclic package dependencies'')
            | Inr (Some k) \<Rightarrow> order_loop deps (take k resources @ drop (Suc k) resources) (ordered @ [resources ! k])))"
  by pat_completeness auto
termination
  by (relation "measure (\<lambda>(_, resources, _). length resources)") (auto dest: find_ready_bound)

declare order_loop.simps [simp del]

definition order_packages :: "tools \<Rightarrow> resource list \<Rightarrow> resource list res" where
  "order_packages tk resources = order_loop (resource_deps tk) resources []"

text \<open>
  \<^verbatim>\<open>install_store_package\<close> up to the call of \<^verbatim>\<open>install_packages\<close>: the ordered closure of the root.
\<close>

definition store_closure ::
  "tools \<Rightarrow> store_endpoint \<Rightarrow> int \<Rightarrow> package_row list \<Rightarrow> string \<Rightarrow> string \<Rightarrow> string \<Rightarrow> resource list res"
where
  "store_closure tk endpoint now installed publisher name version =
     try_r (valid_id (normalize_name (tk_pki tk)) (publisher @ ''/'' @ name)) (\<lambda>_.
     try_r (closure_loop tk endpoint now installed [(publisher, name, version)] []) (\<lambda>resources.
     order_packages tk resources))"

end
