(* ===== verification/Contact_Queue.thy ===== *)
theory Contact_Queue
  imports Store
begin

text \<open>
  The queue of outbound contact requests (\<^verbatim>\<open>src/contact.rs\<close>, \<^verbatim>\<open>src/contact/storage.rs\<close> and the
  transactions of \<^verbatim>\<open>src/contact/delivery.rs\<close>): submitting, expiring, claiming a request for delivery
  with a lease, recording the outcome, revoking and the rollback of a revocation.

  The table is the list of its rows in the order of their ids; the unique index over the open
  requests of a target is checked where a statement can violate it. A routine reads the clock
  several times; the model reads it once per transaction. Times are \<^verbatim>\<open>i64\<close> seconds.
\<close>

section \<open>Rows\<close>

type_synonym failure = "nat \<times> string"
type_synonym 'a cres = "(failure, 'a) result"

datatype status = Queued | Pending | Active | Denied_by_peer | Expired | Failed | Revoked

definition status_text :: "status \<Rightarrow> string" where
  "status_text s = (case s of Queued \<Rightarrow> ''queued'' | Pending \<Rightarrow> ''pending'' | Active \<Rightarrow> ''active'' | Denied_by_peer \<Rightarrow> ''denied''
     | Expired \<Rightarrow> ''expired'' | Failed \<Rightarrow> ''failed'' | Revoked \<Rightarrow> ''revoked'')"

definition parse_status :: "string \<Rightarrow> status option" where
  "parse_status s = find (\<lambda>x. status_text x = s) [Queued, Pending, Active, Denied_by_peer, Expired, Failed, Revoked]"

record review =
  rv_id :: int
  rv_subject :: string
  rv_method :: string
  rv_path :: string

record outbound =
  ob_id :: nat
  ob_target :: string
  ob_contact :: "int option"
  ob_subject :: "string option"
  ob_description :: string
  ob_requested_caps :: string
  ob_offered_caps :: string
  ob_requested :: "string option"
  ob_offers :: "string option"
  ob_application :: string
  ob_status :: status
  ob_expires :: int
  ob_deadline :: int
  ob_remote_expires :: "int option"
  ob_next :: int
  ob_attempts :: nat
  ob_lease :: "int option"
  ob_review :: "review option"
  ob_checked :: "int option"
  ob_error :: "string option"
  ob_created :: int
  ob_updated :: int

definition is_open :: "outbound \<Rightarrow> bool" where
  "is_open r = (ob_status r = Queued \<or> ob_status r = Pending)"

text \<open>The unique index \<^verbatim>\<open>outbound_contact_request_pending_target\<close>.\<close>

definition open_unique :: "outbound list \<Rightarrow> bool" where
  "open_unique rows = distinct (map ob_target (filter is_open rows))"

definition storage_failure :: failure where
  "storage_failure = (500, ''contact storage'')"

text \<open>\<^verbatim>\<open>UPDATE ... WHERE\<close>.\<close>

definition update_where :: "(outbound \<Rightarrow> bool) \<Rightarrow> (outbound \<Rightarrow> outbound) \<Rightarrow> outbound list \<Rightarrow> outbound list" where
  "update_where P f rows = map (\<lambda>r. if P r then f r else r) rows"

section \<open>Operations\<close>

definition expire_requests :: "int \<Rightarrow> outbound list \<Rightarrow> outbound list" where
  "expire_requests now = update_where (\<lambda>r. is_open r \<and> ob_expires r \<le> now)
     (\<lambda>r. r\<lparr>ob_status := (if ob_status r = Queued then Failed else Expired), ob_lease := None, ob_updated := now,
            ob_error := Some ''contact request expired''\<rparr>)"

record draft =
  dr_target :: string
  dr_description :: string
  dr_requested_caps :: string
  dr_offered_caps :: string
  dr_requested :: string
  dr_offers :: string
  dr_application :: string
  dr_valid_before :: int
  dr_contact :: "int option"
  dr_subject :: "string option"

definition new_request :: "int \<Rightarrow> nat \<Rightarrow> draft \<Rightarrow> outbound" where
  "new_request now i d =
     \<lparr>ob_id = i, ob_target = dr_target d, ob_contact = dr_contact d, ob_subject = dr_subject d, ob_description = dr_description d,
      ob_requested_caps = dr_requested_caps d, ob_offered_caps = dr_offered_caps d, ob_requested = Some (dr_requested d),
      ob_offers = Some (dr_offers d), ob_application = dr_application d, ob_status = Queued, ob_expires = dr_valid_before d,
      ob_deadline = dr_valid_before d, ob_remote_expires = None, ob_next = now, ob_attempts = 0, ob_lease = None,
      ob_review = None, ob_checked = None, ob_error = None, ob_created = now, ob_updated = now\<rparr>"

text \<open>The expiry is a statement of its own and stays when the submission is refused.\<close>

definition submit :: "int \<Rightarrow> nat \<Rightarrow> draft \<Rightarrow> outbound list \<Rightarrow> unit cres \<times> outbound list" where
  "submit now i d rows =
     (let rows1 = expire_requests now rows in
      if list_ex (\<lambda>r. ob_target r = dr_target d \<and> is_open r) rows1 then (Inl (409, ''contact request already pending''), rows1)
      else
        let rows2 = rows1 @ [new_request now i d] in
        if open_unique rows2 then (Inr (), rows2) else (Inl storage_failure, rows1))"

text \<open>The first due request by the time of its next attempt, then by its id.\<close>

definition is_due :: "int \<Rightarrow> outbound \<Rightarrow> bool" where
  "is_due now r = (ob_status r \<in> {Queued, Pending, Active} \<and> ob_next r \<le> now \<and> (ob_status r = Active \<or> ob_expires r > now) \<and>
     is_none_or (\<lambda>l. l \<le> now) (ob_lease r))"

definition claim :: "int \<Rightarrow> outbound list \<Rightarrow> outbound option \<times> outbound list" where
  "claim now rows =
     (let rows1 = expire_requests now rows in
      case sort_key (\<lambda>r. (ob_next r, ob_id r)) (filter (is_due now) rows1) of
        [] \<Rightarrow> (None, rows1)
      | job # _ \<Rightarrow> (Some job, update_where (\<lambda>r. ob_id r = ob_id job) (\<lambda>r. r\<lparr>ob_lease := Some (now + 120)\<rparr>) rows1))"

definition bind_contact :: "nat \<Rightarrow> int \<Rightarrow> int \<Rightarrow> string \<Rightarrow> outbound list \<Rightarrow> outbound list" where
  "bind_contact i lease cid subject = update_where (\<lambda>r. ob_id r = i \<and> ob_lease r = Some lease \<and> ob_contact r = None)
     (\<lambda>r. r\<lparr>ob_contact := Some cid, ob_subject := Some subject\<rparr>)"

text \<open>What a delivery ends with: the state and the expiry of the peer's receipt, or a failure.\<close>

type_synonym outcome = "(status \<times> int) cres"

definition record_outcome :: "int \<Rightarrow> outcome \<Rightarrow> outbound \<Rightarrow> outbound" where
  "record_outcome now result r = (case result of
     Inr (state, valid_before) \<Rightarrow>
       r\<lparr>ob_status := state, ob_remote_expires := Some valid_before,
         ob_expires := (if state = Pending then min (ob_deadline r) valid_before else ob_expires r), ob_checked := Some now,
         ob_next := now + (if state = Active then 30 else 3), ob_attempts := ob_attempts r + 1, ob_error := None,
         ob_lease := None, ob_updated := now\<rparr>
   | Inl (code, message) \<Rightarrow>
       r\<lparr>ob_status := (if message \<noteq> ''need_review'' \<and> code \<in> {400, 403, 404, 409, 410} then Failed else ob_status r),
         ob_attempts := ob_attempts r + (if message = ''need_review'' then 0 else 1), ob_error := Some message,
         ob_next := now + (if message = ''need_review'' then 30 else 5), ob_lease := None, ob_checked := Some now,
         ob_updated := now\<rparr>)"

definition finish :: "int \<Rightarrow> nat \<Rightarrow> int \<Rightarrow> review option \<Rightarrow> outcome \<Rightarrow> outbound list \<Rightarrow> outbound list cres" where
  "finish now i lease next_review result rows =
     (let mine = (\<lambda>r. ob_id r = i \<and> ob_lease r = Some lease);
          rows1 = update_where mine (\<lambda>r. r\<lparr>ob_review := next_review\<rparr>) rows;
          rows2 = update_where mine (record_outcome now result) rows1 in
      if open_unique rows2 then Inr rows2 else Inl storage_failure)"

type_synonym revoked = "(nat \<times> status \<times> int) list"

definition revoke_one :: "int \<Rightarrow> string \<Rightarrow> revoked \<times> outbound list \<Rightarrow> (revoked \<times> outbound list) cres" where
  "revoke_one now name st = (case st of (previous, rows) \<Rightarrow>
     let found = filter (\<lambda>r. ob_target r = name \<and> ob_status r \<noteq> Revoked) rows in
     try_r (ensure_r (\<not> list_ex (\<lambda>r. is_some_and (\<lambda>l. l > now) (ob_lease r)) found)
              (409, ''contact delivery is in progress; retry deletion'')) (\<lambda>_.
     Inr (previous @ map (\<lambda>r. (ob_id r, ob_status r, ob_updated r)) found,
          update_where (\<lambda>r. ob_target r = name) (\<lambda>r. r\<lparr>ob_status := Revoked, ob_lease := None, ob_updated := now\<rparr>) rows)))"

definition revoke :: "int \<Rightarrow> string list \<Rightarrow> outbound list \<Rightarrow> (revoked \<times> outbound list) cres" where
  "revoke now names rows = fold_r (revoke_one now) names ([], rows)"

definition restore_one :: "nat \<times> status \<times> int \<Rightarrow> outbound list \<Rightarrow> outbound list cres" where
  "restore_one entry rows = (case entry of (i, state, updated) \<Rightarrow>
     let rows1 = update_where (\<lambda>r. ob_id r = i \<and> ob_status r = Revoked) (\<lambda>r. r\<lparr>ob_status := state, ob_updated := updated\<rparr>) rows in
     if open_unique rows1 then Inr rows1 else Inl storage_failure)"

definition restore_revoked :: "revoked \<Rightarrow> outbound list \<Rightarrow> outbound list cres" where
  "restore_revoked cancelled rows = fold_r restore_one cancelled rows"

section \<open>The queue as a state machine\<close>

text \<open>
  Everything that can happen to the queue, in any order (a submission that fails for another reason than
  the queue has only expired requests): requests of the owner, the delivery task
  and any number of older deliveries that are still on their way, and rollbacks of revocations
  whose counterpart failed. \<open>cs_leases\<close> is the history of the leases handed out.
\<close>

record contact_state =
  cs_rows :: "outbound list"
  cs_next :: nat
  cs_clock :: int
  cs_rollbacks :: "revoked list"
  cs_leases :: "(nat \<times> int) list"

definition contact_init :: "int \<Rightarrow> contact_state" where
  "contact_init now = \<lparr>cs_rows = [], cs_next = 1, cs_clock = now, cs_rollbacks = [], cs_leases = []\<rparr>"

inductive contact_step :: "contact_state \<Rightarrow> contact_state \<Rightarrow> bool" where
  tick: "cs_clock s \<le> now \<Longrightarrow> contact_step s (s\<lparr>cs_clock := now\<rparr>)"
| expired: "contact_step s (s\<lparr>cs_rows := expire_requests (cs_clock s) (cs_rows s)\<rparr>)"
| submitted: "submit (cs_clock s) (cs_next s) d (cs_rows s) = (Inr (), rows) \<Longrightarrow>
    contact_step s (s\<lparr>cs_rows := rows, cs_next := cs_next s + 1\<rparr>)"
| refused: "submit (cs_clock s) (cs_next s) d (cs_rows s) = (Inl e, rows) \<Longrightarrow> contact_step s (s\<lparr>cs_rows := rows\<rparr>)"
| idle: "claim (cs_clock s) (cs_rows s) = (None, rows) \<Longrightarrow> contact_step s (s\<lparr>cs_rows := rows\<rparr>)"
| claimed: "claim (cs_clock s) (cs_rows s) = (Some job, rows) \<Longrightarrow>
    contact_step s (s\<lparr>cs_rows := rows, cs_leases := (ob_id job, cs_clock s + 120) # cs_leases s\<rparr>)"
| bound: "contact_step s (s\<lparr>cs_rows := bind_contact i lease cid subject (cs_rows s)\<rparr>)"
| finished: "finish (cs_clock s) i lease next_review result (cs_rows s) = Inr rows \<Longrightarrow> contact_step s (s\<lparr>cs_rows := rows\<rparr>)"
| revoked: "revoke (cs_clock s) names (cs_rows s) = Inr (previous, rows) \<Longrightarrow>
    contact_step s (s\<lparr>cs_rows := rows, cs_rollbacks := previous # cs_rollbacks s\<rparr>)"
| kept: "cancelled \<in> set (cs_rollbacks s) \<Longrightarrow> contact_step s (s\<lparr>cs_rollbacks := remove1 cancelled (cs_rollbacks s)\<rparr>)"
| restored: "cancelled \<in> set (cs_rollbacks s) \<Longrightarrow> restore_revoked cancelled (cs_rows s) = Inr rows \<Longrightarrow>
    contact_step s (s\<lparr>cs_rows := rows, cs_rollbacks := remove1 cancelled (cs_rollbacks s)\<rparr>)"

inductive contact_reachable :: "int \<Rightarrow> contact_state \<Rightarrow> bool" for t0 :: int where
  start: "contact_reachable t0 (contact_init t0)"
| more: "contact_reachable t0 s \<Longrightarrow> contact_step s s' \<Longrightarrow> contact_reachable t0 s'"

end
