(* ===== verification/Contact_Access.thy ===== *)
theory Contact_Access
  imports Contact_Queue
begin

text \<open>
  What the contact resources call: the authenticated exchange with a peer
  (\<^verbatim>\<open>remote\<close> of \<^verbatim>\<open>src/contact/delivery.rs\<close>), the local access service on behalf of the owner
  (\<^verbatim>\<open>src/contact/access.rs\<close>), and the catalog of capabilities (\<^verbatim>\<open>src/contact/capabilities.rs\<close>).

  The access service (crate \<^verbatim>\<open>access_control\<close>) and the DHTTP endpoint are other programs: the fields
  of \<open>contact_env\<close>, each of which may change the state \<open>'w\<close> of the world it is asked in. The clock is
  read from that state too, so that it can advance between two calls.
\<close>

section \<open>Effects\<close>

text \<open>A call either fails or gives a value, and changes the world in both cases; \<open>try_s\<close> is \<^verbatim>\<open>?\<close>.\<close>

type_synonym ('w, 'a) act = "'w \<Rightarrow> 'a cres \<times> 'w"

definition try_s :: "('w, 'a) act \<Rightarrow> ('a \<Rightarrow> ('w, 'b) act) \<Rightarrow> ('w, 'b) act" where
  "try_s m k w = (case m w of (Inl e, w') \<Rightarrow> (Inl e, w') | (Inr x, w') \<Rightarrow> k x w')"

definition ret_s :: "'a cres \<Rightarrow> ('w, 'a) act" where
  "ret_s r w = (r, w)"

definition now_s :: "('w \<Rightarrow> int) \<Rightarrow> (int \<Rightarrow> ('w, 'a) act) \<Rightarrow> ('w, 'a) act" where
  "now_s clock k w = k (clock w) w"

fun each_s :: "('a \<Rightarrow> ('w, unit) act) \<Rightarrow> 'a list \<Rightarrow> ('w, unit) act" where
  "each_s f [] = ret_s (Inr ())"
| "each_s f (x # xs) = try_s (f x) (\<lambda>_. each_s f xs)"

lemma try_s_Inr_iff: "try_s m k w = (Inr y, w') \<longleftrightarrow> (\<exists>x w1. m w = (Inr x, w1) \<and> k x w1 = (Inr y, w'))"
  by (auto simp: try_s_def split: sum.splits prod.splits)

lemma try_s_Inl_iff:
  "try_s m k w = (Inl e, w') \<longleftrightarrow> m w = (Inl e, w') \<or> (\<exists>x w1. m w = (Inr x, w1) \<and> k x w1 = (Inl e, w'))"
  by (auto simp: try_s_def split: sum.splits prod.splits)

lemma ret_s_iff [simp]: "ret_s r w = (r', w') \<longleftrightarrow> r = r' \<and> w = w'"
  by (auto simp: ret_s_def)

lemma now_s_simp [simp]: "now_s clock k w = k (clock w) w"
  by (simp add: now_s_def)

text \<open>
  The contract of an effect that only moves forward: a reflexive and transitive relation between the
  states before and after, kept by every call and so by every routine made of such calls.
\<close>

definition keeps :: "('w \<Rightarrow> 'w \<Rightarrow> bool) \<Rightarrow> ('w, 'a) act \<Rightarrow> bool" where
  "keeps R m = (\<forall>w r w'. m w = (r, w') \<longrightarrow> R w w')"

lemma keepsI: "(\<And>w r w'. m w = (r, w') \<Longrightarrow> R w w') \<Longrightarrow> keeps R m"
  by (simp add: keeps_def)

lemma keepsD: "keeps R m \<Longrightarrow> m w = (r, w') \<Longrightarrow> R w w'"
  by (simp add: keeps_def)

locale effect_order =
  fixes R :: "'w \<Rightarrow> 'w \<Rightarrow> bool"
  assumes stays: "R w w"
    and goes_on: "R w w' \<Longrightarrow> R w' w'' \<Longrightarrow> R w w''"
begin

lemma keeps_ret: "keeps R (ret_s r)"
  by (rule keepsI) (auto simp: stays)

lemma keeps_try:
  assumes "keeps R m" and "\<And>x. keeps R (k x)"
  shows "keeps R (try_s m k)"
proof (rule keepsI)
  fix w r w' assume run: "try_s m k w = (r, w')"
  obtain a w1 where m: "m w = (a, w1)" by fastforce
  with assms(1) have "R w w1" by (rule keepsD)
  moreover have "R w1 w'" using run m assms(2) by (cases a) (auto simp: try_s_def stays dest: keepsD)
  ultimately show "R w w'" by (rule goes_on)
qed

lemma keeps_now: "(\<And>t. keeps R (k t)) \<Longrightarrow> keeps R (now_s clock k)"
  by (auto simp: keeps_def)

lemma keeps_each: "(\<And>x. keeps R (f x)) \<Longrightarrow> keeps R (each_s f xs)"
  by (induction xs) (auto intro: keeps_ret keeps_try)

end

section \<open>The environment\<close>

datatype auth_answer = AclAllowed | AclDenied | AclReviewing | AclWaiting

datatype record_error = RecordNotUpdated string | RecordType string | RecordOther string

record new_contact =
  nc_name :: string
  nc_subject :: string
  nc_class :: string
  nc_description :: string
  nc_requested :: json
  nc_offers :: json
  nc_created :: int
  nc_updated :: int
  nc_expired :: int

datatype peer_frame = PeerData string | PeerTrailers | PeerFrameError string

record peer_call =
  pc_target :: string
  pc_method :: string
  pc_path :: string
  pc_body :: "json option"
  pc_pinned :: "string option"

record peer_response =
  pr_authority :: "(string \<times> string list) option"
  pr_status :: nat
  pr_frames :: "peer_frame list"

text \<open>
  \<open>ce_exchange\<close> is one request to a peer: \<open>None\<close> when it takes longer than its time limit, a transport
  error, or a response. \<open>ce_auth\<close>, \<open>ce_router\<close> and \<open>ce_find\<close> are the access service's decision, its resources and
  its lookup of a contact by name; an error is the text of a database error. \<open>ce_others\<close> is what the other
  tasks (requests of the owner, the delivery task) have made of the queue when a call of a deletion returns,
  which holds no transaction of its own while it waits.
\<close>

record 'w contact_env =
  ce_clock :: "'w \<Rightarrow> int"
  ce_name :: string
  ce_local_owner :: "(string, string) result"
  ce_pki :: pki
  ce_uri_ok :: "string \<Rightarrow> bool"
  ce_owner_hash_ok :: "string \<Rightarrow> bool"
  ce_subject_ok :: "string \<Rightarrow> bool"
  ce_encode :: "string \<Rightarrow> string"
  ce_access_map :: "json \<Rightarrow> (string, unit) result"
  ce_auth :: "string \<Rightarrow> string \<Rightarrow> string \<times> string \<Rightarrow> 'w \<Rightarrow> (string, auth_answer) result \<times> 'w"
  ce_router :: "string \<Rightarrow> string \<Rightarrow> json option \<Rightarrow> (string \<times> string) option \<Rightarrow> 'w \<Rightarrow> (nat \<times> (string, string) result) \<times> 'w"
  ce_find :: "string \<Rightarrow> 'w \<Rightarrow> (string, bool) result \<times> 'w"
  ce_record :: "new_contact \<Rightarrow> 'w \<Rightarrow> record_error option \<times> 'w"
  ce_exchange :: "peer_call \<Rightarrow> 'w \<Rightarrow> (string, peer_response) result option \<times> 'w"
  ce_others :: "'w \<Rightarrow> outbound list \<Rightarrow> outbound list"

section \<open>The exchange with a peer\<close>

definition peer_frame_bytes :: "peer_frame \<Rightarrow> string \<Rightarrow> string cres" where
  "peer_frame_bytes frame bytes = (case frame of
     PeerFrameError e \<Rightarrow> Inl (502, e)
   | PeerTrailers \<Rightarrow> Inl (502, ''contact response trailers are unsupported'')
   | PeerData data \<Rightarrow>
       if length data > 1024 * 1024 - length bytes then Inl (502, ''contact response too large'') else Inr (bytes @ data))"

definition read_peer :: "pki \<Rightarrow> string \<Rightarrow> peer_response \<Rightarrow> (nat \<times> json \<times> string) cres" where
  "read_peer p target response =
     try_r (ok_or (pr_authority response) (502, ''missing authenticated contact identity'')) (\<lambda>(name, chain).
     try_r (ensure_r (name = target) (502, ''contact authority mismatch'')) (\<lambda>_.
     try_r (ok_or (subject_key_of p chain) (502, ''invalid contact identity'')) (\<lambda>ski.
     try_r (fold_r peer_frame_bytes (pr_frames response) []) (\<lambda>bytes.
     case parse_json p bytes of
       Some v \<Rightarrow> Inr (pr_status response, v, sk_owner ski)
     | None \<Rightarrow> if pr_status response \<notin> {200, 201} then Inr (pr_status response, JNull, sk_owner ski)
               else Inl (502, ''invalid remote JSON'')))))"

definition remote_response ::
  "'w contact_env \<Rightarrow> string \<Rightarrow> string \<Rightarrow> string \<Rightarrow> json option \<Rightarrow> string option \<Rightarrow> ('w, nat \<times> json \<times> string) act"
where
  "remote_response env target method path body expected w =
     (if \<not> ce_uri_ok env (''https://'' @ target @ path) then (Inl (400, ''invalid contact URI''), w)
      else if \<not> is_none_or (ce_owner_hash_ok env) expected then (Inl (409, ''invalid contact identity''), w)
      else case ce_exchange env \<lparr>pc_target = target, pc_method = method, pc_path = path, pc_body = body, pc_pinned = expected\<rparr> w of
        (None, w') \<Rightarrow> (Inl (504, ''contact request timed out''), w')
      | (Some (Inl e), w') \<Rightarrow> (Inl (502, e), w')
      | (Some (Inr response), w') \<Rightarrow> (read_peer (ce_pki env) target response, w'))"

definition remote ::
  "'w contact_env \<Rightarrow> string \<Rightarrow> string \<Rightarrow> string \<Rightarrow> json option \<Rightarrow> string option \<Rightarrow> ('w, nat \<times> json \<times> string) act"
where
  "remote env target method path body expected =
     try_s (remote_response env target method path body expected) (\<lambda>response.
     if fst response \<notin> {200, 201} then ret_s (Inl (fst response, ''remote contact operation rejected''))
     else ret_s (Inr response))"

section \<open>The local access service\<close>

definition owner :: "'w contact_env \<Rightarrow> (string \<times> string) cres" where
  "owner env = (case ce_local_owner env of
     Inl e \<Rightarrow> Inl (500, e)
   | Inr hash \<Rightarrow> if ce_subject_ok env hash then Inr (ce_name env, hash) else Inl (500, ''invalid local subject identity''))"

definition is_success :: "nat \<Rightarrow> bool" where
  "is_success status = (200 \<le> status \<and> status < 300)"

definition router_answer :: "pki \<Rightarrow> nat \<Rightarrow> nat \<times> (string, string) result \<Rightarrow> json cres" where
  "router_answer p broken answer = (case answer of (status, body) \<Rightarrow>
     try_r (map_err (\<lambda>e. (broken, e)) body) (\<lambda>bytes.
     if \<not> is_success status then Inl (status, bytes)
     else if bytes = [] then Inr JNull
     else ok_or (parse_json p bytes) (broken, ''invalid contact response'')))"

definition local_api :: "'w contact_env \<Rightarrow> string \<Rightarrow> string \<Rightarrow> json option \<Rightarrow> ('w, json) act" where
  "local_api env method path body w =
     (if \<not> ce_uri_ok env path then (Inl (500, ''invalid uri''), w) else
      case owner env of
        Inl e \<Rightarrow> (Inl e, w)
      | Inr visitor \<Rightarrow>
         (case ce_auth env method path visitor w of
            (Inl e, w1) \<Rightarrow> (Inl (500, e), w1)
          | (Inr AclDenied, w1) \<Rightarrow> (Inl (403, ''contact operation denied by ACL''), w1)
          | (Inr AclReviewing, w1) \<Rightarrow> (Inl (409, ''contact operation awaits ACL approval''), w1)
          | (Inr AclWaiting, w1) \<Rightarrow> (Inl (409, ''contact operation awaits ACL approval''), w1)
          | (Inr AclAllowed, w1) \<Rightarrow>
              (case ce_router env method path body (Some visitor) w1 of
                 (answer, w2) \<Rightarrow> (router_answer (ce_pki env) 502 answer, w2))))"

definition contact :: "'w contact_env \<Rightarrow> string \<Rightarrow> ('w, json) act" where
  "contact env target = local_api env ''GET'' (''/std/contact?name='' @ ce_encode env target) None"

text \<open>\<^verbatim>\<open>match contact(..) { Ok(c) => Some(c), Err((404, _)) => None, Err(e) => return Err(e) }\<close>.\<close>

definition known_contact :: "'w contact_env \<Rightarrow> string \<Rightarrow> ('w, json option) act" where
  "known_contact env target w = (case contact env target w of
     (Inr c, w') \<Rightarrow> (Inr (Some c), w')
   | (Inl e, w') \<Rightarrow> (if fst e = 404 then Inr None else Inl e, w'))"

definition record_outbound ::
  "'w contact_env \<Rightarrow> string \<Rightarrow> string \<Rightarrow> json \<Rightarrow> json \<Rightarrow> int \<Rightarrow> int \<Rightarrow> ('w, unit) act"
where
  "record_outbound env target subject requests offers valid_before started_at w =
     (case try_r (ensure_r (ce_subject_ok env subject) (502, ''invalid peer subject'')) (\<lambda>_.
           try_r (map_err (\<lambda>e. (400, e)) (ce_access_map env requests)) (\<lambda>_. map_err (\<lambda>e. (400, e)) (ce_access_map env offers))) of
        Inl e \<Rightarrow> (Inl e, w)
      | Inr _ \<Rightarrow>
         (case ce_record env \<lparr>nc_name = target, nc_subject = subject, nc_class = ''Human'', nc_description = [],
                 nc_requested = requests, nc_offers = offers, nc_created = started_at, nc_updated = ce_clock env w,
                 nc_expired = valid_before\<rparr> w of
            (None, w') \<Rightarrow> (Inr (), w')
          | (Some (RecordNotUpdated e), w') \<Rightarrow> (Inl (409, e), w')
          | (Some (RecordType e), w') \<Rightarrow> (Inl (400, e), w')
          | (Some (RecordOther e), w') \<Rightarrow> (Inl (500, e), w')))"

section \<open>Capabilities\<close>

text \<open>A selected capability: its name in the catalog and its operations as method and path.\<close>

record capability =
  ca_id :: string
  ca_endpoints :: "(string \<times> string) list"

definition add_method :: "string \<times> string \<Rightarrow> json \<Rightarrow> json" where
  "add_method e access = (case e of (method, path) \<Rightarrow>
     let methods = (case jget access path of Some (JArr ms) \<Rightarrow> ms | _ \<Rightarrow> []) in
     json_set path (JArr (if JStr method \<in> set methods then methods else methods @ [JStr method])) access)"

definition requested :: "capability list \<Rightarrow> json" where
  "requested selected = fold add_method (concat (map ca_endpoints selected)) (JObj [])"

definition offered :: "capability list \<Rightarrow> json" where
  "offered selected =
     JObj (map (\<lambda>(path, methods). (path, JObj [(''allow'', methods), (''deny'', JArr []), (''review'', JArr [])]))
       (case as_object (requested selected) of None \<Rightarrow> [] | Some m \<Rightarrow> m))"

definition grant_offered ::
  "'w contact_env \<Rightarrow> string \<Rightarrow> string \<Rightarrow> capability list \<Rightarrow> capability list \<Rightarrow> int \<Rightarrow> ('w, unit) act"
where
  "grant_offered env target subject requests capabilities valid_before =
     try_s (known_contact env target) (\<lambda>found.
     try_s (case found of
         Some c \<Rightarrow> ret_s (Inr c)
       | None \<Rightarrow> now_s (ce_clock env) (\<lambda>now.
           try_s (record_outbound env target subject (requested requests) (offered capabilities) valid_before now)
             (\<lambda>_. contact env target))) (\<lambda>existing.
     if jidx existing ''subject_id'' \<noteq> JStr subject \<or> as_str (jidx existing ''status'') \<notin> {Some ''pending'', Some ''active''}
     then ret_s (Inl (409, ''local contact blocks offered capabilities''))
     else each_s (\<lambda>(method, path).
         try_s (local_api env ''PATCH'' (''/std/acl/allow?name='' @ ce_encode env target)
                  (Some (JObj [(''api'', JStr path), (''effect'', JStr ''allow''), (''method'', JStr method)])))
           (\<lambda>_. ret_s (Inr ()))) (concat (map ca_endpoints capabilities))))"

text \<open>The separator between the package and the title of a catalog entry, a middle dot between spaces.\<close>

definition dot_sep :: string where
  "dot_sep = [CHR '' '', CHR 0xC2, CHR 0xB7, CHR '' '']"

definition standard_lib :: "package_row \<Rightarrow> bool" where
  "standard_lib l = (pk_author l \<in> {Some ''std.dhttp.net'', Some ''dev.genmeta.tech.dhttp.net''})"

definition catalog_path :: "package_row \<Rightarrow> string \<Rightarrow> string" where
  "catalog_path l path = (if \<not> standard_lib l \<and> starts_with ''/std/'' path then ''/'' @ pk_name l @ drop 4 path else path)"

definition catalog_label :: "pki \<Rightarrow> string \<Rightarrow> string" where
  "catalog_label p title = (case Option.bind (parse_json p title) (\<lambda>v.
       case (as_str (jidx v ''en''), as_str (jidx v ''zh-CN'')) of (Some en, Some zh) \<Rightarrow> Some (zh @ '' / '' @ en) | _ \<Rightarrow> None) of
     Some label \<Rightarrow> label | None \<Rightarrow> title)"

definition lib_package :: "package_row \<Rightarrow> string" where
  "lib_package l = (case pk_author l of Some a \<Rightarrow> if a \<noteq> [] then a @ ''/'' @ pk_name l else pk_name l | None \<Rightarrow> pk_name l)"

text \<open>The methods of one path are a sorted set.\<close>

definition add_permission :: "string \<Rightarrow> (string \<times> string) option \<Rightarrow> json \<Rightarrow> json" where
  "add_permission entry operation table =
     (let paths = (case jget table entry of Some (JObj m) \<Rightarrow> JObj m | _ \<Rightarrow> JObj []) in
      json_set entry (case operation of None \<Rightarrow> paths
        | Some (path, method) \<Rightarrow>
            json_set path (JArr (map JStr (case jget paths path of
               Some (JArr ms) \<Rightarrow> List.insort_insert method (List.map_filter as_str ms) | _ \<Rightarrow> [method]))) paths) table)"

definition catalog :: "pki \<Rightarrow> registry \<Rightarrow> json" where
  "catalog p reg = fold (\<lambda>(c, l) table.
       let entry = lib_package l @ dot_sep @ catalog_label p (cp_title c);
           operations = filter (\<lambda>o'. op_lib o' = cp_lib c \<and> op_cap o' = cp_id c) (rg_operations reg) in
       if operations = [] then add_permission entry None table
       else fold (\<lambda>o'. add_permission entry (Some (catalog_path l (op_path o'), op_method o'))) operations table)
     (concat (map (\<lambda>c. map (Pair c) (filter (\<lambda>l. pk_has_lib l \<and> pk_name l = cp_lib c) (rg_packages reg))) (rg_capabilities reg)))
     (JObj [])"

text \<open>The \<^verbatim>\<open>http\<close> crate's parsers of paths and methods are arguments.\<close>

definition permission_path_ok :: "(string \<Rightarrow> bool) \<Rightarrow> string \<Rightarrow> bool" where
  "permission_path_ok uri path =
     (\<not> (\<not> starts_with ''/'' path \<or> length path = 1 \<or> starts_with ''//'' path \<or>
         contains_char [CHR ''?'', CHR ''#'', CHR ''%'', CHR 92] path \<or>
         list_ex (\<lambda>part. part = ''.'' \<or> part = ''..'') (split_on (CHR ''/'') path) \<or> \<not> uri path))"

definition permission_methods :: "(string \<Rightarrow> bool) \<Rightarrow> string \<Rightarrow> json \<Rightarrow> (string \<times> string) list cres" where
  "permission_methods method_ok path methods =
     try_r (ok_or (as_array methods) (502, ''invalid permission methods'')) (\<lambda>ms.
     collect_r (\<lambda>m.
       try_r (ok_or (as_str m) (502, ''invalid permission method'')) (\<lambda>method.
       try_r (ensure_r (\<not> (method \<noteq> to_ascii_uppercase method \<or> \<not> method_ok method)) (502, ''invalid permission method'')) (\<lambda>_.
       Inr (method, path)))) ms)"

definition find_permission :: "(string \<times> json) list \<Rightarrow> string \<Rightarrow> (string \<times> json) cres" where
  "find_permission entries i = (case map_of entries i of
     Some paths \<Rightarrow> Inr (i, paths)
   | None \<Rightarrow>
      (case filter (\<lambda>(name, _). is_some_and (\<lambda>(_, title). title = i) (split_str_once dot_sep name)) entries of
         [] \<Rightarrow> Inl (409, ''selected capability unavailable'')
       | [entry] \<Rightarrow> Inr entry
       | _ \<Rightarrow> Inl (409, ''selected capability is ambiguous; refresh the catalog'')))"

definition select_one ::
  "(string \<Rightarrow> bool) \<Rightarrow> (string \<Rightarrow> bool) \<Rightarrow> (string \<times> json) list \<Rightarrow> json \<Rightarrow> capability list \<Rightarrow> capability list cres"
where
  "select_one uri method_ok entries i result =
     try_r (ok_or (as_str i) (400, ''invalid permission name'')) (\<lambda>i.
     try_r (find_permission entries i) (\<lambda>(i, paths).
     try_r (ensure_r (\<not> list_ex (\<lambda>c. ca_id c = i) result) (400, ''duplicate capability'')) (\<lambda>_.
     try_r (ok_or (as_object paths) (502, ''invalid permission paths'')) (\<lambda>paths.
     try_r (collect_r (\<lambda>(path, methods).
         try_r (ensure_r (permission_path_ok uri path) (502, ''invalid permission path'')) (\<lambda>_.
         permission_methods method_ok path methods)) paths) (\<lambda>endpoints.
     Inr (result @ [\<lparr>ca_id = i, ca_endpoints = concat endpoints\<rparr>]))))))"

definition selected ::
  "'w contact_env \<Rightarrow> (string \<Rightarrow> bool) \<Rightarrow> (string \<Rightarrow> bool) \<Rightarrow> registry \<Rightarrow> json \<Rightarrow> string \<Rightarrow> ('w, capability list) act"
where
  "selected env uri method_ok reg ids target =
     (case as_array ids of
        None \<Rightarrow> ret_s (Inl (400, ''invalid capabilities''))
      | Some [] \<Rightarrow> ret_s (Inr [])
      | Some ids \<Rightarrow>
         try_s (if target = ce_name env then ret_s (Inr (catalog (ce_pki env) reg))
                else try_s (remote env target ''GET'' ''/std/acl/permissions'' None None) (\<lambda>(_, value, _). ret_s (Inr value))) (\<lambda>catalog.
         ret_s (try_r (ok_or (as_object catalog) (502, ''invalid permission catalog'')) (\<lambda>entries.
                fold_r (select_one uri method_ok entries) ids []))))"

end
