(* ===== verification/Contact_Delivery.thy ===== *)
theory Contact_Delivery
  imports Contact_Access
begin

text \<open>
  The delivery of one contact request (\<^verbatim>\<open>deliver\<close> of \<^verbatim>\<open>src/contact/delivery.rs\<close>): claim a due
  request, submit it to the peer or poll its state, follow a review the peer asks for, check the
  receipt against the authenticated peer, record the contact locally, and record the outcome.

  The exchange and the access service work on the world \<open>'w\<close>, the two middle transactions on the rows of
  the queue; the state of a delivery is the pair of both.
\<close>

section \<open>Answers of the peer\<close>

definition pending_review :: "nat \<Rightarrow> json \<Rightarrow> int option cres" where
  "pending_review code body =
     (if \<not> (code = 202 \<and> jidx body ''status'' = JStr ''pending_review'' \<or> code = 400 \<and> jidx body ''error'' = JStr ''need_review'')
      then Inr None
      else ok_or (map_option Some (opt_filter (\<lambda>i. i > 0) (as_i64 (jidx body ''review_id'')))) (400, ''review protocol upgrade required''))"

definition review_progress :: "nat \<Rightarrow> json \<Rightarrow> bool cres" where
  "review_progress code body =
     (if code = 404 then Inl (410, ''review_expired'')
      else if code \<noteq> 200 then Inl (if code \<in> {202, 400} then 409 else code, ''review status unavailable'')
      else case as_str (jidx body ''status'') of
        None \<Rightarrow> Inl (502, ''invalid review status'')
      | Some s \<Rightarrow>
         if s = ''pending'' then Inr False
         else if s = ''allowed'' \<or> s = ''consumed'' then Inr True
         else if s = ''denied'' then Inl (409, ''review_denied'')
         else if s = ''expired'' then Inl (410, ''review_expired'')
         else Inl (502, ''invalid review status''))"

definition string_array :: "json \<Rightarrow> bool" where
  "string_array v = is_some_and (list_all (\<lambda>x. as_str x \<noteq> None)) (as_array v)"

definition operation_snapshot :: "pki \<Rightarrow> string option \<Rightarrow> string \<Rightarrow> json cres" where
  "operation_snapshot p snapshot capabilities = (case snapshot of
     Some text \<Rightarrow>
       try_r (ok_or (parse_json p text) (500, ''invalid stored operation snapshot'')) (\<lambda>value.
       try_r (ensure_r (as_object value \<noteq> None) (500, ''invalid stored operation snapshot'')) (\<lambda>_. Inr value))
   | None \<Rightarrow>
       try_r (ok_or (opt_filter string_array (parse_json p capabilities)) (500, ''invalid stored capabilities'')) (\<lambda>groups.
       try_r (ensure_r (groups = JArr []) (400, ''legacy contact request has no operation snapshot; submit a new request'')) (\<lambda>_.
       Inr (JObj []))))"

section \<open>One delivery\<close>

type_synonym 'w delivery_state = "'w \<times> outbound list"

text \<open>A call that touches only the world, or only the rows.\<close>

definition on_world :: "('w, 'a) act \<Rightarrow> ('w delivery_state, 'a) act" where
  "on_world m st = (case m (fst st) of (r, w) \<Rightarrow> (r, (w, snd st)))"

definition on_rows :: "(outbound list \<Rightarrow> outbound list) \<Rightarrow> ('w delivery_state, unit) act" where
  "on_rows f st = (Inr (), (fst st, f (snd st)))"

text \<open>What is asked of the peer: the submission of a queued request, or the state of a delivered one.\<close>

definition delivery_call :: "'w contact_env \<Rightarrow> outbound \<Rightarrow> json \<Rightarrow> json \<Rightarrow> string \<times> string \<times> json option" where
  "delivery_call env job requests offers =
     (if ob_status job = Queued then
        (''POST'', ''/std/contact'',
         Some (JObj [(''application_id'', JStr (ob_application job)), (''class'', JStr ''Human''), (''description'', JStr (ob_description job)),
                     (''from'', JStr (ce_name env)), (''offers'', offers), (''requested_access'', requests), (''to'', JStr (ob_target job))]))
      else (''GET'', ''/std/contact?name='' @ ce_encode env (ce_name env), None))"

definition snapshots :: "pki \<Rightarrow> outbound \<Rightarrow> (json \<times> json) cres" where
  "snapshots p job =
     (if ob_status job = Queued then
        try_r (operation_snapshot p (ob_requested job) (ob_requested_caps job)) (\<lambda>requests.
        try_r (operation_snapshot p (ob_offers job) (ob_offered_caps job)) (\<lambda>offers. Inr (requests, offers)))
      else Inr (JObj [], JObj []))"

text \<open>A request that is bound to a contact is delivered only while that contact is unchanged.\<close>

definition still_bound :: "outbound \<Rightarrow> json option \<Rightarrow> unit cres" where
  "still_bound job existing =
     ensure_r (\<not> is_some_and (\<lambda>cid. is_none_or (\<lambda>c. jidx c ''id'' \<noteq> JInt cid \<or> as_str (jidx c ''subject_id'') \<noteq> ob_subject job \<or>
                     as_str (jidx c ''status'') \<in> {Some ''blocked'', Some ''expired''}) existing) (ob_contact job))
       (410, ''local contact was removed, replaced or blocked'')"

definition follow_review ::
  "'w contact_env \<Rightarrow> outbound \<Rightarrow> string \<Rightarrow> string \<Rightarrow> string option \<Rightarrow> ('w, unit) act"
where
  "follow_review env job method path expected = (case ob_review job of
     None \<Rightarrow> ret_s (Inr ())
   | Some review \<Rightarrow>
       if rv_method review \<noteq> method \<or> rv_path review \<noteq> path \<or> is_some_and (\<lambda>sid. sid \<noteq> rv_subject review) expected
       then ret_s (Inl (409, ''review target or operation changed''))
       else try_s (remote_response env (ob_target job) ''GET'' (''/std/acl/status?id='' @ int_text (rv_id review)) None (Some (rv_subject review)))
         (\<lambda>(code, result, _).
          ret_s (try_r (review_progress code result) (\<lambda>finished. ensure_r finished (400, ''need_review'')))))"

text \<open>The peer reports this identity as its contact; the receipt of a submission names the request itself.\<close>

definition adopt_receipt :: "outbound \<Rightarrow> string \<Rightarrow> json \<Rightarrow> json" where
  "adopt_receipt job sid receipt =
     (let receipt = json_set ''subject_id'' (JStr sid) (json_set ''name'' (JStr (ob_target job))
                      (json_set ''application_id'' (JStr (ob_application job)) receipt));
          receipt = (if jidx receipt ''status'' = JStr ''blocked'' then json_set ''status'' (JStr ''revoked'') receipt else receipt) in
      if jidx receipt ''status'' = JStr ''transfered'' then json_set ''status'' (JStr ''pending'') receipt else receipt)"

definition normalize_receipt :: "'w contact_env \<Rightarrow> outbound \<Rightarrow> string \<Rightarrow> json \<Rightarrow> json cres" where
  "normalize_receipt env job sid receipt =
     (if ob_status job = Queued then Inr receipt else
      try_r (owner env) (\<lambda>visitor.
      try_r (ensure_r (\<not> (jidx receipt ''name'' \<noteq> JStr (ce_name env) \<or> as_str (jidx receipt ''subject_id'') \<noteq> Some (snd visitor)))
               (502, ''remote contact state belongs to a different subject'')) (\<lambda>_.
      Inr (adopt_receipt job sid receipt))))"

definition check_receipt :: "outbound \<Rightarrow> string \<Rightarrow> json \<Rightarrow> unit cres" where
  "check_receipt job sid receipt =
     ensure_r (\<not> (jidx receipt ''application_id'' \<noteq> JStr (ob_application job) \<or> jidx receipt ''name'' \<noteq> JStr (ob_target job) \<or>
                  jidx receipt ''subject_id'' \<noteq> JStr sid))
       (502, ''contact receipt identity does not match authenticated peer'')"

definition learn_contact ::
  "'w contact_env \<Rightarrow> outbound \<Rightarrow> json option \<Rightarrow> string \<Rightarrow> json \<Rightarrow> json \<Rightarrow> json \<Rightarrow> ('w, unit) act"
where
  "learn_contact env job existing sid receipt requests offers =
     (if ob_contact job = None \<and> existing = None \<and> as_str (jidx receipt ''status'') \<in> {Some ''pending'', Some ''active''} then
        now_s (ce_clock env) (\<lambda>now.
        record_outbound env (ob_target job) sid requests offers
          (case opt_filter (\<lambda>expiry. expiry > now) (as_i64 (jidx receipt ''valid_before'')) of Some expiry \<Rightarrow> expiry | None \<Rightarrow> now + 7 * 86400)
          (ob_created job))
      else ret_s (Inr ()))"

definition activate_contact :: "'w contact_env \<Rightarrow> outbound \<Rightarrow> string \<Rightarrow> json \<Rightarrow> ('w, unit) act" where
  "activate_contact env job sid receipt =
     (if jidx receipt ''status'' \<noteq> JStr ''active'' then ret_s (Inr ()) else
      try_s (known_contact env (ob_target job)) (\<lambda>found. case found of
        None \<Rightarrow> ret_s (Inl (410, ''local contact was removed''))
      | Some c \<Rightarrow>
         if jidx c ''subject_id'' \<noteq> JStr sid \<or> as_str (jidx c ''status'') \<in> {Some ''blocked'', Some ''expired''}
         then ret_s (Inl (409, ''local contact blocks reconciliation''))
         else if as_str (jidx c ''status'') \<in> {Some ''pending'', Some ''transfered''} then
           try_s (local_api env ''PATCH'' (''/std/contact?name='' @ ce_encode env (ob_target job)) (Some (JObj [(''status'', JStr ''active'')])))
             (\<lambda>_. ret_s (Inr ()))
         else ret_s (Inr ())))"

text \<open>\<^verbatim>\<open>matches!(state, "pending"|"active"|"denied"|"expired"|"revoked")\<close>.\<close>

definition receipt_state :: "string \<Rightarrow> status option" where
  "receipt_state text = opt_filter (\<lambda>s. s \<in> {Pending, Active, Denied_by_peer, Expired, Revoked}) (parse_status text)"

definition receipt_outcome :: "int \<Rightarrow> json \<Rightarrow> (status \<times> int) cres" where
  "receipt_outcome now receipt =
     try_r (ensure_r (\<not> (jidx receipt ''status'' = JStr ''pending'' \<and> is_none_or (\<lambda>e. e \<le> now) (as_i64 (jidx receipt ''valid_before''))))
              (410, ''remote contact request expired'')) (\<lambda>_.
     try_r (ok_or (as_str (jidx receipt ''status'')) (400, ''invalid status'')) (\<lambda>text.
     try_r (ok_or (receipt_state text) (502, ''unknown contact status'')) (\<lambda>state.
     try_r (ok_or (as_i64 (jidx receipt ''valid_before'')) (502, ''missing contact expiry'')) (\<lambda>valid_before.
     Inr (state, valid_before)))))"

text \<open>The first part of the delivery, up to the peer's answer.\<close>

record asked =
  aq_requests :: json
  aq_offers :: json
  aq_existing :: "json option"
  aq_method :: string
  aq_path :: string
  aq_code :: nat
  aq_receipt :: json
  aq_sid :: string

definition send_job :: "'w contact_env \<Rightarrow> outbound \<Rightarrow> json \<Rightarrow> json \<Rightarrow> json option \<Rightarrow> ('w, asked) act" where
  "send_job env job requests offers existing =
     (let expected = Option.bind existing (\<lambda>c. as_str (jidx c ''subject_id'')) in
      case delivery_call env job requests offers of (method, path, body) \<Rightarrow>
     try_s (follow_review env job method path expected) (\<lambda>_.
     try_s (remote_response env (ob_target job) method path body (or_else (map_option rv_subject (ob_review job)) expected))
       (\<lambda>(code, receipt, sid).
     ret_s (Inr \<lparr>aq_requests = requests, aq_offers = offers, aq_existing = existing, aq_method = method, aq_path = path,
                 aq_code = code, aq_receipt = receipt, aq_sid = sid\<rparr>))))"

definition ask_peer :: "'w contact_env \<Rightarrow> outbound \<Rightarrow> ('w, asked) act" where
  "ask_peer env job =
     try_s (ret_s (snapshots (ce_pki env) job)) (\<lambda>(requests, offers).
     try_s (known_contact env (ob_target job)) (\<lambda>existing.
     try_s (ret_s (still_bound job existing)) (\<lambda>_.
     send_job env job requests offers existing)))"

text \<open>The review to follow next, and whether the delivery goes on.\<close>

definition judge_answer :: "outbound \<Rightarrow> asked \<Rightarrow> review option \<times> unit cres" where
  "judge_answer job a = (case pending_review (aq_code a) (aq_receipt a) of
     Inl e \<Rightarrow> (ob_review job, Inl e)
   | Inr (Some i) \<Rightarrow>
       (Some \<lparr>rv_id = i, rv_subject = aq_sid a, rv_method = aq_method a, rv_path = aq_path a\<rparr>, Inl (400, ''need_review''))
   | Inr None \<Rightarrow> if aq_code a \<notin> {200, 201} then (ob_review job, Inl (aq_code a, ''remote contact operation rejected'')) else (None, Inr ()))"

definition settle :: "'w contact_env \<Rightarrow> outbound \<Rightarrow> int \<Rightarrow> asked \<Rightarrow> ('w delivery_state, status \<times> int) act" where
  "settle env job lease a =
     try_s (ret_s (normalize_receipt env job (aq_sid a) (aq_receipt a))) (\<lambda>receipt.
     try_s (ret_s (check_receipt job (aq_sid a) receipt)) (\<lambda>_.
     try_s (on_world (learn_contact env job (aq_existing a) (aq_sid a) receipt (aq_requests a) (aq_offers a))) (\<lambda>_.
     try_s (on_world (contact env (ob_target job))) (\<lambda>current.
     try_s (ret_s (ensure_r (\<not> is_some_and (\<lambda>cid. jidx current ''id'' \<noteq> JInt cid \<or> as_str (jidx current ''subject_id'') \<noteq> ob_subject job)
                    (ob_contact job)) (410, ''local contact changed during delivery''))) (\<lambda>_.
     try_s (ret_s (ok_or (as_i64 (jidx current ''id'')) (502, ''missing contact ID''))) (\<lambda>local_id.
     try_s (ret_s (ok_or (as_str (jidx current ''subject_id'')) (400, ''invalid subject_id''))) (\<lambda>local_subject.
     try_s (on_rows (bind_contact (ob_id job) lease local_id local_subject)) (\<lambda>_.
     try_s (on_world (activate_contact env job (aq_sid a) receipt)) (\<lambda>_.
     now_s (\<lambda>st. ce_clock env (fst st)) (\<lambda>now. ret_s (receipt_outcome now receipt)))))))))))"

definition deliver_outcome ::
  "'w contact_env \<Rightarrow> outbound \<Rightarrow> int \<Rightarrow> 'w delivery_state \<Rightarrow> (review option \<times> outcome) \<times> 'w delivery_state"
where
  "deliver_outcome env job lease st = (case on_world (ask_peer env job) st of
     (Inl e, st1) \<Rightarrow> ((ob_review job, Inl e), st1)
   | (Inr a, st1) \<Rightarrow>
       (case judge_answer job a of
          (next_review, Inl e) \<Rightarrow> ((next_review, Inl e), st1)
        | (next_review, Inr _) \<Rightarrow> (case settle env job lease a st1 of (r, st2) \<Rightarrow> ((next_review, r), st2))))"

definition deliver :: "'w contact_env \<Rightarrow> ('w delivery_state, unit) act" where
  "deliver env st =
     (let now = ce_clock env (fst st) in
      case claim now (snd st) of
        (None, rows) \<Rightarrow> (Inr (), (fst st, rows))
      | (Some job, rows) \<Rightarrow>
         (case deliver_outcome env job (now + 120) (fst st, rows) of
            ((next_review, result), (w, rows1)) \<Rightarrow>
              (case finish (ce_clock env w) (ob_id job) (now + 120) next_review result rows1 of
                 Inl e \<Rightarrow> (Inl e, (w, rows1))
               | Inr rows2 \<Rightarrow> (Inr (), (w, rows2)))))"

end
