(* ===== verification/Contact_Service.thy ===== *)
theory Contact_Service
  imports Contact_Delivery
begin

text \<open>
  The contact resources \<^verbatim>\<open>/std/contact\<close> and \<^verbatim>\<open>/std/contact/list\<close> (\<^verbatim>\<open>src/contact.rs\<close>): the parameters of a
  request, the projection of a queued request onto a contact, the merged and paged list, deletion with its
  rollback, and the submission of a request.

  The codecs of forms and of Unicode lower case, the printer of JSON and the parsers of the \<^verbatim>\<open>http\<close> crate are
  the fields of \<open>codec\<close>.
\<close>

section \<open>Parameters\<close>

record codec =
  cd_form_parse :: "string \<Rightarrow> (string \<times> string) list"
  cd_form_print :: "(string \<times> string) list \<Rightarrow> string"
  cd_lower :: "string \<Rightarrow> string"
  cd_print :: "json \<Rightarrow> string"
  cd_uri :: "string \<Rightarrow> bool"
  cd_method :: "string \<Rightarrow> bool"

text \<open>\<^verbatim>\<open>str::trim_end_matches\<close> with a string pattern.\<close>

function trim_end_str :: "string \<Rightarrow> string \<Rightarrow> string" where
  "trim_end_str p s = (if p \<noteq> [] \<and> ends_with p s then trim_end_str p (take (length s - length p) s) else s)"
  by pat_completeness auto
termination
  by (relation "measure (length \<circ> snd)") (auto simp: ends_with_iff)

declare trim_end_str.simps [simp del]

definition label_ok :: "string \<Rightarrow> bool" where
  "label_ok s = (s \<noteq> [] \<and> length s \<le> 63 \<and> \<not> starts_with ''-'' s \<and> \<not> ends_with ''-'' s \<and>
     list_all (\<lambda>c. is_ascii_lowercase c \<or> is_ascii_digit c \<or> c = CHR ''-'') s)"

definition name :: "string \<Rightarrow> string cres" where
  "name raw =
     (let raw = to_ascii_lowercase (str_trim raw);
          expanded = (if ends_with ''~'' raw then trim_end_matches (CHR ''.'') (trim_end_matches (CHR ''~'') raw) @ ''.dhttp.net''
                      else if ends_with ''.dhttp.net'' raw then raw else raw @ ''.dhttp.net'') in
      if length expanded > 253 \<or> trim_end_str ''.dhttp.net'' expanded = [] \<or> \<not> list_all label_ok (split_on (CHR ''.'') expanded)
      then Inl (400, ''invalid identity name'') else Inr expanded)"

definition parameter :: "codec \<Rightarrow> string \<Rightarrow> string \<Rightarrow> string option cres" where
  "parameter cd target key =
     (case filter (\<lambda>(k, v). k = key) (cd_form_parse cd (case split_once (CHR ''?'') target of None \<Rightarrow> [] | Some (_, q) \<Rightarrow> q)) of
        [] \<Rightarrow> Inr None
      | [(_, v)] \<Rightarrow> Inr (Some v)
      | _ \<Rightarrow> Inl (400, ''duplicate parameter''))"

definition integer :: "codec \<Rightarrow> string \<Rightarrow> string \<Rightarrow> int \<Rightarrow> int cres" where
  "integer cd target key preset =
     try_r (parameter cd target key) (\<lambda>v. case v of None \<Rightarrow> Inr preset | Some v \<Rightarrow> ok_or (parse_i64 v) (400, ''invalid number''))"

definition page :: "codec \<Rightarrow> string \<Rightarrow> (int \<times> int) cres" where
  "page cd target =
     try_r (integer cd target ''page'' 1) (\<lambda>p.
     try_r (integer cd target ''page_size'' 20) (\<lambda>size.
     try_r (ensure_r (\<not> (p < 1 \<or> \<not> (1 \<le> size \<and> size \<le> 100))) (400, ''invalid pagination'')) (\<lambda>_. Inr (p, size))))"

definition text_of :: "json \<Rightarrow> string \<Rightarrow> string cres" where
  "text_of v key = ok_or (as_str (jidx v key)) (400, ''invalid '' @ key)"

definition request_expiry :: "int \<Rightarrow> json \<Rightarrow> int cres" where
  "request_expiry now body =
     try_r (case (jget body ''expires_after'', jget body ''valid_before'') of
        (Some _, Some _) \<Rightarrow> Inl (400, ''use expires_after or valid_before'')
      | (Some seconds, None) \<Rightarrow>
          try_r (ok_or (opt_filter (\<lambda>s. s > 0) (as_i64 seconds)) (400, ''invalid expires_after'')) (\<lambda>seconds.
          if now + seconds < 2 ^ 63 then Inr (now + seconds) else Inl (400, ''expiry overflow''))
      | (None, Some time) \<Rightarrow> ok_or (as_i64 time) (400, ''invalid valid_before'')
      | (None, None) \<Rightarrow> Inr (now + 7 * 86400)) (\<lambda>valid_before.
     if valid_before \<le> now then Inl (400, ''valid_before must be in the future'') else Inr valid_before)"

section \<open>Projection of requests onto contacts\<close>

definition opt_json :: "('a \<Rightarrow> json) \<Rightarrow> 'a option \<Rightarrow> json" where
  "opt_json f v = (case v of None \<Rightarrow> JNull | Some x \<Rightarrow> f x)"

text \<open>The row as \<^verbatim>\<open>outbound_request\<close> reports it, with the members that \<^verbatim>\<open>dispatch\<close> adds.\<close>

definition outbound_request :: "pki \<Rightarrow> outbound \<Rightarrow> json" where
  "outbound_request p r =
     (let caps = (\<lambda>t. case parse_json p t of None \<Rightarrow> JNull | Some v \<Rightarrow> v) in
      JObj [(''_contact_id'', opt_json JInt (ob_contact r)), (''_contact_subject'', opt_json JStr (ob_subject r)),
        (''created_at'', JInt (ob_created r)), (''delivery_deadline'', JInt (ob_deadline r)), (''description'', JStr (ob_description r)),
        (''error_message'', opt_json JStr (ob_error r)), (''id'', JInt (int (ob_id r))), (''last_checked_at'', opt_json JInt (ob_checked r)),
        (''offered_capabilities'', caps (ob_offered_caps r)), (''remote_valid_before'', opt_json JInt (ob_remote_expires r)),
        (''requested_capabilities'', caps (ob_requested_caps r)), (''status'', JStr (status_text (ob_status r))),
        (''target_name'', JStr (ob_target r)), (''updated_at'', JInt (ob_updated r)), (''valid_before'', JInt (ob_expires r))])"

definition draft_contact :: "json \<Rightarrow> json" where
  "draft_contact draft =
     JObj [(''alias'', JNull), (''class'', JStr ''Human''), (''created_at'', jidx draft ''created_at''), (''description'', jidx draft ''description''),
       (''granted_access'', JObj []), (''id'', JNull), (''incoming'', JBool False), (''name'', jidx draft ''target_name''), (''offers'', JObj []),
       (''requested_access'', JObj []), (''status'', JStr ''pending''), (''subject_id'', JNull), (''updated_at'', jidx draft ''updated_at''),
       (''valid_before'', jidx draft ''valid_before'')]"

definition i64_or_zero :: "json \<Rightarrow> int" where
  "i64_or_zero v = (case as_i64 v of None \<Rightarrow> 0 | Some n \<Rightarrow> n)"

definition project_contact :: "json \<Rightarrow> json \<Rightarrow> json" where
  "project_contact c draft =
     (if c \<noteq> JNull \<and> (jidx draft ''_contact_id'' \<noteq> jidx c ''id'' \<or> jidx draft ''_contact_subject'' \<noteq> jidx c ''subject_id'')
      then c else
      let c = (if c = JNull then draft_contact draft else c);
          c = json_set ''updated_at'' (JInt (max (i64_or_zero (jidx c ''updated_at'')) (i64_or_zero (jidx draft ''updated_at'')))) c;
          c = json_set ''delivery_status'' (jidx draft ''status'') c in
      json_set ''delivery_error'' (jidx draft ''error_message'') c)"

text \<open>The newest request per target that is not revoked, in the order of the targets.\<close>

definition drafts :: "pki \<Rightarrow> outbound list \<Rightarrow> (string \<times> json) list" where
  "drafts p rows = fold (\<lambda>r entries.
       if list_ex (\<lambda>e. fst e = ob_target r) entries then entries else insort_key fst (ob_target r, outbound_request p r) entries)
     (rev (sort_key ob_id (filter (\<lambda>r. ob_status r \<noteq> Revoked) rows))) []"

definition unsent :: "json \<Rightarrow> bool" where
  "unsent draft = (jidx draft ''_contact_id'' = JNull \<and> (jidx draft ''status'' = JStr ''queued'' \<or> jidx draft ''status'' = JStr ''failed''))"

section \<open>The list of contacts\<close>

text \<open>A call of the access service's resources on behalf of the visitor.\<close>

definition native :: "'w contact_env \<Rightarrow> (string \<times> string) option \<Rightarrow> string \<Rightarrow> string \<Rightarrow> json option \<Rightarrow> ('w, nat \<times> json) act" where
  "native env visitor method uri body w =
     (if \<not> ce_uri_ok env uri then (Inl (500, ''invalid uri''), w) else
      case ce_router env method uri body visitor w of
        (answer, w') \<Rightarrow> (try_r (router_answer (ce_pki env) 500 answer) (\<lambda>v. Inr (fst answer, v)), w'))"

definition list_uri :: "codec \<Rightarrow> (string \<times> string) list \<Rightarrow> int \<Rightarrow> string" where
  "list_uri cd params current =
     ''/std/contact/list?'' @ cd_form_print cd (params @ [(''page'', int_text current), (''page_size'', ''100'')])"

partial_function (option) collect_pages ::
  "'w contact_env \<Rightarrow> (string \<times> string) option \<Rightarrow> (int \<Rightarrow> string) \<Rightarrow> json list \<Rightarrow> int \<Rightarrow> 'w \<Rightarrow> ((json list \<times> json) cres \<times> 'w) option"
where
  "collect_pages env visitor uri items current w =
     (case native env visitor ''GET'' (uri current) None w of
        (Inl e, w') \<Rightarrow> Some (Inl e, w')
      | (Inr (_, value), w') \<Rightarrow>
         (case as_array (jidx value ''items'') of
            None \<Rightarrow> Some (Inl (500, ''invalid contact list''), w')
          | Some entries \<Rightarrow>
             if entries = [] \<or> current * 100 \<ge> i64_or_zero (jidx value ''total'')
             then Some (Inr (items @ entries, jidx value ''deleted''), w')
             else collect_pages env visitor uri (items @ entries) (current + 1) w'))"

fun replace_first :: "('a \<Rightarrow> bool) \<Rightarrow> ('a \<Rightarrow> 'a) \<Rightarrow> 'a list \<Rightarrow> 'a list" where
  "replace_first P f [] = []"
| "replace_first P f (x # xs) = (if P x then f x # xs else x # replace_first P f xs)"

definition merge_draft :: "codec \<Rightarrow> string \<Rightarrow> string \<times> json \<Rightarrow> json list \<Rightarrow> json list cres" where
  "merge_draft cd target entry items = (case entry of (n, draft) \<Rightarrow>
     if list_ex (\<lambda>c. jidx c ''name'' = JStr n) items
     then Inr (replace_first (\<lambda>c. jidx c ''name'' = JStr n) (\<lambda>c. project_contact c draft) items)
     else if unsent draft then
       try_r (parameter cd target ''search'') (\<lambda>search.
       try_r (integer cd target ''modified_since'' 0) (\<lambda>since.
       let value = project_contact JNull draft; search = cd_lower cd (case search of None \<Rightarrow> [] | Some s \<Rightarrow> s) in
       Inr (if contains_str search (cd_lower cd n) \<and> i64_or_zero (jidx value ''updated_at'') \<ge> since then items @ [value] else items)))
     else Inr items)"

definition item_key :: "string \<Rightarrow> json \<Rightarrow> int list \<times> string list" where
  "item_key key a =
     (if key = ''created_at'' \<or> key = ''updated_at'' then (case as_i64 (jidx a key) of None \<Rightarrow> [] | Some n \<Rightarrow> [n])
      else map (\<lambda>c. int (byte c)) (case as_str (jidx a key) of None \<Rightarrow> [] | Some s \<Rightarrow> s),
      case as_str (jidx a ''name'') of None \<Rightarrow> [] | Some s \<Rightarrow> [s])"

definition sort_items :: "string \<Rightarrow> bool \<Rightarrow> json list \<Rightarrow> json list" where
  "sort_items key asc items = (if asc then sort_key (item_key key) items else rev (sort_key (item_key key) (rev items)))"

text \<open>\<^verbatim>\<open>skip(((page - 1) * size) as usize)\<close>: the product wraps around at 64 bits.\<close>

definition page_items :: "int \<Rightarrow> int \<Rightarrow> json list \<Rightarrow> json list" where
  "page_items wanted width items = take (nat width) (drop (unat (of_int ((wanted - 1) * width) :: 64 word)) items)"

definition list_reply :: "codec \<Rightarrow> string \<Rightarrow> (string \<times> json) list \<Rightarrow> int \<Rightarrow> int \<Rightarrow> json list \<times> json \<Rightarrow> (nat \<times> json) cres" where
  "list_reply cd target entries wanted width fetched = (case fetched of (items, deleted) \<Rightarrow>
     try_r (fold_r (merge_draft cd target) entries items) (\<lambda>items.
     try_r (parameter cd target ''sort'') (\<lambda>key.
     try_r (parameter cd target ''order'') (\<lambda>order.
     let key = (case key of None \<Rightarrow> ''updated_at'' | Some k \<Rightarrow> if k = ''names'' then ''name'' else k);
         items = sort_items key (order = Some ''asc'') items in
     Inr (200, JObj [(''deleted'', deleted), (''items'', JArr (page_items wanted width items)), (''page'', JInt wanted),
                     (''page_size'', JInt width), (''total'', JInt (int (length items)))])))))"

section \<open>Requests\<close>

record contact_request =
  cr_method :: string
  cr_path :: string
  cr_query :: "string option"
  cr_fetch_site :: "string option"
  cr_visitor :: "(string \<times> string) option"
  cr_body :: string

definition cr_target :: "contact_request \<Rightarrow> string" where
  "cr_target rq = cr_path rq @ (case cr_query rq of None \<Rightarrow> [] | Some q \<Rightarrow> ''?'' @ q)"

definition get_contact ::
  "'w contact_env \<Rightarrow> codec \<Rightarrow> contact_request \<Rightarrow> (string \<times> json) list \<Rightarrow> ('w, nat \<times> json) act"
where
  "get_contact env cd rq entries w =
     (case try_r (parameter cd (cr_target rq) ''name'') (\<lambda>n. try_r (ok_or n (400, ''name is required'')) name) of
        Inl e \<Rightarrow> (Inl e, w)
      | Inr n \<Rightarrow>
         (case native env (cr_visitor rq) ''GET'' (cr_target rq) None w of
            (Inr (status, value), w') \<Rightarrow>
              (Inr (case map_of entries n of None \<Rightarrow> (status, value) | Some draft \<Rightarrow> (status, project_contact value draft)), w')
          | (Inl e, w') \<Rightarrow>
              (case map_of entries n of
                 None \<Rightarrow> (Inl e, w')
               | Some draft \<Rightarrow> if fst e = 404 \<and> unsent draft then (Inr (200, project_contact JNull draft), w') else (Inl e, w'))))"

text \<open>\<open>None\<close> when the collection of the pages does not end.\<close>

definition list_contacts ::
  "'w contact_env \<Rightarrow> codec \<Rightarrow> contact_request \<Rightarrow> (string \<times> json) list \<Rightarrow> 'w \<Rightarrow> ((nat \<times> json) cres \<times> 'w) option"
where
  "list_contacts env cd rq entries w =
     (case page cd (cr_target rq) of
        Inl e \<Rightarrow> Some (Inl e, w)
      | Inr (wanted, width) \<Rightarrow>
         (let params = filter (\<lambda>(k, _). k \<noteq> ''page'' \<and> k \<noteq> ''page_size'') (cd_form_parse cd (case cr_query rq of None \<Rightarrow> [] | Some q \<Rightarrow> q)) in
          map_option (\<lambda>(fetched, w'). (try_r fetched (list_reply cd (cr_target rq) entries wanted width), w'))
            (collect_pages env (cr_visitor rq) (list_uri cd params) [] 1 w)))"

definition is_manager :: "'w contact_env \<Rightarrow> (string \<times> string) option \<Rightarrow> ('w, bool) act" where
  "is_manager env visitor w = (case visitor of
     None \<Rightarrow> (Inr False, w)
   | Some v \<Rightarrow>
      (case ce_auth env ''GET'' ''/std/contact/list'' v w of
         (Inl e, w') \<Rightarrow> (Inl (500, e), w')
       | (Inr answer, w') \<Rightarrow> (Inr (answer = AclAllowed), w')))"

subsection \<open>Deletion\<close>

definition deleted_names :: "'w contact_env \<Rightarrow> codec \<Rightarrow> contact_request \<Rightarrow> string list cres" where
  "deleted_names env cd rq =
     try_r (parameter cd (cr_target rq) ''name'') (\<lambda>single. case single of
       Some n \<Rightarrow> try_r (ensure_r (cr_body rq = []) (400, ''provide name or names, not both'')) (\<lambda>_. try_r (name n) (\<lambda>n. Inr [n]))
     | None \<Rightarrow>
        try_r (ok_or (parse_json (ce_pki env) (cr_body rq)) (400, ''names array is required'')) (\<lambda>value.
        try_r (ensure_r (\<not> is_none_or (\<lambda>m. length m \<noteq> 1) (as_object value)) (400, ''only names is accepted'')) (\<lambda>_.
        try_r (ok_or (opt_filter (\<lambda>vs. vs \<noteq> []) (as_array (jidx value ''names''))) (400, ''names must not be empty'')) (\<lambda>values.
        collect_r (\<lambda>v. try_r (ok_or (as_str v) (400, ''invalid contact name'')) name) values))))"

text \<open>
  Which of the names are contacts of the access service; the others have to have a request. The queue is
  read anew for every name, after what the other tasks did while the access service was asked.
\<close>

fun persisted_names :: "'w contact_env \<Rightarrow> string list \<Rightarrow> ('w delivery_state, string list) act" where
  "persisted_names env [] = ret_s (Inr [])"
| "persisted_names env (n # names) = (\<lambda>st. case ce_find env n (fst st) of
     (Inl e, w) \<Rightarrow> (Inl (500, e), (w, ce_others env w (snd st)))
   | (Inr found, w) \<Rightarrow>
       let rows = ce_others env w (snd st) in
       if \<not> found \<and> \<not> list_ex (\<lambda>r. ob_target r = n) rows then (Inl (404, ''contact not found''), (w, rows))
       else try_s (persisted_names env names) (\<lambda>rest. ret_s (Inr (if found then n # rest else rest))) (w, rows))"

text \<open>
  The deletion itself is a call of the access service; the requests are revoked before it in one transaction
  and put back after it, when it failed, in another. In between other tasks change the queue.
\<close>

definition delete_contacts :: "'w contact_env \<Rightarrow> codec \<Rightarrow> contact_request \<Rightarrow> ('w delivery_state, nat \<times> json) act" where
  "delete_contacts env cd rq st =
     (case deleted_names env cd rq of
        Inl e \<Rightarrow> (Inl e, st)
      | Inr names \<Rightarrow>
         (case persisted_names env names st of
            (Inl e, st1) \<Rightarrow> (Inl e, st1)
          | (Inr persisted, (w, rows)) \<Rightarrow>
             (case revoke (ce_clock env w) names rows of
                Inl e \<Rightarrow> (Inl e, (w, rows))
              | Inr (cancelled, rows1) \<Rightarrow>
                 if persisted = [] then (Inr (204, JNull), (w, rows1))
                 else
                   (case native env (cr_visitor rq) ''DELETE'' ''/std/contact'' (Some (JObj [(''names'', JArr (map JStr persisted))])) w of
                      (reply, w') \<Rightarrow>
                        let rows2 = ce_others env w' rows1 in
                        (case reply of
                           Inr answer \<Rightarrow> (Inr answer, (w', rows2))
                         | Inl e \<Rightarrow>
                             (case restore_revoked cancelled rows2 of
                                Inl e' \<Rightarrow> (Inl e', (w', rows2))
                              | Inr rows3 \<Rightarrow> (Inl e, (w', rows3))))))))"

subsection \<open>Submission\<close>

definition request_fields :: "string list" where
  "request_fields = [''from'', ''to'', ''description'', ''requested_capabilities'', ''offered_capabilities'', ''expires_after'', ''valid_before'']"

text \<open>Whom the request is addressed to: it is passed on, or it is one of the owner.\<close>

definition post_route :: "'w contact_env \<Rightarrow> json \<Rightarrow> string option cres" where
  "post_route env doc =
     try_r (try_r (text_of doc ''from'') name) (\<lambda>from.
     try_r (try_r (text_of doc ''to'') name) (\<lambda>to.
     try_r (ensure_r (from \<noteq> to) (400, ''cannot contact yourself'')) (\<lambda>_.
     if from \<noteq> ce_name env then
       try_r (ensure_r (to = ce_name env) (400, ''contact recipient does not match this identity'')) (\<lambda>_. Inr None)
     else Inr (Some to))))"

definition owner_visitor :: "'w contact_env \<Rightarrow> (string \<times> string) option \<Rightarrow> (string \<times> string) cres" where
  "owner_visitor env visitor =
     try_r (owner env) (\<lambda>verified. ok_or (opt_filter (\<lambda>v. v = verified) visitor) (403, ''verified owner required''))"

definition post_text :: "json \<Rightarrow> string cres" where
  "post_text doc =
     try_r (ensure_r (\<not> is_none_or (list_ex (\<lambda>(k, _). k \<notin> set request_fields)) (as_object doc)) (400, ''invalid contact request fields'')) (\<lambda>_.
     try_r (text_of doc ''description'') (\<lambda>description.
     try_r (ensure_r (\<not> (length (str_chars description) > 80 \<or> list_ex is_control (str_chars description))) (400, ''invalid description'')) (\<lambda>_.
     Inr description)))"

definition may_offer :: "'w contact_env \<Rightarrow> string \<times> string \<Rightarrow> capability list \<Rightarrow> ('w, unit) act" where
  "may_offer env visitor offers w =
     (if offers = [] then (Inr (), w) else
      case ce_auth env ''PATCH'' ''/std/acl/allow'' visitor w of
        (Inl e, w') \<Rightarrow> (Inl (500, e), w')
      | (Inr answer, w') \<Rightarrow>
         (if answer = AclAllowed then Inr () else Inl (403, ''contact creation or offered capability denied by ACL''), w'))"

definition pin_contact ::
  "'w contact_env \<Rightarrow> string \<Rightarrow> json option \<Rightarrow> capability list \<Rightarrow> capability list \<Rightarrow> int \<Rightarrow> ('w, json option) act"
where
  "pin_contact env target existing requests offers valid_before =
     (if offers = [] then ret_s (Inr existing) else
      try_s (remote env target ''GET'' ''/std/acl/permissions'' None (Option.bind existing (\<lambda>c. as_str (jidx c ''subject_id'')))) (\<lambda>(_, _, subject).
      try_s (grant_offered env target subject requests offers valid_before) (\<lambda>_.
      try_s (contact env target) (\<lambda>c. ret_s (Inr (Some c))))))"

definition prepare_post ::
  "'w contact_env \<Rightarrow> codec \<Rightarrow> registry \<Rightarrow> (string \<times> string) option \<Rightarrow> json \<Rightarrow> string \<Rightarrow> string \<Rightarrow> ('w, json \<times> draft) act"
where
  "prepare_post env cd reg visitor doc target application =
     try_s (ret_s (owner_visitor env visitor)) (\<lambda>visitor.
     try_s (ret_s (post_text doc)) (\<lambda>description.
     try_s (selected env (cd_uri cd) (cd_method cd) reg (jidx doc ''requested_capabilities'') target) (\<lambda>requests.
     now_s (ce_clock env) (\<lambda>now. try_s (ret_s (request_expiry now doc)) (\<lambda>valid_before.
     try_s (selected env (cd_uri cd) (cd_method cd) reg (jidx doc ''offered_capabilities'') (ce_name env)) (\<lambda>offers.
     try_s (known_contact env target) (\<lambda>existing.
     try_s (ret_s (ensure_r (\<not> is_some_and (\<lambda>c. jidx c ''status'' = JStr ''blocked'') existing) (409, ''local contact is blocked''))) (\<lambda>_.
     try_s (may_offer env visitor offers) (\<lambda>_.
     try_s (pin_contact env target existing requests offers valid_before) (\<lambda>pinned.
     ret_s (Inr (case pinned of None \<Rightarrow> JNull | Some c \<Rightarrow> c,
       \<lparr>dr_target = target, dr_description = description, dr_requested_caps = cd_print cd (jidx doc ''requested_capabilities''),
        dr_offered_caps = cd_print cd (jidx doc ''offered_capabilities''), dr_requested = cd_print cd (requested requests),
        dr_offers = cd_print cd (offered offers), dr_application = application, dr_valid_before = valid_before,
        dr_contact = Option.bind pinned (\<lambda>c. as_i64 (jidx c ''id'')), dr_subject = Option.bind pinned (\<lambda>c. as_str (jidx c ''subject_id''))\<rparr>))))))))))))"

text \<open>The identifier of the application is drawn inside the transaction, after the check for an open request.\<close>

definition post_contact ::
  "'w contact_env \<Rightarrow> codec \<Rightarrow> registry \<Rightarrow> nat \<Rightarrow> (string, string) result \<Rightarrow> contact_request \<Rightarrow> ('w delivery_state, nat \<times> json) act"
where
  "post_contact env cd reg i random rq =
     try_s (ret_s (ok_or (parse_json (ce_pki env) (cr_body rq)) (400, ''invalid JSON''))) (\<lambda>doc.
     try_s (ret_s (post_route env doc)) (\<lambda>route. case route of
       None \<Rightarrow> on_world (native env (cr_visitor rq) ''POST'' ''/std/contact'' (Some doc))
     | Some target \<Rightarrow>
        try_s (on_world (prepare_post env cd reg (cr_visitor rq) doc target (case random of Inl _ \<Rightarrow> [] | Inr a \<Rightarrow> a))) (\<lambda>(pinned, draft) st.
          case (submit (ce_clock env (fst st)) i draft (snd st), random) of
            ((Inl e, rows), _) \<Rightarrow> (Inl e, (fst st, rows))
          | ((Inr _, rows), Inl e) \<Rightarrow> (Inl (500, e), (fst st, expire_requests (ce_clock env (fst st)) (snd st)))
          | ((Inr _, rows), Inr _) \<Rightarrow>
              (Inr (202, project_contact pinned (outbound_request (ce_pki env) (new_request (ce_clock env (fst st)) i draft))), (fst st, rows)))))"

subsection \<open>Dispatch\<close>

definition cross_site :: "contact_request \<Rightarrow> bool" where
  "cross_site rq = (cr_method rq \<in> {''POST'', ''PUT'', ''DELETE''} \<and> cr_fetch_site rq = Some ''cross-site'')"

definition body_limit :: "contact_request \<Rightarrow> nat" where
  "body_limit rq = (if (cr_method rq = ''POST'' \<or> cr_method rq = ''DELETE'') \<and> cr_path rq = ''/std/contact'' then 65536 else 0)"

definition get_dispatch :: "'w contact_env \<Rightarrow> codec \<Rightarrow> contact_request \<Rightarrow> bool \<Rightarrow> 'w delivery_state \<Rightarrow> ((nat \<times> json) cres \<times> 'w delivery_state) option" where
  "get_dispatch env cd rq manager st =
     (if \<not> manager then Some (on_world (native env (cr_visitor rq) (cr_method rq) (cr_target rq) None) st)
      else if cr_path rq = ''/std/contact'' then Some (on_world (get_contact env cd rq (drafts (ce_pki env) (snd st))) st)
      else map_option (\<lambda>(r, w). (r, (w, snd st))) (list_contacts env cd rq (drafts (ce_pki env) (snd st)) (fst st)))"

definition dispatch ::
  "'w contact_env \<Rightarrow> codec \<Rightarrow> registry \<Rightarrow> nat \<Rightarrow> (string, string) result \<Rightarrow> contact_request \<Rightarrow> 'w delivery_state
     \<Rightarrow> ((nat \<times> json) cres \<times> 'w delivery_state) option"
where
  "dispatch env cd reg i random rq st =
     (if cross_site rq then Some (Inl (403, ''cross-origin request denied''), st)
      else if length (cr_body rq) > body_limit rq then Some (Inl (400, ''invalid request body''), st)
      else case on_world (is_manager env (cr_visitor rq)) st of
        (Inl e, st1) \<Rightarrow> Some (Inl e, st1)
      | (Inr manager, st1) \<Rightarrow>
         if cr_method rq = ''GET'' then get_dispatch env cd rq manager st1
         else if cr_method rq = ''DELETE'' then Some (delete_contacts env cd rq st1)
         else if cr_path rq = ''/std/contact'' \<and> cr_method rq = ''POST'' then Some (post_contact env cd reg i random rq st1)
         else Some (Inl (405, ''method not allowed''), st1))"

text \<open>The middleware: other resources go to the access service; every reply of these two is not to be stored.\<close>

definition handles :: "contact_request \<Rightarrow> bool" where
  "handles rq = (cr_path rq = ''/std/contact'' \<and> cr_method rq \<in> {''GET'', ''POST'', ''DELETE''} \<or>
     cr_path rq = ''/std/contact/list'' \<and> cr_method rq = ''GET'')"

definition contact_reply :: "(nat \<times> json) cres \<Rightarrow> nat \<times> json option \<times> headers" where
  "contact_reply result =
     (case result of
        Inr (status, value) \<Rightarrow> if status = 204 then (204, None, [(''cache-control'', ''no-store'')]) else (status, Some value, [(''cache-control'', ''no-store'')])
      | Inl (status, message) \<Rightarrow>
          (if 100 \<le> status \<and> status \<le> 999 then status else 500, Some (JObj [(''error'', JStr message)]), [(''cache-control'', ''no-store'')]))"

end
