(* ===== verification/Contact_Queue_Laws.thy ===== *)
theory Contact_Queue_Laws
  imports Contact_Queue
begin

text \<open>
  What holds of the queue in every reachable state: at most one open request per target, and leases
  that are handed out at most once, so that the outcome of a delivery is recorded only by the one
  worker that holds the request.
\<close>

section \<open>The invariant\<close>

abbreviation runnable :: "status set" where
  "runnable \<equiv> {Queued, Pending, Active}"

text \<open>A request that was claimed in this second cannot be claimed again in it.\<close>

definition settled :: "int \<Rightarrow> revoked \<Rightarrow> outbound \<Rightarrow> bool" where
  "settled clock entries r =
     (ob_lease r = Some (clock + 120) \<or> ob_next r > clock \<or> ob_status r \<notin> insert Revoked runnable \<or>
      ob_status r = Revoked \<and> (\<forall>e \<in> set entries. fst e = ob_id r \<longrightarrow> fst (snd e) \<notin> runnable))"

definition row_ok :: "nat \<Rightarrow> int \<Rightarrow> revoked \<Rightarrow> (nat \<times> int) list \<Rightarrow> outbound \<Rightarrow> bool" where
  "row_ok n clock entries leases r =
     (ob_id r < n \<and> (ob_status r = Revoked \<longrightarrow> ob_lease r = None) \<and>
      (ob_id r \<in> fst ` set entries \<longrightarrow> ob_status r = Revoked) \<and>
      (\<forall>l. ob_lease r = Some l \<longrightarrow> (ob_id r, l) \<in> set leases) \<and>
      ((ob_id r, clock + 120) \<in> set leases \<longrightarrow> settled clock entries r))"

definition queue_inv :: "outbound list \<Rightarrow> nat \<Rightarrow> int \<Rightarrow> revoked \<Rightarrow> (nat \<times> int) list \<Rightarrow> bool" where
  "queue_inv rows n clock entries leases =
     (distinct (map ob_id rows) \<and> open_unique rows \<and> list_all (row_ok n clock entries leases) rows \<and>
      distinct (map fst entries) \<and> list_all (\<lambda>e. fst e < n \<and> fst (snd e) \<noteq> Revoked) entries \<and>
      distinct leases \<and> list_all (\<lambda>l. snd l \<le> clock + 120 \<and> fst l < n) leases)"

definition contact_inv :: "contact_state \<Rightarrow> bool" where
  "contact_inv s = queue_inv (cs_rows s) (cs_next s) (cs_clock s) (concat (cs_rollbacks s)) (cs_leases s)"

lemma queue_inv_entries:
  assumes "queue_inv rows n clock entries leases" and "mset entries' = mset entries"
  shows "queue_inv rows n clock entries' leases"
proof -
  have s: "set entries' = set entries" using assms(2) by (rule mset_eq_setD)
  have d: "distinct (map fst entries') = distinct (map fst entries)"
    using assms(2) by (metis mset_eq_imp_distinct_iff mset_map)
  have "row_ok n clock entries' leases = row_ok n clock entries leases"
    by (rule ext) (simp add: row_ok_def settled_def s)
  with assms(1) d show ?thesis by (simp add: queue_inv_def list_all_iff s)
qed

section \<open>Updates of rows\<close>

lemma update_where_all:
  "(\<And>r. r \<in> set rows \<Longrightarrow> Q (if P r then f r else r)) \<Longrightarrow> list_all Q (update_where P f rows)"
  unfolding update_where_def list_all_iff by (simp only: set_map) blast

lemma open_unique_mono:
  assumes "open_unique rows" and "\<And>r. r \<in> set rows \<Longrightarrow> ob_target (f r) = ob_target r \<and> (is_open (f r) \<longrightarrow> is_open r)"
  shows "open_unique (map f rows)"
  using assms
proof (induction rows)
  case (Cons r rows)
  have "ob_target ` set (filter is_open (map f rows)) \<subseteq> ob_target ` set (filter is_open rows)"
    using Cons.prems(2) by (auto simp: image_iff)
  moreover have "ob_target (f r) = ob_target r" "is_open (f r) \<Longrightarrow> is_open r" using Cons.prems(2) by auto
  moreover have "open_unique (map f rows)" using Cons by (auto simp: open_unique_def split: if_splits)
  ultimately show ?case using Cons.prems(1) by (auto simp: open_unique_def split: if_splits)
qed (simp add: open_unique_def)

text \<open>A statement that updates rows keeps the invariant when each updated row stays in order.\<close>

lemma update_where_inv:
  assumes "queue_inv rows n clock entries leases"
    and "\<And>r. ob_id (f r) = ob_id r"
    and "open_unique (update_where P f rows)"
    and "\<And>r. r \<in> set rows \<Longrightarrow> P r \<Longrightarrow> row_ok n clock entries leases r \<Longrightarrow> row_ok n clock entries leases (f r)"
  shows "queue_inv (update_where P f rows) n clock entries leases"
  using assms by (auto simp: queue_inv_def update_where_def list_all_iff comp_def if_distrib cong: if_cong)

lemma update_where_open:
  assumes "open_unique rows"
    and "\<And>r. r \<in> set rows \<Longrightarrow> P r \<Longrightarrow> ob_target (f r) = ob_target r \<and> (is_open (f r) \<longrightarrow> is_open r)"
  shows "open_unique (update_where P f rows)"
  unfolding update_where_def using assms by (intro open_unique_mono) auto

lemma expire_inv:
  assumes "queue_inv rows n clock entries leases"
  shows "queue_inv (expire_requests clock rows) n clock entries leases"
  unfolding expire_requests_def
proof (rule update_where_inv [OF assms])
  show "open_unique (update_where (\<lambda>r. is_open r \<and> ob_expires r \<le> clock)
     (\<lambda>r. r\<lparr>ob_status := if ob_status r = Queued then Failed else Expired, ob_lease := None, ob_updated := clock,
            ob_error := Some ''contact request expired''\<rparr>) rows)"
    by (rule update_where_open) (use assms in \<open>auto simp: queue_inv_def is_open_def\<close>)
qed (auto simp: row_ok_def settled_def is_open_def)

lemma bind_inv:
  assumes "queue_inv rows n clock entries leases"
  shows "queue_inv (bind_contact i lease cid subject rows) n clock entries leases"
  unfolding bind_contact_def
proof (rule update_where_inv [OF assms])
  show "open_unique (update_where (\<lambda>r. ob_id r = i \<and> ob_lease r = Some lease \<and> ob_contact r = None)
     (\<lambda>r. r\<lparr>ob_contact := Some cid, ob_subject := Some subject\<rparr>) rows)"
    by (rule update_where_open) (use assms in \<open>auto simp: queue_inv_def is_open_def\<close>)
qed (auto simp: row_ok_def settled_def)

lemma record_outcome_simps [simp]:
  "ob_id (record_outcome now result r) = ob_id r" "ob_target (record_outcome now result r) = ob_target r"
  "ob_lease (record_outcome now result r) = None" "ob_next (record_outcome now result r) > now"
  by (auto simp: record_outcome_def split: sum.splits prod.splits)

lemma finish_Inr:
  assumes "finish now i lease next_review result rows = Inr rows'"
  shows "rows' = update_where (\<lambda>r. ob_id r = i \<and> ob_lease r = Some lease) (record_outcome now result)
     (update_where (\<lambda>r. ob_id r = i \<and> ob_lease r = Some lease) (\<lambda>r. r\<lparr>ob_review := next_review\<rparr>) rows)" "open_unique rows'"
  using assms by (auto simp: finish_def Let_def split: if_splits)

lemma finish_inv:
  assumes "finish clock i lease next_review result rows = Inr rows'" and "queue_inv rows n clock entries leases"
  shows "queue_inv rows' n clock entries leases"
proof -
  let ?mine = "\<lambda>r. ob_id r = i \<and> ob_lease r = Some lease"
  let ?f = "\<lambda>r. r\<lparr>ob_review := next_review\<rparr>"
  have r: "rows' = update_where ?mine (record_outcome clock result) (update_where ?mine ?f rows)"
    and u: "open_unique rows'"
    using finish_Inr [OF assms(1)] by simp_all
  have "queue_inv (update_where ?mine ?f rows) n clock entries leases"
  proof (rule update_where_inv [OF assms(2)])
    show "open_unique (update_where ?mine ?f rows)"
      by (rule update_where_open) (use assms(2) in \<open>auto simp: queue_inv_def is_open_def\<close>)
  qed (auto simp: row_ok_def settled_def)
  then show ?thesis
    unfolding r
  proof (rule update_where_inv)
    show "open_unique (update_where ?mine (record_outcome clock result) (update_where ?mine ?f rows))" using u r by simp
  qed (auto simp: row_ok_def settled_def)
qed

lemma claim_cases:
  assumes "claim clock rows = (res, rows')"
  obtains (none) "res = None" "rows' = expire_requests clock rows" "filter (is_due clock) rows' = []"
  | (some) job where "res = Some job" "job \<in> set (expire_requests clock rows)" "is_due clock job"
      "\<forall>r \<in> set (expire_requests clock rows). is_due clock r \<longrightarrow> (ob_next job, ob_id job) \<le> (ob_next r, ob_id r)"
      "rows' = update_where (\<lambda>r. ob_id r = ob_id job) (\<lambda>r. r\<lparr>ob_lease := Some (clock + 120)\<rparr>) (expire_requests clock rows)"
proof (cases "sort_key (\<lambda>r. (ob_next r, ob_id r)) (filter (is_due clock) (expire_requests clock rows))")
  case Nil
  with assms show ?thesis by (intro none) (simp_all add: claim_def sort_key_Nil)
next
  case (Cons job jobs)
  let ?key = "\<lambda>r. (ob_next r, ob_id r)" and ?due = "filter (is_due clock) (expire_requests clock rows)"
  have "set (job # jobs) = set ?due" using Cons by (metis set_sort)
  then have in_due: "job \<in> set ?due" by auto
  have "sorted (map ?key (job # jobs))" using Cons by (metis sorted_sort_key)
  then have "\<forall>r \<in> set ?due. ?key job \<le> ?key r" using \<open>set (job # jobs) = set ?due\<close> by auto
  with in_due Cons assms show ?thesis by (intro some [of job]) (auto simp: claim_def)
qed

lemma claim_inv:
  assumes "claim clock rows = (Some job, rows')" and "queue_inv rows n clock entries leases"
  shows "queue_inv rows' n clock entries ((ob_id job, clock + 120) # leases)"
  using assms(1)
proof (cases rule: claim_cases)
  case (some job')
  let ?rows = "expire_requests clock rows"
  let ?lease = "(ob_id job, clock + 120)"
  have inv: "queue_inv ?rows n clock entries leases" using assms(2) by (rule expire_inv)
  have job: "job \<in> set ?rows" "is_due clock job" using some by simp_all
  with inv have row: "row_ok n clock entries leases job" by (simp add: queue_inv_def list_all_iff)
  have fresh: "?lease \<notin> set leases"
  proof
    assume "?lease \<in> set leases"
    with row have "settled clock entries job" by (simp add: row_ok_def)
    with job(2) show False by (auto simp: settled_def is_due_def)
  qed
  have rows': "rows' = update_where (\<lambda>r. ob_id r = ob_id job) (\<lambda>r. r\<lparr>ob_lease := Some (clock + 120)\<rparr>) ?rows"
    using some by simp
  have only: "r = job" if "r \<in> set ?rows" "ob_id r = ob_id job" for r
    using inv job(1) that by (auto simp: queue_inv_def distinct_map dest: inj_onD)
  have ok: "row_ok n clock entries (?lease # leases) (if ob_id r = ob_id job then r\<lparr>ob_lease := Some (clock + 120)\<rparr> else r)"
    if "r \<in> set ?rows" for r
  proof (cases "ob_id r = ob_id job")
    case True
    with only that have "r = job" by simp
    with row job(2) show ?thesis by (auto simp: row_ok_def settled_def is_due_def)
  next
    case False
    with inv that show ?thesis by (auto simp: queue_inv_def list_all_iff row_ok_def)
  qed
  have "open_unique rows'"
    unfolding rows' by (rule update_where_open) (use inv in \<open>auto simp: queue_inv_def is_open_def\<close>)
  moreover have "map ob_id rows' = map ob_id ?rows" by (simp add: rows' update_where_def)
  moreover have "list_all (row_ok n clock entries (?lease # leases)) rows'"
    unfolding rows' by (rule update_where_all) (rule ok)
  ultimately show ?thesis
    using inv fresh row by (simp add: queue_inv_def row_ok_def)
qed simp

lemma claim_none_inv:
  assumes "claim clock rows = (None, rows')" and "queue_inv rows n clock entries leases"
  shows "queue_inv rows' n clock entries leases"
  using assms(1)
proof (cases rule: claim_cases)
  case none
  with expire_inv [OF assms(2)] show ?thesis by simp
qed simp

lemma row_ok_more: "row_ok n clock entries leases r \<Longrightarrow> row_ok (Suc n) clock entries leases r"
  by (simp add: row_ok_def)

lemma submit_inv:
  assumes "submit clock n d rows = (res, rows')" and "queue_inv rows n clock entries leases"
  shows "queue_inv rows' (case res of Inl _ \<Rightarrow> n | Inr _ \<Rightarrow> n + 1) clock entries leases"
proof -
  let ?rows = "expire_requests clock rows"
  have inv: "queue_inv ?rows n clock entries leases" using assms(2) by (rule expire_inv)
  show ?thesis
  proof (cases res)
    case (Inl e)
    with assms(1) inv show ?thesis by (auto simp: submit_def Let_def split: if_splits)
  next
    case (Inr u)
    with assms(1) have rows': "rows' = ?rows @ [new_request clock n d]" "open_unique rows'"
      by (auto simp: submit_def Let_def split: if_splits)
    have ids: "\<forall>r \<in> set ?rows. ob_id r < n" "\<forall>e \<in> set entries. fst e < n" "\<forall>l \<in> set leases. fst l < n"
      using inv by (auto simp: queue_inv_def list_all_iff row_ok_def)
    have "row_ok (n + 1) clock entries leases (new_request clock n d)"
      using ids by (force simp: row_ok_def new_request_def)
    moreover have "distinct (map ob_id rows')" using inv ids(1) by (auto simp: rows'(1) queue_inv_def new_request_def)
    ultimately show ?thesis
      using inv rows'(2) Inr by (auto simp: queue_inv_def rows'(1) list_all_iff row_ok_more less_Suc_eq)
  qed
qed

text \<open>The check before the insertion is all that the unique index needs.\<close>

lemma submit_never_violates:
  assumes "open_unique rows"
  shows "fst (submit now i d rows) \<noteq> Inl storage_failure"
proof -
  have "open_unique (expire_requests now rows)"
    unfolding expire_requests_def by (rule update_where_open [OF assms]) (auto simp: is_open_def)
  then show ?thesis
    by (auto simp: submit_def Let_def list_ex_iff open_unique_def new_request_def is_open_def storage_failure_def)
qed

section \<open>Revocation\<close>

lemma row_ok_other:
  "row_ok n clock (previous @ entries) leases r \<Longrightarrow> ob_id r \<notin> fst ` set new \<Longrightarrow> row_ok n clock (previous @ new @ entries) leases r"
  unfolding row_ok_def settled_def set_append ball_Un image_Un Un_iff by (auto simp: image_iff)

lemma row_ok_again:
  "row_ok n clock entries leases r \<Longrightarrow> ob_status r = Revoked \<Longrightarrow>
     row_ok n clock entries leases (r\<lparr>ob_status := Revoked, ob_lease := None, ob_updated := now\<rparr>)"
  by (auto simp: row_ok_def settled_def)

lemma revoke_one_inv:
  assumes "revoke_one clock name (previous, rows) = Inr (previous', rows')"
    and "queue_inv rows n clock (previous @ entries) leases"
  shows "queue_inv rows' n clock (previous' @ entries) leases"
proof -
  let ?found = "filter (\<lambda>r. ob_target r = name \<and> ob_status r \<noteq> Revoked) rows"
  let ?new = "map (\<lambda>r. (ob_id r, ob_status r, ob_updated r)) ?found"
  let ?f = "\<lambda>r. r\<lparr>ob_status := Revoked, ob_lease := None, ob_updated := clock\<rparr>"
  have idle: "\<forall>r \<in> set ?found. \<forall>l. ob_lease r = Some l \<longrightarrow> l \<le> clock"
    using assms(1) by (auto simp: revoke_one_def Let_def try_r_Inr_iff list_ex_iff not_less)
  have eq: "previous' = previous @ ?new" "rows' = update_where (\<lambda>r. ob_target r = name) ?f rows"
    using assms(1) by (auto simp: revoke_one_def Let_def try_r_Inr_iff)
  note inv = assms(2) [unfolded queue_inv_def]
  have rows_ok: "row_ok n clock (previous @ entries) leases r" if "r \<in> set rows" for r
    using inv that by (simp add: list_all_iff)
  have not_entry: "ob_id r \<notin> fst ` set (previous @ entries)" if "r \<in> set ?found" for r
    using rows_ok [of r] that by (auto simp: row_ok_def)
  have same: "r = r'" if "r \<in> set rows" "r' \<in> set rows" "ob_id r = ob_id r'" for r r'
    using inv that by (auto simp: distinct_map dest: inj_onD)
  have ok: "row_ok n clock (previous @ ?new @ entries) leases (if ob_target r = name then ?f r else r)" if r: "r \<in> set rows" for r
  proof (cases "ob_target r = name \<and> ob_status r \<noteq> Revoked")
    case True
    then have found: "r \<in> set ?found" using r by simp
    with not_entry same have "fst (snd e) = ob_status r" if "e \<in> set (previous @ ?new @ entries)" "fst e = ob_id r" for e
      using that r by force
    moreover have "ob_lease r \<noteq> Some (clock + 120)" using idle found by auto
    ultimately show ?thesis using rows_ok [OF r] True by (auto simp: row_ok_def settled_def)
  next
    case False
    have new: "ob_id r \<notin> fst ` set ?new" using same r False by force
    with rows_ok [OF r] have "row_ok n clock (previous @ ?new @ entries) leases r" by (rule row_ok_other)
    with False show ?thesis by (auto intro: row_ok_again)
  qed
  have "open_unique rows'"
    unfolding eq by (rule update_where_open) (use inv in \<open>auto simp: is_open_def\<close>)
  moreover have "map ob_id rows' = map ob_id rows" by (simp add: eq update_where_def)
  moreover have "list_all (row_ok n clock (previous @ ?new @ entries) leases) rows'"
    unfolding eq(2) by (rule update_where_all) (rule ok)
  moreover have "distinct (map fst (previous @ ?new @ entries))"
  proof -
    have new: "map fst ?new = map ob_id ?found" by simp
    have "distinct (map ob_id ?found)" using inv by (simp add: distinct_map_filter)
    moreover have "set (map ob_id ?found) \<inter> fst ` set (previous @ entries) = {}" using not_entry by (simp only: set_map) blast
    moreover have "distinct (map fst previous @ map fst entries)" using inv by simp
    ultimately show ?thesis unfolding map_append new by (simp only: distinct_append set_append set_map image_Un) blast
  qed
  ultimately show ?thesis
    using inv by (auto simp: queue_inv_def eq(1) list_all_iff row_ok_def)
qed

lemma revoke_inv:
  assumes "revoke clock names rows = Inr (previous, rows')" and "queue_inv rows n clock entries leases"
  shows "queue_inv rows' n clock (previous @ entries) leases"
proof -
  have "case (previous, rows') of (previous, rows) \<Rightarrow> queue_inv rows n clock (previous @ entries) leases"
    by (rule fold_r_invariant [OF assms(1) [unfolded revoke_def]]) (use assms(2) revoke_one_inv in auto)
  then show ?thesis by simp
qed

lemma restore_one_inv:
  assumes "restore_one e rows = Inr rows'" and "queue_inv rows n clock (e # entries) leases"
  shows "queue_inv rows' n clock entries leases"
proof -
  obtain i state updated where e: "e = (i, state, updated)" by (cases e)
  let ?f = "\<lambda>r. r\<lparr>ob_status := state, ob_updated := updated\<rparr>"
  have eq: "rows' = update_where (\<lambda>r. ob_id r = i \<and> ob_status r = Revoked) ?f rows" "open_unique rows'"
    using assms(1) by (auto simp: restore_one_def e Let_def split: if_splits)
  note inv = assms(2) [unfolded queue_inv_def]
  have state: "state \<noteq> Revoked" "i \<notin> fst ` set entries" using inv by (auto simp: e)
  have ok: "row_ok n clock entries leases (if ob_id r = i \<and> ob_status r = Revoked then ?f r else r)" if "r \<in> set rows" for r
  proof -
    have r: "row_ok n clock (e # entries) leases r" using inv that by (simp add: list_all_iff)
    show ?thesis
    proof (cases "ob_id r = i \<and> ob_status r = Revoked")
      case True
      with r state show ?thesis by (auto simp: row_ok_def settled_def e)
    next
      case False
      with r show ?thesis by (auto simp: row_ok_def settled_def e)
    qed
  qed
  have "map ob_id rows' = map ob_id rows" by (simp add: eq(1) update_where_def)
  moreover have "list_all (row_ok n clock entries leases) rows'"
    unfolding eq(1) by (rule update_where_all) (rule ok)
  ultimately show ?thesis using inv eq(2) by (auto simp: queue_inv_def)
qed

lemma restore_inv:
  "restore_revoked cancelled rows = Inr rows' \<Longrightarrow> queue_inv rows n clock (cancelled @ entries) leases \<Longrightarrow>
     queue_inv rows' n clock entries leases"
  unfolding restore_revoked_def
  by (induction cancelled arbitrary: rows) (auto simp: try_r_Inr_iff dest: restore_one_inv)

section \<open>Reachable states\<close>

lemma remove_rollback: "cancelled \<in> set xs \<Longrightarrow> mset (cancelled @ concat (remove1 cancelled xs)) = mset (concat xs)"
  by (induction xs) auto

lemma row_ok_fewer: "row_ok n clock (cancelled @ entries) leases r \<Longrightarrow> row_ok n clock entries leases r"
  unfolding row_ok_def settled_def by (simp add: ball_Un image_Un) blast

lemma drop_entries_inv:
  assumes "queue_inv rows n clock (cancelled @ entries) leases"
  shows "queue_inv rows n clock entries leases"
proof -
  have "list_all (row_ok n clock entries leases) rows"
    using assms by (auto simp: queue_inv_def list_all_iff intro: row_ok_fewer)
  with assms show ?thesis by (simp add: queue_inv_def)
qed

lemma tick_inv:
  assumes "queue_inv rows n clock entries leases" and "clock \<le> now"
  shows "queue_inv rows n now entries leases"
proof (cases "now = clock")
  case False
  with assms have "(i, now + 120) \<notin> set leases" for i by (auto simp: queue_inv_def list_all_iff)
  with assms show ?thesis by (auto simp: queue_inv_def list_all_iff row_ok_def)
qed (use assms in simp)

lemma contact_step_inv:
  assumes "contact_step s s'" and "contact_inv s"
  shows "contact_inv s'"
  using assms(1)
proof cases
  case (tick now)
  with assms(2) tick_inv show ?thesis by (auto simp: contact_inv_def)
next
  case expired
  with assms(2) show ?thesis by (simp add: contact_inv_def expire_inv)
next
  case (submitted d rows)
  with assms(2) submit_inv [OF submitted(2)] show ?thesis by (simp add: contact_inv_def)
next
  case (refused d e rows)
  with assms(2) submit_inv [OF refused(2)] show ?thesis by (simp add: contact_inv_def)
next
  case (idle rows)
  with assms(2) claim_none_inv [OF idle(2)] show ?thesis by (simp add: contact_inv_def)
next
  case (claimed job rows)
  with assms(2) claim_inv [OF claimed(2)] show ?thesis by (simp add: contact_inv_def)
next
  case (bound i lease cid subject)
  with assms(2) show ?thesis by (simp add: contact_inv_def bind_inv)
next
  case (finished i lease next_review result rows)
  with assms(2) finish_inv [OF finished(2)] show ?thesis by (simp add: contact_inv_def)
next
  case (revoked names previous rows)
  with assms(2) revoke_inv [OF revoked(2)] show ?thesis by (simp add: contact_inv_def)
next
  case (kept cancelled)
  with assms(2) queue_inv_entries [OF _ remove_rollback [OF kept(2)]] drop_entries_inv show ?thesis
    by (fastforce simp: contact_inv_def)
next
  case (restored cancelled rows)
  with assms(2) queue_inv_entries [OF _ remove_rollback [OF restored(2)]] restore_inv [OF restored(3)] show ?thesis
    by (fastforce simp: contact_inv_def)
qed

lemma reachable_inv: "contact_reachable t0 s \<Longrightarrow> contact_inv s"
proof (induction rule: contact_reachable.induct)
  case start
  show ?case by (simp add: contact_inv_def contact_init_def queue_inv_def open_unique_def)
next
  case (more s s')
  show ?case by (rule contact_step_inv [OF more.hyps(2) more.IH])
qed

section \<open>Leases\<close>

text \<open>No request carries the lease of this delivery (any more).\<close>

definition released :: "nat \<Rightarrow> int \<Rightarrow> outbound list \<Rightarrow> bool" where
  "released i lease rows = list_all (\<lambda>r. ob_id r = i \<longrightarrow> ob_lease r \<noteq> Some lease) rows"

lemma update_where_released:
  assumes "released i lease rows"
    and "\<And>r. r \<in> set rows \<Longrightarrow> P r \<Longrightarrow> ob_id (f r) = ob_id r \<and> (ob_lease (f r) = ob_lease r \<or> ob_lease (f r) = None)"
  shows "released i lease (update_where P f rows)"
  unfolding released_def
proof (rule update_where_all)
  fix r assume "r \<in> set rows"
  with assms show "ob_id (if P r then f r else r) = i \<longrightarrow> ob_lease (if P r then f r else r) \<noteq> Some lease"
    unfolding released_def list_all_iff by (cases "P r") (simp_all, metis option.distinct(1))
qed

lemma expire_released: "released i lease rows \<Longrightarrow> released i lease (expire_requests now rows)"
  unfolding expire_requests_def by (erule update_where_released) simp

lemma bind_released: "released i lease rows \<Longrightarrow> released i lease (bind_contact j l cid subject rows)"
  unfolding bind_contact_def by (erule update_where_released) simp

lemma finish_released:
  assumes "finish now j l next_review result rows = Inr rows'" and "released i lease rows"
  shows "released i lease rows'"
  unfolding finish_Inr [OF assms(1)] by (intro update_where_released assms(2)) simp_all

lemma finish_releases:
  assumes "finish now i lease next_review result rows = Inr rows'"
  shows "released i lease rows'"
  unfolding finish_Inr [OF assms] released_def by (rule update_where_all) (simp split: if_split)

lemma submit_released: "submit now j d rows = (res, rows') \<Longrightarrow> released i lease rows \<Longrightarrow> released i lease rows'"
  using expire_released [of i lease rows now]
  by (auto simp: submit_def Let_def released_def new_request_def split: if_splits)

lemma claim_released:
  assumes "claim now rows = (res, rows')" and "released i lease rows" and "\<forall>job. res = Some job \<longrightarrow> (ob_id job, now + 120) \<noteq> (i, lease)"
  shows "released i lease rows'"
  using assms(1)
proof (cases rule: claim_cases)
  case (some job)
  have "released i lease (expire_requests now rows)" using assms(2) by (rule expire_released)
  moreover have "(ob_id job, now + 120) \<noteq> (i, lease)" using some(1) assms(3) by simp
  ultimately show ?thesis
    unfolding some(5) released_def by (intro update_where_all) (auto simp: list_all_iff split: if_split)
qed (use assms(2) expire_released in simp)

lemma revoke_one_released:
  assumes "revoke_one now name (previous, rows) = Inr (previous', rows')" and "released i lease rows"
  shows "released i lease rows'"
proof -
  have "rows' = update_where (\<lambda>r. ob_target r = name) (\<lambda>r. r\<lparr>ob_status := Revoked, ob_lease := None, ob_updated := now\<rparr>) rows"
    using assms(1) by (auto simp: revoke_one_def Let_def try_r_Inr_iff)
  then show ?thesis using assms(2) by (auto intro: update_where_released)
qed

lemma revoke_released:
  assumes "revoke now names rows = Inr (previous, rows')" and "released i lease rows"
  shows "released i lease rows'"
proof -
  have "case (previous, rows') of (_, rows) \<Rightarrow> released i lease rows"
    by (rule fold_r_invariant [OF assms(1) [unfolded revoke_def]]) (use assms(2) revoke_one_released in auto)
  then show ?thesis by simp
qed

lemma restore_one_released: "restore_one e rows = Inr rows' \<Longrightarrow> released i lease rows \<Longrightarrow> released i lease rows'"
  by (cases e) (auto simp: restore_one_def Let_def split: if_splits intro: update_where_released)

lemma restore_released: "restore_revoked cancelled rows = Inr rows' \<Longrightarrow> released i lease rows \<Longrightarrow> released i lease rows'"
  unfolding restore_revoked_def
  by (induction cancelled arbitrary: rows) (auto simp: try_r_Inr_iff dest: restore_one_released)

lemma lease_stays_dead:
  assumes "contact_step s s'" and "contact_inv s'" and "(i, lease) \<in> set (cs_leases s)" and "released i lease (cs_rows s)"
  shows "(i, lease) \<in> set (cs_leases s') \<and> released i lease (cs_rows s')"
  using assms(1)
proof cases
  case (claimed job rows)
  then have "distinct ((ob_id job, cs_clock s + 120) # cs_leases s)"
    using assms(2) by (simp add: contact_inv_def queue_inv_def)
  then have "\<forall>job'. Some job = Some job' \<longrightarrow> (ob_id job', cs_clock s + 120) \<noteq> (i, lease)" using assms(3) by auto
  with claimed assms(3,4) claim_released [OF claimed(2)] show ?thesis by simp
qed (use assms(3,4) in \<open>simp_all add: claim_released submit_released expire_released bind_released finish_released revoke_released restore_released\<close>)

lemma finish_noop:
  assumes "released i lease rows" and "open_unique rows"
  shows "finish now i lease next_review result rows = Inr rows"
proof -
  have "update_where (\<lambda>r. ob_id r = i \<and> ob_lease r = Some lease) f rows = rows" for f
    unfolding update_where_def by (rule map_idI) (use assms(1) in \<open>auto simp: released_def list_all_iff\<close>)
  with assms(2) show ?thesis by (simp add: finish_def)
qed

section \<open>When the unique index refuses an outcome\<close>

lemma open_unique_iff:
  assumes "distinct (map ob_id rows)"
  shows "open_unique rows \<longleftrightarrow> (\<forall>r \<in> set rows. \<forall>r' \<in> set rows. is_open r \<longrightarrow> is_open r' \<longrightarrow> ob_target r = ob_target r' \<longrightarrow> ob_id r = ob_id r')"
proof -
  have d: "distinct rows" and i: "inj_on ob_id (set rows)" using assms by (simp_all add: distinct_map)
  show ?thesis
    using d i by (auto simp: open_unique_def distinct_map inj_on_def)
qed

definition outcome_row :: "int \<Rightarrow> nat \<Rightarrow> int \<Rightarrow> review option \<Rightarrow> outcome \<Rightarrow> outbound \<Rightarrow> outbound" where
  "outcome_row now i lease next_review result r =
     (if ob_id r = i \<and> ob_lease r = Some lease then record_outcome now result (r\<lparr>ob_review := next_review\<rparr>) else r)"

lemma outcome_row_simps [simp]:
  "ob_id (outcome_row now i lease next_review result r) = ob_id r"
  "ob_target (outcome_row now i lease next_review result r) = ob_target r"
  by (simp_all add: outcome_row_def)

lemma finish_rows:
  "finish now i lease next_review result rows =
     (if open_unique (map (outcome_row now i lease next_review result) rows) then Inr (map (outcome_row now i lease next_review result) rows)
      else Inl storage_failure)"
proof -
  have "update_where (\<lambda>r. ob_id r = i \<and> ob_lease r = Some lease) (record_outcome now result)
      (update_where (\<lambda>r. ob_id r = i \<and> ob_lease r = Some lease) (\<lambda>r. r\<lparr>ob_review := next_review\<rparr>) rows)
    = map (outcome_row now i lease next_review result) rows"
    by (simp add: update_where_def outcome_row_def)
  then show ?thesis by (simp add: finish_def Let_def)
qed

text \<open>A failure never reopens a request; a receipt opens it when its state is open.\<close>

lemma outcome_row_opens:
  assumes "is_open (outcome_row now i lease next_review result r)" and "\<not> is_open r"
  shows "ob_id r = i \<and> ob_lease r = Some lease \<and> (\<exists>state t. result = Inr (state, t) \<and> (state = Queued \<or> state = Pending))"
  using assms by (auto simp: outcome_row_def record_outcome_def is_open_def split: sum.splits prod.splits if_splits)

lemma outcome_row_open:
  assumes "ob_id r = i" "ob_lease r = Some lease" "state = Queued \<or> state = Pending"
  shows "is_open (outcome_row now i lease next_review (Inr (state, t)) r)"
  using assms by (auto simp: outcome_row_def record_outcome_def is_open_def)

lemma finish_fails_iff:
  assumes "open_unique rows" and ids: "distinct (map ob_id rows)"
  shows "finish now i lease next_review result rows = Inl storage_failure \<longleftrightarrow>
     (\<exists>state t. result = Inr (state, t) \<and> (state = Queued \<or> state = Pending)) \<and>
     (\<exists>r \<in> set rows. \<exists>r' \<in> set rows. ob_id r = i \<and> ob_lease r = Some lease \<and> \<not> is_open r \<and>
        ob_id r' \<noteq> i \<and> is_open r' \<and> ob_target r' = ob_target r)"
    (is "?fails \<longleftrightarrow> ?opens \<and> ?conflict")
proof
  let ?g = "outcome_row now i lease next_review result"
  have ids': "distinct (map ob_id (map ?g rows))" using ids by (simp add: comp_def)
  note uniq = assms(1) [unfolded open_unique_iff [OF ids]]
  {
    assume ?fails
    then have "\<not> open_unique (map ?g rows)" by (simp add: finish_rows split: if_splits)
    then obtain r r' where *: "r \<in> set rows" "r' \<in> set rows" "is_open (?g r)" "is_open (?g r')" "ob_target r = ob_target r'" "ob_id r \<noteq> ob_id r'"
      unfolding open_unique_iff [OF ids'] by auto
    then have "\<not> is_open r \<or> \<not> is_open r'" using uniq by blast
    then show "?opens \<and> ?conflict"
    proof
      assume "\<not> is_open r"
      with outcome_row_opens [OF *(3)] have "ob_id r = i" "ob_lease r = Some lease" ?opens by simp_all
      moreover from this(1) *(6) outcome_row_opens [OF *(4)] have "is_open r'" by auto
      ultimately show ?thesis using * \<open>\<not> is_open r\<close> by metis
    next
      assume "\<not> is_open r'"
      with outcome_row_opens [OF *(4)] have "ob_id r' = i" "ob_lease r' = Some lease" ?opens by simp_all
      moreover from this(1) *(6) outcome_row_opens [OF *(3)] have "is_open r" by auto
      ultimately show ?thesis using * \<open>\<not> is_open r'\<close> by metis
    qed
  }
  {
    assume "?opens \<and> ?conflict"
    then obtain state t r r' where *: "result = Inr (state, t)" "state = Queued \<or> state = Pending" "r \<in> set rows" "r' \<in> set rows"
      "ob_id r = i" "ob_lease r = Some lease" "ob_id r' \<noteq> i" "is_open r'" "ob_target r' = ob_target r" by blast
    have "is_open (?g r)" unfolding *(1) by (rule outcome_row_open) (use * in simp_all)
    moreover have "?g r' = r'" using *(7) by (simp add: outcome_row_def)
    ultimately have "\<not> open_unique (map ?g rows)"
      unfolding open_unique_iff [OF ids'] using *(3-5,7-9) by (metis image_eqI list.set_map outcome_row_simps)
    then show ?fails by (simp add: finish_rows)
  }
qed

section \<open>A run of the queue\<close>

text \<open>
  A request to \<^verbatim>\<open>bob\<close> is submitted, delivered and accepted; a second request to him is submitted
  while the first one is polled again.
\<close>

definition example_draft :: draft where
  "example_draft = \<lparr>dr_target = ''bob.dhttp.net'', dr_description = ''hello'', dr_requested_caps = ''[]'', dr_offered_caps = ''[]'',
     dr_requested = ''{}'', dr_offers = ''{}'', dr_application = ''a1'', dr_valid_before = 9000, dr_contact = None, dr_subject = None\<rparr>"

definition example_first :: outbound where
  "example_first = record_outcome 1000 (Inr (Active, 9000)) (new_request 1000 1 example_draft)"

definition example_rows :: "outbound list" where
  "example_rows = [example_first\<lparr>ob_lease := Some 1160\<rparr>, new_request 1040 2 example_draft]"

definition example_state :: contact_state where
  "example_state = \<lparr>cs_rows = example_rows, cs_next = 3, cs_clock = 1040, cs_rollbacks = [], cs_leases = [(1, 1160), (1, 1120)]\<rparr>"

lemmas example_defs = example_draft_def example_first_def example_rows_def example_state_def new_request_def record_outcome_def
  update_where_def is_open_def open_unique_def is_due_def

lemma example_submit: "submit 1000 1 example_draft [] = (Inr (), [new_request 1000 1 example_draft])"
  by (simp add: submit_def expire_requests_def example_defs)

lemma example_claim:
  "claim 1000 [new_request 1000 1 example_draft]
     = (Some (new_request 1000 1 example_draft), [(new_request 1000 1 example_draft)\<lparr>ob_lease := Some 1120\<rparr>])"
  by (simp add: claim_def expire_requests_def example_defs)

lemma example_finish:
  "finish 1000 1 1120 None (Inr (Active, 9000)) [(new_request 1000 1 example_draft)\<lparr>ob_lease := Some 1120\<rparr>] = Inr [example_first]"
  by (simp add: finish_def example_defs)

lemma example_submit_again: "submit 1040 2 example_draft [example_first] = (Inr (), [example_first, new_request 1040 2 example_draft])"
  by (simp add: submit_def expire_requests_def example_defs)

lemma example_claim_again: "claim 1040 [example_first, new_request 1040 2 example_draft] = (Some example_first, example_rows)"
  by (simp add: claim_def expire_requests_def example_defs)

lemma example_claimed: "contact_reachable 1000 \<lparr>cs_rows = [(new_request 1000 1 example_draft)\<lparr>ob_lease := Some 1120\<rparr>], cs_next = 2, cs_clock = 1000,
     cs_rollbacks = [], cs_leases = [(1, 1120)]\<rparr>" (is "contact_reachable _ ?s")
proof -
  have "contact_reachable 1000 \<lparr>cs_rows = [new_request 1000 1 example_draft], cs_next = 2, cs_clock = 1000, cs_rollbacks = [], cs_leases = []\<rparr>"
    using contact_reachable.more [OF contact_reachable.start contact_step.submitted [of "contact_init 1000" example_draft]] example_submit
    by (simp add: contact_init_def numeral_2_eq_2)
  from contact_reachable.more [OF this contact_step.claimed] example_claim show ?thesis
    by (simp add: new_request_def)
qed

lemma example_reachable: "contact_reachable 1000 example_state"
proof -
  have "contact_reachable 1000 \<lparr>cs_rows = [example_first], cs_next = 2, cs_clock = 1000, cs_rollbacks = [], cs_leases = [(1, 1120)]\<rparr>"
    using contact_reachable.more [OF example_claimed contact_step.finished] example_finish by fastforce
  from contact_reachable.more [OF this contact_step.tick [of _ 1040]]
  have "contact_reachable 1000 \<lparr>cs_rows = [example_first], cs_next = 2, cs_clock = 1040, cs_rollbacks = [], cs_leases = [(1, 1120)]\<rparr>"
    by simp
  from contact_reachable.more [OF this contact_step.submitted] example_submit_again
  have "contact_reachable 1000 \<lparr>cs_rows = [example_first, new_request 1040 2 example_draft], cs_next = 3, cs_clock = 1040, cs_rollbacks = [],
      cs_leases = [(1, 1120)]\<rparr>" by simp
  from contact_reachable.more [OF this contact_step.claimed] example_claim_again show ?thesis
    by (simp add: example_state_def example_first_def record_outcome_def new_request_def)
qed

section \<open>Properties\<close>

text \<open>
  Property C27: whatever requests, deliveries, revocations and rollbacks happen in whatever order, there is at most
  one open request per target, ids are unique, no lease is handed out twice, every lease on a request is one that was
  handed out, and a new submission is never stopped by the unique index.
\<close>

theorem contact_queue_consistent:
  assumes "contact_reachable t0 s"
  shows "open_unique (cs_rows s) \<and> distinct (map ob_id (cs_rows s)) \<and> distinct (cs_leases s) \<and>
     (\<forall>r \<in> set (cs_rows s). \<forall>l. ob_lease r = Some l \<longrightarrow> (ob_id r, l) \<in> set (cs_leases s)) \<and>
     fst (submit now i d (cs_rows s)) \<noteq> Inl storage_failure"
  using reachable_inv [OF assms] submit_never_violates [of "cs_rows s" now i d]
  by (auto simp: contact_inv_def queue_inv_def list_all_iff row_ok_def)

theorem contact_queue_consistent_witness:
  "open_unique (cs_rows example_state) \<and> distinct (cs_leases example_state) \<and> length (cs_rows example_state) = 2 \<and>
   fst (submit 1040 3 example_draft (cs_rows example_state)) \<noteq> Inl storage_failure"
  using contact_queue_consistent [OF example_reachable, of 1040 3 example_draft] by (simp add: example_state_def example_rows_def)

text \<open>
  Property C28: the outcome of a delivery is recorded at most once. When the holder of a lease has recorded its outcome,
  any later attempt to record one under the same lease, after whatever else happened to the queue, changes nothing.
\<close>

theorem contact_outcome_recorded_once:
  assumes "contact_reachable t0 s" and "(i, lease) \<in> set (cs_leases s)"
    and "finish (cs_clock s) i lease next_review result (cs_rows s) = Inr rows"
    and "contact_step\<^sup>*\<^sup>* (s\<lparr>cs_rows := rows\<rparr>) s'"
  shows "finish now i lease next_review' result' (cs_rows s') = Inr (cs_rows s')"
proof -
  have "contact_reachable t0 (s\<lparr>cs_rows := rows\<rparr>)"
    using assms(1) contact_step.finished [OF assms(3)] by (rule contact_reachable.more)
  with assms(4) have "contact_reachable t0 s' \<and> (i, lease) \<in> set (cs_leases s') \<and> released i lease (cs_rows s')"
  proof (induction rule: rtranclp_induct)
    case base
    with assms(2) finish_releases [OF assms(3)] show ?case by simp
  next
    case (step s1 s2)
    then have "contact_reachable t0 s2" by (blast intro: contact_reachable.more)
    with step reachable_inv lease_stays_dead [of s1 s2] show ?case by blast
  qed
  moreover from this reachable_inv have "open_unique (cs_rows s')" by (auto simp: contact_inv_def queue_inv_def)
  ultimately show ?thesis by (simp add: finish_noop)
qed

theorem contact_outcome_recorded_once_witness:
  "finish 1005 1 1120 None (Inl (502, ''late'')) [example_first] = Inr [example_first]"
proof -
  let ?s = "\<lparr>cs_rows = [(new_request 1000 1 example_draft)\<lparr>ob_lease := Some 1120\<rparr>], cs_next = 2, cs_clock = 1000,
     cs_rollbacks = [], cs_leases = [(1, 1120)]\<rparr>"
  have "finish 1005 1 1120 None (Inl (502, ''late'')) (cs_rows (?s\<lparr>cs_rows := [example_first]\<rparr>)) = Inr (cs_rows (?s\<lparr>cs_rows := [example_first]\<rparr>))"
    by (rule contact_outcome_recorded_once [OF example_claimed _ _ rtranclp.rtrancl_refl, where next_review = None and result = "Inr (Active, 9000)"])
      (use example_finish in simp_all)
  then show ?thesis by simp
qed

text \<open>
  Recording an outcome is refused by the unique index exactly when the peer moves a request that was no
  longer open back to an open state while another request to the same target is open. Nothing is recorded then, the
  lease included, until it runs out.
\<close>

lemma contact_finish_conflict:
  assumes "contact_reachable t0 s"
  shows "finish now i lease next_review result (cs_rows s) = Inl storage_failure \<longleftrightarrow>
     (\<exists>state t. result = Inr (state, t) \<and> (state = Queued \<or> state = Pending)) \<and>
     (\<exists>r \<in> set (cs_rows s). \<exists>r' \<in> set (cs_rows s). ob_id r = i \<and> ob_lease r = Some lease \<and> \<not> is_open r \<and>
        ob_id r' \<noteq> i \<and> is_open r' \<and> ob_target r' = ob_target r)"
  by (rule finish_fails_iff) (use reachable_inv [OF assms] in \<open>simp_all add: contact_inv_def queue_inv_def\<close>)

lemma contact_finish_conflict_witness:
  "contact_reachable 1000 example_state \<and>
   finish 1041 1 1160 None (Inr (Pending, 9000)) (cs_rows example_state) = Inl storage_failure"
  using contact_finish_conflict [OF example_reachable, of 1041 1 1160 None "Inr (Pending, 9000)"] example_reachable
  by (simp add: example_defs)

end
