(* ===== verification/Store_Example.thy ===== *)
theory Store_Example
  imports Store
begin

text \<open>
  A store that publishes the example package, and the installation of that package from it.
\<close>

definition example_answer :: "string \<Rightarrow> string \<Rightarrow> store_response" where
  "example_answer media body = \<lparr>sr_remote = Some (store_name, [''P'', ''I'']), sr_status = 200,
     sr_headers = [(''content-type'', media)], sr_frames = [Data body]\<rparr>"

definition example_path :: string where
  "example_path = ''/store/v1/packages/a.b/x/versions/1.0.0''"

definition example_store :: store_endpoint where
  "example_store = \<lparr>se_uri_ok = (\<lambda>_. True), se_slow = (\<lambda>_. False),
     se_get = (\<lambda>uri accepted. if accepted = ''application/zip'' then Some (example_answer accepted example_package)
        else Some (example_answer accepted ''q''))\<rparr>"

lemma example_subject [simp]:
  "subject_key_of example_trust c = Some \<lparr>sk_text = ''k'', sk_owner = (if c = [''P'', ''I''] then store_owner else ''o''),
     sk_client_and_server = True, sk_sequence = 1\<rparr>"
  by (simp add: example_trust_def)

lemma example_json [simp]:
  "parse_json example_trust ''q'' = Some example_release" "parse_json example_trust ''p'' = Some example_receipt"
  "parse_json example_trust ''s'' = Some example_envelope"
  by (simp_all add: example_trust_def)

lemma example_get:
  "store_get example_trust example_store example_path 8388608 = Inr ''q''"
  "store_get example_trust example_store (example_path @ ''/package.waz'') 341 = Inr example_package"
proof -
  have "\<not> ends_with ''.waz'' example_path" "ends_with ''.waz'' (example_path @ ''/package.waz'')"
    by (simp_all add: example_path_def ends_with_def starts_with_def)
  moreover have "content_type_is media [(''content-type'', media)]" if "media = ''application/zip'' \<or> media = ''application/json''" for media
    using that by (auto simp: content_type_is_def get_header_def header_to_str_def split_first_def str_eval)
  ultimately show "store_get example_trust example_store example_path 8388608 = Inr ''q''"
    "store_get example_trust example_store (example_path @ ''/package.waz'') 341 = Inr example_package"
    by (simp_all add: store_get_def example_store_def example_answer_def store_status_def read_frame_def example_package_length Let_def)
qed

lemma example_receipt_ok: "verify_receipt example_trust 10 example_release 5 = Inr ()"
proof -
  have "same_object example_receipt (expected_receipt example_release 5)"
    by (simp add: same_object_def example_receipt_def expected_receipt_def example_release_def) auto
  then show ?thesis
    by (simp add: verify_receipt_def verify_receipt_with_root_def example_release_def decode_certificate_def parse_whole_def Let_def)
      (simp add: example_trust_def)
qed

lemma example_publication: "publication_time example_trust 10 example_release = Inr 5"
  using example_receipt_ok by (simp add: publication_time_def) (simp add: example_release_def)

lemma example_facts: "Signing.facts example_trust example_files ''a.b'' 5 = Inr
  \<lparr>sf_leaf_fingerprint = hex_text example_digest, sf_issuer_id = hex_text example_digest, sf_serial = ''4C'', sf_ski = ''k'',
   sf_sequence = 1, sf_owner_hash = ''o'', sf_not_before = 0, sf_not_after = 100\<rparr>"
  using example_chain [of 5]
  by (simp add: Signing.facts_def example_certificates example_certificate_def hex_text_def hex_digit_def str_eval)

lemma example_verified: "verify_release example_tools 10 example_package example_release ''a.b'' ''x'' ''1.0.0'' = Inr ()"
proof -
  have "as_u64 (jidx example_release ''size'') = Some (length example_package)"
    "jidx example_release ''package_sha256'' = JStr (hex_text example_digest)"
    by (simp_all add: example_release_def example_package_length)
  moreover have "same_as_manifest example_release example_metadata ''a.b'' ''x'' ''1.0.0''"
    by (simp add: same_as_manifest_def example_release_def example_metadata_def)
  moreover have "map_of example_files ''signature.json'' = Some ''s''" by (simp add: example_files_def)
  ultimately show ?thesis
    by (simp add: verify_release_def example_publication example_reads example_facts example_metadata Let_def)
      (simp add: example_release_def example_envelope_def lib_certificate_def plain_serial_def str_eval)
qed

lemma example_id: "valid_id (normalize_name example_trust) ''a.b/x'' = Inr ()"
  by (simp add: valid_id_def package_name_ok_def str_eval)

lemma example_download: "download_release example_tools example_store 10 ''a.b'' ''x'' ''1.0.0'' = Inr (example_package, example_release)"
proof -
  have "request_version_ok ''1.0.0''" by (simp add: request_version_ok_def str_eval Let_def)
  moreover have "release_path ''a.b'' ''x'' ''1.0.0'' = example_path" by (simp add: release_path_def example_path_def)
  moreover have "jidx example_release ''size'' = JInt 341" "jidx example_release ''id'' = JStr ''a.b/x''"
    "jidx example_release ''author'' = JStr ''a.b''" "jidx example_release ''name'' = JStr ''x''"
    "jidx example_release ''version'' = JStr ''1.0.0''" "jidx example_release ''status'' = JStr ''published''"
    "jidx example_release ''download_path'' = JStr (example_path @ ''/package.waz'')"
    by (simp_all add: example_release_def example_path_def)
  ultimately show ?thesis
    by (simp add: download_release_def example_id example_get example_publication example_verified Let_def)
qed

definition example_resource :: resource where
  "example_resource = (''a.b/x'', example_package, example_release)"

lemma example_document: "resource_document example_tools example_package 5 = Inr example_metadata"
  by (simp add: resource_document_def example_reads example_metadata)

lemma example_time: "proof_time example_release = Some 5"
  by (simp add: proof_time_def example_release_def)

lemma example_deps: "resource_deps example_tools example_resource = Inr []"
  by (simp add: resource_deps_def order_document_def example_resource_def example_time example_document)
    (simp add: document_ids_def document_requests_def example_metadata_def)

lemma example_closure: "store_closure example_tools example_store 10 [] ''a.b'' ''x'' ''1.0.0'' = Inr [example_resource]"
proof -
  have "fetch_resource example_tools example_store 10 [] [] (''a.b'', ''x'', ''1.0.0'') = Inr (example_resource, [])"
    by (simp add: fetch_resource_def example_download previous_release_def example_time example_document example_resource_def Let_def)
      (simp add: document_requests_def example_metadata_def)
  then have "closure_loop example_tools example_store 10 [] [(''a.b'', ''x'', ''1.0.0'')] [] = Inr [example_resource]" by simp
  moreover have "order_packages example_tools [example_resource] = Inr [example_resource]"
    by (simp add: order_packages_def order_loop.simps example_deps)
  ultimately show ?thesis by (simp add: store_closure_def example_id)
qed

end
