(* ===== verification/Store_Laws.thy ===== *)
theory Store_Laws
  imports Store_Example
begin

text \<open>
  What an installation from the store rests on: answers are bounded and come from the pinned
  store, a downloaded release is the requested one and is authentic, the closure holds one exact
  version of everything that is needed and nothing else, and it is installed in dependency order
  with the requested package last.
\<close>

section \<open>Requests\<close>

lemma none_is_all: "(\<And>x. (\<not> P x) = Q x) \<Longrightarrow> (\<not> list_ex P xs) = list_all Q xs"
  by (induction xs) auto

lemma part_ok_iff:
  "(\<not> (A = None \<or> part = [] \<or> \<not> B \<or> length part > 1 \<and> C)) = (part \<noteq> [] \<and> B \<and> A \<noteq> None \<and> (length part = 1 \<or> \<not> C))"
  by (cases part) auto

text \<open>
  The store client and the package format agree on what a version is, although each
  has its own test for it.
\<close>

lemma request_version_agrees: "request_version_ok v = release_version v"
  unfolding request_version_ok_def release_version_def Let_def de_Morgan_disj not_not
  by (intro arg_cong2 [where f = "(\<and>)"] refl none_is_all part_ok_iff)


definition frame_data :: "body_frame \<Rightarrow> string" where
  "frame_data f = (case f of Data d \<Rightarrow> d | _ \<Rightarrow> [])"

lemma read_frames_ok:
  assumes "fold_r (read_frame limit) frames bytes = Inr out" and "length bytes \<le> limit"
  shows "out = bytes @ concat (map frame_data frames) \<and> length out \<le> limit \<and> (\<forall>f \<in> set frames. \<exists>d. f = Data d)"
  using assms
proof (induction frames arbitrary: bytes)
  case (Cons f frames)
  then obtain b where 1: "read_frame limit f bytes = Inr b" "fold_r (read_frame limit) frames b = Inr out"
    by (auto simp: try_r_Inr_iff)
  then have "\<exists>d. f = Data d \<and> b = bytes @ d \<and> length b \<le> limit"
    using Cons.prems(2) by (auto simp: read_frame_def try_r_Inr_iff split: body_frame.splits)
  with Cons.IH [OF 1(2)] show ?case by (auto simp: frame_data_def)
qed simp

text \<open>
  An answer from the store is authenticated and bounded. It came over a connection
  whose peer is the store by name and by the pinned owner of its key, with status 200, and the body
  is all of the answer and no longer than the caller allowed.
\<close>

lemma store_get_pinned:
  assumes "store_get p endpoint path limit = Inr bytes"
  shows "length bytes \<le> limit \<and> (\<exists>accepted response chain ski.
    se_get endpoint (''https://'' @ store_name @ path) accepted = Some response \<and> sr_remote response = Some (store_name, chain) \<and>
    subject_key_of p chain = Some ski \<and> sk_owner ski = store_owner \<and> sr_status response = 200 \<and>
    bytes = concat (map frame_data (sr_frames response)))"
proof -
  from assms obtain accepted response chain ski where
    *: "se_get endpoint (''https://'' @ store_name @ path) accepted = Some response" "sr_remote response = Some (store_name, chain)"
    "subject_key_of p chain = Some ski" "sk_owner ski = store_owner" "store_status (sr_status response) = Inr ()" and
    frames: "fold_r (read_frame limit) (sr_frames response) [] = Inr bytes"
    by (auto simp: store_get_def Let_def try_r_Inr_iff split: if_splits)
  from *(5) have "sr_status response = 200" by (auto simp: store_status_def split: if_splits)
  with * read_frames_ok [OF frames] show ?thesis by auto
qed

section \<open>Releases\<close>

lemma verify_release_ok:
  assumes "verify_release tk now bytes metadata publisher name version = Inr ()"
  obtains at files document where
    "jidx metadata ''package_sha256'' = JStr (hex_text (sha256 (tk_pki tk) bytes))" "as_u64 (jidx metadata ''size'') = Some (length bytes)"
    "publication_time (tk_pki tk) now metadata = Inr at" "read_package_at tk bytes at = Inr files"
    "package_metadata tk files = Inr document" "same_as_manifest metadata document publisher name version"
  using assms unfolding verify_release_def Let_def try_r_Inr_iff ensure_r_Inr_iff by auto

lemma download_release_ok:
  assumes "download_release tk endpoint now publisher name version = Inr (bytes, metadata)"
  shows "valid_id (normalize_name (tk_pki tk)) (publisher @ ''/'' @ name) = Inr ()" "jidx metadata ''version'' = JStr version"
    "verify_release tk now bytes metadata publisher name version = Inr ()"
    "store_get (tk_pki tk) endpoint (release_path publisher name version @ ''/package.waz'') (length bytes) = Inr bytes"
proof -
  from assms have d: "valid_id (normalize_name (tk_pki tk)) (publisher @ ''/'' @ name) = Inr ()" "jidx metadata ''version'' = JStr version"
    "verify_release tk now bytes metadata publisher name version = Inr ()"
    and "\<exists>size. as_u64 (jidx metadata ''size'') = Some size \<and>
      store_get (tk_pki tk) endpoint (release_path publisher name version @ ''/package.waz'') size = Inr bytes"
    unfolding download_release_def Let_def try_r_Inr_iff ensure_r_Inr_iff by auto
  moreover from d(3) have "as_u64 (jidx metadata ''size'') = Some (length bytes)" by (rule verify_release_ok)
  ultimately show "valid_id (normalize_name (tk_pki tk)) (publisher @ ''/'' @ name) = Inr ()" "jidx metadata ''version'' = JStr version"
    "verify_release tk now bytes metadata publisher name version = Inr ()"
    "store_get (tk_pki tk) endpoint (release_path publisher name version @ ''/package.waz'') (length bytes) = Inr bytes"
    by auto
qed

text \<open>
  A downloaded release is the one that was asked for. Its bytes have the digest of the
  published metadata, they are an accepted package at the time that the store's receipt certifies,
  a time that is not in the future; and publisher, name, version and dependencies of the signed
  manifest are those of the request and of the published metadata.
\<close>

lemma download_release_sound:
  assumes "download_release tk endpoint now publisher name version = Inr (bytes, metadata)"
  shows "\<exists>at files document. 0 < at \<and> at \<le> now \<and> verify_receipt (tk_pki tk) now metadata at = Inr () \<and>
    jidx metadata ''package_sha256'' = JStr (hex_text (sha256 (tk_pki tk) bytes)) \<and>
    read_package_at tk bytes at = Inr files \<and> package_metadata tk files = Inr document \<and>
    jidx document ''publisher'' = JStr publisher \<and> jidx document ''name'' = JStr name \<and> jidx document ''version'' = JStr version \<and>
    jidx metadata ''dependencies'' = JArr (map store_dependency (the (as_array (jidx document ''dependencies''))))"
proof -
  from download_release_ok(3) [OF assms] obtain at files document where
    v: "jidx metadata ''package_sha256'' = JStr (hex_text (sha256 (tk_pki tk) bytes))"
    "publication_time (tk_pki tk) now metadata = Inr at" "read_package_at tk bytes at = Inr files"
    "package_metadata tk files = Inr document" "same_as_manifest metadata document publisher name version"
    by (rule verify_release_ok)
  from v(2) have "0 < at" "at \<le> now" "verify_receipt (tk_pki tk) now metadata at = Inr ()"
    by (auto simp: publication_time_def Let_def try_r_Inr_iff)
  with v show ?thesis unfolding same_as_manifest_def by blast
qed

section \<open>The closure\<close>

definition resource_requests :: "tools \<Rightarrow> resource \<Rightarrow> request list" where
  "resource_requests tk r = (case r of (_, bytes, proof_doc) \<Rightarrow>
     (case resource_document tk bytes (the (proof_time proof_doc)) of Inr document \<Rightarrow> document_requests document | Inl _ \<Rightarrow> []))"

definition request_id :: "request \<Rightarrow> string" where
  "request_id req = (case req of (publisher, name, _) \<Rightarrow> publisher @ ''/'' @ name)"

definition resource_version :: "resource \<Rightarrow> json" where
  "resource_version r = jidx (snd (snd r)) ''version''"

text \<open>A resource answers a request when it has the id and exactly the version.\<close>

definition answers :: "resource \<Rightarrow> request \<Rightarrow> bool" where
  "answers r req = (fst r = request_id req \<and> resource_version r = JStr (snd (snd req)))"

definition dep_edges :: "tools \<Rightarrow> resource list \<Rightarrow> (string \<times> string) set" where
  "dep_edges tk resources = {(fst r, request_id req) | r req. r \<in> set resources \<and> req \<in> set (resource_requests tk r)}"

text \<open>A resource was downloaded and verified for the publisher, name and version that its id and proof say.\<close>

definition verified_resource :: "tools \<Rightarrow> store_endpoint \<Rightarrow> int \<Rightarrow> resource \<Rightarrow> bool" where
  "verified_resource tk endpoint now r = (\<exists>publisher name version metadata.
     fst r = publisher @ ''/'' @ name \<and> resource_version r = JStr version \<and>
     download_release tk endpoint now publisher name version = Inr (fst (snd r), metadata) \<and>
     proof_time (snd (snd r)) = proof_time metadata)"

definition closure_inv ::
  "tools \<Rightarrow> store_endpoint \<Rightarrow> int \<Rightarrow> request \<Rightarrow> request list \<Rightarrow> resource list \<Rightarrow> bool"
where
  "closure_inv tk endpoint now root pending resources =
     (distinct (map fst resources) \<and> distinct (map (short_name \<circ> fst) resources) \<and> length resources \<le> 100 \<and>
      (\<forall>r \<in> set resources. verified_resource tk endpoint now r) \<and>
      (root \<in> set pending \<or> (\<exists>r \<in> set resources. answers r root)) \<and>
      (\<forall>r \<in> set resources. \<forall>req \<in> set (resource_requests tk r). req \<in> set pending \<or> (\<exists>r' \<in> set resources. answers r' req)) \<and>
      (\<forall>r \<in> set resources. (request_id root, fst r) \<in> (dep_edges tk resources)\<^sup>*) \<and>
      (\<forall>req \<in> set pending. (request_id root, request_id req) \<in> (dep_edges tk resources)\<^sup>*))"

lemma closure_invD:
  assumes "closure_inv tk endpoint now root pending resources"
  shows "distinct (map fst resources)" "distinct (map (short_name \<circ> fst) resources)" "length resources \<le> 100"
    "r \<in> set resources \<Longrightarrow> verified_resource tk endpoint now r"
    "root \<in> set pending \<or> (\<exists>r \<in> set resources. answers r root)"
    "r \<in> set resources \<Longrightarrow> req \<in> set (resource_requests tk r) \<Longrightarrow> req \<in> set pending \<or> (\<exists>r' \<in> set resources. answers r' req)"
    "r \<in> set resources \<Longrightarrow> (request_id root, fst r) \<in> (dep_edges tk resources)\<^sup>*"
    "req \<in> set pending \<Longrightarrow> (request_id root, request_id req) \<in> (dep_edges tk resources)\<^sup>*"
  using assms unfolding closure_inv_def by auto

lemma map_of_insort_key:
  "fst e \<notin> fst ` set xs \<Longrightarrow> map_of (insort_key fst e xs) k = (if k = fst e then Some (snd e) else map_of xs k)"
  by (induction xs) auto

lemma map_of_filter_key: "key \<noteq> k \<Longrightarrow> map_of (filter (\<lambda>e. fst e \<noteq> key) m) k = map_of m k"
  by (induction m) auto

lemma jidx_json_set: "key \<noteq> k \<Longrightarrow> jidx (json_set key x (JObj m)) k = jidx (JObj m) k"
  by (simp add: json_set_def map_of_insort_key image_iff map_of_filter_key)

lemma valid_id_parts:
  assumes "valid_id norm (publisher @ ''/'' @ name) = Inr ()"
  shows "CHR ''/'' \<notin> set name" "short_name (publisher @ ''/'' @ name) = name"
proof -
  obtain a b where ab: "split_once (CHR ''/'') (publisher @ ''/'' @ name) = Some (a, b)"
    by (cases "split_once (CHR ''/'') (publisher @ ''/'' @ name)") (auto simp: split_once_None_iff)
  then have eq: "publisher @ ''/'' @ name = a @ CHR ''/'' # b" by (simp add: split_once_Some_iff)
  from ab assms have "package_name_ok b" by (auto simp: valid_id_def try_r_Inr_iff split: if_splits)
  then have "CHR ''/'' \<notin> set b"
    by (auto simp: package_name_ok_def list_all_iff is_ascii_lowercase_def is_ascii_digit_def byte_def)
  moreover have "\<exists>c. b = c @ name"
    using eq \<open>CHR ''/'' \<notin> set b\<close> ab by (auto simp: append_eq_append_conv2 append_eq_Cons_conv Cons_eq_append_conv split_once_Some_iff)
  ultimately show "CHR ''/'' \<notin> set name" by auto
  then show "short_name (publisher @ ''/'' @ name) = name" by simp
qed

lemma previous_release_ok:
  assumes "previous_release tk endpoint now installed publisher name metadata = Inr proof_doc" and "jidx metadata ''version'' = JStr v"
  shows "jidx proof_doc ''version'' = jidx metadata ''version'' \<and> proof_time proof_doc = proof_time metadata"
proof -
  from assms(2) obtain m where m: "metadata = JObj m" by (cases metadata) (auto simp: jidx_def)
  have "proof_doc = metadata \<or> (\<exists>x. proof_doc = json_set ''_previous_release'' x metadata)"
    using assms(1) by (auto simp: previous_release_def split: option.splits if_splits sum.splits error.splits prod.splits)
  then show ?thesis by (auto simp: m proof_time_def jidx_json_set simp del: jidx_JObj)
qed

lemma fetch_resource_ok:
  assumes "fetch_resource tk endpoint now installed resources (publisher, name, version) = Inr (r, requests)"
  shows "fst r = publisher @ ''/'' @ name" "short_name (fst r) = name" "verified_resource tk endpoint now r"
    "answers r (publisher, name, version)" "requests = resource_requests tk r" "length resources < 100"
    "q \<in> set resources \<Longrightarrow> fst q \<noteq> fst r \<Longrightarrow> short_name (fst q) \<noteq> name"
proof -
  from assms obtain bytes metadata proof_doc document where
    d: "download_release tk endpoint now publisher name version = Inr (bytes, metadata)"
    "previous_release tk endpoint now installed publisher name metadata = Inr proof_doc"
    "resource_document tk bytes (the (proof_time proof_doc)) = Inr document" and
    r: "r = (publisher @ ''/'' @ name, bytes, proof_doc)" "requests = document_requests document" and
    l: "length resources < 100" "\<not> list_ex (\<lambda>(other, _, _). other \<noteq> publisher @ ''/'' @ name \<and> short_name other = name) resources"
    by (auto simp: fetch_resource_def Let_def try_r_Inr_iff not_le)
  note v = download_release_ok [OF d(1)] and p = previous_release_ok [OF d(2) download_release_ok(2) [OF d(1)]]
  show "fst r = publisher @ ''/'' @ name" "short_name (fst r) = name" using valid_id_parts [OF v(1)] by (simp_all add: r)
  show "verified_resource tk endpoint now r"
    unfolding verified_resource_def using d(1) v(2) p by (auto simp: r resource_version_def)
  show "answers r (publisher, name, version)" using v(2) p by (simp add: answers_def r request_id_def resource_version_def)
  show "requests = resource_requests tk r" using d(3) by (simp add: r resource_requests_def)
  show "length resources < 100" by (rule l)
  show "short_name (fst q) \<noteq> name" if "q \<in> set resources" "fst q \<noteq> fst r"
    using l(2) that by (auto simp: list_ex_iff r)
qed

lemma dep_edgesI: "r \<in> set rs \<Longrightarrow> q \<in> set (resource_requests tk r) \<Longrightarrow> (fst r, request_id q) \<in> dep_edges tk rs"
  unfolding dep_edges_def by blast

lemma dep_edges_mono: "dep_edges tk resources \<subseteq> dep_edges tk (resources @ [r])"
  unfolding dep_edges_def set_append by blast

lemma closure_inv_skip:
  assumes inv: "closure_inv tk endpoint now root (req # pending) resources" and "r \<in> set resources" "answers r req"
  shows "closure_inv tk endpoint now root pending resources"
proof -
  note i = closure_invD [OF inv]
  have A: "root \<in> set pending \<or> (\<exists>r \<in> set resources. answers r root)"
    using i(5) assms(2,3) by auto
  have B: "q \<in> set pending \<or> (\<exists>r' \<in> set resources. answers r' q)"
    if "s \<in> set resources" "q \<in> set (resource_requests tk s)" for s q
    using i(6) [OF that] assms(2,3) by auto
  show ?thesis
    unfolding closure_inv_def
    by (intro conjI ballI; (fact i(1) | fact i(2) | fact i(3) | fact A | erule i(4) | erule (1) B | erule i(7) | rule i(8), simp))
qed

lemma closure_inv_fetch:
  assumes inv: "closure_inv tk endpoint now root ((publisher, name, version) # pending) resources"
    and new: "find (\<lambda>(key, _, _). key = publisher @ ''/'' @ name) resources = None"
    and fetch: "fetch_resource tk endpoint now installed resources (publisher, name, version) = Inr (r, requests)"
  shows "closure_inv tk endpoint now root (rev requests @ pending) (resources @ [r])"
proof -
  note f = fetch_resource_ok [OF fetch] and i = closure_invD [OF inv]
  let ?req = "(publisher, name, version)" and ?E = "dep_edges tk (resources @ [r])"
  have fresh: "fst r \<notin> fst ` set resources"
    using new by (auto simp: find_None_iff f(1))
  have mono: "(x, y) \<in> (dep_edges tk resources)\<^sup>* \<Longrightarrow> (x, y) \<in> ?E\<^sup>*" for x y
    using rtrancl_mono [OF dep_edges_mono] by blast
  have root_r: "(request_id root, fst r) \<in> ?E\<^sup>*"
    using mono [OF i(8) [of ?req]] by (simp add: f(1) request_id_def)
  have "short_name (fst r) \<notin> (short_name \<circ> fst) ` set resources"
  proof
    assume "short_name (fst r) \<in> (short_name \<circ> fst) ` set resources"
    then obtain q where "q \<in> set resources" "short_name (fst q) = short_name (fst r)" by auto
    moreover from \<open>q \<in> set resources\<close> fresh have "fst q \<noteq> fst r" by (metis image_eqI)
    ultimately show False using f(2,7) by simp
  qed
  moreover have reach: "(request_id root, request_id q) \<in> ?E\<^sup>*" if "q \<in> set (rev requests @ pending)" for q
  proof (cases "q \<in> set requests")
    case False
    with that show ?thesis by (intro mono i(8)) simp
  next
    case True
    then have "(fst r, request_id q) \<in> ?E" by (intro dep_edgesI) (simp_all add: f(5))
    with root_r show ?thesis by (rule rtrancl.rtrancl_into_rtrancl)
  qed
  moreover have "root \<in> set (rev requests @ pending) \<or> (\<exists>s \<in> set (resources @ [r]). answers s root)"
    using i(5) f(4) by auto
  moreover have "q \<in> set (rev requests @ pending) \<or> (\<exists>s \<in> set (resources @ [r]). answers s q)"
    if "s \<in> set (resources @ [r])" "q \<in> set (resource_requests tk s)" for s q
  proof (cases "s = r")
    case True
    with that(2) f(5) show ?thesis by simp
  next
    case False
    with that(1) have "s \<in> set resources" by simp
    from i(6) [OF this that(2)] f(4) show ?thesis by auto
  qed
  moreover have "verified_resource tk endpoint now s \<and> (request_id root, fst s) \<in> ?E\<^sup>*" if "s \<in> set (resources @ [r])" for s
    using that i(4) [of s] f(3) mono [OF i(7) [of s]] root_r by (cases "s = r") simp_all
  moreover have "distinct (map fst (resources @ [r]))" "length (resources @ [r]) \<le> 100"
    using i(1) fresh f(6) by simp_all
  moreover have "distinct (map (short_name \<circ> fst) (resources @ [r]))"
    using i(2) \<open>short_name (fst r) \<notin> _\<close> by simp
  ultimately show ?thesis unfolding closure_inv_def by blast
qed

lemma closure_loop_inv:
  assumes "closure_loop tk endpoint now installed pending resources = Inr out" and "closure_inv tk endpoint now root pending resources"
  shows "closure_inv tk endpoint now root [] out"
  using assms
proof (induction tk endpoint now installed pending resources rule: closure_loop.induct)
  case (2 tk endpoint now installed publisher name version pending resources)
  show ?case
  proof (cases "find (\<lambda>(key, _, _). key = publisher @ ''/'' @ name) resources")
    case None
    with 2(3) obtain r requests where f: "fetch_resource tk endpoint now installed resources (publisher, name, version) = Inr (r, requests)"
      "closure_loop tk endpoint now installed (rev requests @ pending) (resources @ [r]) = Inr out"
      by (auto split: sum.splits)
    from 2(1) [OF None f(1) refl f(2)] closure_inv_fetch [OF 2(4) None f(1)] show ?thesis by blast
  next
    case (Some q)
    obtain k b d where q: "q = (k, b, d)" by (cases q)
    from Some have member: "(k, b, d) \<in> set resources" "k = publisher @ ''/'' @ name"
      by (auto simp: q find_Some_iff in_set_conv_nth)
    from 2(3) Some have v: "jidx d ''version'' = JStr version" "closure_loop tk endpoint now installed pending resources = Inr out"
      by (auto simp: q split: if_splits)
    have "answers (k, b, d) (publisher, name, version)" using member v by (simp add: answers_def request_id_def resource_version_def)
    then have "closure_inv tk endpoint now root pending resources" by (rule closure_inv_skip [OF 2(4) member(1)])
    then show ?thesis by (intro 2(2) [OF Some q [symmetric] refl _ v(2)]) (simp add: v(1))
  qed
qed simp

section \<open>The order\<close>

lemma find_ready_ok:
  assumes "find_ready deps ordered i rs = Inr (Some k)"
  shows "i \<le> k \<and> k - i < length rs \<and> (\<exists>ids. deps (rs ! (k - i)) = Inr ids \<and> set ids \<subseteq> set ordered)"
  using assms
proof (induction deps ordered i rs rule: find_ready.induct)
  case (2 deps ordered i r rs)
  then obtain ids where ids: "deps r = Inr ids" by (auto simp: try_r_Inr_iff)
  show ?case
  proof (cases "set ids \<subseteq> set ordered")
    case False
    with 2 ids have "i + 1 \<le> k \<and> k - (i + 1) < length rs \<and> (\<exists>ids. deps (rs ! (k - (i + 1))) = Inr ids \<and> set ids \<subseteq> set ordered)"
      by simp
    moreover from this have "k - i = Suc (k - (i + 1))" by linarith
    ultimately show ?thesis by simp
  qed (use 2(2) ids in auto)
qed simp

lemma find_ready_found:
  assumes "\<forall>r \<in> set rs. \<exists>ids. deps r = Inr ids" and "r \<in> set rs" "deps r = Inr ids" "set ids \<subseteq> set ordered"
  shows "\<exists>k. find_ready deps ordered i rs = Inr (Some k)"
  using assms
proof (induction deps ordered i rs rule: find_ready.induct)
  case (2 deps ordered i s rs)
  from 2(2) obtain js where js: "deps s = Inr js" by auto
  show ?case
  proof (cases "set js \<subseteq> set ordered")
    case False
    with 2(3-5) js have "r \<in> set rs" by auto
    with 2(1) [OF False] 2(2,4,5) js False show ?thesis by simp
  qed (simp add: js)
qed simp

text \<open>Every dependency of a package stands before it.\<close>

definition deps_before :: "(resource \<Rightarrow> string list res) \<Rightarrow> nat \<Rightarrow> resource list \<Rightarrow> bool" where
  "deps_before deps n out =
     (\<forall>k. n \<le> k \<and> k < length out \<longrightarrow> (\<exists>ids. deps (out ! k) = Inr ids \<and> set ids \<subseteq> fst ` set (take k out)))"

lemma mset_take_drop: "k < length xs \<Longrightarrow> mset (take k xs @ drop (Suc k) xs) + {#xs ! k#} = mset xs"
  by (metis add_mset_add_single id_take_nth_drop mset.simps(2) mset_append union_mset_add_mset_right)

lemma order_loop_ok:
  assumes "order_loop deps rs ord = Inr out"
  shows "mset out = mset ord + mset rs \<and> take (length ord) out = ord \<and> deps_before deps (length ord) out"
  using assms
proof (induction deps rs ord rule: order_loop.induct)
  case (1 deps rs ord)
  show ?case
  proof (cases "rs = []")
    case True
    with 1(2) show ?thesis by (subst (asm) order_loop.simps) (auto simp: deps_before_def)
  next
    case False
    with 1(2) obtain k where k: "find_ready deps (map fst ord) 0 rs = Inr (Some k)"
      "order_loop deps (take k rs @ drop (Suc k) rs) (ord @ [rs ! k]) = Inr out"
      by (subst (asm) order_loop.simps) (auto split: sum.splits option.splits)
    from find_ready_ok [OF k(1)] obtain ids where ids: "k < length rs" "deps (rs ! k) = Inr ids" "set ids \<subseteq> fst ` set ord"
      by auto
    from 1(1) [OF False k(1) refl k(2)] have IH: "mset out = mset (ord @ [rs ! k]) + mset (take k rs @ drop (Suc k) rs)"
      "take (Suc (length ord)) out = ord @ [rs ! k]" "deps_before deps (Suc (length ord)) out" by auto
    from IH(2) have ord: "take (length ord) out = ord" "out ! length ord = rs ! k" "length ord < length out"
      by (auto simp: take_Suc_conv_app_nth split: if_splits
          dest: arg_cong [of _ _ "take (length ord)"] arg_cong [of _ _ "\<lambda>xs. xs ! length ord"] arg_cong [of _ _ length])
    have "deps_before deps (length ord) out"
      unfolding deps_before_def
    proof (intro allI impI)
      fix j assume j: "length ord \<le> j \<and> j < length out"
      show "\<exists>ids. deps (out ! j) = Inr ids \<and> set ids \<subseteq> fst ` set (take j out)"
      proof (cases "j = length ord")
        case True
        with ids ord show ?thesis by auto
      next
        case False
        with j IH(3) show ?thesis by (auto simp: deps_before_def)
      qed
    qed
    moreover have "mset out = mset ord + mset rs"
      using IH(1) mset_take_drop [OF ids(1)] by (simp add: ac_simps)
    ultimately show ?thesis using ord(1) by blast
  qed
qed

lemma order_loop_succeeds:
  assumes "\<forall>r \<in> set rs. \<exists>ids. deps r = Inr ids \<and> set ids \<subseteq> fst ` set ord \<union> fst ` set rs \<and> (\<forall>i \<in> set ids. rank i < (rank (fst r) :: nat))"
  shows "\<exists>out. order_loop deps rs ord = Inr out"
  using assms
proof (induction deps rs ord rule: order_loop.induct)
  case (1 deps rs ord)
  show ?case
  proof (cases "rs = []")
    case False
    define m where "m = Min ((rank \<circ> fst) ` set rs)"
    have "m \<in> (rank \<circ> fst) ` set rs" unfolding m_def using False by (intro Min_in) auto
    then obtain r where r: "r \<in> set rs" "rank (fst r) = m" by auto
    have least: "m \<le> rank (fst s)" if "s \<in> set rs" for s unfolding m_def using that by (intro Min_le) auto
    from 1(2) r obtain ids where ids: "deps r = Inr ids" "set ids \<subseteq> fst ` set ord \<union> fst ` set rs" "\<forall>i \<in> set ids. rank i < m"
      by auto
    have "set ids \<subseteq> set (map fst ord)"
    proof
      fix i assume i: "i \<in> set ids"
      have "i \<notin> fst ` set rs" using ids(3) least i by (metis (no_types, lifting) imageE leD)
      with ids(2) i show "i \<in> set (map fst ord)" by auto
    qed
    moreover have "\<forall>r \<in> set rs. \<exists>ids. deps r = Inr ids" using 1(2) by blast
    ultimately obtain k where k: "find_ready deps (map fst ord) 0 rs = Inr (Some k)"
      using find_ready_found [of rs deps r ids "map fst ord" 0] r(1) ids(1) by blast
    from find_ready_ok [OF k] have "k < length rs" by simp
    then have split: "insert (rs ! k) (set (take k rs @ drop (Suc k) rs)) = set rs"
      by (metis id_take_nth_drop list.simps(15) set_append Un_insert_right)
    then have "fst ` set rs = insert (fst (rs ! k)) (fst ` set (take k rs @ drop (Suc k) rs))" by (metis image_insert)
    then have "fst ` set (ord @ [rs ! k]) \<union> fst ` set (take k rs @ drop (Suc k) rs) = fst ` set ord \<union> fst ` set rs"
      by simp
    moreover have "set (take k rs @ drop (Suc k) rs) \<subseteq> set rs" using split by blast
    ultimately have "\<exists>out. order_loop deps (take k rs @ drop (Suc k) rs) (ord @ [rs ! k]) = Inr out"
      by (intro 1(1) [OF False k refl]) (use 1(2) in \<open>simp only:, blast\<close>)
    then show ?thesis using False k by (subst order_loop.simps) simp
  qed (simp add: order_loop.simps)
qed

lemma resource_deps_requests: "resource_deps tk r = Inr ids \<Longrightarrow> ids = map request_id (resource_requests tk r)"
  by (cases r) (auto simp: resource_deps_def order_document_def try_r_Inr_iff resource_requests_def document_ids_def request_id_def
      split: option.splits)

text \<open>
  Property C23: an order is found whenever there is one. If every package of the closure can be read,
  its dependencies are in the closure and no package depends on itself through others (some rank
  falls along every dependency), the ordering succeeds: the message about cycles is never wrong.
\<close>

theorem order_packages_succeeds:
  assumes "\<forall>r \<in> set resources. \<exists>ids. resource_deps tk r = Inr ids \<and> set ids \<subseteq> fst ` set resources \<and>
      (\<forall>i \<in> set ids. rank i < (rank (fst r) :: nat))"
  shows "is_ok (order_packages tk resources)"
proof -
  have "\<exists>out. order_loop (resource_deps tk) resources [] = Inr out"
    by (rule order_loop_succeeds) (use assms in simp)
  then show ?thesis by (auto simp: order_packages_def is_ok_iff)
qed

text \<open>
  Property C16: what is handed to the installation is exactly what the requested package needs. At
  most a hundred packages with distinct ids and distinct names, each downloaded and verified; the
  exact version of every dependency, standing before the package that needs it; nothing that the
  requested package does not need; and the requested package, in the requested version, last.
\<close>

theorem store_closure_complete:
  assumes "store_closure tk endpoint now installed publisher name version = Inr out"
  shows "out \<noteq> [] \<and> answers (last out) (publisher, name, version) \<and> length out \<le> 100 \<and>
    distinct (map fst out) \<and> distinct (map (short_name \<circ> fst) out) \<and>
    (\<forall>r \<in> set out. verified_resource tk endpoint now r \<and> (publisher @ ''/'' @ name, fst r) \<in> (dep_edges tk out)\<^sup>*) \<and>
    (\<forall>k < length out. \<forall>req \<in> set (resource_requests tk (out ! k)). \<exists>j < k. answers (out ! j) req)"
proof -
  let ?root = "(publisher, name, version)"
  from assms obtain resources where
    loop: "closure_loop tk endpoint now installed [?root] [] = Inr resources" and
    order: "order_loop (resource_deps tk) resources [] = Inr out"
    by (auto simp: store_closure_def try_r_Inr_iff order_packages_def)
  have "closure_inv tk endpoint now ?root [?root] []" by (simp add: closure_inv_def)
  note i = closure_invD [OF closure_loop_inv [OF loop this]]
  from order_loop_ok [OF order] have m: "mset out = mset resources" and before: "deps_before (resource_deps tk) 0 out" by simp_all
  note s = mset_eq_setD [OF m]
  have len: "length out = length resources" using m by (rule mset_eq_length)
  have d: "distinct (map fst out)" "distinct (map (short_name \<circ> fst) out)"
    using i(1,2) m by (metis mset_eq_imp_distinct_iff mset_map)+
  have edges: "dep_edges tk out = dep_edges tk resources" by (simp add: dep_edges_def s)
  from i(5) s obtain root where root: "root \<in> set out" "answers root ?root" by auto
  have earlier: "\<exists>j < k. fst (out ! j) = request_id req \<and> out ! j \<in> set out"
    if k: "k < length out" and req: "req \<in> set (resource_requests tk (out ! k))" for k req
  proof -
    from before k obtain ids where "resource_deps tk (out ! k) = Inr ids" "set ids \<subseteq> fst ` set (take k out)"
      by (auto simp: deps_before_def)
    with resource_deps_requests req have "request_id req \<in> fst ` set (take k out)" by fastforce
    then obtain j where "j < k" "j < length out" "fst (out ! j) = request_id req" by (auto simp: in_set_conv_nth)
    then show ?thesis by auto
  qed
  have exact: "\<exists>j < k. answers (out ! j) req"
    if k: "k < length out" and req: "req \<in> set (resource_requests tk (out ! k))" for k req
  proof -
    from earlier [OF that] obtain j where j: "j < k" "fst (out ! j) = request_id req" "out ! j \<in> set out" by blast
    have "out ! k \<in> set resources" using k s by (metis nth_mem)
    from i(6) [OF this req] obtain r where r: "r \<in> set out" "answers r req" using s by auto
    have "inj_on fst (set out)" using d(1) by (simp add: distinct_map)
    moreover have "fst r = fst (out ! j)" using r(2) j(2) by (simp add: answers_def)
    ultimately have "r = out ! j" using r(1) j(3) by (rule inj_onD)
    with r j show ?thesis by blast
  qed
  obtain k where k: "k < length out" "out ! k = root" using root(1) by (auto simp: in_set_conv_nth)
  have position: "\<exists>j \<le> k. j < length out \<and> fst (out ! j) = x"
    if "(publisher @ ''/'' @ name, x) \<in> (dep_edges tk out)\<^sup>*" for x
    using that
  proof (induction rule: rtrancl_induct)
    case base
    then show ?case using k root(2) by (auto simp: answers_def request_id_def)
  next
    case (step y z)
    then obtain j r req where j: "j \<le> k" "j < length out" "fst (out ! j) = y" and
      r: "r \<in> set out" "fst r = y" "req \<in> set (resource_requests tk r)" "request_id req = z"
      by (auto simp: dep_edges_def)
    then have "r = out ! j" using d(1) by (metis distinct_map inj_onD nth_mem)
    with earlier [OF j(2)] r j show ?case by (metis dual_order.trans less_imp_le_nat less_trans)
  qed
  have "k = length out - 1"
  proof (rule ccontr)
    assume "k \<noteq> length out - 1"
    with k have l: "k < length out - 1" "length out - 1 < length out" by simp_all
    then have "out ! (length out - 1) \<in> set resources" using s by (metis nth_mem)
    from i(7) [OF this] have "(publisher @ ''/'' @ name, fst (out ! (length out - 1))) \<in> (dep_edges tk out)\<^sup>*"
      by (simp add: edges request_id_def)
    from position [OF this] obtain j where "j \<le> k" "j < length out" "fst (out ! j) = fst (out ! (length out - 1))" by blast
    with l d(1) have "j = length out - 1" by (metis (no_types, lifting) length_map nth_eq_iff_index_eq nth_map)
    with \<open>j \<le> k\<close> l show False by simp
  qed
  moreover have "out \<noteq> []" using k by auto
  ultimately have "answers (last out) ?root" using k root(2) by (simp add: last_conv_nth)
  moreover have "verified_resource tk endpoint now r \<and> (publisher @ ''/'' @ name, fst r) \<in> (dep_edges tk out)\<^sup>*" if "r \<in> set out" for r
    using i(4,7) [of r] that s by (simp add: edges request_id_def)
  ultimately show ?thesis using \<open>out \<noteq> []\<close> d exact i(3) len by auto
qed

section \<open>The example\<close>

lemma store_get_pinned_witness:
  "\<exists>(response :: store_response) chain. sr_remote response = Some (store_name, chain) \<and> ''q'' = concat (map frame_data (sr_frames response))"
  using store_get_pinned [OF example_get(1)] by blast

lemma download_release_sound_witness:
  "\<exists>at files. 0 < at \<and> at \<le> (10 :: int) \<and> read_package_at example_tools example_package at = Inr files"
  using download_release_sound [OF example_download] by blast

theorem order_packages_succeeds_witness: "is_ok (order_packages example_tools [example_resource])"
  by (rule order_packages_succeeds [of _ _ "\<lambda>_. 0"]) (simp add: example_deps)

theorem store_closure_complete_witness: "answers example_resource (''a.b'', ''x'', ''1.0.0'')"
  using store_closure_complete [OF example_closure] by simp

end
