(* ===== verification/Contact_Delivery_Laws.thy ===== *)
theory Contact_Delivery_Laws
  imports Contact_Delivery Contact_Queue_Laws Store_Laws
begin

text \<open>
  What a delivery that ends with a state guarantees: the answer comes from the authenticated target,
  from the subject the request or its review is bound to, and names this request; and every delivery
  is a sequence of steps of the queue.
\<close>

section \<open>The exchange\<close>

lemma peer_bytes_bounded:
  assumes "fold_r peer_frame_bytes frames [] = Inr bytes"
  shows "length bytes \<le> 1024 * 1024"
  by (rule fold_r_invariant [OF assms, of "\<lambda>bytes. length bytes \<le> 1024 * 1024"])
    (auto simp: peer_frame_bytes_def split: peer_frame.splits if_splits)

lemma read_peer_Inr:
  assumes "read_peer p target response = Inr (code, v, sid)"
  obtains chain ski bytes where "pr_authority response = Some (target, chain)" "subject_key_of p chain = Some ski" "sid = sk_owner ski"
    "code = pr_status response" "fold_r peer_frame_bytes (pr_frames response) [] = Inr bytes"
    "code \<in> {200, 201} \<longrightarrow> parse_json p bytes = Some v"
  using assms by (auto simp: read_peer_def try_r_Inr_iff split: option.splits prod.splits if_splits)

text \<open>
  \<^verbatim>\<open>expect_remote_owner_hash\<close>: the endpoint gives no response of a peer whose certificate has another
  owner than the expected one.
\<close>

definition pinning :: "'w contact_env \<Rightarrow> bool" where
  "pinning env = (\<forall>call w response w' name chain ski h.
     ce_exchange env call w = (Some (Inr response), w') \<longrightarrow> pr_authority response = Some (name, chain) \<longrightarrow>
     subject_key_of (ce_pki env) chain = Some ski \<longrightarrow> pc_pinned call = Some h \<longrightarrow> sk_owner ski = h)"

text \<open>A response of the authenticated peer to a request, with its status, its content and the peer's owner.\<close>

definition peer_answered :: "'w contact_env \<Rightarrow> peer_call \<Rightarrow> nat \<Rightarrow> json \<Rightarrow> string \<Rightarrow> bool" where
  "peer_answered env call code v sid = (\<exists>w response w' chain ski bytes.
     ce_exchange env call w = (Some (Inr response), w') \<and> pr_authority response = Some (pc_target call, chain) \<and>
     subject_key_of (ce_pki env) chain = Some ski \<and> sid = sk_owner ski \<and> code = pr_status response \<and>
     fold_r peer_frame_bytes (pr_frames response) [] = Inr bytes \<and> length bytes \<le> 1024 * 1024 \<and>
     (code \<in> {200, 201} \<longrightarrow> parse_json (ce_pki env) bytes = Some v))"

lemma remote_response_answered:
  assumes "remote_response env target method path body expected w = (Inr (code, v, sid), w')"
  shows "peer_answered env \<lparr>pc_target = target, pc_method = method, pc_path = path, pc_body = body, pc_pinned = expected\<rparr> code v sid"
proof -
  let ?call = "\<lparr>pc_target = target, pc_method = method, pc_path = path, pc_body = body, pc_pinned = expected\<rparr>"
  obtain response where ex: "ce_exchange env ?call w = (Some (Inr response), w')"
    and read: "read_peer (ce_pki env) target response = Inr (code, v, sid)"
    using assms by (auto simp: remote_response_def split: if_splits prod.splits option.splits sum.splits)
  from read obtain chain ski bytes where
    answer: "pr_authority response = Some (target, chain)" "subject_key_of (ce_pki env) chain = Some ski" "sid = sk_owner ski"
      "code = pr_status response"
    and body: "fold_r peer_frame_bytes (pr_frames response) [] = Inr bytes" "code \<in> {200, 201} \<longrightarrow> parse_json (ce_pki env) bytes = Some v"
    by (rule read_peer_Inr)
  from body(1) have "length bytes \<le> 1024 * 1024" by (rule peer_bytes_bounded)
  with ex answer body show ?thesis unfolding peer_answered_def by (intro exI conjI) simp_all
qed

lemma peer_answered_pinned:
  assumes "pinning env" and "peer_answered env call code v sid" and "pc_pinned call = Some h"
  shows "sid = h"
  using assms unfolding pinning_def peer_answered_def by metis

section \<open>The answer that is settled\<close>

lemma ask_peer_Inr:
  assumes "ask_peer env job w = (Inr a, w')" and "pinning env"
  obtains body expected where
    "peer_answered env \<lparr>pc_target = ob_target job, pc_method = aq_method a, pc_path = aq_path a, pc_body = body,
       pc_pinned = or_else (map_option rv_subject (ob_review job)) expected\<rparr> (aq_code a) (aq_receipt a) (aq_sid a)"
    "aq_method a = (if ob_status job = Queued then ''POST'' else ''GET'')"
    "\<forall>review. ob_review job = Some review \<longrightarrow> aq_sid a = rv_subject review"
    "\<forall>subject. ob_contact job \<noteq> None \<longrightarrow> ob_subject job = Some subject \<longrightarrow> aq_sid a = subject"
proof -
  from assms(1) obtain requests offers existing w1 where bound: "still_bound job existing = Inr ()"
    and rest: "send_job env job requests offers existing w1 = (Inr a, w')"
    by (auto simp: ask_peer_def try_s_Inr_iff)
  obtain verb path body where call: "delivery_call env job requests offers = (verb, path, body)" by (rule prod_cases3)
  from rest obtain code receipt sid w2 where
    a: "a = \<lparr>aq_requests = requests, aq_offers = offers, aq_existing = existing, aq_method = verb, aq_path = path,
             aq_code = code, aq_receipt = receipt, aq_sid = sid\<rparr>"
    and review: "follow_review env job verb path (Option.bind existing (\<lambda>c. as_str (jidx c ''subject_id''))) w1 = (Inr (), w2)"
    and answer: "remote_response env (ob_target job) verb path body
       (or_else (map_option rv_subject (ob_review job)) (Option.bind existing (\<lambda>c. as_str (jidx c ''subject_id'')))) w2 = (Inr (code, receipt, sid), w')"
    by (auto simp: send_job_def call try_s_Inr_iff Let_def)
  let ?expected = "Option.bind existing (\<lambda>c. as_str (jidx c ''subject_id''))"
  have answered: "peer_answered env \<lparr>pc_target = ob_target job, pc_method = verb, pc_path = path, pc_body = body,
       pc_pinned = or_else (map_option rv_subject (ob_review job)) ?expected\<rparr> code receipt sid"
    by (rule remote_response_answered [OF answer])
  have reviewed: "sid = rv_subject rv" if "ob_review job = Some rv" for rv
    using peer_answered_pinned [OF assms(2) answered] that by simp
  have subject: "sid = subject" if "ob_contact job \<noteq> None" "ob_subject job = Some subject" for subject
  proof -
    have expected: "?expected = Some subject"
      using bound that by (cases existing) (auto simp: still_bound_def)
    show ?thesis
    proof (cases "ob_review job")
      case None
      then show ?thesis using peer_answered_pinned [OF assms(2) answered] expected by simp
    next
      case (Some rv)
      with review expected have "rv_subject rv = subject" by (auto simp: follow_review_def split: if_splits)
      with Some reviewed show ?thesis by simp
    qed
  qed
  have "verb = (if ob_status job = Queued then ''POST'' else ''GET'')"
    using call by (auto simp: delivery_call_def split: if_splits)
  with answered reviewed subject show ?thesis by (intro that) (simp_all add: a)
qed

lemma jidx_json_set_same: "jidx (json_set k v m) k = v"
  by (simp add: json_set_def map_of_insort_key image_iff)

text \<open>The identity that the receipt has to name, and the state that is recorded for the reported one.\<close>

definition receipt_names :: "'w contact_env \<Rightarrow> outbound \<Rightarrow> string \<Rightarrow> json \<Rightarrow> bool" where
  "receipt_names env job sid v =
     (if ob_status job = Queued then
        jidx v ''application_id'' = JStr (ob_application job) \<and> jidx v ''name'' = JStr (ob_target job) \<and> jidx v ''subject_id'' = JStr sid
      else jidx v ''name'' = JStr (ce_name env) \<and> (\<exists>h. owner env = Inr (ce_name env, h) \<and> jidx v ''subject_id'' = JStr h))"

definition reported_state :: "outbound \<Rightarrow> string \<Rightarrow> status option" where
  "reported_state job told =
     receipt_state (if ob_status job = Queued then told else if told = ''blocked'' then ''revoked'' else if told = ''transfered'' then ''pending'' else told)"

lemma receipt_outcome_Inr:
  assumes "receipt_outcome now receipt = Inr (state, valid_before)"
  obtains told where "jidx receipt ''status'' = JStr told" "receipt_state told = Some state"
    "as_i64 (jidx receipt ''valid_before'') = Some valid_before" "state = Pending \<longrightarrow> valid_before > now"
proof -
  from assms obtain told where *: "jidx receipt ''status'' = JStr told" "receipt_state told = Some state"
    "as_i64 (jidx receipt ''valid_before'') = Some valid_before" "told = ''pending'' \<longrightarrow> valid_before > now"
    by (auto simp: receipt_outcome_def try_r_Inr_iff)
  moreover have "told = ''pending''" if "state = Pending"
    using *(2) that by (auto simp: receipt_state_def parse_status_def status_text_def split: if_splits)
  ultimately show ?thesis using that by blast
qed

lemma owner_name: "owner env = Inr (n, h) \<Longrightarrow> n = ce_name env"
  by (auto simp: owner_def split: sum.splits if_splits)

lemma adopt_receipt_fields:
  assumes "v = JObj m"
  shows "jidx (adopt_receipt job sid v) ''valid_before'' = jidx v ''valid_before''"
    and "jidx (adopt_receipt job sid v) ''status'' =
      (if jidx v ''status'' = JStr ''blocked'' then JStr ''revoked''
       else if jidx v ''status'' = JStr ''transfered'' then JStr ''pending'' else jidx v ''status'')"
proof -
  have other: "jidx (json_set k x y) k' = jidx y k'" if "k \<noteq> k'" "\<exists>m. y = JObj m" for k x y k'
    using that jidx_json_set by blast
  have obj: "\<exists>m. json_set k x y = JObj m" for k x y by (simp add: json_set_def)
  show "jidx (adopt_receipt job sid v) ''valid_before'' = jidx v ''valid_before''"
    using assms by (simp add: adopt_receipt_def Let_def other obj del: jidx_JObj)
  show "jidx (adopt_receipt job sid v) ''status'' =
      (if jidx v ''status'' = JStr ''blocked'' then JStr ''revoked''
       else if jidx v ''status'' = JStr ''transfered'' then JStr ''pending'' else jidx v ''status'')"
    using assms by (simp add: adopt_receipt_def Let_def other obj jidx_json_set_same del: jidx_JObj)
qed

lemma normalize_receipt_Inr:
  assumes "normalize_receipt env job sid v = Inr receipt" and "check_receipt job sid receipt = Inr ()" and "jidx receipt ''status'' = JStr told"
  shows "receipt_names env job sid v \<and> jidx receipt ''valid_before'' = jidx v ''valid_before'' \<and>
     (\<exists>told'. jidx v ''status'' = JStr told' \<and> receipt_state told = reported_state job told')"
proof (cases "ob_status job = Queued")
  case True
  with assms show ?thesis by (auto simp: normalize_receipt_def check_receipt_def receipt_names_def reported_state_def)
next
  case False
  with assms(1) obtain h where h: "owner env = Inr (ce_name env, h)" "jidx v ''name'' = JStr (ce_name env)" "jidx v ''subject_id'' = JStr h"
    and r: "receipt = adopt_receipt job sid v"
    by (auto simp: normalize_receipt_def try_r_Inr_iff dest: owner_name)
  obtain m where "v = JObj m" using h(2) by (cases v) (auto simp: jidx_def)
  note fields = adopt_receipt_fields [OF this]
  from assms(3) have st: "(if jidx v ''status'' = JStr ''blocked'' then JStr ''revoked''
      else if jidx v ''status'' = JStr ''transfered'' then JStr ''pending'' else jidx v ''status'') = JStr told"
    by (simp only: r fields(2))
  then obtain told' where told': "jidx v ''status'' = JStr told'" by (meson)
  with st False have "receipt_state told = reported_state job told'" by (simp add: reported_state_def split: if_splits)
  with told' have "\<exists>told'. jidx v ''status'' = JStr told' \<and> receipt_state told = reported_state job told'" by blast
  with False h show ?thesis by (simp add: r fields(1) receipt_names_def)
qed

lemma settle_Inr:
  assumes "settle env job lease a st = (Inr (state, valid_before), st')"
  obtains receipt now where "normalize_receipt env job (aq_sid a) (aq_receipt a) = Inr receipt"
    "check_receipt job (aq_sid a) receipt = Inr ()" "receipt_outcome now receipt = Inr (state, valid_before)"
  using assms by (auto simp: settle_def try_s_Inr_iff)

lemma judge_answer_Inr: "judge_answer job a = (next_review, Inr u) \<Longrightarrow> next_review = None \<and> aq_code a \<in> {200, 201}"
  by (auto simp: judge_answer_def split: sum.splits option.splits if_splits)

section \<open>The clock\<close>

text \<open>No call of the environment turns the clock back.\<close>

abbreviation later :: "'w contact_env \<Rightarrow> 'w \<Rightarrow> 'w \<Rightarrow> bool" where
  "later env w w' \<equiv> ce_clock env w \<le> ce_clock env w'"

definition clock_forward :: "'w contact_env \<Rightarrow> bool" where
  "clock_forward env =
     ((\<forall>method path visitor w r w'. ce_auth env method path visitor w = (r, w') \<longrightarrow> later env w w') \<and>
      (\<forall>method path body visitor w r w'. ce_router env method path body visitor w = (r, w') \<longrightarrow> later env w w') \<and>
      (\<forall>n w r w'. ce_find env n w = (r, w') \<longrightarrow> later env w w') \<and>
      (\<forall>c w r w'. ce_record env c w = (r, w') \<longrightarrow> later env w w') \<and>
      (\<forall>call w r w'. ce_exchange env call w = (r, w') \<longrightarrow> later env w w'))"

interpretation clock: effect_order "later env" for env
  by unfold_locales simp_all

lemma forward_calls:
  assumes "clock_forward env"
  shows "ce_auth env method path visitor w = (a, w') \<Longrightarrow> later env w w'"
    and "ce_router env method path body who w = (b, w') \<Longrightarrow> later env w w'"
    and "ce_record env c w = (d, w') \<Longrightarrow> later env w w'"
    and "ce_exchange env call w = (x, w') \<Longrightarrow> later env w w'"
    and "ce_find env n w = (y, w') \<Longrightarrow> later env w w'"
  using assms unfolding clock_forward_def by metis+

lemma keeps_remote: "clock_forward env \<Longrightarrow> keeps (later env) (remote_response env target method path body expected)"
  by (rule keepsI)
    (auto simp: remote_response_def split: if_splits prod.splits option.splits sum.splits dest: forward_calls(4))

lemma keeps_local_api: "clock_forward env \<Longrightarrow> keeps (later env) (local_api env method path body)"
  by (rule keepsI)
    (auto simp: local_api_def split: if_splits prod.splits sum.splits auth_answer.splits dest: forward_calls(1,2) intro: order_trans)

lemma keeps_contact: "clock_forward env \<Longrightarrow> keeps (later env) (contact env target)"
  unfolding contact_def by (rule keeps_local_api)

lemma keeps_known_contact: "clock_forward env \<Longrightarrow> keeps (later env) (known_contact env target)"
  by (rule keepsI) (auto simp: known_contact_def split: prod.splits sum.splits if_splits dest: keepsD [OF keeps_contact])

lemma keeps_record: "clock_forward env \<Longrightarrow> keeps (later env) (record_outbound env target subject requests offers valid_before started_at)"
  by (rule keepsI)
    (auto simp: record_outbound_def split: prod.splits sum.splits option.splits record_error.splits dest: forward_calls(3))

lemmas keeps_calls = keeps_remote keeps_local_api keeps_contact keeps_known_contact keeps_record

lemma keeps_case_prod: "(\<And>x y. keeps R (f x y)) \<Longrightarrow> keeps R (case p of (x, y) \<Rightarrow> f x y)"
  by (cases p) simp

lemma keeps_if: "keeps R m \<Longrightarrow> keeps R n \<Longrightarrow> keeps R (if b then m else n)"
  by simp

lemma keeps_case_option: "keeps R m \<Longrightarrow> (\<And>x. keeps R (f x)) \<Longrightarrow> keeps R (case o' of None \<Rightarrow> m | Some x \<Rightarrow> f x)"
  by (cases o') simp_all

lemmas keeps_forms = clock.keeps_ret clock.keeps_try clock.keeps_now clock.keeps_each keeps_case_prod keeps_if keeps_case_option

lemma keeps_ask_peer: "clock_forward env \<Longrightarrow> keeps (later env) (ask_peer env job)"
  unfolding ask_peer_def send_job_def follow_review_def Let_def by (intro keeps_forms keeps_calls)

lemma keeps_learn: "clock_forward env \<Longrightarrow> keeps (later env) (learn_contact env job existing sid receipt requests offers)"
  unfolding learn_contact_def by (intro keeps_forms keeps_calls)

lemma keeps_activate: "clock_forward env \<Longrightarrow> keeps (later env) (activate_contact env job sid receipt)"
  unfolding activate_contact_def by (intro keeps_forms keeps_calls)

section \<open>A delivery is a sequence of steps of the queue\<close>

definition follows :: "'w contact_env \<Rightarrow> 'w delivery_state \<Rightarrow> 'w delivery_state \<Rightarrow> bool" where
  "follows env st st' = (\<forall>s. cs_rows s = snd st \<longrightarrow> cs_clock s = ce_clock env (fst st) \<longrightarrow>
     (\<exists>s'. contact_step\<^sup>*\<^sup>* s s' \<and> cs_rows s' = snd st' \<and> cs_clock s' = ce_clock env (fst st') \<and> cs_next s' = cs_next s))"

interpretation queue: effect_order "follows env" for env
proof
  show "follows env st st" for st by (auto simp: follows_def)
  show "follows env st st''" if "follows env st st'" "follows env st' st''" for st st' st''
    using that unfolding follows_def by (metis rtranclp_trans)
qed

lemma follows_world:
  assumes "later env w w'"
  shows "follows env (w, rows) (w', rows)"
  unfolding follows_def
proof (intro allI impI)
  fix s :: contact_state assume s: "cs_rows s = snd (w, rows)" "cs_clock s = ce_clock env (fst (w, rows))"
  with assms have "contact_step s (s\<lparr>cs_clock := ce_clock env w'\<rparr>)" by (intro contact_step.tick) simp
  with s show "\<exists>s'. contact_step\<^sup>*\<^sup>* s s' \<and> cs_rows s' = snd (w', rows) \<and> cs_clock s' = ce_clock env (fst (w', rows)) \<and> cs_next s' = cs_next s"
    by (intro exI [of _ "s\<lparr>cs_clock := ce_clock env w'\<rparr>"]) auto
qed

lemma keeps_on_world: "keeps (later env) m \<Longrightarrow> keeps (follows env) (on_world m)"
  by (rule keepsI) (auto simp: on_world_def split: prod.splits dest!: keepsD intro: follows_world)

lemma follows_step:
  assumes "\<And>s. cs_rows s = rows \<Longrightarrow> cs_clock s = ce_clock env w \<Longrightarrow> \<exists>s'. contact_step s s' \<and> cs_rows s' = rows' \<and> cs_clock s' = cs_clock s \<and> cs_next s' = cs_next s"
  shows "follows env (w, rows) (w, rows')"
  unfolding follows_def
proof (intro allI impI)
  fix s :: contact_state assume "cs_rows s = snd (w, rows)" "cs_clock s = ce_clock env (fst (w, rows))"
  with assms obtain s' where "contact_step s s'" "cs_rows s' = rows'" "cs_clock s' = ce_clock env w" "cs_next s' = cs_next s" by force
  then show "\<exists>s'. contact_step\<^sup>*\<^sup>* s s' \<and> cs_rows s' = snd (w, rows') \<and> cs_clock s' = ce_clock env (fst (w, rows')) \<and> cs_next s' = cs_next s"
    by (intro exI [of _ s']) auto
qed

lemma keeps_bind: "keeps (follows env) (on_rows (bind_contact i lease cid subject))"
proof (rule keepsI)
  fix st :: "'a delivery_state" and r st'
  assume "on_rows (bind_contact i lease cid subject) st = (r, st')"
  then have st': "st' = (fst st, bind_contact i lease cid subject (snd st))" by (auto simp: on_rows_def)
  have "follows env (fst st, snd st) st'"
    unfolding st' by (rule follows_step) (use contact_step.bound in fastforce)
  then show "follows env st st'" by simp
qed

lemma keeps_settle: "clock_forward env \<Longrightarrow> keeps (follows env) (settle env job lease a)"
  unfolding settle_def
  by (intro queue.keeps_try queue.keeps_ret queue.keeps_now keeps_on_world keeps_bind keeps_learn keeps_contact keeps_activate)

lemma deliver_outcome_follows:
  assumes "clock_forward env" and "deliver_outcome env job lease st = (r, st')"
  shows "follows env st st'"
proof -
  obtain x st1 where ask: "on_world (ask_peer env job) st = (x, st1)" by (meson surj_pair)
  have first: "follows env st st1" using keepsD [OF keeps_on_world [OF keeps_ask_peer [OF assms(1)]] ask] .
  show ?thesis
  proof (cases "\<exists>a next_review. x = Inr a \<and> judge_answer job a = (next_review, Inr ())")
    case True
    then obtain a next_review where a: "x = Inr a" "judge_answer job a = (next_review, Inr ())" by blast
    with assms(2) ask obtain y where "settle env job lease a st1 = (y, st')"
      by (auto simp: deliver_outcome_def split: prod.splits)
    with first keepsD [OF keeps_settle [OF assms(1)]] queue.goes_on show ?thesis by blast
  next
    case False
    with assms(2) ask have "st' = st1" by (auto simp: deliver_outcome_def split: sum.splits prod.splits)
    with first show ?thesis by simp
  qed
qed

lemma claim_follows:
  assumes "claim (ce_clock env w) rows = (job, rows')"
  shows "follows env (w, rows) (w, rows')"
proof (rule follows_step)
  fix s :: contact_state assume s: "cs_rows s = rows" "cs_clock s = ce_clock env w"
  show "\<exists>s'. contact_step s s' \<and> cs_rows s' = rows' \<and> cs_clock s' = cs_clock s \<and> cs_next s' = cs_next s"
  proof (cases job)
    case None
    with assms s have "contact_step s (s\<lparr>cs_rows := rows'\<rparr>)" by (intro contact_step.idle) simp
    then show ?thesis by (intro exI [of _ "s\<lparr>cs_rows := rows'\<rparr>"]) simp
  next
    case (Some j)
    with assms s have "contact_step s (s\<lparr>cs_rows := rows', cs_leases := (ob_id j, cs_clock s + 120) # cs_leases s\<rparr>)"
      by (intro contact_step.claimed) simp
    then show ?thesis by (intro exI [of _ "s\<lparr>cs_rows := rows', cs_leases := (ob_id j, cs_clock s + 120) # cs_leases s\<rparr>"]) simp
  qed
qed

lemma finish_follows:
  assumes "finish (ce_clock env w) i lease next_review result rows = Inr rows'"
  shows "follows env (w, rows) (w, rows')"
proof (rule follows_step)
  fix s :: contact_state assume s: "cs_rows s = rows" "cs_clock s = ce_clock env w"
  with assms have "contact_step s (s\<lparr>cs_rows := rows'\<rparr>)" by (intro contact_step.finished) simp
  then show "\<exists>s'. contact_step s s' \<and> cs_rows s' = rows' \<and> cs_clock s' = cs_clock s \<and> cs_next s' = cs_next s"
    by (intro exI [of _ "s\<lparr>cs_rows := rows'\<rparr>"]) simp
qed

lemma deliver_follows:
  assumes "clock_forward env"
  shows "keeps (follows env) (deliver env)"
proof (rule keepsI)
  fix st r st' assume run: "deliver env st = (r, st')"
  obtain w rows where st: "st = (w, rows)" by (cases st)
  obtain job rows1 where c: "claim (ce_clock env w) rows = (job, rows1)" by fastforce
  have first: "follows env st (w, rows1)" unfolding st using c by (rule claim_follows)
  show "follows env st st'"
  proof (cases job)
    case None
    with run c first show ?thesis by (simp add: deliver_def st)
  next
    case (Some j)
    obtain next_review result w2 rows2 where d: "deliver_outcome env j (ce_clock env w + 120) (w, rows1) = ((next_review, result), (w2, rows2))"
      by (metis surj_pair)
    have second: "follows env (w, rows1) (w2, rows2)" using assms d by (rule deliver_outcome_follows)
    show ?thesis
    proof (cases "finish (ce_clock env w2) (ob_id j) (ce_clock env w + 120) next_review result rows2")
      case (Inl e)
      with run c d Some first second show ?thesis by (auto simp: deliver_def st intro: queue.goes_on)
    next
      case (Inr rows3)
      with run c d Some have "st' = (w2, rows3)" by (simp add: deliver_def st)
      with first second finish_follows [OF Inr] show ?thesis by (blast intro: queue.goes_on)
    qed
  qed
qed

section \<open>Properties of a delivery\<close>

text \<open>
  Property C29: a delivery ends with a state only on the answer of the authenticated target. Its owner is the
  subject the request is bound to and the one the review was asked of; the answer names this very request (or, for a
  request that is polled, this identity and its owner); and the recorded state and expiry are those it reports.
\<close>

theorem delivery_authentic:
  assumes "pinning env" and "deliver_outcome env job lease st = ((next_review, Inr (state, valid_before)), st')"
  shows "\<exists>call code v sid told. peer_answered env call code v sid \<and> pc_target call = ob_target job \<and>
     pc_method call = (if ob_status job = Queued then ''POST'' else ''GET'') \<and> code \<in> {200, 201} \<and>
     (\<forall>review. ob_review job = Some review \<longrightarrow> sid = rv_subject review) \<and>
     (\<forall>subject. ob_contact job \<noteq> None \<longrightarrow> ob_subject job = Some subject \<longrightarrow> sid = subject) \<and>
     receipt_names env job sid v \<and> jidx v ''status'' = JStr told \<and> reported_state job told = Some state \<and>
     as_i64 (jidx v ''valid_before'') = Some valid_before \<and> next_review = None"
proof -
  from assms(2) obtain a st1 where ask: "on_world (ask_peer env job) st = (Inr a, st1)" and judge: "judge_answer job a = (next_review, Inr ())"
    and settle: "settle env job lease a st1 = (Inr (state, valid_before), st')"
    by (auto simp: deliver_outcome_def split: prod.splits sum.splits)
  from ask obtain w' where "ask_peer env job (fst st) = (Inr a, w')" by (auto simp: on_world_def split: prod.splits)
  then obtain body expected where answer: "peer_answered env \<lparr>pc_target = ob_target job, pc_method = aq_method a, pc_path = aq_path a, pc_body = body,
       pc_pinned = or_else (map_option rv_subject (ob_review job)) expected\<rparr> (aq_code a) (aq_receipt a) (aq_sid a)"
    and facts: "aq_method a = (if ob_status job = Queued then ''POST'' else ''GET'')"
      "\<forall>review. ob_review job = Some review \<longrightarrow> aq_sid a = rv_subject review"
      "\<forall>subject. ob_contact job \<noteq> None \<longrightarrow> ob_subject job = Some subject \<longrightarrow> aq_sid a = subject"
    using assms(1) by (rule ask_peer_Inr)
  from settle obtain receipt now where receipt: "normalize_receipt env job (aq_sid a) (aq_receipt a) = Inr receipt"
    "check_receipt job (aq_sid a) receipt = Inr ()" "receipt_outcome now receipt = Inr (state, valid_before)" by (rule settle_Inr)
  from receipt(3) obtain told where told: "jidx receipt ''status'' = JStr told" "receipt_state told = Some state"
    "as_i64 (jidx receipt ''valid_before'') = Some valid_before" by (rule receipt_outcome_Inr)
  from normalize_receipt_Inr [OF receipt(1,2) told(1)] obtain told' where
    "receipt_names env job (aq_sid a) (aq_receipt a)" "jidx (aq_receipt a) ''status'' = JStr told'" "reported_state job told' = Some state"
    "as_i64 (jidx (aq_receipt a) ''valid_before'') = Some valid_before" using told by auto
  with answer facts judge_answer_Inr [OF judge] show ?thesis
    by (intro exI [of _ "\<lparr>pc_target = ob_target job, pc_method = aq_method a, pc_path = aq_path a, pc_body = body,
       pc_pinned = or_else (map_option rv_subject (ob_review job)) expected\<rparr>"] exI [of _ "aq_code a"] exI [of _ "aq_receipt a"]
       exI [of _ "aq_sid a"] exI [of _ told'] conjI) simp_all
qed

text \<open>Alice's request reaches Bob, who accepts it; the world is the clock.\<close>

definition example_bob :: json where
  "example_bob = JObj [(''id'', JInt 7), (''name'', JStr ''bob.dhttp.net''), (''status'', JStr ''pending''), (''subject_id'', JStr ''ob'')]"

definition example_acceptance :: json where
  "example_acceptance = JObj [(''application_id'', JStr ''a1''), (''name'', JStr ''bob.dhttp.net''), (''status'', JStr ''active''),
     (''subject_id'', JStr ''ob''), (''valid_before'', JInt 9000)]"

definition example_contact_env :: "int contact_env" where
  "example_contact_env = \<lparr>ce_clock = id, ce_name = ''alice.dhttp.net'', ce_local_owner = Inr ''oa'',
     ce_pki = example_trust\<lparr>subject_key_of := (\<lambda>c. Some \<lparr>sk_text = ''k'', sk_owner = concat c, sk_client_and_server = True, sk_sequence = 0\<rparr>),
        parse_json := (\<lambda>s. if s = ''c'' then Some example_bob else if s = ''r'' then Some example_acceptance else if s = ''{}'' then Some (JObj []) else None)\<rparr>,
     ce_uri_ok = (\<lambda>_. True), ce_owner_hash_ok = (\<lambda>_. True), ce_subject_ok = (\<lambda>_. True), ce_encode = (\<lambda>s. s), ce_access_map = (\<lambda>_. Inr ()),
     ce_auth = (\<lambda>_ _ _ w. (Inr AclAllowed, w)), ce_router = (\<lambda>m _ _ _ w. (if m = ''GET'' then (200, Inr ''c'') else (204, Inr []), w)),
     ce_find = (\<lambda>_ w. (Inr True, w)), ce_record = (\<lambda>_ w. (None, w)),
     ce_exchange = (\<lambda>call w. (if pc_pinned call \<in> {None, Some ''ob''}
        then Some (Inr \<lparr>pr_authority = Some (pc_target call, [''ob'']), pr_status = 201, pr_frames = [PeerData ''r'']\<rparr>) else None, w + 1)),
     ce_others = (\<lambda>_ rows. rows)\<rparr>"

lemma example_env_pinning: "pinning example_contact_env"
  by (auto simp: pinning_def example_contact_env_def split: if_splits)

lemma example_env_forward: "clock_forward example_contact_env"
  by (auto simp: clock_forward_def example_contact_env_def)

lemmas delivery_eval = try_s_def ret_s_def now_s_def on_world_def on_rows_def snapshots_def operation_snapshot_def known_contact_def contact_def
  local_api_def owner_def router_answer_def is_success_def still_bound_def delivery_call_def follow_review_def remote_response_def read_peer_def
  peer_frame_bytes_def normalize_receipt_def check_receipt_def learn_contact_def activate_contact_def receipt_outcome_def receipt_state_def
  parse_status_def status_text_def pending_review_def bind_contact_def update_where_def

lemma example_job: "(new_request 1000 1 example_draft)\<lparr>ob_lease := Some 1120\<rparr> =
     \<lparr>ob_id = 1, ob_target = ''bob.dhttp.net'', ob_contact = None, ob_subject = None, ob_description = ''hello'',
      ob_requested_caps = ''[]'', ob_offered_caps = ''[]'', ob_requested = Some ''{}'', ob_offers = Some ''{}'', ob_application = ''a1'',
      ob_status = Queued, ob_expires = 9000, ob_deadline = 9000, ob_remote_expires = None, ob_next = 1000, ob_attempts = 0,
      ob_lease = Some 1120, ob_review = None, ob_checked = None, ob_error = None, ob_created = 1000, ob_updated = 1000\<rparr>"
  by (simp add: new_request_def example_draft_def)

lemma example_asked:
  "ask_peer example_contact_env ((new_request 1000 1 example_draft)\<lparr>ob_lease := Some 1120\<rparr>) 1000 =
     (Inr \<lparr>aq_requests = JObj [], aq_offers = JObj [], aq_existing = Some example_bob, aq_method = ''POST'', aq_path = ''/std/contact'',
        aq_code = 201, aq_receipt = example_acceptance, aq_sid = ''ob''\<rparr>, 1001)"
  unfolding example_job ask_peer_def send_job_def by (simp add: delivery_eval example_contact_env_def example_bob_def example_acceptance_def)

lemma example_settled:
  "settle example_contact_env ((new_request 1000 1 example_draft)\<lparr>ob_lease := Some 1120\<rparr>) 1120
     \<lparr>aq_requests = JObj [], aq_offers = JObj [], aq_existing = Some example_bob, aq_method = ''POST'', aq_path = ''/std/contact'',
        aq_code = 201, aq_receipt = example_acceptance, aq_sid = ''ob''\<rparr> (1001, []) = (Inr (Active, 9000), (1001, []))"
  unfolding example_job settle_def by (simp add: delivery_eval example_contact_env_def example_bob_def example_acceptance_def)

lemma example_delivery:
  "deliver_outcome example_contact_env ((new_request 1000 1 example_draft)\<lparr>ob_lease := Some 1120\<rparr>) 1120 (1000, [])
     = ((None, Inr (Active, 9000)), (1001, []))"
  by (simp add: deliver_outcome_def on_world_def example_asked example_settled judge_answer_def pending_review_def del: One_nat_def)

theorem delivery_authentic_witness:
  "\<exists>call code v sid told. peer_answered example_contact_env call code v sid \<and> pc_target call = ''bob.dhttp.net'' \<and>
     receipt_names example_contact_env ((new_request 1000 1 example_draft)\<lparr>ob_lease := Some 1120\<rparr>) sid v \<and>
     jidx v ''status'' = JStr told \<and> reported_state ((new_request 1000 1 example_draft)\<lparr>ob_lease := Some 1120\<rparr>) told = Some Active"
proof -
  have "ob_target ((new_request 1000 1 example_draft)\<lparr>ob_lease := Some 1120\<rparr>) = ''bob.dhttp.net''"
    by (simp add: new_request_def example_draft_def)
  with delivery_authentic [OF example_env_pinning example_delivery] show ?thesis by metis
qed

end
