(* ===== verification/Contact_Service_Laws.thy ===== *)
theory Contact_Service_Laws
  imports Contact_Service Contact_Delivery_Laws
begin

text \<open>
  Names are canonical, the list of contacts is collected completely, a page is the slice it should be
  unless its offset overflows, a deletion happens completely or not at all, and whatever the resources
  serve is a sequence of steps of the queue.
\<close>

section \<open>Names\<close>

lemma label_ok_chars: "label_ok s \<Longrightarrow> c \<in> set s \<Longrightarrow> is_ascii_lowercase c \<or> is_ascii_digit c \<or> c = CHR ''-''"
  by (auto simp: label_ok_def list_all_iff)

lemma join_chars: "set (join_with [d] xs) \<subseteq> insert d (\<Union> (set ` set xs))"
  by (induction "[d]" xs rule: join_with.induct) auto

lemma name_chars:
  assumes "list_all label_ok (split_on (CHR ''.'') s)" and "c \<in> set s"
  shows "is_ascii_lowercase c \<or> is_ascii_digit c \<or> c = CHR ''-'' \<or> c = CHR ''.''"
proof -
  have "set s \<subseteq> insert (CHR ''.'') (\<Union> (set ` set (split_on (CHR ''.'') s)))"
    using join_chars [of "CHR ''.''" "split_on (CHR ''.'') s"] by (simp add: split_on_join)
  with assms show ?thesis using label_ok_chars by (fastforce simp: list_all_iff)
qed

lemma name_char_plain:
  assumes "is_ascii_lowercase c \<or> is_ascii_digit c \<or> c = CHR ''-'' \<or> c = CHR ''.''"
  shows "byte c < 128 \<and> \<not> is_whitespace (byte c) \<and> \<not> is_ascii_uppercase c"
  using assms by (auto simp: is_ascii_lowercase_def is_ascii_digit_def is_whitespace_def is_ascii_uppercase_def byte_def)

lemma lower_plain: "(\<And>c. c \<in> set s \<Longrightarrow> \<not> is_ascii_uppercase c) \<Longrightarrow> to_ascii_lowercase s = s"
  unfolding to_ascii_lowercase_def by (rule map_idI) simp

lemma dropWhile_none: "(\<And>x. x \<in> set xs \<Longrightarrow> \<not> P x) \<Longrightarrow> dropWhile P xs = xs"
  by (cases xs) auto

lemma trim_plain:
  assumes "\<And>c. c \<in> set s \<Longrightarrow> byte c < 128 \<and> \<not> is_whitespace (byte c)"
  shows "str_trim s = s"
proof -
  have chars: "utf8_chars s = map (\<lambda>c. [c]) s" using assms by (intro utf8_chars_ascii) (simp add: list_all_iff)
  have no: "\<not> is_whitespace (code_point x)" if "x \<in> set (utf8_chars s)" for x
    using that assms by (auto simp: chars code_point_def)
  have front: "dropWhile (\<lambda>c. is_whitespace (code_point c)) (utf8_chars s) = utf8_chars s"
    by (rule dropWhile_none) (rule no)
  have rear: "dropWhile (\<lambda>c. is_whitespace (code_point c)) (rev (utf8_chars s)) = rev (utf8_chars s)"
    by (rule dropWhile_none) (simp add: no)
  show ?thesis unfolding str_trim_def Let_def front rear by (simp add: chars)
qed

lemma name_idem:
  assumes "name raw = Inr n"
  shows "name n = Inr n"
proof -
  from assms have ok: "list_all label_ok (split_on (CHR ''.'') n)" "length n \<le> 253" "trim_end_str ''.dhttp.net'' n \<noteq> []"
    and suffix: "ends_with ''.dhttp.net'' n"
    by (auto simp: name_def Let_def ends_with_iff split: if_splits)
  have plain: "byte c < 128 \<and> \<not> is_whitespace (byte c) \<and> \<not> is_ascii_uppercase c" if "c \<in> set n" for c
    by (rule name_char_plain) (rule name_chars [OF ok(1) that])
  have "str_trim n = n" using plain by (intro trim_plain) blast
  moreover have "to_ascii_lowercase n = n" using plain by (intro lower_plain) blast
  moreover have "\<not> ends_with ''~'' n" using suffix by (auto simp: ends_with_iff append_eq_append_conv2 Cons_eq_append_conv)
  ultimately show ?thesis using ok suffix by (simp add: name_def Let_def not_less)
qed

section \<open>Pages\<close>

lemma page_offset: "0 \<le> x \<Longrightarrow> x < 2 ^ 64 \<Longrightarrow> unat (of_int x :: 64 word) = nat x"
  by (simp add: unat_eq_nat_uint uint_word_of_int)

lemma page_items_slice:
  assumes "1 \<le> p" and "1 \<le> width" and "(p - 1) * width < 2 ^ 64"
  shows "page_items p width items = take (nat width) (drop (nat ((p - 1) * width)) items)"
  unfolding page_items_def by (subst page_offset) (use assms in simp_all)

text \<open>
  What the access service answers to the pages of its list: the slice of a hundred items, their total
  number and the deletions.
\<close>

definition serves_list :: "'w contact_env \<Rightarrow> (string \<times> string) option \<Rightarrow> (int \<Rightarrow> string) \<Rightarrow> json list \<Rightarrow> json \<Rightarrow> bool" where
  "serves_list env visitor uri items deleted = (\<forall>k w. 1 \<le> k \<longrightarrow> ce_uri_ok env (uri k) \<and>
     (\<exists>bytes v w'. ce_router env ''GET'' (uri k) None visitor w = ((200, Inr bytes), w') \<and> bytes \<noteq> [] \<and> parse_json (ce_pki env) bytes = Some v \<and>
        jidx v ''items'' = JArr (take 100 (drop (nat (100 * (k - 1))) items)) \<and> jidx v ''total'' = JInt (int (length items)) \<and>
        jidx v ''deleted'' = deleted))"

lemma native_page:
  assumes "serves_list env visitor uri items deleted" and "1 \<le> k"
  obtains v w' where "native env visitor ''GET'' (uri k) None w = (Inr (200, v), w')"
    "jidx v ''items'' = JArr (take 100 (drop (nat (100 * (k - 1))) items))" "jidx v ''total'' = JInt (int (length items))" "jidx v ''deleted'' = deleted"
proof -
  from assms obtain bytes v w' where "ce_uri_ok env (uri k)" "ce_router env ''GET'' (uri k) None visitor w = ((200, Inr bytes), w')" "bytes \<noteq> []"
    "parse_json (ce_pki env) bytes = Some v"
    "jidx v ''items'' = JArr (take 100 (drop (nat (100 * (k - 1))) items))" "jidx v ''total'' = JInt (int (length items))" "jidx v ''deleted'' = deleted"
    unfolding serves_list_def by metis
  then show ?thesis by (intro that [of v w']) (simp_all add: native_def router_answer_def is_success_def)
qed

lemma collect_pages_from:
  assumes law: "serves_list env visitor uri items deleted" and small: "int (length items) < 2 ^ 63"
  shows "\<exists>w'. collect_pages env visitor uri (take (100 * n) items) (int n + 1) w = Some (Inr (items, deleted), w')"
proof (induction "length items - 100 * n" arbitrary: n w rule: less_induct)
  case less
  obtain v w' where page: "native env visitor ''GET'' (uri (int n + 1)) None w = (Inr (200, v), w')"
    "jidx v ''items'' = JArr (take 100 (drop (nat (100 * (int n + 1 - 1))) items))" "jidx v ''total'' = JInt (int (length items))" "jidx v ''deleted'' = deleted"
    by (rule native_page [OF law, of "int n + 1" w]) auto
  have offset: "nat (100 * (int n + 1 - 1)) = 100 * n" by simp
  note entries = page(2) [unfolded offset]
  have more: "take (100 * n) items @ take 100 (drop (100 * n) items) = take (100 * Suc n) items"
    by (simp add: take_add [symmetric] add.commute)
  have total: "i64_or_zero (jidx v ''total'') = int (length items)" using small by (simp add: page(3) i64_or_zero_def)
  show ?case
  proof (cases "length items \<le> 100 * Suc n")
    case True
    then have "take 100 (drop (100 * n) items) = [] \<or> (int n + 1) * 100 \<ge> int (length items)" by simp
    with True show ?thesis
      by (subst collect_pages.simps) (simp add: page(1,4) entries total more del: take_eq_Nil)
  next
    case False
    then have "take 100 (drop (100 * n) items) \<noteq> []" "\<not> (int n + 1) * 100 \<ge> int (length items)" by simp_all
    moreover have "\<exists>w''. collect_pages env visitor uri (take (100 * Suc n) items) (int (Suc n) + 1) w' = Some (Inr (items, deleted), w'')"
      by (rule less) (use False in simp)
    ultimately show ?thesis
      by (subst collect_pages.simps) (simp add: page(1) entries total more del: take_eq_Nil)
  qed
qed

section \<open>Deletion\<close>

text \<open>
  A request after a deletion that was rolled back: everything as before, but a lease that had run out may
  be gone, and a request that was revoked before keeps the time of the attempt.
\<close>

definition same_request :: "outbound \<Rightarrow> outbound \<Rightarrow> bool" where
  "same_request r r' = (r'\<lparr>ob_lease := ob_lease r, ob_updated := ob_updated r\<rparr> = r \<and>
     (ob_lease r' = ob_lease r \<or> ob_lease r' = None) \<and> (ob_status r \<noteq> Revoked \<longrightarrow> ob_updated r' = ob_updated r))"

lemma same_request_refl [simp]: "same_request r r"
  by (simp add: same_request_def)

lemma same_request_id: "same_request r r' \<Longrightarrow> ob_id r' = ob_id r \<and> ob_target r' = ob_target r \<and> ob_status r' = ob_status r"
  by (cases r, cases r') (auto simp: same_request_def)

lemma open_unique_rel:
  assumes "list_all2 (\<lambda>r r'. ob_target r' = ob_target r \<and> (is_open r' \<longrightarrow> is_open r)) rows rows'" and "open_unique rows"
  shows "open_unique rows'"
  using assms
proof (induction rule: list_all2_induct)
  case (Cons r rows r' rows')
  have "ob_target ` set (filter is_open rows') \<subseteq> ob_target ` set (filter is_open rows)"
  proof
    fix t assume "t \<in> ob_target ` set (filter is_open rows')"
    then obtain i where "i < length rows'" "is_open (rows' ! i)" "t = ob_target (rows' ! i)" by (auto simp: in_set_conv_nth)
    with Cons.hyps(2) show "t \<in> ob_target ` set (filter is_open rows)"
      by (auto simp: list_all2_conv_all_nth image_iff in_set_conv_nth)
  qed
  moreover have "open_unique rows'" using Cons by (auto simp: open_unique_def split: if_splits)
  ultimately show ?case using Cons.hyps(1) Cons.prems by (auto simp: open_unique_def split: if_splits)
qed (simp add: open_unique_def)

text \<open>The rows a revocation marks, and what it remembers of them.\<close>

definition revoke_row :: "int \<Rightarrow> outbound \<Rightarrow> outbound" where
  "revoke_row now r = r\<lparr>ob_status := Revoked, ob_lease := None, ob_updated := now\<rparr>"

lemma revoke_one_Inr:
  assumes "revoke_one now n (previous, rows) = Inr (previous', rows')"
  shows "previous' = previous @ map (\<lambda>r. (ob_id r, ob_status r, ob_updated r)) (filter (\<lambda>r. ob_target r = n \<and> ob_status r \<noteq> Revoked) rows)"
    and "rows' = map (\<lambda>r. if ob_target r = n then revoke_row now r else r) rows"
  using assms by (auto simp: revoke_one_def Let_def try_r_Inr_iff update_where_def revoke_row_def)

lemma revoke_rows:
  assumes "fold_r (revoke_one now) names (previous, rows) = Inr (previous', rows')"
  shows "rows' = map (\<lambda>r. if ob_target r \<in> set names then revoke_row now r else r) rows"
  using assms
proof (induction names arbitrary: previous rows)
  case (Cons n names)
  then obtain p1 rows1 where one: "revoke_one now n (previous, rows) = Inr (p1, rows1)" and rest: "fold_r (revoke_one now) names (p1, rows1) = Inr (previous', rows')"
    by (auto simp: try_r_Inr_iff)
  show ?case unfolding Cons.IH [OF rest] revoke_one_Inr(2) [OF one] by (auto simp: revoke_row_def)
qed simp

lemma revoke_entries:
  assumes "fold_r (revoke_one now) names (previous, rows) = Inr (previous', rows')"
  shows "set previous' = set previous \<union>
    (\<lambda>a. (ob_id a, ob_status a, ob_updated a)) ` {a \<in> set rows. ob_target a \<in> set names \<and> ob_status a \<noteq> Revoked}"
  using assms
proof (induction names arbitrary: previous rows)
  case (Cons n names)
  then obtain p1 rows1 where one: "revoke_one now n (previous, rows) = Inr (p1, rows1)" and rest: "fold_r (revoke_one now) names (p1, rows1) = Inr (previous', rows')"
    by (auto simp: try_r_Inr_iff)
  have "{a \<in> set rows1. ob_target a \<in> set names \<and> ob_status a \<noteq> Revoked} =
      {a \<in> set rows. ob_target a \<noteq> n \<and> ob_target a \<in> set names \<and> ob_status a \<noteq> Revoked}"
    unfolding revoke_one_Inr(2) [OF one] by (auto simp: revoke_row_def split: if_splits)
  then show ?case unfolding Cons.IH [OF rest] revoke_one_Inr(1) [OF one] by auto
qed simp

text \<open>A request after the rollback of a deletion that found \<open>rows0\<close>: one that the deletion revoked gets its state back.\<close>

definition given_back :: "string list \<Rightarrow> outbound list \<Rightarrow> outbound \<Rightarrow> outbound" where
  "given_back names rows0 b =
     (case find (\<lambda>a. ob_id a = ob_id b \<and> ob_target a \<in> set names \<and> ob_status a \<noteq> Revoked) rows0 of
        None \<Rightarrow> b | Some a \<Rightarrow> b\<lparr>ob_status := ob_status a, ob_updated := ob_updated a\<rparr>)"

definition put_back :: "revoked \<Rightarrow> outbound \<Rightarrow> outbound" where
  "put_back entries b = (case map_of entries (ob_id b) of
     None \<Rightarrow> b
   | Some (state, updated) \<Rightarrow> if ob_status b = Revoked then b\<lparr>ob_status := state, ob_updated := updated\<rparr> else b)"

lemma put_back_keeps: "ob_id (put_back entries b) = ob_id b \<and> ob_target (put_back entries b) = ob_target b \<and> (is_open b \<longrightarrow> is_open (put_back entries b))"
  by (auto simp: put_back_def is_open_def split: option.splits)

lemma put_back_Cons:
  assumes "i \<notin> fst ` set entries"
  shows "put_back entries (put_back [(i, state, updated)] b) = put_back ((i, state, updated) # entries) b"
proof (cases "ob_id b = i")
  case True
  with assms have "map_of entries (ob_id b) = None" by (simp add: map_of_eq_None_iff)
  with True show ?thesis by (simp add: put_back_def)
qed (simp add: put_back_def)

lemma put_back_open: "open_unique (map (put_back entries) rows) \<Longrightarrow> open_unique rows"
  by (rule open_unique_rel) (use put_back_keeps in \<open>auto simp: list_all2_conv_all_nth\<close>)

lemma restore_rows:
  assumes "distinct (map fst entries)" and "open_unique rows"
  shows "restore_revoked entries rows =
    (if open_unique (map (put_back entries) rows) then Inr (map (put_back entries) rows) else Inl storage_failure)"
  using assms unfolding restore_revoked_def
proof (induction entries arbitrary: rows)
  case Nil
  have "put_back [] = id" by (rule ext) (simp add: put_back_def)
  with Nil show ?case by simp
next
  case (Cons e entries)
  obtain i state updated where e: "e = (i, state, updated)" by (cases e)
  have all: "map (put_back entries) (map (put_back [e]) rows) = map (put_back (e # entries)) rows"
    using Cons.prems(1) put_back_Cons [of i entries state updated] by (simp add: e)
  have one: "restore_one e rows = (if open_unique (map (put_back [e]) rows) then Inr (map (put_back [e]) rows) else Inl storage_failure)"
  proof -
    have "update_where (\<lambda>r. ob_id r = i \<and> ob_status r = Revoked) (\<lambda>r. r\<lparr>ob_status := state, ob_updated := updated\<rparr>) rows = map (put_back [e]) rows"
      by (simp add: update_where_def put_back_def e)
    then show ?thesis by (simp add: restore_one_def e Let_def)
  qed
  show ?case
  proof (cases "open_unique (map (put_back [e]) rows)")
    case True
    with one Cons.IH [OF _ True] Cons.prems(1) show ?thesis unfolding all by simp
  next
    case False
    then have "\<not> open_unique (map (put_back (e # entries)) rows)" unfolding all [symmetric] using put_back_open by blast
    with one False show ?thesis by simp
  qed
qed

lemma find_by_id:
  assumes "distinct (map ob_id rows)" and "a \<in> set rows" and "P a"
  shows "find (\<lambda>r. ob_id r = ob_id a \<and> P r) rows = Some a"
  using assms by (induction rows) (auto simp: image_iff)

lemma put_back_given:
  assumes "distinct (map ob_id rows0)" and "distinct (map fst entries)" and "ob_id b \<in> fst ` set entries \<longrightarrow> ob_status b = Revoked"
    and "set entries = (\<lambda>a. (ob_id a, ob_status a, ob_updated a)) ` {a \<in> set rows0. ob_target a \<in> set names \<and> ob_status a \<noteq> Revoked}"
  shows "put_back entries b = given_back names rows0 b"
proof (cases "map_of entries (ob_id b)")
  case None
  then have "ob_id b \<notin> fst ` set entries" by (simp add: map_of_eq_None_iff)
  then have "find (\<lambda>a. ob_id a = ob_id b \<and> ob_target a \<in> set names \<and> ob_status a \<noteq> Revoked) rows0 = None"
    unfolding assms(4) image_image find_None_iff by (auto simp: image_iff)
  with None show ?thesis by (simp add: put_back_def given_back_def)
next
  case (Some e)
  obtain state updated where e: "e = (state, updated)" by (cases e)
  then have entry: "(ob_id b, state, updated) \<in> set entries" using Some map_of_SomeD by fast
  then obtain a where a: "a \<in> set rows0" "ob_id a = ob_id b" "ob_target a \<in> set names \<and> ob_status a \<noteq> Revoked" "state = ob_status a" "updated = ob_updated a"
    unfolding assms(4) by auto
  have "ob_id b \<in> fst ` set entries" using entry by (force simp: image_iff)
  moreover from find_by_id [OF assms(1) a(1), of "\<lambda>a. ob_target a \<in> set names \<and> ob_status a \<noteq> Revoked"] a(2,3)
  have "find (\<lambda>a. ob_id a = ob_id b \<and> ob_target a \<in> set names \<and> ob_status a \<noteq> Revoked) rows0 = Some a" by simp
  ultimately show ?thesis using Some e a assms(3) by (simp add: put_back_def given_back_def)
qed

text \<open>No step removes a request or changes its target.\<close>

definition request_keys :: "outbound list \<Rightarrow> (nat \<times> string) set" where
  "request_keys rows = (\<lambda>r. (ob_id r, ob_target r)) ` set rows"

lemma request_keys_iff: "(i, t) \<in> request_keys rows \<longleftrightarrow> (\<exists>r \<in> set rows. ob_id r = i \<and> ob_target r = t)"
  by (auto simp: request_keys_def)

lemma update_where_keys: "(\<And>r. ob_id (f r) = ob_id r \<and> ob_target (f r) = ob_target r) \<Longrightarrow> request_keys (update_where P f rows) = request_keys rows"
  unfolding request_keys_def update_where_def set_map image_image by (rule image_cong) auto

lemma expire_keys: "request_keys (expire_requests now rows) = request_keys rows"
  unfolding expire_requests_def by (rule update_where_keys) simp

lemma revoke_keys: "revoke now names rows = Inr (previous, rows') \<Longrightarrow> request_keys rows' = request_keys rows"
proof -
  assume "revoke now names rows = Inr (previous, rows')"
  then have "rows' = map (\<lambda>r. if ob_target r \<in> set names then revoke_row now r else r) rows"
    unfolding revoke_def by (rule revoke_rows)
  then have "request_keys rows' = (\<lambda>r. (ob_id (if ob_target r \<in> set names then revoke_row now r else r),
      ob_target (if ob_target r \<in> set names then revoke_row now r else r))) ` set rows"
    unfolding request_keys_def by (simp only: set_map image_image)
  then show ?thesis unfolding request_keys_def by (simp add: revoke_row_def if_distrib cong: if_cong)
qed

lemma restore_keys: "restore_revoked entries rows = Inr rows' \<Longrightarrow> request_keys rows' = request_keys rows"
  unfolding restore_revoked_def
proof (induction entries arbitrary: rows)
  case (Cons e entries)
  then obtain rows1 where one: "restore_one e rows = Inr rows1" and rest: "fold_r restore_one entries rows1 = Inr rows'" by (auto simp: try_r_Inr_iff)
  have "request_keys rows1 = request_keys rows"
    using one by (cases e) (auto simp: restore_one_def Let_def update_where_keys split: if_splits)
  with Cons.IH [OF rest] show ?case by simp
qed simp

lemma step_keys: "contact_step s s' \<Longrightarrow> request_keys (cs_rows s) \<subseteq> request_keys (cs_rows s')"
proof (induction rule: contact_step.induct)
  case (submitted s d rows)
  then show ?case using expire_keys [of "cs_clock s" "cs_rows s"] by (auto simp: submit_def Let_def request_keys_def split: if_splits)
next
  case (refused s d e rows)
  then show ?case using expire_keys [of "cs_clock s" "cs_rows s"] by (auto simp: submit_def Let_def split: if_splits)
next
  case (claimed s job rows)
  then show ?case using expire_keys [of "cs_clock s" "cs_rows s"] update_where_keys by (cases rule: claim_cases) auto
next
  case (idle s rows)
  then show ?case using expire_keys [of "cs_clock s" "cs_rows s"] by (cases rule: claim_cases) auto
next
  case (bound s i lease cid subject)
  then show ?case by (simp add: bind_contact_def update_where_keys)
next
  case (finished s i lease next_review result rows)
  from finish_Inr(1) [OF this] show ?case by (simp add: update_where_keys)
qed (simp_all add: expire_keys revoke_keys restore_keys)

lemma steps_keys: "contact_step\<^sup>*\<^sup>* s s' \<Longrightarrow> request_keys (cs_rows s) \<subseteq> request_keys (cs_rows s')"
  by (induction rule: rtranclp_induct) (use step_keys in blast)+

text \<open>
  When the rollback is refused: another open request to one of the targets is in its way.
\<close>

lemma given_back_unique:
  assumes ids0: "distinct (map ob_id rows0)" and uniq0: "open_unique rows0" and ids: "distinct (map ob_id rows2)" and uniq: "open_unique rows2"
    and keys: "request_keys rows0 \<subseteq> request_keys rows2"
    and free: "\<not> list_ex (\<lambda>b. is_open b \<and> ob_target b \<in> set names) rows2"
  shows "open_unique (map (given_back names rows0) rows2)"
proof -
  let ?g = "given_back names rows0"
  have g: "ob_id (?g b) = ob_id b" "ob_target (?g b) = ob_target b" for b
    by (auto simp: given_back_def split: option.splits)
  have "distinct (map ob_id (map ?g rows2))" using ids by (simp add: comp_def g)
  note iff = open_unique_iff [OF this]
  have only: "r \<in> set rows2 \<Longrightarrow> r' \<in> set rows2 \<Longrightarrow> is_open r \<Longrightarrow> is_open r' \<Longrightarrow> ob_target r = ob_target r' \<Longrightarrow> ob_id r = ob_id r'" for r r'
    using uniq unfolding open_unique_iff [OF ids] by blast
  have only0: "r \<in> set rows0 \<Longrightarrow> r' \<in> set rows0 \<Longrightarrow> is_open r \<Longrightarrow> is_open r' \<Longrightarrow> ob_target r = ob_target r' \<Longrightarrow> ob_id r = ob_id r'" for r r'
    using uniq0 unfolding open_unique_iff [OF ids0] by blast
  have old: "?g b = b \<and> ob_target b \<notin> set names \<or>
      ob_target b \<in> set names \<and> (\<exists>a \<in> set rows0. ob_id a = ob_id b \<and> ob_target a = ob_target b \<and> is_open a)"
    if b: "b \<in> set rows2" and open_b: "is_open (?g b)" for b
  proof (cases "find (\<lambda>a. ob_id a = ob_id b \<and> ob_target a \<in> set names \<and> ob_status a \<noteq> Revoked) rows0")
    case None
    with open_b b free show ?thesis by (auto simp: given_back_def list_ex_iff)
  next
    case (Some a)
    then have a: "a \<in> set rows0" "ob_id a = ob_id b" "ob_target a \<in> set names" by (auto simp: find_Some_iff)
    have "(ob_id a, ob_target a) \<in> request_keys rows0" unfolding request_keys_def using a(1) by (rule imageI)
    with keys have "(ob_id a, ob_target a) \<in> request_keys rows2" by (rule subsetD)
    then obtain b' where b': "b' \<in> set rows2" "ob_id b' = ob_id a" "ob_target b' = ob_target a"
      unfolding request_keys_iff by blast
    have "inj_on ob_id (set rows2)" using ids by (simp add: distinct_map)
    then have "b' = b" by (rule inj_onD) (use a b b' in simp_all)
    with a b' have "ob_target b = ob_target a" by simp
    moreover have "is_open a" using open_b Some by (simp add: given_back_def is_open_def)
    ultimately show ?thesis using a by metis
  qed
  have same: "ob_id b = ob_id c" if *: "b \<in> set rows2" "c \<in> set rows2" "is_open (?g b)" "is_open (?g c)" "ob_target b = ob_target c" for b c
    using old [OF *(1,3)] old [OF *(2,4)]
  proof (elim disjE conjE bexE)
    assume kept: "?g b = b" "?g c = c"
    have "is_open b" "is_open c" using *(3,4) unfolding kept .
    then show ?thesis by (rule only [OF *(1,2) _ _ *(5)])
  next
    fix a a' assume a: "a \<in> set rows0" "ob_id a = ob_id b" "ob_target a = ob_target b" "is_open a"
      and a': "a' \<in> set rows0" "ob_id a' = ob_id c" "ob_target a' = ob_target c" "is_open a'"
    have "ob_id a = ob_id a'" by (rule only0 [OF a(1) a'(1) a(4) a'(4)]) (simp only: a(3) a'(3) *(5))
    then show ?thesis by (simp only: a(2) a'(2))
  next
    assume "ob_target b \<notin> set names" "ob_target c \<in> set names"
    then show ?thesis unfolding *(5) by blast
  next
    assume "ob_target b \<in> set names" "ob_target c \<notin> set names"
    then show ?thesis unfolding *(5) by blast
  qed
  show ?thesis
    unfolding iff
  proof (intro ballI impI)
    fix x y assume xy: "x \<in> set (map ?g rows2)" "y \<in> set (map ?g rows2)" "is_open x" "is_open y" "ob_target x = ob_target y"
    then obtain b c where b: "b \<in> set rows2" "x = ?g b" and c: "c \<in> set rows2" "y = ?g c" unfolding set_map by blast
    have "ob_id b = ob_id c" by (rule same) (use xy(3-5) b c in \<open>simp_all only: g\<close>)
    then show "ob_id x = ob_id y" by (simp only: b(2) c(2) g)
  qed
qed

lemma pending_entries:
  assumes "contact_inv s" and "entries \<in> set (cs_rollbacks s)"
  shows "distinct (map fst entries)" and "b \<in> set (cs_rows s) \<Longrightarrow> ob_id b \<in> fst ` set entries \<Longrightarrow> ob_status b = Revoked"
proof -
  obtain xs ys where split: "cs_rollbacks s = xs @ entries # ys" using assms(2) by (metis split_list)
  with assms(1) show "distinct (map fst entries)" by (simp add: contact_inv_def queue_inv_def)
  show "ob_status b = Revoked" if "b \<in> set (cs_rows s)" "ob_id b \<in> fst ` set entries"
    using assms(1) that by (auto simp: split contact_inv_def queue_inv_def list_all_iff row_ok_def)
qed

text \<open>The rollback of a deletion in the state the other tasks have left.\<close>

lemma rollback_outcome:
  assumes inv0: "contact_inv s0" and inv2: "contact_inv s2" and revoked: "revoke now names (cs_rows s0) = Inr (cancelled, rows1)"
    and pending: "cancelled \<in> set (cs_rollbacks s2)" and keys: "request_keys (cs_rows s0) \<subseteq> request_keys (cs_rows s2)"
  shows "restore_revoked cancelled (cs_rows s2) = Inr (map (given_back names (cs_rows s0)) (cs_rows s2)) \<or>
    restore_revoked cancelled (cs_rows s2) = Inl storage_failure \<and> list_ex (\<lambda>b. is_open b \<and> ob_target b \<in> set names) (cs_rows s2)"
proof -
  have ids: "distinct (map ob_id (cs_rows s0))" "open_unique (cs_rows s0)" "distinct (map ob_id (cs_rows s2))" "open_unique (cs_rows s2)"
    using inv0 inv2 by (simp_all add: contact_inv_def queue_inv_def)
  note entries = pending_entries [OF inv2 pending] and known = revoke_entries [OF revoked [unfolded revoke_def]]
  have "put_back cancelled b = given_back names (cs_rows s0) b" if "b \<in> set (cs_rows s2)" for b
    using that entries known by (intro put_back_given ids) auto
  then have "map (put_back cancelled) (cs_rows s2) = map (given_back names (cs_rows s0)) (cs_rows s2)" by simp
  with restore_rows [OF entries(1) ids(4)] given_back_unique [OF ids keys] show ?thesis by auto
qed

section \<open>The resources as steps of the queue\<close>

lemma keeps_native: "clock_forward env \<Longrightarrow> keeps (later env) (native env visitor method uri body)"
  by (rule keepsI) (auto simp: native_def split: if_splits prod.splits dest: forward_calls(2))

lemma keeps_get_contact: "clock_forward env \<Longrightarrow> keeps (later env) (get_contact env cd rq entries)"
  by (rule keepsI) (auto simp: get_contact_def split: sum.splits prod.splits option.splits if_splits dest!: keepsD [OF keeps_native])

lemma keeps_manager: "clock_forward env \<Longrightarrow> keeps (later env) (is_manager env visitor)"
  by (rule keepsI) (auto simp: is_manager_def split: option.splits sum.splits prod.splits dest: forward_calls(1))

lemma collect_pages_later:
  "collect_pages env visitor uri items k w = Some p \<Longrightarrow> clock_forward env \<longrightarrow> later env w (snd p)"
proof (rule collect_pages.raw_induct [where P = "\<lambda>env visitor uri items k w p. clock_forward env \<longrightarrow> later env w (snd p)"])
  fix collect :: "'w contact_env \<Rightarrow> (string \<times> string) option \<Rightarrow> (int \<Rightarrow> string) \<Rightarrow> json list \<Rightarrow> int \<Rightarrow> 'w \<Rightarrow> ((json list \<times> json) cres \<times> 'w) option"
    and env visitor uri items k w p
  assume IH: "\<And>env visitor uri items k w p. collect env visitor uri items k w = Some p \<Longrightarrow> clock_forward env \<longrightarrow> later env w (snd p)"
    and run: "(case native env visitor ''GET'' (uri k) None w of
        (Inl e, w') \<Rightarrow> Some (Inl e, w')
      | (Inr (_, value), w') \<Rightarrow>
         (case as_array (jidx value ''items'') of
            None \<Rightarrow> Some (Inl (500, ''invalid contact list''), w')
          | Some entries \<Rightarrow>
             if entries = [] \<or> k * 100 \<ge> i64_or_zero (jidx value ''total'')
             then Some (Inr (items @ entries, jidx value ''deleted''), w')
             else collect env visitor uri (items @ entries) (k + 1) w')) = Some p"
  show "clock_forward env \<longrightarrow> later env w (snd p)"
  proof
    assume forward: "clock_forward env"
    obtain a w1 where page: "native env visitor ''GET'' (uri k) None w = (a, w1)" by (meson surj_pair)
    then have first: "later env w w1" by (rule keepsD [OF keeps_native [OF forward]])
    from run page have "snd p = w1 \<or> (\<exists>more. collect env visitor uri more (k + 1) w1 = Some p)"
      by (auto split: sum.splits prod.splits option.splits if_splits)
    then have "later env w1 (snd p)"
    proof
      assume "\<exists>more. collect env visitor uri more (k + 1) w1 = Some p"
      then obtain more where "collect env visitor uri more (k + 1) w1 = Some p" ..
      from IH [OF this] forward show ?thesis by simp
    qed simp
    with first show "later env w (snd p)" by (rule clock.goes_on)
  qed
qed

text \<open>
  What the other tasks may do while a deletion waits, as a relation the deletion relies on: steps of the
  queue, up to the time the call returns, and never the end of a rollback that is not theirs.
\<close>

definition others_queue :: "'w contact_env \<Rightarrow> contact_state \<Rightarrow> bool" where
  "others_queue env s = (\<forall>s1 w mine. contact_step\<^sup>*\<^sup>* s s1 \<longrightarrow> cs_clock s1 \<le> ce_clock env w \<longrightarrow>
     is_none_or (\<lambda>c. c \<in> set (cs_rollbacks s1)) mine \<longrightarrow>
     (\<exists>s2. contact_step\<^sup>*\<^sup>* s1 s2 \<and> cs_rows s2 = ce_others env w (cs_rows s1) \<and> cs_clock s2 \<le> ce_clock env w \<and>
        is_none_or (\<lambda>c. c \<in> set (cs_rollbacks s2)) mine))"

lemma others_queue_idle: "ce_others env = (\<lambda>w rows. rows) \<Longrightarrow> others_queue env s"
  unfolding others_queue_def by (metis rtranclp.rtrancl_refl)

lemma others_queue_expiry: "ce_others env = (\<lambda>w. expire_requests (ce_clock env w)) \<Longrightarrow> others_queue env s"
  unfolding others_queue_def
proof (intro allI impI)
  fix s1 :: contact_state and w :: 'a and mine
  assume env: "ce_others env = (\<lambda>w. expire_requests (ce_clock env w))" and t: "cs_clock s1 \<le> ce_clock env w"
    and mine: "is_none_or (\<lambda>c. c \<in> set (cs_rollbacks s1)) mine"
  let ?t = "s1\<lparr>cs_clock := ce_clock env w\<rparr>"
  have "contact_step s1 ?t" using t by (rule contact_step.tick)
  moreover have "contact_step ?t (?t\<lparr>cs_rows := expire_requests (cs_clock ?t) (cs_rows ?t)\<rparr>)" by (rule contact_step.expired)
  ultimately have "contact_step\<^sup>*\<^sup>* s1 (?t\<lparr>cs_rows := expire_requests (cs_clock ?t) (cs_rows ?t)\<rparr>)"
    by (simp add: converse_rtranclp_into_rtranclp)
  then show "\<exists>s2. contact_step\<^sup>*\<^sup>* s1 s2 \<and> cs_rows s2 = ce_others env w (cs_rows s1) \<and> cs_clock s2 \<le> ce_clock env w \<and>
      is_none_or (\<lambda>c. c \<in> set (cs_rollbacks s2)) mine"
    using env mine by (intro exI [of _ "?t\<lparr>cs_rows := expire_requests (cs_clock ?t) (cs_rows ?t)\<rparr>"]) simp
qed

lemma others_queue_later: "others_queue env s \<Longrightarrow> contact_step\<^sup>*\<^sup>* s s1 \<Longrightarrow> others_queue env s1"
  unfolding others_queue_def by (meson rtranclp_trans)

text \<open>What other tasks alone make of the rows.\<close>

abbreviation left_by_others :: "'w contact_env \<Rightarrow> outbound list \<Rightarrow> outbound list \<Rightarrow> bool" where
  "left_by_others env \<equiv> (\<lambda>rows rows'. \<exists>w. rows' = ce_others env w rows)\<^sup>*\<^sup>*"

definition at_state :: "'w contact_env \<Rightarrow> contact_state \<Rightarrow> 'w delivery_state \<Rightarrow> bool" where
  "at_state env s st = (cs_rows s = snd st \<and> cs_clock s = ce_clock env (fst st))"

lemma others_run:
  assumes "others_queue env s" and "at_state env s (w, rows)" and "later env w w'" and "is_none_or (\<lambda>c. c \<in> set (cs_rollbacks s)) mine"
  obtains s1 where "contact_step\<^sup>*\<^sup>* s s1" "at_state env s1 (w', ce_others env w' rows)" "is_none_or (\<lambda>c. c \<in> set (cs_rollbacks s1)) mine"
proof -
  from assms obtain s1 where s1: "contact_step\<^sup>*\<^sup>* s s1" "cs_rows s1 = ce_others env w' rows" "cs_clock s1 \<le> ce_clock env w'"
    "is_none_or (\<lambda>c. c \<in> set (cs_rollbacks s1)) mine"
    unfolding others_queue_def at_state_def by fastforce
  have "contact_step s1 (s1\<lparr>cs_clock := ce_clock env w'\<rparr>)" using s1(3) by (rule contact_step.tick)
  with s1 show ?thesis by (intro that [of "s1\<lparr>cs_clock := ce_clock env w'\<rparr>"]) (simp_all add: at_state_def)
qed

lemma persisted_run:
  assumes "clock_forward env" and "persisted_names env names (w, rows) = (x, st1)" and "others_queue env s" and "at_state env s (w, rows)"
  shows "\<exists>s1. contact_step\<^sup>*\<^sup>* s s1 \<and> at_state env s1 st1 \<and> left_by_others env rows (snd st1)"
  using assms(2-4)
proof (induction names arbitrary: w rows s x)
  case Nil
  then show ?case by (auto simp: ret_s_def)
next
  case (Cons n names)
  obtain y w1 where find: "ce_find env n w = (y, w1)" by (meson surj_pair)
  let ?rows = "ce_others env w1 rows"
  have "later env w w1" using find by (rule forward_calls(5) [OF assms(1)])
  from others_run [OF Cons.prems(2,3) this, of None] obtain s1 where
    s1: "contact_step\<^sup>*\<^sup>* s s1" "at_state env s1 (w1, ?rows)" by (auto simp: is_none_or_def)
  have one: "left_by_others env rows ?rows" by blast
  from Cons.prems(1) find consider "st1 = (w1, ?rows)" | x' where "persisted_names env names (w1, ?rows) = (x', st1)"
    by (auto simp: try_s_def ret_s_def Let_def split: sum.splits prod.splits if_splits)
  then show ?case
  proof cases
    case 1
    with s1 one show ?thesis by auto
  next
    case 2
    from Cons.IH [OF this others_queue_later [OF Cons.prems(2) s1(1)] s1(2)] s1(1) one show ?thesis
      by (metis (no_types, lifting) rtranclp_trans)
  qed
qed

text \<open>A handler that may draw the next id: the submission takes it from the state of the queue.\<close>

definition serves :: "'w contact_env \<Rightarrow> nat \<Rightarrow> 'w delivery_state \<Rightarrow> 'w delivery_state \<Rightarrow> bool" where
  "serves env i st st' = (\<forall>s. at_state env s st \<longrightarrow> others_queue env s \<longrightarrow> cs_next s = i \<longrightarrow>
     (\<exists>s'. contact_step\<^sup>*\<^sup>* s s' \<and> at_state env s' st'))"

lemma serves_after:
  assumes "follows env st st1" and "serves env i st1 st2"
  shows "serves env i st st2"
  using assms unfolding follows_def serves_def at_state_def by (metis rtranclp_trans others_queue_later)

lemma follows_serves: "follows env st st' \<Longrightarrow> serves env i st st'"
  unfolding follows_def serves_def at_state_def by blast

lemma submit_serves:
  assumes "submit (ce_clock env w) i d rows = (res, rows')"
  shows "serves env i (w, rows) (w, rows')"
  unfolding serves_def
proof (intro allI impI)
  fix s :: contact_state
  assume "at_state env s (w, rows)" and next_id: "cs_next s = i"
  then have s: "cs_rows s = rows" "cs_clock s = ce_clock env w" "cs_next s = i" by (simp_all add: at_state_def)
  show "\<exists>s'. contact_step\<^sup>*\<^sup>* s s' \<and> at_state env s' (w, rows')"
  proof (cases res)
    case (Inl e)
    with assms s have "contact_step s (s\<lparr>cs_rows := rows'\<rparr>)" by (intro contact_step.refused [of _ d e]) simp
    with s show ?thesis by (intro exI [of _ "s\<lparr>cs_rows := rows'\<rparr>"]) (auto simp: at_state_def)
  next
    case (Inr u)
    with assms s have "contact_step s (s\<lparr>cs_rows := rows', cs_next := cs_next s + 1\<rparr>)" by (intro contact_step.submitted [of _ d]) simp
    with s show ?thesis by (intro exI [of _ "s\<lparr>cs_rows := rows', cs_next := cs_next s + 1\<rparr>"]) (auto simp: at_state_def)
  qed
qed

lemma keeps_selected: "clock_forward env \<Longrightarrow> keeps (later env) (selected env uri method_ok reg ids target)"
  unfolding selected_def remote_def
  by (cases "as_array ids") (auto split: list.splits intro!: keeps_forms keeps_calls)

lemma keeps_may_offer: "clock_forward env \<Longrightarrow> keeps (later env) (may_offer env visitor offers)"
  by (rule keepsI) (auto simp: may_offer_def split: if_splits prod.splits sum.splits dest: forward_calls(1))

lemma keeps_grant: "clock_forward env \<Longrightarrow> keeps (later env) (grant_offered env target subject requests capabilities valid_before)"
  unfolding grant_offered_def by (intro keeps_forms keeps_calls)

lemma keeps_pin: "clock_forward env \<Longrightarrow> keeps (later env) (pin_contact env target existing requests offers valid_before)"
  unfolding pin_contact_def remote_def by (intro keeps_forms keeps_calls keeps_grant)

lemma keeps_prepare: "clock_forward env \<Longrightarrow> keeps (later env) (prepare_post env cd reg visitor doc target application)"
  unfolding prepare_post_def by (intro keeps_forms keeps_calls keeps_selected keeps_may_offer keeps_pin)

lemma expire_follows: "follows env (w, rows) (w, expire_requests (ce_clock env w) rows)"
proof (rule follows_step)
  fix s :: contact_state assume s: "cs_rows s = rows" "cs_clock s = ce_clock env w"
  have "contact_step s (s\<lparr>cs_rows := expire_requests (cs_clock s) (cs_rows s)\<rparr>)" by (rule contact_step.expired)
  with s show "\<exists>s'. contact_step s s' \<and> cs_rows s' = expire_requests (ce_clock env w) rows \<and> cs_clock s' = cs_clock s \<and> cs_next s' = cs_next s"
    by (intro exI [of _ "s\<lparr>cs_rows := expire_requests (cs_clock s) (cs_rows s)\<rparr>"]) simp
qed

lemma post_contact_serves:
  assumes forward: "clock_forward env" and run: "post_contact env cd reg i random rq st = (r, st')"
  shows "serves env i st st'"
proof -
  let ?a = "case random of Inl _ \<Rightarrow> [] | Inr a \<Rightarrow> a"
  let ?prepare = "\<lambda>doc target. on_world (prepare_post env cd reg (cr_visitor rq) doc target ?a)"
  consider (refused) "st' = st"
    | (passed) doc where "on_world (native env (cr_visitor rq) ''POST'' ''/std/contact'' (Some doc)) st = (r, st')"
    | (failed) doc target e where "?prepare doc target st = (Inl e, st')"
    | (queued) doc target pinned draft st1 where "?prepare doc target st = (Inr (pinned, draft), st1)"
        "st' = (fst st1, snd (submit (ce_clock env (fst st1)) i draft (snd st1))) \<or> st' = (fst st1, expire_requests (ce_clock env (fst st1)) (snd st1))"
    using run unfolding post_contact_def try_s_def ret_s_def
    by (auto split: sum.splits option.splits prod.splits)
  then show ?thesis
  proof cases
    case refused
    then show ?thesis by (simp add: follows_serves queue.stays)
  next
    case passed
    then show ?thesis by (intro follows_serves keepsD [OF keeps_on_world [OF keeps_native [OF forward]]])
  next
    case failed
    then show ?thesis by (intro follows_serves keepsD [OF keeps_on_world [OF keeps_prepare [OF forward]]])
  next
    case queued
    have first: "follows env st st1" using queued(1) by (rule keepsD [OF keeps_on_world [OF keeps_prepare [OF forward]]])
    from queued(2) show ?thesis
    proof
      assume st': "st' = (fst st1, snd (submit (ce_clock env (fst st1)) i draft (snd st1)))"
      have "serves env i (fst st1, snd st1) st'"
        unfolding st' by (rule submit_serves [where res = "fst (submit (ce_clock env (fst st1)) i draft (snd st1))"]) simp
      with first show ?thesis by (simp add: serves_after)
    next
      assume st': "st' = (fst st1, expire_requests (ce_clock env (fst st1)) (snd st1))"
      have "follows env (fst st1, snd st1) st'" unfolding st' by (rule expire_follows)
      with first show ?thesis by (auto intro: follows_serves queue.goes_on)
    qed
  qed
qed

text \<open>
  A run of a deletion. It ends early, with nothing but what others did; or it revokes in a state \<open>s0\<close> and ends
  in a state \<open>s2\<close> that others have made of it, where it still has the cancelled requests to put back.
\<close>

lemma delete_run:
  assumes forward: "clock_forward env" and run: "delete_contacts env cd rq (w, rows) = (r, st')"
    and others: "others_queue env s" and start: "at_state env s (w, rows)"
  obtains (early) e s0 where "r = Inl e" "contact_step\<^sup>*\<^sup>* s s0" "at_state env s0 st'" "left_by_others env rows (snd st')"
  | (later) names cancelled rows1 w2 s0 s2 where "deleted_names env cd rq = Inr names" "contact_step\<^sup>*\<^sup>* s s0" "left_by_others env rows (cs_rows s0)"
      "revoke (cs_clock s0) names (cs_rows s0) = Inr (cancelled, rows1)"
      "contact_step\<^sup>*\<^sup>* s0 s2" "left_by_others env rows1 (cs_rows s2)" "cs_clock s2 = ce_clock env w2" "cancelled \<in> set (cs_rollbacks s2)"
      "case r of Inr _ \<Rightarrow> st' = (w2, cs_rows s2)
       | Inl _ \<Rightarrow> st' = (w2, case restore_revoked cancelled (cs_rows s2) of Inl _ \<Rightarrow> cs_rows s2 | Inr rows3 \<Rightarrow> rows3)"
proof (cases "deleted_names env cd rq")
  case (Inl e)
  with run have "r = Inl e" "st' = (w, rows)" by (simp_all add: delete_contacts_def)
  with start show ?thesis by (intro early [of e s]) simp_all
next
  case names: (Inr names)
  obtain x w1 rows0 where p: "persisted_names env names (w, rows) = (x, (w1, rows0))" by (metis surj_pair)
  from persisted_run [OF forward p others start] obtain s0 where
    s0: "contact_step\<^sup>*\<^sup>* s s0" "at_state env s0 (w1, rows0)" "left_by_others env rows rows0" by auto
  show ?thesis
  proof (cases "\<exists>e. r = Inl e \<and> st' = (w1, rows0)")
    case True
    with s0 early show ?thesis by auto
  next
    case False
    with run names p obtain persisted cancelled rows1 where x: "x = Inr persisted"
      and c: "revoke (ce_clock env w1) names rows0 = Inr (cancelled, rows1)"
      by (cases x; cases "revoke (ce_clock env w1) names rows0") (auto simp: delete_contacts_def)
    have rows0: "cs_rows s0 = rows0" "cs_clock s0 = ce_clock env w1" using s0(2) by (simp_all add: at_state_def)
    let ?s1 = "s0\<lparr>cs_rows := rows1, cs_rollbacks := cancelled # cs_rollbacks s0\<rparr>"
    have step: "contact_step s0 ?s1" using c rows0 by (intro contact_step.revoked) simp
    have at1: "at_state env ?s1 (w1, rows1)" using rows0 by (simp add: at_state_def)
    have revoked: "revoke (cs_clock s0) names (cs_rows s0) = Inr (cancelled, rows1)" using c rows0 by simp
    have left0: "left_by_others env rows (cs_rows s0)" using s0(3) rows0 by simp
    note rest = later [OF names s0(1) left0 revoked]
    show ?thesis
    proof (cases "persisted = []")
      case True
      with run names p x c have "r = Inr (204, JNull)" "st' = (w1, rows1)" by (auto simp: delete_contacts_def)
      with step rows0 show ?thesis by (intro rest [of ?s1 w1]) auto
    next
      case False
      obtain reply w2 where n: "native env (cr_visitor rq) ''DELETE'' ''/std/contact'' (Some (JObj [(''names'', JArr (map JStr persisted))])) w1 = (reply, w2)"
        by (meson surj_pair)
      have t: "later env w1 w2" using n by (rule keepsD [OF keeps_native [OF forward]])
      have "contact_step\<^sup>*\<^sup>* s ?s1" using s0(1) step by (rule rtranclp.rtrancl_into_rtrancl)
      then have "others_queue env ?s1" by (rule others_queue_later [OF others])
      from others_run [OF this at1 t, of "Some cancelled"] obtain s2 where
        s2: "contact_step\<^sup>*\<^sup>* ?s1 s2" "at_state env s2 (w2, ce_others env w2 rows1)" "cancelled \<in> set (cs_rollbacks s2)"
        by (auto simp: is_none_or_def)
      then have rows2: "cs_rows s2 = ce_others env w2 rows1" "cs_clock s2 = ce_clock env w2" by (simp_all add: at_state_def)
      show ?thesis
      proof (rule rest [of s2 w2])
        show "contact_step\<^sup>*\<^sup>* s0 s2" using step s2(1) by (rule converse_rtranclp_into_rtranclp)
        show "left_by_others env rows1 (cs_rows s2)" using rows2(1) by blast
        show "case r of Inr _ \<Rightarrow> st' = (w2, cs_rows s2)
          | Inl _ \<Rightarrow> st' = (w2, case restore_revoked cancelled (cs_rows s2) of Inl _ \<Rightarrow> cs_rows s2 | Inr rows3 \<Rightarrow> rows3)"
          using run names p x c False n by (auto simp: delete_contacts_def Let_def rows2(1) split: sum.splits)
      qed (use rows2 s2 in simp_all)
    qed
  qed
qed

lemma delete_serves:
  assumes forward: "clock_forward env" and run: "delete_contacts env cd rq (w, rows) = (r, st')"
  shows "serves env i (w, rows) st'"
  unfolding serves_def
proof (intro allI impI)
  fix s :: contact_state
  assume s: "at_state env s (w, rows)" "others_queue env s"
  from forward run s(2,1) show "\<exists>s'. contact_step\<^sup>*\<^sup>* s s' \<and> at_state env s' st'"
  proof (cases rule: delete_run)
    case (later names cancelled rows1 w2 s0 s2)
    have run2: "contact_step\<^sup>*\<^sup>* s s2" using later(2,5) by (rule rtranclp_trans)
    show ?thesis
    proof (cases "st' = (w2, cs_rows s2)")
      case True
      with later(7) run2 show ?thesis by (auto simp: at_state_def)
    next
      case False
      with later(9) obtain rows3 where rows3: "restore_revoked cancelled (cs_rows s2) = Inr rows3" "st' = (w2, rows3)"
        by (auto split: sum.splits)
      let ?s3 = "s2\<lparr>cs_rows := rows3, cs_rollbacks := remove1 cancelled (cs_rollbacks s2)\<rparr>"
      have "contact_step s2 ?s3" using later(8) rows3(1) by (rule contact_step.restored)
      with run2 have "contact_step\<^sup>*\<^sup>* s ?s3" by (rule rtranclp.rtrancl_into_rtrancl)
      with later(7) rows3(2) show ?thesis by (intro exI [of _ ?s3]) (simp add: at_state_def)
    qed
  qed auto
qed

lemma list_contacts_later:
  assumes "clock_forward env" and "list_contacts env cd rq entries w = Some (r, w')"
  shows "later env w w'"
proof (cases "page cd (cr_target rq)")
  case (Inr b)
  with assms(2) obtain p where "collect_pages env (cr_visitor rq)
      (list_uri cd (filter (\<lambda>(k, _). k \<noteq> ''page'' \<and> k \<noteq> ''page_size'') (cd_form_parse cd (case cr_query rq of None \<Rightarrow> [] | Some q \<Rightarrow> q)))) [] 1 w = Some p"
    "w' = snd p"
    by (auto simp: list_contacts_def Let_def split: prod.splits)
  from collect_pages_later [OF this(1)] this(2) assms(1) show ?thesis by simp
qed (use assms(2) in \<open>simp add: list_contacts_def\<close>)

lemma get_dispatch_follows:
  assumes forward: "clock_forward env" and run: "get_dispatch env cd rq manager st = Some (r, st')"
  shows "follows env st st'"
proof (cases "manager \<and> cr_path rq \<noteq> ''/std/contact''")
  case True
  with run obtain w' where "list_contacts env cd rq (drafts (ce_pki env) (snd st)) (fst st) = Some (r, w')" "st' = (w', snd st)"
    by (auto simp: get_dispatch_def)
  with list_contacts_later [OF forward] follows_world [of env "fst st" w' "snd st"] show ?thesis by simp
next
  case False
  with run keepsD [OF keeps_on_world [OF keeps_native [OF forward]]] keepsD [OF keeps_on_world [OF keeps_get_contact [OF forward]]]
  show ?thesis by (auto simp: get_dispatch_def split: if_splits)
qed

lemma dispatch_serves:
  assumes forward: "clock_forward env" and run: "dispatch env cd reg i random rq st = Some (r, st')"
  shows "serves env i st st'"
proof (cases "cross_site rq \<or> length (cr_body rq) > body_limit rq")
  case True
  with run have "st' = st" by (auto simp: dispatch_def split: if_splits)
  then show ?thesis by (simp add: follows_serves queue.stays)
next
  case False
  obtain m st1 where m: "on_world (is_manager env (cr_visitor rq)) st = (m, st1)" by (meson surj_pair)
  have first: "follows env st st1" using m by (rule keepsD [OF keeps_on_world [OF keeps_manager [OF forward]]])
  have "serves env i st1 st'"
  proof (cases m)
    case (Inl e)
    with run m False show ?thesis by (simp add: dispatch_def follows_serves queue.stays)
  next
    case (Inr manager)
    consider (get) "get_dispatch env cd rq manager st1 = Some (r, st')" | (del) "delete_contacts env cd rq (fst st1, snd st1) = (r, st')"
      | (post) "post_contact env cd reg i random rq st1 = (r, st')" | (other) "st' = st1"
      using run m Inr False by (auto simp: dispatch_def split: if_splits)
    then show ?thesis
    proof cases
      case get
      then show ?thesis by (intro follows_serves get_dispatch_follows [OF forward])
    next
      case del
      with delete_serves [OF forward] show ?thesis by fastforce
    next
      case post
      then show ?thesis by (rule post_contact_serves [OF forward])
    next
      case other
      then show ?thesis by (simp add: follows_serves queue.stays)
    qed
  qed
  with first show ?thesis by (rule serves_after)
qed

section \<open>Properties of the contact resources\<close>

lemma steps_reachable: "contact_step\<^sup>*\<^sup>* s s' \<Longrightarrow> contact_reachable t0 s \<Longrightarrow> contact_reachable t0 s'"
  by (induction rule: rtranclp_induct) (blast intro: contact_reachable.more)+

text \<open>
  Property C30: every request to the contact resources and every delivery, whatever the access service and the
  peers answer, is a sequence of steps of the queue, so that what holds in its reachable states holds of the
  service; what other tasks do to the queue while a deletion waits are steps of it as well.
\<close>

theorem contact_service_refines:
  assumes "clock_forward env" and "contact_reachable t0 s" and "cs_rows s = rows" and "cs_clock s = ce_clock env w" and "others_queue env s"
    and "deliver env (w, rows) = (d, (w', rows')) \<or> dispatch env cd reg (cs_next s) random rq (w, rows) = Some (r, (w', rows'))"
  shows "\<exists>s'. contact_step\<^sup>*\<^sup>* s s' \<and> contact_reachable t0 s' \<and> cs_rows s' = rows' \<and> cs_clock s' = ce_clock env w'"
proof -
  have "serves env (cs_next s) (w, rows) (w', rows')"
    using assms(6) keepsD [OF deliver_follows [OF assms(1)]] dispatch_serves [OF assms(1)] by (blast intro: follows_serves)
  then obtain s' where s': "contact_step\<^sup>*\<^sup>* s s'" "cs_rows s' = rows'" "cs_clock s' = ce_clock env w'"
    using assms(3,4,5) unfolding serves_def by (auto simp: at_state_def)
  from steps_reachable [OF s'(1) assms(2)] s' show ?thesis by blast
qed

theorem contact_service_refines_witness:
  "\<exists>s'. contact_reachable 1000 s' \<and> cs_rows s' = snd (snd (deliver example_contact_env (1040, example_rows)))"
proof -
  obtain d w' rows' where run: "deliver example_contact_env (1040, example_rows) = (d, (w', rows'))" by (metis surj_pair)
  have "cs_clock example_state = ce_clock example_contact_env 1040" by (simp add: example_state_def example_contact_env_def)
  moreover have "others_queue example_contact_env example_state" by (rule others_queue_idle) (simp add: example_contact_env_def)
  ultimately show ?thesis
    using contact_service_refines [OF example_env_forward example_reachable, of example_rows 1040 d w' rows'] run
    by (auto simp: example_state_def)
qed

lemma left_by_others_idle: "ce_others env = (\<lambda>w rows. rows) \<Longrightarrow> left_by_others env rows rows' \<Longrightarrow> rows' = rows"
  by (rotate_tac 1, induction rule: rtranclp_induct) auto

text \<open>A deletion that was rolled back with nobody else at work.\<close>

lemma given_back_same:
  assumes "distinct (map ob_id rows)"
  shows "list_all2 same_request rows (map (given_back names rows) (map (\<lambda>r. if ob_target r \<in> set names then revoke_row now r else r) rows))"
proof -
  have "same_request a (given_back names rows (if ob_target a \<in> set names then revoke_row now a else a))" if a: "a \<in> set rows" for a
  proof (cases "ob_target a \<in> set names \<and> ob_status a \<noteq> Revoked")
    case True
    from find_by_id [OF assms a, of "\<lambda>r. ob_target r \<in> set names \<and> ob_status r \<noteq> Revoked"] True
    show ?thesis by (simp add: given_back_def revoke_row_def same_request_def)
  next
    case False
    have "find (\<lambda>r. ob_id r = ob_id a \<and> ob_target r \<in> set names \<and> ob_status r \<noteq> Revoked) rows = None"
    proof -
      have "r = a" if "r \<in> set rows" "ob_id r = ob_id a" for r using assms a that by (auto simp: distinct_map dest: inj_onD)
      with False show ?thesis by (auto simp: find_None_iff)
    qed
    with False show ?thesis by (auto simp: given_back_def revoke_row_def same_request_def)
  qed
  then show ?thesis by (simp add: list_all2_map2 list_all2_same)
qed

text \<open>
  Property C31: a deletion happens completely or not at all, up to what other tasks do to the queue while the
  access service is asked. Either it is refused and changes nothing itself; or it revokes the requests to the
  named targets, no other, and that stays where the deletion succeeds. Where it fails, every request it revoked
  gets its state back, whatever others did to the queue meanwhile, unless one of them opened another request to
  a named target: then the rollback is refused and the requests stay revoked. With nobody else at work a failed
  deletion leaves every request in its state (a lease that had run out may be gone).
\<close>

theorem contact_delete_all_or_nothing:
  assumes "clock_forward env" and "contact_reachable t0 s" and "cs_rows s = rows" and "cs_clock s = ce_clock env w" and "others_queue env s"
    and "delete_contacts env cd rq (w, rows) = (r, (w', rows'))"
  shows "((\<exists>e. r = Inl e \<and> left_by_others env rows rows') \<or>
     (\<exists>names now rows0 rows2. deleted_names env cd rq = Inr names \<and> left_by_others env rows rows0 \<and>
        left_by_others env (map (\<lambda>r. if ob_target r \<in> set names then revoke_row now r else r) rows0) rows2 \<and>
        (case r of Inr _ \<Rightarrow> rows' = rows2
         | Inl _ \<Rightarrow> rows' = map (given_back names rows0) rows2 \<or>
             rows' = rows2 \<and> list_ex (\<lambda>b. is_open b \<and> ob_target b \<in> set names) rows2))) \<and>
    (ce_others env = (\<lambda>w rows. rows) \<longrightarrow> (case r of
        Inl _ \<Rightarrow> list_all2 same_request rows rows'
      | Inr _ \<Rightarrow> \<exists>names now. deleted_names env cd rq = Inr names \<and>
          rows' = map (\<lambda>r. if ob_target r \<in> set names then revoke_row now r else r) rows))"
  (is "?all \<and> (?idle \<longrightarrow> ?alone)")
proof -
  have start: "at_state env s (w, rows)" using assms(3,4) by (simp add: at_state_def)
  have ids: "distinct (map ob_id rows)"
    using reachable_inv [OF assms(2)] assms(3) by (auto simp: contact_inv_def queue_inv_def)
  from assms(1,6,5) start show ?thesis
  proof (cases rule: delete_run)
    case (early e s0)
    then have "?all" by auto
    moreover have "rows' = rows" if "?idle" using early(4) left_by_others_idle [OF that] by simp
    ultimately show ?thesis using early(1) by (auto simp: list_all2_same)
  next
    case (later names cancelled rows1 w2 s0 s2)
    let ?mark = "map (\<lambda>r. if ob_target r \<in> set names then revoke_row (cs_clock s0) r else r)"
    have r0: "contact_reachable t0 s0" using steps_reachable [OF later(2) assms(2)] .
    have r2: "contact_reachable t0 s2" using steps_reachable [OF later(5) r0] .
    have rows1: "rows1 = ?mark (cs_rows s0)" using later(4) unfolding revoke_def by (rule revoke_rows)
    note undone = rollback_outcome [OF reachable_inv [OF r0] reachable_inv [OF r2] later(4,8) steps_keys [OF later(5)]]
    have out: "case r of Inr _ \<Rightarrow> rows' = cs_rows s2
       | Inl _ \<Rightarrow> rows' = map (given_back names (cs_rows s0)) (cs_rows s2) \<or>
           rows' = cs_rows s2 \<and> list_ex (\<lambda>b. is_open b \<and> ob_target b \<in> set names) (cs_rows s2)"
      using later(9) undone by (auto split: sum.splits)
    then have "?all" using later(1,3,6) rows1 by blast
    moreover have "?alone" if "?idle"
    proof -
      note idle = left_by_others_idle [OF that]
      have eq: "cs_rows s0 = rows" "cs_rows s2 = ?mark rows" using idle [OF later(3)] idle [OF later(6)] rows1 by simp_all
      have "\<not> list_ex (\<lambda>b. is_open b \<and> ob_target b \<in> set names) (?mark rows)"
        by (auto simp: list_ex_iff revoke_row_def is_open_def)
      with out given_back_same [OF ids, of names "cs_clock s0"] later(1) show ?thesis
        unfolding eq by (cases r) auto
    qed
    ultimately show ?thesis by blast
  qed
qed

definition example_codec :: codec where
  "example_codec = \<lparr>cd_form_parse = (\<lambda>q. if q = [] then [] else [(''name'', q)]), cd_form_print = (\<lambda>ps. concat (map snd ps)), cd_lower = to_ascii_lowercase,
     cd_print = (\<lambda>_. ''{}''), cd_uri = (\<lambda>_. True), cd_method = (\<lambda>_. True)\<rparr>"

definition example_deletion :: contact_request where
  "example_deletion = \<lparr>cr_method = ''DELETE'', cr_path = ''/std/contact'', cr_query = Some ''bob'', cr_fetch_site = None, cr_visitor = None, cr_body = []\<rparr>"

lemma example_trim: "trim_end_str ''.dhttp.net'' ''bob.dhttp.net'' = ''bob''"
proof -
  have "trim_end_str ''.dhttp.net'' ''bob'' = ''bob''" by (subst trim_end_str.simps) (simp add: ends_with_def starts_with_def)
  then show ?thesis by (subst trim_end_str.simps) (simp add: ends_with_def starts_with_def)
qed

lemma example_name: "name ''bob'' = Inr ''bob.dhttp.net''"
proof -
  have "str_trim ''bob'' = ''bob''" by (simp add: str_eval str_trim_def)
  moreover have "to_ascii_lowercase ''bob'' = ''bob''" by (simp add: to_ascii_lowercase_def is_ascii_uppercase_def byte_def)
  moreover have "list_all label_ok (split_on (CHR ''.'') ''bob.dhttp.net'')"
    by (simp add: label_ok_def starts_with_def ends_with_def is_ascii_lowercase_def is_ascii_digit_def byte_def)
  ultimately show ?thesis by (simp add: name_def Let_def example_trim ends_with_def starts_with_def)
qed

lemma example_deleted_names: "deleted_names env example_codec example_deletion = Inr [''bob.dhttp.net'']"
  by (simp add: deleted_names_def parameter_def example_codec_def example_deletion_def cr_target_def example_name)

lemmas deletion_eval = delete_contacts_def example_deleted_names example_contact_env_def try_s_def ret_s_def native_def router_answer_def is_success_def
  revoke_def revoke_one_def restore_revoked_def restore_one_def storage_failure_def example_state_def example_rows_def example_first_def
  record_outcome_def new_request_def example_draft_def update_where_def open_unique_def is_open_def

theorem contact_delete_all_or_nothing_witness:
  "\<exists>w' rows'. delete_contacts (example_contact_env\<lparr>ce_router := (\<lambda>_ _ _ _ w. ((500, Inr ''down''), w))\<rparr>) example_codec example_deletion
     (1200, cs_rows example_state) = (Inl (500, ''down''), (w', rows')) \<and> list_all2 same_request (cs_rows example_state) rows'"
proof -
  let ?env = "example_contact_env\<lparr>ce_router := (\<lambda>_ _ _ _ w. ((500, Inr ''down''), w))\<rparr>"
  let ?s = "example_state\<lparr>cs_clock := 1200\<rparr>"
  have "\<exists>st'. delete_contacts ?env example_codec example_deletion (1200, cs_rows example_state) = (Inl (500, ''down''), st')"
    by (simp add: deletion_eval)
  then obtain w' rows' where run: "delete_contacts ?env example_codec example_deletion (1200, cs_rows example_state) = (Inl (500, ''down''), (w', rows'))"
    by (metis surj_pair)
  have forward: "clock_forward ?env" by (auto simp: clock_forward_def example_contact_env_def)
  have idle: "ce_others ?env = (\<lambda>w rows. rows)" by (simp add: example_contact_env_def)
  have "contact_step example_state ?s" by (intro contact_step.tick) (simp add: example_state_def)
  then have reached: "contact_reachable 1000 ?s" using contact_reachable.more [OF example_reachable] by blast
  have now: "cs_clock ?s = ce_clock ?env 1200" by (simp add: example_contact_env_def)
  have rows: "cs_rows ?s = cs_rows example_state" by simp
  from contact_delete_all_or_nothing [OF forward reached rows now others_queue_idle [OF idle] run] idle run show ?thesis by auto
qed

text \<open>
  The database is free while the access service is asked. A request that is submitted in that time to the same
  target takes its place: when the access service then refuses the deletion, the rollback violates the unique
  index, nothing is put back, and the deletion that failed has revoked the requests all the same.
\<close>

lemma contact_delete_race:
  "let env = example_contact_env\<lparr>ce_router := (\<lambda>_ _ _ _ w. ((500, Inr ''down''), w)),
         ce_others := (\<lambda>w rows. if list_ex is_open rows then rows else snd (submit w 3 example_draft rows))\<rparr>;
       (r, (_, rows)) = delete_contacts env example_codec example_deletion (1200, cs_rows example_state) in
   r = Inl storage_failure \<and> map ob_status (cs_rows example_state) = [Active, Queued] \<and> map ob_status rows = [Revoked, Revoked, Queued]"
  by (simp add: deletion_eval submit_def expire_requests_def)

text \<open>
  Property C32: the list of contacts is collected completely. When the access service serves its list in pages of a
  hundred items, the collection of the pages ends and the reply is made of exactly that list, in its order.
\<close>

theorem contact_list_complete:
  assumes "page cd (cr_target rq) = Inr (p, width)"
    and "params = filter (\<lambda>(k, _). k \<noteq> ''page'' \<and> k \<noteq> ''page_size'') (cd_form_parse cd (case cr_query rq of None \<Rightarrow> [] | Some q \<Rightarrow> q))"
    and "serves_list env (cr_visitor rq) (list_uri cd params) items deleted" and "int (length items) < 2 ^ 63"
  shows "\<exists>w'. list_contacts env cd rq entries w = Some (list_reply cd (cr_target rq) entries p width (items, deleted), w')"
  using collect_pages_from [OF assms(3,4), of 0 w] assms(1,2) by (auto simp: list_contacts_def Let_def)

definition example_listing :: contact_request where
  "example_listing = \<lparr>cr_method = ''GET'', cr_path = ''/std/contact/list'', cr_query = None, cr_fetch_site = None, cr_visitor = None, cr_body = []\<rparr>"

definition example_list_env :: "int contact_env" where
  "example_list_env = example_contact_env\<lparr>ce_router := (\<lambda>_ uri _ _ w. ((200, Inr (if uri = ''/std/contact/list?1100'' then ''1'' else ''2'')), w)),
     ce_pki := ce_pki example_contact_env\<lparr>parse_json := (\<lambda>s. Some (JObj [(''deleted'', JArr []), (''items'', JArr (if s = ''1'' then [example_bob] else [])),
        (''total'', JInt 1)]))\<rparr>\<rparr>"

lemma nat_text_one: "nat_text n = ''1'' \<longleftrightarrow> n = 1"
proof (cases "n < 10")
  case True
  then have eq: "nat_text n = [char_of (48 + n)]" by (subst nat_text.simps) simp
  have "char_of (48 + n) = CHR ''1'' \<longleftrightarrow> n = 1"
  proof
    assume "char_of (48 + n) = CHR ''1''"
    then have "byte (char_of (48 + n)) = byte (CHR ''1'')" by (rule arg_cong)
    with True show "n = 1" by (simp add: byte_def)
  qed (simp add: char_of_def bit_0)
  then show ?thesis by (simp add: eq)
next
  case False
  have "nat_text (n div 10) \<noteq> []" by (subst nat_text.simps) simp
  moreover have "nat_text n = nat_text (n div 10) @ [char_of (48 + n mod 10)]" using False by (subst nat_text.simps) simp
  ultimately show ?thesis using False by (cases "nat_text (n div 10)") auto
qed

theorem contact_list_complete_witness:
  "\<exists>w'. list_contacts example_list_env example_codec example_listing [] 1000 =
     Some (list_reply example_codec (cr_target example_listing) [] 1 20 ([example_bob], JArr []), w')"
proof -
  have first: "list_uri example_codec [] k = ''/std/contact/list?1100'' \<longleftrightarrow> k = 1" if "1 \<le> k" for k
  proof -
    have "int_text k = ''1'' \<longleftrightarrow> k = 1"
      using that nat_text_one [of "nat k"] by (auto simp: int_text_def)
    then show ?thesis by (simp add: list_uri_def example_codec_def)
  qed
  have "serves_list example_list_env (cr_visitor example_listing) (list_uri example_codec []) [example_bob] (JArr [])"
    unfolding serves_list_def by (auto simp: example_list_env_def example_contact_env_def first)
  moreover have "page example_codec (cr_target example_listing) = Inr (1, 20)"
    by (simp add: page_def integer_def parameter_def example_codec_def example_listing_def cr_target_def)
  ultimately show ?thesis
    by (intro contact_list_complete [where params = "[]"]) (simp_all add: example_listing_def example_codec_def)
qed

text \<open>
  A page of the list is the slice with its number as long as the offset fits in 64 bits; beyond that
  the offset wraps around, and the page with number 288230376151711745 of 64 items is the first page again.
\<close>

lemma contact_page_offsets:
  assumes "1 \<le> p" and "1 \<le> width"
  shows "((p - 1) * width < 2 ^ 64 \<longrightarrow> page_items p width items = take (nat width) (drop (nat ((p - 1) * width)) items)) \<and>
     page_items 288230376151711745 64 items = page_items 1 64 items"
proof
  show "(p - 1) * width < 2 ^ 64 \<longrightarrow> page_items p width items = take (nat width) (drop (nat ((p - 1) * width)) items)"
    using assms by (intro impI page_items_slice)
  show "page_items 288230376151711745 64 items = page_items 1 64 items" by (simp add: page_items_def)
qed

lemma contact_page_offsets_witness:
  "page_items 2 2 [JInt 1, JInt 2, JInt 3] = [JInt 3] \<and>
   page_items 288230376151711745 64 [JInt 1, JInt 2, JInt 3] = page_items 1 64 [JInt 1, JInt 2, JInt 3]"
  using contact_page_offsets [of 2 2 "[JInt 1, JInt 2, JInt 3]"] by simp

end
