(* ===== verification/Access_Gate.thy ===== *)
theory Access_Gate
  imports Store
begin

text \<open>
  Who may reach what: the authorization layer in front of every route (\<^verbatim>\<open>authorize\<close> of
  \<^verbatim>\<open>src/routes/access.rs\<close>), the check that a request comes from the owner of the identity
  (\<^verbatim>\<open>require_owner\<close> of \<^verbatim>\<open>src/package.rs\<close>) and the forwarding of the owner's requests to other DHTTP
  names (\<^verbatim>\<open>src/routes/outbound.rs\<close>).

  A request carries the facts of its connection as extensions: the handshake of a DHTTP connection, or
  the local authority of a call inside the process, and the visitor that the layer sets. The access
  service, the certificate parser, the DHTTP endpoint and the state they work on (\<open>'w\<close>) are
  parameters. A layer is a function of the handler behind it; the locale \<open>gated\<close> says through which
  requests such a layer lets its handler decide, and composes layers.
\<close>

section \<open>Requests with their connection facts\<close>

record authority =
  au_name :: string
  au_certificates :: "string list"

record handshake =
  hs_local :: "authority option"
  hs_remote :: "authority option"

record visitor =
  vi_name :: string
  vi_subject :: string

datatype frame = FrameData string | FrameTrailers | FrameError string

record web_request = Proxy.request +
  wq_handshake :: "handshake option"
  wq_authority :: "authority option"
  wq_visitor :: "visitor option"
  wq_body :: "frame list"

text \<open>
  The body of a response; \<open>BodyReason\<close> is the canonical reason of the status. The content type that
  axum derives from the kind of the body belongs to the body.
\<close>

datatype reply_body = BodyEmpty | BodyReason | BodyText string | BodyJson json | BodyFile string | BodyStream string

type_synonym reply = "response \<times> reply_body"
type_synonym 'w handler = "web_request \<Rightarrow> 'w \<Rightarrow> reply \<times> 'w"

definition rejected :: "error \<Rightarrow> reply" where
  "rejected e = (reject e, BodyReason)"

record gate_env =
  ge_http :: http_env
  ge_pki :: pki
  ge_subject :: "string \<Rightarrow> string option"
  ge_sequence :: "nat \<Rightarrow> bool"

record endpoint =
  en_name :: string
  en_authority :: "authority res"

section \<open>Layers\<close>

text \<open>
  \<open>run k r w\<close> answers the request \<open>r\<close> in the state \<open>w\<close> with the handler \<open>k\<close> behind it;
  \<open>passes r w q w'\<close> says that the handler may be asked about \<open>q\<close> in \<open>w'\<close>. The law: the handler makes
  no difference except through such questions.
\<close>

locale gated =
  fixes run :: "('q \<Rightarrow> 'w \<Rightarrow> 'a) \<Rightarrow> 'r \<Rightarrow> 'w \<Rightarrow> 'b"
    and passes :: "'r \<Rightarrow> 'w \<Rightarrow> 'q \<Rightarrow> 'w \<Rightarrow> bool"
  assumes only_through: "run k r w \<noteq> run k' r w \<Longrightarrow> \<exists>q w'. passes r w q w' \<and> k q w' \<noteq> k' q w'"
begin

lemma refused: "(\<And>q w'. \<not> passes r w q w') \<Longrightarrow> run k r w = run k' r w"
  using only_through by blast

lemma agree: "(\<And>q w'. passes r w q w' \<Longrightarrow> k q w' = k' q w') \<Longrightarrow> run k r w = run k' r w"
  using only_through by blast

end

text \<open>A layer in front of a layer.\<close>

definition passes_both ::
  "('r \<Rightarrow> 'w \<Rightarrow> 'q \<Rightarrow> 'w \<Rightarrow> bool) \<Rightarrow> ('q \<Rightarrow> 'w \<Rightarrow> 'p \<Rightarrow> 'w \<Rightarrow> bool) \<Rightarrow> 'r \<Rightarrow> 'w \<Rightarrow> 'p \<Rightarrow> 'w \<Rightarrow> bool"
where
  "passes_both outside inside r w p w'' = (\<exists>q w'. outside r w q w' \<and> inside q w' p w'')"

locale gated_twice = outer: gated run passes + inner: gated run' passes'
  for run :: "('q \<Rightarrow> 'w \<Rightarrow> 'a) \<Rightarrow> 'r \<Rightarrow> 'w \<Rightarrow> 'b" and passes
    and run' :: "('p \<Rightarrow> 'w \<Rightarrow> 'c) \<Rightarrow> 'q \<Rightarrow> 'w \<Rightarrow> 'a" and passes'
begin

lemma both_only_through:
  assumes "run (run' k) r w \<noteq> run (run' k') r w"
  shows "\<exists>p w'. passes_both passes passes' r w p w' \<and> k p w' \<noteq> k' p w'"
  using outer.only_through [OF assms] inner.only_through unfolding passes_both_def by blast

end

sublocale gated_twice \<subseteq> both: gated "\<lambda>k. run (run' k)" "passes_both passes passes'"
  by unfold_locales (rule both_only_through)

section \<open>The visitor\<close>

definition subject_of :: "gate_env \<Rightarrow> string list \<Rightarrow> string option" where
  "subject_of env certs = Option.bind (subject_key_of (ge_pki env) certs) (\<lambda>ski. ge_subject env (sk_owner ski))"

definition authority_visitor :: "gate_env \<Rightarrow> authority \<Rightarrow> visitor option res" where
  "authority_visitor env a = (case subject_of env (au_certificates a) of
     Some subject \<Rightarrow> Inr (Some \<lparr>vi_name = au_name a, vi_subject = subject\<rparr>)
   | None \<Rightarrow> Inl Denied)"

definition gate_visitor :: "gate_env \<Rightarrow> web_request \<Rightarrow> visitor option res" where
  "gate_visitor env r = (case wq_handshake r of
     Some handshake \<Rightarrow>
       if hs_local handshake = None then Inl MissingHandshake
       else (case hs_remote handshake of
               Some remote \<Rightarrow> authority_visitor env remote
             | None \<Rightarrow> Inr None)
   | None \<Rightarrow> (case wq_authority r of
       Some local \<Rightarrow> authority_visitor env local
     | None \<Rightarrow> Inl MissingHandshake))"

section \<open>The question to the access service\<close>

text \<open>A frontend is one read-only resource: its pages and assets are asked about as its root.\<close>

definition app_resource :: "web_request \<Rightarrow> string option" where
  "app_resource r =
     map_option (\<lambda>name. ''/app/'' @ name)
       (opt_filter (\<lambda>name. name \<noteq> [])
         (map_option (split_first (CHR ''/''))
           (if rq_meth r = ''GET'' \<or> rq_meth r = ''HEAD'' then strip_prefix ''/app/'' (rq_path r) else None)))"

text \<open>\<^verbatim>\<open>uri.path_and_query().map_or("/", as_str)\<close>.\<close>

definition path_and_query :: "web_request \<Rightarrow> string" where
  "path_and_query r =
     (let s = rq_path r @ (case rq_query r of None \<Rightarrow> [] | Some q \<Rightarrow> ''?'' @ q) in if s = [] then ''/'' else s)"

definition asked_method :: "web_request \<Rightarrow> string" where
  "asked_method r = (if app_resource r \<noteq> None then ''GET'' else rq_meth r)"

definition asked_path :: "web_request \<Rightarrow> string" where
  "asked_path r = (case app_resource r of Some path \<Rightarrow> path | None \<Rightarrow> path_and_query r)"

section \<open>The answer of the access service\<close>

datatype review_action = ReviewAllow | ReviewDeny

text \<open>The review that a request waits for: when it ends, in milliseconds, if ever, and with what.\<close>

record pending_review =
  pr_after :: "nat option"
  pr_answer :: "(string, review_action) result"

text \<open>A review to come back for: its id and the members of \<^verbatim>\<open>PendingReviewResponse\<close>.\<close>

record open_review =
  or_id :: string
  or_members :: "(string \<times> json) list"

datatype auth_result =
    AuthAllowed
  | AuthDenied
  | AuthReviewing open_review
  | AuthWaiting pending_review

datatype auth_error = AuthType string | AuthOther string

type_synonym 'w access_service =
  "string \<Rightarrow> string \<Rightarrow> headers \<Rightarrow> string option \<Rightarrow> string option \<Rightarrow> 'w \<Rightarrow> (auth_error, auth_result) result \<times> 'w"

definition review_outcome :: "pending_review \<Rightarrow> nat \<times> string" where
  "review_outcome p =
     (if is_some_and (\<lambda>t. t \<le> 300 * 1000) (pr_after p) then
        (case pr_answer p of
           Inr ReviewAllow \<Rightarrow> (200, [])
         | Inr ReviewDeny \<Rightarrow> (403, ''review_denied'')
         | Inl _ \<Rightarrow> (503, ''review_unavailable''))
      else (504, ''review_timeout''))"

definition review_reply :: "open_review \<Rightarrow> reply" where
  "review_reply v =
     (\<lparr>rs_status = 202,
       rs_headers = insert_header ''retry-after'' ''3''
         (insert_header ''location'' (''/std/acl/status?id='' @ or_id v)
           (insert_header ''cache-control'' ''no-store'' []))\<rparr>,
      BodyJson (json_set ''status'' (JStr ''pending_review'')
        (JObj (filter (\<lambda>e. fst e \<noteq> ''error'') (or_members v)))))"

text \<open>The decision, or the answer that ends the request.\<close>

definition decide :: "(auth_error, auth_result) result \<Rightarrow> (reply, bool) result" where
  "decide d = (case d of
     Inr AuthAllowed \<Rightarrow> Inr True
   | Inr AuthDenied \<Rightarrow> Inr False
   | Inr (AuthReviewing v) \<Rightarrow> Inl (review_reply v)
   | Inr (AuthWaiting p) \<Rightarrow>
       (case review_outcome p of (status, err) \<Rightarrow>
          if status \<noteq> 200
          then Inl (\<lparr>rs_status = status, rs_headers = [(''cache-control'', ''no-store'')]\<rparr>, BodyJson (JObj [(''error'', JStr err)]))
          else Inr True)
   | Inl (AuthType message) \<Rightarrow> Inl (plain_response 400, BodyText message)
   | Inl (AuthOther _) \<Rightarrow> Inl (plain_response 500, BodyEmpty))"

section \<open>The layer\<close>

definition viewer_headers :: "string \<Rightarrow> reply \<Rightarrow> reply" where
  "viewer_headers name rp = (case rp of (resp, body) \<Rightarrow>
     (resp\<lparr>rs_headers := insert_header ''cache-control'' ''no-store''
        (insert_header ''pishoo-viewer-name'' name (rs_headers resp))\<rparr>, body))"

definition authorize :: "gate_env \<Rightarrow> 'w access_service \<Rightarrow> 'w handler \<Rightarrow> 'w handler" where
  "authorize env auth next r w = (case gate_visitor env r of
     Inl e \<Rightarrow> (rejected e, w)
   | Inr visitor \<Rightarrow>
       (let app_head = (app_resource r \<noteq> None \<and> rq_meth r = ''HEAD'') in
        case auth (asked_method r) (asked_path r) (rq_headers r)
               (map_option vi_name visitor) (map_option vi_subject visitor) w of (answer, w1) \<Rightarrow>
        (case decide answer of
           Inl rp \<Rightarrow> (rp, w1)
         | Inr allowed \<Rightarrow>
             if \<not> allowed then (rejected Denied, w1)
             else (case next (r\<lparr>wq_visitor := visitor\<rparr>) w1 of (rp, w2) \<Rightarrow>
               if app_head then
                 let name = (case visitor of None \<Rightarrow> [] | Some v \<Rightarrow> vi_name v) in
                 if header_value_ok (ge_http env) name then (viewer_headers name rp, w2)
                 else (rejected Denied, w2)
               else (rp, w2)))))"

definition require_owner :: "gate_env \<Rightarrow> endpoint \<Rightarrow> web_request \<Rightarrow> unit res" where
  "require_owner env ep r =
     try_r (ok_or (wq_visitor r) Denied) (\<lambda>visitor.
     try_r (en_authority ep) (\<lambda>local.
     try_r (ok_or (subject_key_of (ge_pki env) (au_certificates local)) Denied) (\<lambda>ski.
     try_r (ok_or (ge_subject env (sk_owner ski)) Denied) (\<lambda>subject.
     ensure_r (\<not> (vi_name visitor \<noteq> en_name ep \<or> vi_subject visitor \<noteq> subject)) Denied))))"

section \<open>Forwarding to other names\<close>

definition dhttp_prefix :: string where
  "dhttp_prefix = ''/std/dhttp/''"

definition bad_target :: error where
  "bad_target = BadRequest ''invalid DHTTP target''"

definition bad_sequence :: error where
  "bad_sequence = BadRequest ''invalid DHTTP target sequence''"

definition outbound_uri :: "gate_env \<Rightarrow> string \<Rightarrow> string option \<Rightarrow> (uri_parts \<times> string) res" where
  "outbound_uri env p q =
     try_r (ok_or (strip_prefix dhttp_prefix p) RouteNotFound) (\<lambda>path.
     let (target, suffix) = (case split_once (CHR ''/'') path of Some ts \<Rightarrow> ts | None \<Rightarrow> (path, []));
         (name, sequence) = (case split_once (CHR '':'') target of Some (n, s) \<Rightarrow> (n, Some s) | None \<Rightarrow> (target, None)) in
     try_r (ok_or (normalize_name (ge_pki env) name) bad_target) (\<lambda>name.
     try_r (case sequence of
              Some sequence \<Rightarrow>
                try_r (ok_or (parse_u64 sequence) bad_sequence) (\<lambda>number.
                try_r (ensure_r (ge_sequence env number) bad_sequence) (\<lambda>_.
                Inr (name @ '':'' @ sequence)))
            | None \<Rightarrow> Inr name) (\<lambda>auth.
     let path = (case q of Some query \<Rightarrow> ''/'' @ suffix @ ''?'' @ query | None \<Rightarrow> ''/'' @ suffix) in
     try_r (ok_or (parse_uri (ge_http env) (''https://'' @ auth @ path)) (BadRequest ''invalid DHTTP target URI'')) (\<lambda>uri.
     Inr (uri, auth)))))"

text \<open>Only the owner of the identity, over its own connection or inside the process, may forward.\<close>

definition forward_guard :: "gate_env \<Rightarrow> endpoint \<Rightarrow> web_request \<Rightarrow> unit res" where
  "forward_guard env ep r =
     (let ski = (\<lambda>a. ok_or (subject_key_of (ge_pki env) (au_certificates a)) Denied) in
      case wq_handshake r of
        Some handshake \<Rightarrow>
          try_r (ok_or (hs_local handshake) MissingHandshake) (\<lambda>local.
          try_r (ok_or (hs_remote handshake) Denied) (\<lambda>remote.
          try_r (ensure_r (\<not> (normalize_name (ge_pki env) (au_name local) \<noteq> Some (en_name ep) \<or>
                             normalize_name (ge_pki env) (au_name remote) \<noteq> Some (en_name ep))) Denied) (\<lambda>_.
          try_r (ski local) (\<lambda>local_ski.
          try_r (ski remote) (\<lambda>remote_ski.
          ensure_r (sk_owner local_ski = sk_owner remote_ski) Denied)))))
      | None \<Rightarrow> (case wq_authority r of
          Some local \<Rightarrow>
            try_r (en_authority ep) (\<lambda>actual.
            try_r (ski local) (\<lambda>local_ski.
            try_r (ski actual) (\<lambda>actual_ski.
            ensure_r (\<not> (au_name local \<noteq> en_name ep \<or> sk_owner local_ski \<noteq> sk_owner actual_ski)) Denied)))
        | None \<Rightarrow> Inl MissingHandshake))"

record dhttp_call =
  dc_meth :: string
  dc_uri :: uri_parts
  dc_headers :: headers

definition forward_call :: "gate_env \<Rightarrow> endpoint \<Rightarrow> web_request \<Rightarrow> dhttp_call res" where
  "forward_call env ep r =
     try_r (forward_guard env ep r) (\<lambda>_.
     try_r (ensure_r (\<not> contains_key ''trailer'' (rq_headers r))
              (BadRequest ''DHTTP request trailers are not supported'')) (\<lambda>_.
     try_r (outbound_uri env (rq_path r) (rq_query r)) (\<lambda>(uri, auth).
     try_r (ensure_r (header_value_ok (ge_http env) auth) bad_target) (\<lambda>_.
     Inr \<lparr>dc_meth = rq_meth r, dc_uri = uri,
          dc_headers = insert_header ''host'' auth
            (clean_hop_headers (parse_header_name (ge_http env)) (rq_headers r))\<rparr>))))"

text \<open>The upload of a body: every data frame is written, and only then the stream is finished.\<close>

fun upload_body :: "(string \<Rightarrow> 'u \<Rightarrow> unit res \<times> 'u) \<Rightarrow> ('u \<Rightarrow> unit res \<times> 'u) \<Rightarrow> frame list \<Rightarrow> 'u \<Rightarrow> unit res \<times> 'u" where
  "upload_body write shutdown [] u = shutdown u"
| "upload_body write shutdown (f # fs) u = (case f of
     FrameError e \<Rightarrow> (Inl (Io OtherIo e), u)
   | FrameTrailers \<Rightarrow> (Inl (BadRequest ''DHTTP request trailers are not supported''), u)
   | FrameData data \<Rightarrow> (case write data u of
       (Inl e, u') \<Rightarrow> (Inl e, u')
     | (Inr (), u') \<Rightarrow> upload_body write shutdown fs u'))"

text \<open>
  The endpoint starts the exchange: an error, or the response it will give. The upload runs beside it
  in a task of its own.
\<close>

definition forward_dhttp ::
  "gate_env \<Rightarrow> endpoint \<Rightarrow> (dhttp_call \<Rightarrow> 'w \<Rightarrow> reply res \<times> 'w) \<Rightarrow> 'w handler"
where
  "forward_dhttp env ep send r w = (case forward_call env ep r of
     Inl e \<Rightarrow> (rejected e, w)
   | Inr call \<Rightarrow> (case send call w of
       (Inl e, w') \<Rightarrow> (rejected e, w')
     | (Inr (resp, body), w') \<Rightarrow>
         ((resp\<lparr>rs_headers := clean_hop_headers (parse_header_name (ge_http env)) (rs_headers resp)\<rparr>, body), w')))"

section \<open>What the layers promise\<close>

text \<open>The peer that the connection authenticated, and the visitor it stands for.\<close>

definition peer :: "web_request \<Rightarrow> authority option" where
  "peer r = (case wq_handshake r of
     Some h \<Rightarrow> if hs_local h = None then None else hs_remote h
   | None \<Rightarrow> wq_authority r)"

definition verified :: "gate_env \<Rightarrow> web_request \<Rightarrow> visitor option \<Rightarrow> bool" where
  "verified env r v = (case v of
     None \<Rightarrow> (\<exists>h l. wq_handshake r = Some h \<and> hs_local h = Some l \<and> hs_remote h = None)
   | Some x \<Rightarrow> (\<exists>a ski. peer r = Some a \<and> au_name a = vi_name x \<and>
       subject_key_of (ge_pki env) (au_certificates a) = Some ski \<and> ge_subject env (sk_owner ski) = Some (vi_subject x)))"

definition grants :: "auth_result \<Rightarrow> bool" where
  "grants d = (case d of
     AuthAllowed \<Rightarrow> True
   | AuthWaiting p \<Rightarrow> (\<exists>t \<le> 300000. pr_after p = Some t) \<and> pr_answer p = Inr ReviewAllow
   | _ \<Rightarrow> False)"

definition authorized ::
  "gate_env \<Rightarrow> 'w access_service \<Rightarrow> web_request \<Rightarrow> 'w \<Rightarrow> web_request \<Rightarrow> 'w \<Rightarrow> bool"
where
  "authorized env auth r w q w1 = (\<exists>v d. verified env r v \<and> q = r\<lparr>wq_visitor := v\<rparr> \<and>
     auth (asked_method r) (asked_path r) (rq_headers r) (map_option vi_name v) (map_option vi_subject v) w = (Inr d, w1) \<and>
     grants d)"

lemma gate_visitor_verified: "gate_visitor env r = Inr v \<Longrightarrow> verified env r v"
  by (auto simp: gate_visitor_def verified_def peer_def authority_visitor_def subject_of_def bind_eq_Some_conv
      split: option.splits if_splits)

lemma decide_True: "decide answer = Inr True \<longleftrightarrow> (\<exists>d. answer = Inr d \<and> grants d)"
  by (auto simp: decide_def grants_def review_outcome_def is_some_and_def
      split: sum.splits auth_result.splits auth_error.splits option.splits review_action.splits if_splits)

lemma decide_status: "decide answer = Inl rp \<Longrightarrow> rs_status (fst rp) \<in> {202, 400, 403, 500, 503, 504}"
  by (auto simp: decide_def review_outcome_def review_reply_def plain_response_def
      split: sum.splits auth_result.splits auth_error.splits review_action.splits if_splits)

lemma gate_error_status: "gate_visitor env r = Inl e \<Longrightarrow> error_status e \<in> {403, 500}"
  by (auto simp: gate_visitor_def authority_visitor_def error_status_def split: option.splits if_splits)

text \<open>The layer either asks the handler about an authorized request or answers by itself.\<close>

lemma authorize_cases:
  obtains (asks) q w1 where "authorized env auth r w q w1"
      "\<And>k. snd (authorize env auth k r w) = snd (k q w1)"
      "\<And>k k'. k q w1 = k' q w1 \<Longrightarrow> authorize env auth k r w = authorize env auth k' r w"
  | (answers) rp w1 where "\<And>k. authorize env auth k r w = (rp, w1)"
      "rs_status (fst rp) \<in> {202, 400, 403, 500, 503, 504}"
proof (cases "gate_visitor env r")
  case (Inl e)
  then show thesis
    using gate_error_status [OF Inl]
    by (intro answers [of "rejected e" w]) (auto simp: authorize_def rejected_def reject_def plain_response_def)
next
  case (Inr v)
  let ?q = "r\<lparr>wq_visitor := v\<rparr>"
  obtain answer w1 where a: "auth (asked_method r) (asked_path r) (rq_headers r)
      (map_option vi_name v) (map_option vi_subject v) w = (answer, w1)" by fastforce
  show thesis
  proof (cases "decide answer")
    case (Inl rp)
    then show thesis
      using decide_status [OF Inl] by (intro answers [of rp w1]) (simp_all add: authorize_def Inr a Let_def)
  next
    case d: (Inr allowed)
    show thesis
    proof (cases allowed)
      case True
      with d have "decide answer = Inr True" by simp
      then obtain x where x: "answer = Inr x" "grants x" by (auto simp: decide_True)
      have "authorized env auth r w ?q w1"
        unfolding authorized_def using a x gate_visitor_verified [OF Inr] by blast
      then show thesis
        by (rule asks) (simp_all add: authorize_def Inr a d True Let_def split: prod.splits)
    next
      case False
      then show thesis
        by (intro answers [of "rejected Denied" w1])
          (simp_all add: authorize_def Inr a d Let_def rejected_def reject_def plain_response_def error_status_def)
    qed
  qed
qed

interpretation gate: gated "authorize env auth" "authorized env auth" for env auth
proof unfold_locales
  fix k k' :: "'a handler" and r w
  assume "authorize env auth k r w \<noteq> authorize env auth k' r w"
  then show "\<exists>q w'. authorized env auth r w q w' \<and> k q w' \<noteq> k' q w'"
    by (cases rule: authorize_cases [of env auth r w]) (metis, simp)
qed

text \<open>
  Property C36: the authorization layer lets a request through only for the visitor that the connection
  authenticated, with the name and the certificate's owner of that peer whatever visitor the request
  claimed, and only when the access service grants that visitor the request, at once or by a review
  that ends within 300 seconds. Otherwise the answer is 202, 400, 403, 500, 503 or 504 and does not
  depend on what lies behind the layer.
\<close>

theorem gate_authentic:
  "(\<exists>v d w1. verified env r v \<and>
      auth (asked_method r) (asked_path r) (rq_headers r) (map_option vi_name v) (map_option vi_subject v) w = (Inr d, w1) \<and>
      grants d \<and> snd (authorize env auth k r w) = snd (k (r\<lparr>wq_visitor := v\<rparr>) w1)) \<or>
   rs_status (fst (fst (authorize env auth k r w))) \<in> {202, 400, 403, 500, 503, 504} \<and>
   (\<forall>k'. authorize env auth k' r w = authorize env auth k r w)"
proof (cases rule: authorize_cases [of env auth r w])
  case (asks q w1)
  then show ?thesis unfolding authorized_def by blast
next
  case (answers rp w1)
  then show ?thesis by simp
qed

text \<open>
  What is asked: every page, asset and deep link of a frontend is a GET of its root; any other request
  is asked about with its own method, path and query.
\<close>

lemma app_pages_share:
  assumes "rq_meth r \<in> {''GET'', ''HEAD''}" and "name \<noteq> []" and "CHR ''/'' \<notin> set name"
    and "rq_path r = ''/app/'' @ name @ rest" and "rest = [] \<or> hd rest = CHR ''/''"
  shows "asked_method r = ''GET''" "asked_path r = ''/app/'' @ name"
proof -
  have "split_first (CHR ''/'') (name @ rest) = name"
    using assms(3,5) split_first_before [OF assms(3), of "tl rest"] by (cases rest) auto
  then have "app_resource r = Some (''/app/'' @ name)"
    using assms by (auto simp: app_resource_def opt_filter_def)
  then show "asked_method r = ''GET''" "asked_path r = ''/app/'' @ name"
    by (simp_all add: asked_method_def asked_path_def)
qed

lemma other_requests_asked:
  assumes "rq_meth r \<notin> {''GET'', ''HEAD''} \<or> \<not> starts_with ''/app/'' (rq_path r)"
  shows "asked_method r = rq_meth r" "asked_path r = path_and_query r"
  using assms by (auto simp: asked_method_def asked_path_def app_resource_def opt_filter_def starts_with_def)

text \<open>What passing \<^verbatim>\<open>require_owner\<close> means for a request behind the layer.\<close>

definition from_owner :: "gate_env \<Rightarrow> endpoint \<Rightarrow> web_request \<Rightarrow> bool" where
  "from_owner env ep r = (\<exists>a own ka ko. peer r = Some a \<and> en_authority ep = Inr own \<and> au_name a = en_name ep \<and>
     subject_key_of (ge_pki env) (au_certificates a) = Some ka \<and>
     subject_key_of (ge_pki env) (au_certificates own) = Some ko \<and>
     ge_subject env (sk_owner ka) \<noteq> None \<and> ge_subject env (sk_owner ka) = ge_subject env (sk_owner ko))"

lemma peer_visitor [simp]: "peer (r\<lparr>wq_visitor := v\<rparr>) = peer r"
  by (simp add: peer_def split: option.split)

lemma require_owner_from_owner:
  assumes "require_owner env ep q = Inr u" and "authorized env auth r w q w'"
  shows "from_owner env ep r"
proof -
  from assms(1) obtain x own ko where x: "wq_visitor q = Some x" "vi_name x = en_name ep"
      "en_authority ep = Inr own" "subject_key_of (ge_pki env) (au_certificates own) = Some ko"
      "ge_subject env (sk_owner ko) = Some (vi_subject x)"
    by (auto simp: require_owner_def try_r_Inr_iff)
  with assms(2) have "verified env r (Some x)" by (auto simp: authorized_def)
  with x show ?thesis by (auto simp: verified_def from_owner_def)
qed

section \<open>What forwarding promises\<close>

definition owner_forward :: "gate_env \<Rightarrow> endpoint \<Rightarrow> web_request \<Rightarrow> bool" where
  "owner_forward env ep r = (\<exists>a own ka ko. peer r = Some a \<and>
     (case wq_handshake r of
        Some h \<Rightarrow> hs_local h = Some own \<and> normalize_name (ge_pki env) (au_name a) = Some (en_name ep) \<and>
                  normalize_name (ge_pki env) (au_name own) = Some (en_name ep)
      | None \<Rightarrow> en_authority ep = Inr own \<and> au_name a = en_name ep) \<and>
     subject_key_of (ge_pki env) (au_certificates a) = Some ka \<and>
     subject_key_of (ge_pki env) (au_certificates own) = Some ko \<and> sk_owner ka = sk_owner ko)"

lemma forward_guard_owner: "forward_guard env ep r = Inr u \<longleftrightarrow> owner_forward env ep r"
  by (cases "wq_handshake r"; cases "wq_authority r")
    (auto simp: forward_guard_def owner_forward_def peer_def try_r_Inr_iff Let_def)

text \<open>The target of a forwarded request: a normalized name, with a certificate sequence if one was given.\<close>

definition names_target :: "gate_env \<Rightarrow> string \<Rightarrow> string \<Rightarrow> bool" where
  "names_target env p auth = (\<exists>raw name rest. p = dhttp_prefix @ raw @ rest \<and> CHR ''/'' \<notin> set raw \<and>
     normalize_name (ge_pki env) (split_first (CHR '':'') raw) = Some name \<and>
     (auth = name \<and> CHR '':'' \<notin> set raw \<or>
      (\<exists>s n. raw = split_first (CHR '':'') raw @ '':'' @ s \<and> auth = name @ '':'' @ s \<and> parse_u64 s = Some n \<and> ge_sequence env n)))"

lemma split_once_first: "split_once c s = Some (a, b) \<Longrightarrow> split_first c s = a"
  by (auto simp: split_once_Some_iff)

lemma outbound_uri_target:
  assumes "outbound_uri env p q = Inr (uri, auth)"
  shows "names_target env p auth \<and>
    (\<exists>rest. parse_uri (ge_http env) (''https://'' @ auth @ ''/'' @ rest) = Some uri)"
proof -
  from assms obtain path where p: "p = dhttp_prefix @ path"
    by (auto simp: outbound_uri_def try_r_Inr_iff strip_prefix_Some_iff)
  define target where "target = (case split_once (CHR ''/'') path of Some ts \<Rightarrow> fst ts | None \<Rightarrow> path)"
  have t: "\<exists>rest. path = target @ rest" "CHR ''/'' \<notin> set target"
    by (auto simp: target_def split_once_Some_iff split_once_None_iff split: option.splits)
  define suffix where "suffix = (case split_once (CHR ''/'') path of Some ts \<Rightarrow> snd ts | None \<Rightarrow> [])"
  have ts: "(case split_once (CHR ''/'') path of Some ts \<Rightarrow> ts | None \<Rightarrow> (path, [])) = (target, suffix)"
    by (auto simp: target_def suffix_def split: option.splits)
  have "(\<exists>name. normalize_name (ge_pki env) (split_first (CHR '':'') target) = Some name \<and>
     (auth = name \<and> CHR '':'' \<notin> set target \<or>
      (\<exists>s n. target = split_first (CHR '':'') target @ '':'' @ s \<and> auth = name @ '':'' @ s \<and> parse_u64 s = Some n \<and> ge_sequence env n)))"
    and "\<exists>rest. parse_uri (ge_http env) (''https://'' @ auth @ ''/'' @ rest) = Some uri"
    using assms unfolding outbound_uri_def p
    by (auto simp: ts Let_def try_r_Inr_iff split_once_None_iff split_once_Some_iff split: option.splits prod.splits)
  with t p show ?thesis unfolding names_target_def by blast
qed

text \<open>
  A request is forwarded to another name only for the owner of the identity: the
  authenticated peer bears the identity's own name and its certificate the same owner as the
  identity's. What is sent names the validated target as its only host and in its URI, and carries no
  hop-by-hop field and none that the client's connection options name. Any other request is rejected
  and nothing is sent.
\<close>

lemma forward_owner_only:
  "(\<exists>call auth. owner_forward env ep r \<and> names_target env (rq_path r) auth \<and>
      dc_meth call = rq_meth r \<and> get_all ''host'' (dc_headers call) = [auth] \<and>
      (\<exists>rest. parse_uri (ge_http env) (''https://'' @ auth @ ''/'' @ rest) = Some (dc_uri call)) \<and>
      {n. contains_key n (dc_headers call)} \<subseteq> insert ''host'' ({n. contains_key n (rq_headers r)} - set hop_headers -
         {''trailer''} - set (connection_names (parse_header_name (ge_http env)) (rq_headers r))) \<and>
      snd (forward_dhttp env ep send r w) = snd (send call w)) \<or>
   (\<exists>e. \<forall>send'. forward_dhttp env ep send' r w = (rejected e, w))"
proof (cases "forward_call env ep r")
  case (Inl e)
  then show ?thesis by (auto simp: forward_dhttp_def)
next
  case (Inr call)
  then obtain auth where own: "owner_forward env ep r" and t: "\<not> contains_key ''trailer'' (rq_headers r)"
    and u: "outbound_uri env (rq_path r) (rq_query r) = Inr (dc_uri call, auth)"
    and h: "dc_meth call = rq_meth r" "dc_headers call = insert_header ''host'' auth
            (clean_hop_headers (parse_header_name (ge_http env)) (rq_headers r))"
    by (auto simp: forward_call_def try_r_Inr_iff forward_guard_owner)
  have "contains_key n (dc_headers call) \<Longrightarrow> n \<noteq> ''host'' \<Longrightarrow>
      contains_key n (clean_hop_headers (parse_header_name (ge_http env)) (rq_headers r))" for n
    by (simp add: h)
  moreover have "snd (forward_dhttp env ep send r w) = snd (send call w)"
    by (auto simp: forward_dhttp_def Inr split: prod.splits sum.splits)
  ultimately show ?thesis
    using own t h outbound_uri_target [OF u]
    by (intro disjI1 exI [of _ call] exI [of _ auth]) (auto simp: clean_hop_headers_keys)
qed

text \<open>Finishing an upload is a layer too: the stream is finished only after every frame was written.\<close>

fun written :: "(string \<Rightarrow> 'u \<Rightarrow> unit res \<times> 'u) \<Rightarrow> frame list \<Rightarrow> 'u \<Rightarrow> unit \<Rightarrow> 'u \<Rightarrow> bool" where
  "written put [] u x u' = (u' = u)"
| "written put (FrameData d # fs) u x u' = (fst (put d u) = Inr () \<and> written put fs (snd (put d u)) x u')"
| "written put (_ # fs) u x u' = False"

interpretation upload: gated "\<lambda>finish. upload_body put (finish ())" "written put" for put
proof unfold_locales
  fix k k' :: "unit \<Rightarrow> 'a \<Rightarrow> unit res \<times> 'a" and fs u
  assume "upload_body put (k ()) fs u \<noteq> upload_body put (k' ()) fs u"
  then show "\<exists>q u'. written put fs u q u' \<and> k q u' \<noteq> k' q u'"
  proof (induction fs arbitrary: u)
    case (Cons f fs)
    then show ?case by (cases f) (auto split: prod.splits sum.splits unit.splits)
  qed auto
qed

end
