(* ===== verification/Sandbox.thy ===== *)
theory Sandbox
  imports Access_Gate
begin

text \<open>
  A guest and what it reaches: the identity capabilities (\<^verbatim>\<open>src/sandbox/host.rs\<close>), the outgoing HTTP of
  a guest (\<^verbatim>\<open>src/sandbox/host/http.rs\<close>), and the invocation of a component for a request or in the
  background (\<^verbatim>\<open>src/sandbox/runtime.rs\<close>).

  A guest is a tree of calls to its host: it ends, or it makes a call and goes on according to the
  answer. Any such tree may stand for the WebAssembly code, which runs with bounded fuel. Its private
  file system, clocks and random numbers are inside the tree. Times are milliseconds since the start of
  an outgoing request; what is awaited is a value with the time when it is there, if ever.
\<close>

section \<open>Streams with time\<close>

text \<open>One poll of a body: when it was asked for, when it was there, and the frame or the end.\<close>

record polled =
  po_asked :: nat
  po_ready :: "nat option"
  po_frame :: "frame option"

text \<open>\<^verbatim>\<open>timeout_at\<close> polls its future first: what is there when asked for is never late.\<close>

definition in_time :: "nat \<Rightarrow> nat \<Rightarrow> nat option \<Rightarrow> bool" where
  "in_time asked limit ready = is_some_and (\<lambda>t. t \<le> max asked limit) ready"

datatype http_error =
    HttpRequestDenied
  | HttpRequestUriInvalid
  | HttpProtocolError
  | ConnectionTimeout
  | HttpResponseTimeout
  | HttpRequestBodySize
  | HttpResponseBodySize
  | InternalError string

datatype stream_end = StreamEnded | StreamDropped | StreamFailed http_error

definition body_limit_bytes :: nat where
  "body_limit_bytes = 1024 * 1024"

definition saturating_add :: "nat \<Rightarrow> nat \<Rightarrow> nat" where
  "saturating_add a b = min (2 ^ 64 - 1) (a + b)"

fun request_frames :: "nat \<Rightarrow> nat \<Rightarrow> polled list \<Rightarrow> string list \<times> stream_end" where
  "request_frames deadline bytes [] = ([], StreamDropped)"
| "request_frames deadline bytes (e # es) =
     (if \<not> in_time (po_asked e) deadline (po_ready e) then ([], StreamFailed ConnectionTimeout)
      else (case po_frame e of
          None \<Rightarrow> ([], StreamEnded)
        | Some (FrameError x) \<Rightarrow> ([], StreamFailed (InternalError x))
        | Some FrameTrailers \<Rightarrow> ([], StreamFailed HttpProtocolError)
        | Some (FrameData d) \<Rightarrow>
            (let bytes = saturating_add bytes (length d) in
             if bytes > body_limit_bytes then ([], StreamFailed HttpRequestBodySize)
             else (case request_frames deadline bytes es of (ds, x) \<Rightarrow> (d # ds, x)))))"

definition frame_bytes :: "frame \<Rightarrow> string" where
  "frame_bytes f = (case f of FrameData d \<Rightarrow> d | _ \<Rightarrow> [])"

fun response_frames :: "nat \<Rightarrow> nat \<Rightarrow> nat \<Rightarrow> polled list \<Rightarrow> frame list \<times> stream_end" where
  "response_frames deadline gap bytes [] = ([], StreamDropped)"
| "response_frames deadline gap bytes (e # es) =
     (if \<not> in_time (po_asked e) (min deadline (po_asked e + gap)) (po_ready e) then ([], StreamFailed HttpResponseTimeout)
      else (case po_frame e of
          None \<Rightarrow> ([], StreamEnded)
        | Some (FrameError x) \<Rightarrow> ([], StreamFailed (InternalError x))
        | Some f \<Rightarrow>
            (let bytes = (case f of FrameData d \<Rightarrow> saturating_add bytes (length d) | _ \<Rightarrow> bytes) in
             if (case f of FrameData _ \<Rightarrow> bytes > body_limit_bytes | _ \<Rightarrow> False)
             then ([], StreamFailed HttpResponseBodySize)
             else (case response_frames deadline gap bytes es of (fs, x) \<Rightarrow> (f # fs, x)))))"

section \<open>Outgoing requests\<close>

record uri_authority =
  ua_text :: string
  ua_host :: string
  ua_port :: "string option"

record guest_request =
  gr_meth :: string
  gr_scheme :: "string option"
  gr_authority :: "uri_authority option"
  gr_path :: string
  gr_query :: "string option"
  gr_headers :: headers
  gr_body :: "polled list"
  gr_first_byte :: "nat option"
  gr_connect :: "nat option"
  gr_between :: "nat option"

text \<open>A request to another name, with the owner that its certificate must have.\<close>

record remote_call =
  rc_target :: string
  rc_authority :: string
  rc_meth :: string
  rc_path :: string
  rc_query :: "string option"
  rc_headers :: headers
  rc_frames :: "string list"
  rc_body_end :: stream_end
  rc_owner :: "string option"

datatype network_error = RemoteIdentityChanged | OtherNetwork string

definition network_error :: "network_error \<Rightarrow> http_error" where
  "network_error e = (case e of RemoteIdentityChanged \<Rightarrow> HttpRequestDenied | OtherNetwork m \<Rightarrow> InternalError m)"

text \<open>The response of a call to the guest: its head, and what the body stream yields.\<close>

record http_response =
  hr_status :: nat
  hr_headers :: headers
  hr_frames :: "frame list"
  hr_end :: stream_end

text \<open>
  What an invocation may reach. The native API answers with a response, the polls of its body and the
  time of its head; a connection to another name takes its time and fails or leads to a response with
  its own; the contact of a name is its subject, none, or an error of the database.
\<close>

record 'w granted =
  gd_endpoint :: endpoint
  gd_suffix :: string
  gd_authority_ok :: "string \<Rightarrow> bool"
  gd_owner_hash_ok :: "string \<Rightarrow> bool"
  gd_contact :: "string \<Rightarrow> 'w \<Rightarrow> (string, string option) result \<times> nat"
  gd_api :: "web_request \<Rightarrow> 'w \<Rightarrow> (response \<times> polled list \<times> nat option) \<times> 'w"
  gd_connect :: "remote_call \<Rightarrow> 'w \<Rightarrow> (network_error, unit) result \<times> nat option"
  gd_respond :: "remote_call \<Rightarrow> 'w \<Rightarrow> ((network_error, response \<times> polled list) result \<times> nat option) \<times> 'w"

datatype 'w outgoing = OutDenied | OutGranted "'w granted"

definition clean_headers :: "(string \<Rightarrow> string option) \<Rightarrow> headers \<Rightarrow> headers" where
  "clean_headers pn h = fold remove_header hop_headers (fold remove_header (connection_names pn h) h)"

text \<open>The host a guest named: \<^verbatim>\<open>~\<close> is the identity itself, and the DHTTP suffix inside a name.\<close>

definition expand_host :: "'w granted \<Rightarrow> string \<Rightarrow> string" where
  "expand_host gd host = (if host = ''~'' then en_name (gd_endpoint gd)
     else concat (map (\<lambda>c. if c = CHR ''~'' then gd_suffix gd else [c]) host))"

definition outgoing_sequence ::
  "gate_env \<Rightarrow> 'w granted \<Rightarrow> string \<Rightarrow> string \<Rightarrow> (http_error, nat) result"
where
  "outgoing_sequence env gd target port =
     try_r (ok_or (opt_filter (ge_sequence env) (parse_u64 port)) HttpRequestUriInvalid) (\<lambda>sequence.
     if target = en_name (gd_endpoint gd) then
       try_r (map_err (\<lambda>e. network_error (OtherNetwork (error_text e))) (en_authority (gd_endpoint gd))) (\<lambda>local.
       try_r (ok_or (subject_key_of (ge_pki env) (au_certificates local)) HttpRequestDenied) (\<lambda>ski.
       try_r (ensure_r (sk_sequence ski = sequence) HttpRequestDenied) (\<lambda>_. Inr sequence)))
     else Inr sequence)"

text \<open>The target of a guest's request and the authority it becomes.\<close>

definition outgoing_target :: "gate_env \<Rightarrow> 'w granted \<Rightarrow> guest_request \<Rightarrow> (http_error, string \<times> string) result" where
  "outgoing_target env gd q =
     try_r (ensure_r (gr_scheme q = Some ''https'') HttpRequestDenied) (\<lambda>_.
     try_r (ok_or (gr_authority q) HttpRequestUriInvalid) (\<lambda>auth.
     try_r (ensure_r (CHR ''@'' \<notin> set (ua_text auth)) HttpRequestUriInvalid) (\<lambda>_.
     try_r (ok_or (normalize_name (ge_pki env) (expand_host gd (ua_host auth))) HttpRequestUriInvalid) (\<lambda>target.
     try_r (case ua_port auth of
              Some port \<Rightarrow> try_r (outgoing_sequence env gd target port) (\<lambda>n. Inr (target @ '':'' @ nat_text n))
            | None \<Rightarrow> Inr target) (\<lambda>canonical.
     try_r (ensure_r (gd_authority_ok gd canonical) HttpRequestUriInvalid) (\<lambda>_.
     try_r (ensure_r (uri_from_parts (ge_http env) \<lparr>up_scheme = gr_scheme q, up_authority = Some canonical,
              up_path = Some (gr_path q, gr_query q)\<rparr>) HttpRequestUriInvalid) (\<lambda>_.
     Inr (target, canonical))))))))"

definition outgoing_deadline :: "headers \<Rightarrow> nat" where
  "outgoing_deadline h = (if get_header ''if-reviewed'' h = Some ''waiting'' then 300 * 1000 else 15 * 1000)"

definition wait_limit :: "nat option \<Rightarrow> nat" where
  "wait_limit t = min (case t of None \<Rightarrow> 600 * 1000 | Some t \<Rightarrow> t) (300 * 1000)"

text \<open>The identity's own name is served by the native API, without any fact that the guest could claim.\<close>

definition local_request :: "guest_request \<Rightarrow> headers \<Rightarrow> string list \<times> stream_end \<Rightarrow> web_request" where
  "local_request q h body =
     \<lparr>rq_meth = gr_meth q, rq_path = gr_path q, rq_query = gr_query q, rq_headers = h, rq_protocol = None,
      wq_handshake = None, wq_authority = None, wq_visitor = None,
      wq_body = map FrameData (fst body) @
        (case snd body of StreamFailed e \<Rightarrow> [FrameError ''request body''] | _ \<Rightarrow> [])\<rparr>"

definition send_local ::
  "'w granted \<Rightarrow> nat \<Rightarrow> guest_request \<Rightarrow> web_request \<Rightarrow> 'w \<Rightarrow> (http_error, response \<times> polled list) result \<times> 'w"
where
  "send_local gd deadline q r w = (case gd_api gd r w of ((resp, body, t), w') \<Rightarrow>
     if \<not> in_time 0 (min deadline (wait_limit (gr_first_byte q))) t then (Inl ConnectionTimeout, w')
     else (Inr (resp, body), w'))"

definition send_remote ::
  "gate_env \<Rightarrow> 'w granted \<Rightarrow> nat \<Rightarrow> guest_request \<Rightarrow> remote_call \<Rightarrow> 'w \<Rightarrow> (http_error, response \<times> polled list) result \<times> 'w"
where
  "send_remote env gd deadline q call w = (case gd_contact gd (rc_target call) w of
     (Inl e, _) \<Rightarrow> (Inl (InternalError e), w)
   | (Inr current, t0) \<Rightarrow>
      (let call = call\<lparr>rc_owner := current\<rparr> in
       if \<not> header_value_ok (ge_http env) (rc_authority call) then (Inl HttpRequestUriInvalid, w)
       else if \<not> is_none_or (gd_owner_hash_ok gd) current then (Inl HttpRequestDenied, w)
       else (case gd_connect gd call w of (connected, t1) \<Rightarrow>
         if \<not> in_time t0 (min deadline (t0 + wait_limit (gr_connect q))) t1 then (Inl ConnectionTimeout, w)
         else (case connected of
             Inl e \<Rightarrow> (Inl (network_error e), w)
           | Inr _ \<Rightarrow> (case gd_respond gd call w of ((answer, t2), w') \<Rightarrow>
               if \<not> in_time (the t1) (min deadline (the t1 + wait_limit (gr_first_byte q))) t2 then (Inl ConnectionTimeout, w')
               else (case answer of
                   Inl e \<Rightarrow> (Inl (network_error e), w')
                 | Inr rb \<Rightarrow> (Inr rb, w')))))))"

text \<open>
  The upload to another name, a task beside the exchange: each write and the end of the stream has to be
  done by the deadline, and the stream is finished only when the body has ended.
\<close>

record wrote =
  wr_result :: "(string, unit) result"
  wr_asked :: nat
  wr_ready :: "nat option"

definition timed_write :: "nat \<Rightarrow> wrote \<times> 'u \<Rightarrow> (http_error, unit) result \<times> 'u" where
  "timed_write deadline x = (case x of (r, u) \<Rightarrow>
     (if \<not> in_time (wr_asked r) deadline (wr_ready r) then Inl ConnectionTimeout
      else map_err InternalError (wr_result r), u))"

fun guest_upload ::
  "nat \<Rightarrow> (string \<Rightarrow> 'u \<Rightarrow> wrote \<times> 'u) \<Rightarrow> ('u \<Rightarrow> wrote \<times> 'u) \<Rightarrow> stream_end \<Rightarrow> string list \<Rightarrow> 'u \<Rightarrow> (http_error, unit) result \<times> 'u"
where
  "guest_upload deadline write shutdown e [] u = (case e of
     StreamFailed x \<Rightarrow> (Inl x, u)
   | StreamDropped \<Rightarrow> (Inl ConnectionTimeout, u)
   | StreamEnded \<Rightarrow> timed_write deadline (shutdown u))"
| "guest_upload deadline write shutdown e (d # ds) u = (case timed_write deadline (write d u) of
     (Inl x, u') \<Rightarrow> (Inl x, u')
   | (Inr (), u') \<Rightarrow> guest_upload deadline write shutdown e ds u')"

definition received :: "gate_env \<Rightarrow> nat \<Rightarrow> guest_request \<Rightarrow> response \<times> polled list \<Rightarrow> http_response" where
  "received env deadline q rb =
     (case response_frames deadline (min (case gr_between q of None \<Rightarrow> 15 * 1000 | Some t \<Rightarrow> t) (15 * 1000)) 0 (snd rb) of
        (fs, e) \<Rightarrow> \<lparr>hr_status = rs_status (fst rb),
          hr_headers = clean_headers (parse_header_name (ge_http env)) (rs_headers (fst rb)),
          hr_frames = fs, hr_end = e\<rparr>)"

definition send_request ::
  "gate_env \<Rightarrow> 'w outgoing \<Rightarrow> guest_request \<Rightarrow> 'w \<Rightarrow> (http_error, http_response) result \<times> 'w"
where
  "send_request env out q w = (case out of
     OutDenied \<Rightarrow> (Inl HttpRequestDenied, w)
   | OutGranted gd \<Rightarrow> (case outgoing_target env gd q of
       Inl e \<Rightarrow> (Inl e, w)
     | Inr (target, canonical) \<Rightarrow>
        if contains_key ''trailer'' (gr_headers q) then (Inl HttpProtocolError, w)
        else
         (let h = clean_headers (parse_header_name (ge_http env)) (gr_headers q);
              deadline = outgoing_deadline h;
              body = request_frames deadline 0 (gr_body q) in
          case (if target = en_name (gd_endpoint gd) then send_local gd deadline q (local_request q h body) w
                else send_remote env gd deadline q
                  \<lparr>rc_target = target, rc_authority = canonical, rc_meth = gr_meth q, rc_path = gr_path q, rc_query = gr_query q,
                   rc_headers = insert_header ''host'' canonical h, rc_frames = fst body, rc_body_end = snd body, rc_owner = None\<rparr> w) of
            (Inl e, w') \<Rightarrow> (Inl e, w')
          | (Inr rb, w') \<Rightarrow> (Inr (received env deadline q rb), w'))))"

section \<open>Identity capabilities\<close>

text \<open>The connection facts of an invocation, which are all a guest learns about its caller.\<close>

record store_data =
  sd_local :: authority
  sd_remote :: "authority option"

text \<open>
  The operations of the identity's key: signing with one scheme gives a signature, says that the key
  does not support the scheme, or fails; verification needs the public key of an authority.
\<close>

datatype sign_answer = Signed string | UnsupportedScheme | SignRefused

record key_env =
  ke_sign :: "authority \<Rightarrow> string \<Rightarrow> string \<Rightarrow> sign_answer"
  ke_verify :: "authority \<Rightarrow> string \<Rightarrow> string \<Rightarrow> bool option"

datatype sign_error = InputTooLarge | SignFailed
datatype verify_error = VerifyTooLarge | VerifyInvalidIdentity | VerifyFailed | VerifyUnavailable

definition owner_facts :: "gate_env \<Rightarrow> authority \<Rightarrow> (string, string \<times> string) result" where
  "owner_facts env a = (case subject_key_of (ge_pki env) (au_certificates a) of
     None \<Rightarrow> Inl ''subject key identifier''
   | Some ski \<Rightarrow> Inr (au_name a, sk_owner ski))"

definition caller_facts :: "gate_env \<Rightarrow> store_data \<Rightarrow> (string, (string \<times> string) option) result" where
  "caller_facts env sd = (case sd_remote sd of
     None \<Rightarrow> Inr None
   | Some remote \<Rightarrow> try_r (owner_facts env remote) (\<lambda>x. Inr (Some x)))"

definition caller_is_owner :: "gate_env \<Rightarrow> store_data \<Rightarrow> bool" where
  "caller_is_owner env sd = (case sd_remote sd of
     None \<Rightarrow> False
   | Some remote \<Rightarrow>
      (case (normalize_name (ge_pki env) (au_name (sd_local sd)), normalize_name (ge_pki env) (au_name remote)) of
         (Some local_name, Some caller_name) \<Rightarrow>
           caller_name = local_name \<and>
           (case (subject_key_of (ge_pki env) (au_certificates (sd_local sd)), subject_key_of (ge_pki env) (au_certificates remote)) of
              (Some l, Some r) \<Rightarrow> sk_owner l = sk_owner r
            | _ \<Rightarrow> False)
       | _ \<Rightarrow> False))"

definition sign_schemes :: "string list" where
  "sign_schemes = [''RSA_PSS_SHA512'', ''ECDSA_NISTP256_SHA256'', ''ECDSA_NISTP384_SHA384'', ''ED25519'']"

fun first_signature :: "key_env \<Rightarrow> authority \<Rightarrow> string \<Rightarrow> string list \<Rightarrow> (sign_error, string) result" where
  "first_signature ke a data [] = Inl SignFailed"
| "first_signature ke a data (scheme # schemes) = (case ke_sign ke a scheme data of
     Signed value \<Rightarrow> Inr value
   | UnsupportedScheme \<Rightarrow> first_signature ke a data schemes
   | SignRefused \<Rightarrow> Inl SignFailed)"

definition sign :: "key_env \<Rightarrow> store_data \<Rightarrow> string \<Rightarrow> (sign_error, string) result" where
  "sign ke sd data =
     try_r (ensure_r (\<not> length data > 1024 * 1024) InputTooLarge) (\<lambda>_.
     try_r (first_signature ke (sd_local sd) data sign_schemes) (\<lambda>signature.
     try_r (ensure_r (\<not> length signature > 8192) SignFailed) (\<lambda>_. Inr signature)))"

definition verify :: "gate_env \<Rightarrow> key_env \<Rightarrow> store_data \<Rightarrow> string \<Rightarrow> string \<Rightarrow> string \<Rightarrow> (verify_error, bool) result" where
  "verify env ke sd signature data name =
     try_r (ensure_r (\<not> (length data > 1024 * 1024 \<or> length signature > 8192)) VerifyTooLarge) (\<lambda>_.
     try_r (ok_or (normalize_name (ge_pki env) name) VerifyInvalidIdentity) (\<lambda>name.
     if name = au_name (sd_local sd) then ok_or (ke_verify ke (sd_local sd) data signature) VerifyFailed
     else (case opt_filter (\<lambda>remote. name = au_name remote) (sd_remote sd) of
         Some remote \<Rightarrow> ok_or (ke_verify ke remote data signature) VerifyFailed
       | None \<Rightarrow> Inl VerifyUnavailable)))"

section \<open>Guests\<close>

datatype host_call =
    CallSend guest_request
  | CallLocal
  | CallCaller
  | CallLocalName
  | CallCallerName
  | CallCallerIsOwner
  | CallSign string
  | CallVerify string string string

datatype host_answer =
    AnswerSend "(http_error, http_response) result"
  | AnswerFacts "string \<times> string"
  | AnswerCaller "(string \<times> string) option"
  | AnswerName "string option"
  | AnswerBool bool
  | AnswerSign "(sign_error, string) result"
  | AnswerVerify "(verify_error, bool) result"

text \<open>
  The end of a guest: with the response it gave, with an error code in place of one, or without;
  in the last case the task ended well, with an error, or was lost.
\<close>

datatype task_end = TaskOk | TaskErr error | TaskLost string
datatype guest_end = GuestResponse reply | GuestErrorCode string | GuestExit task_end

datatype guest = GuestEnd guest_end | GuestCall host_call "host_answer \<Rightarrow> guest"

text \<open>The answer of the host; a failing 0.2 identity call traps.\<close>

definition host_serves ::
  "gate_env \<Rightarrow> key_env \<Rightarrow> store_data \<Rightarrow> 'w outgoing \<Rightarrow> host_call \<Rightarrow> 'w \<Rightarrow> (string, host_answer) result \<times> 'w"
where
  "host_serves env ke sd out c w = (case c of
     CallSend q \<Rightarrow> (case send_request env out q w of (a, w') \<Rightarrow> (Inr (AnswerSend a), w'))
   | CallLocal \<Rightarrow> (try_r (owner_facts env (sd_local sd)) (\<lambda>x. Inr (AnswerFacts x)), w)
   | CallCaller \<Rightarrow> (try_r (caller_facts env sd) (\<lambda>x. Inr (AnswerCaller x)), w)
   | CallLocalName \<Rightarrow> (Inr (AnswerName (Some (au_name (sd_local sd)))), w)
   | CallCallerName \<Rightarrow> (Inr (AnswerName (map_option au_name (sd_remote sd))), w)
   | CallCallerIsOwner \<Rightarrow> (Inr (AnswerBool (caller_is_owner env sd)), w)
   | CallSign data \<Rightarrow> (Inr (AnswerSign (sign ke sd data)), w)
   | CallVerify signature data name \<Rightarrow> (Inr (AnswerVerify (verify env ke sd signature data name)), w))"

primrec run_guest ::
  "gate_env \<Rightarrow> key_env \<Rightarrow> store_data \<Rightarrow> 'w outgoing \<Rightarrow> guest \<Rightarrow> 'w \<Rightarrow> guest_end \<times> 'w"
where
  "run_guest env ke sd out (GuestEnd e) = (\<lambda>w. (e, w))"
| "run_guest env ke sd out (GuestCall c k) = (\<lambda>w.
     case host_serves env ke sd out c w of
       (Inl trap, w') \<Rightarrow> (GuestExit (TaskErr (Guest trap)), w')
     | (Inr a, w') \<Rightarrow> run_guest env ke sd out (k a) w')"

section \<open>Invocations\<close>

definition owner_key :: "gate_env \<Rightarrow> authority \<Rightarrow> string \<Rightarrow> subject_key res" where
  "owner_key env a message = ok_or (subject_key_of (ge_pki env) (au_certificates a)) (InvalidIdentity message)"

definition check_endpoint :: "gate_env \<Rightarrow> endpoint \<Rightarrow> endpoint \<Rightarrow> unit res" where
  "check_endpoint env actual granted =
     try_r (ensure_r (\<not> en_name actual \<noteq> en_name granted) IdentityMismatch) (\<lambda>_.
     try_r (en_authority actual) (\<lambda>a.
     try_r (en_authority granted) (\<lambda>g.
     try_r (owner_key env a ''invalid execution owner'') (\<lambda>ka.
     try_r (owner_key env g ''invalid outgoing owner'') (\<lambda>kg.
     ensure_r (\<not> sk_owner ka \<noteq> sk_owner kg) IdentityMismatch)))))"

text \<open>The layers that put the facts of an invocation on what its guest sends to the native API.\<close>

definition with_handshake :: "handshake \<Rightarrow> (web_request \<Rightarrow> 'w \<Rightarrow> 'a) \<Rightarrow> web_request \<Rightarrow> 'w \<Rightarrow> 'a" where
  "with_handshake hs next r w = next (r\<lparr>wq_handshake := Some hs, wq_authority := None, wq_visitor := None\<rparr>) w"

definition with_authority :: "authority \<Rightarrow> (web_request \<Rightarrow> 'w \<Rightarrow> 'a) \<Rightarrow> web_request \<Rightarrow> 'w \<Rightarrow> 'a" where
  "with_authority a next r w = next (r\<lparr>wq_handshake := None, wq_authority := Some a, wq_visitor := None\<rparr>) w"

definition layered :: "((web_request \<Rightarrow> 'w \<Rightarrow> (response \<times> polled list \<times> nat option) \<times> 'w) \<Rightarrow>
    web_request \<Rightarrow> 'w \<Rightarrow> (response \<times> polled list \<times> nat option) \<times> 'w) \<Rightarrow> 'w granted \<Rightarrow> 'w granted" where
  "layered layer gd = gd\<lparr>gd_api := layer (gd_api gd)\<rparr>"

definition invocation_new ::
  "gate_env \<Rightarrow> endpoint \<Rightarrow> handshake \<Rightarrow> 'w outgoing \<Rightarrow> (store_data \<times> 'w outgoing) res"
where
  "invocation_new env ep hs out =
     try_r (ok_or (hs_local hs) MissingHandshake) (\<lambda>local.
     try_r (ensure_r (\<not> au_name local \<noteq> en_name ep) IdentityMismatch) (\<lambda>_.
     try_r (case out of
              OutDenied \<Rightarrow> Inr OutDenied
            | OutGranted gd \<Rightarrow>
                try_r (check_endpoint env ep (gd_endpoint gd)) (\<lambda>_.
                try_r (en_authority ep) (\<lambda>actual.
                try_r (owner_key env actual ''invalid execution owner'') (\<lambda>ka.
                try_r (owner_key env local ''invalid invocation owner'') (\<lambda>ki.
                try_r (ensure_r (\<not> sk_owner ka \<noteq> sk_owner ki) IdentityMismatch) (\<lambda>_.
                Inr (OutGranted (layered (with_handshake hs) gd)))))))) (\<lambda>out.
     Inr (\<lparr>sd_local = local, sd_remote = hs_remote hs\<rparr>, out))))"

text \<open>The guest of an invocation runs as a task; its response, or how it ended, is the result.\<close>

definition execute ::
  "gate_env \<Rightarrow> key_env \<Rightarrow> (web_request \<Rightarrow> guest) \<Rightarrow> store_data \<times> 'w outgoing \<Rightarrow> web_request \<Rightarrow> 'w \<Rightarrow> reply res \<times> 'w"
where
  "execute env ke component call r w = (case run_guest env ke (fst call) (snd call) (component r) w of
     (GuestResponse rp, w') \<Rightarrow> (Inr rp, w')
   | (GuestErrorCode code, w') \<Rightarrow> (Inl (GuestRejectedResponse code), w')
   | (GuestExit (TaskLost m), w') \<Rightarrow> (Inl (Task m), w')
   | (GuestExit (TaskErr e), w') \<Rightarrow> (Inl e, w')
   | (GuestExit TaskOk, w') \<Rightarrow> (Inl GuestExitedWithoutResponse, w'))"

text \<open>
  A background run: the local authority in place of a handshake, and at most 15 seconds. Of a run that
  is aborted then, the tree is what the guest did before.
\<close>

definition invocation_run ::
  "gate_env \<Rightarrow> key_env \<Rightarrow> guest \<Rightarrow> nat option \<Rightarrow> endpoint \<Rightarrow> 'w outgoing \<Rightarrow> 'w \<Rightarrow> unit res \<times> 'w"
where
  "invocation_run env ke component duration ep out w =
     (case try_r (en_authority ep) (\<lambda>local.
           try_r (case out of
                    OutDenied \<Rightarrow> Inr OutDenied
                  | OutGranted gd \<Rightarrow> try_r (check_endpoint env ep (gd_endpoint gd)) (\<lambda>_.
                      Inr (OutGranted (layered (with_authority local) gd)))) (\<lambda>out.
           Inr (\<lparr>sd_local = local, sd_remote = None\<rparr>, out))) of
        Inl e \<Rightarrow> (Inl e, w)
      | Inr (sd, out) \<Rightarrow> (case run_guest env ke sd out component w of (e, w') \<Rightarrow>
          if \<not> in_time 0 (15 * 1000) duration then (Inl Deadline, w')
          else (case e of
              GuestExit TaskOk \<Rightarrow> (Inr (), w')
            | GuestExit (TaskErr e) \<Rightarrow> (Inl e, w')
            | GuestExit (TaskLost m) \<Rightarrow> (Inl (Task m), w')
            | _ \<Rightarrow> (Inl (Guest ''background component returned an error''), w'))))"

end
