(* ===== verification/Sandbox_Laws.thy ===== *)
theory Sandbox_Laws
  imports Sandbox
begin

text \<open>
  What the sandbox promises: the bodies that pass it are bounded prefixes of what was sent; a guest
  reaches the native API only with the connection facts of its own invocation and other names only
  under their pinned owners; and the three places that decide whether the caller is the owner agree.
\<close>

section \<open>Bodies\<close>

definition data_of :: "polled list \<Rightarrow> frame list" where
  "data_of es = List.map_filter po_frame es"

lemma data_of_simps [simp]:
  "data_of [] = []"
  "data_of (e # es) = (case po_frame e of None \<Rightarrow> [] | Some f \<Rightarrow> [f]) @ data_of es"
  by (auto simp: data_of_def map_filter_simps split: option.splits)

lemma request_frames_prefix: "prefix (map FrameData (fst (request_frames deadline bytes es))) (data_of es)"
proof (induction es arbitrary: bytes)
  case (Cons e es)
  show ?case
    using Cons.IH [of "saturating_add bytes (length (case po_frame e of Some (FrameData d) \<Rightarrow> d | _ \<Rightarrow> []))"]
    by (auto simp: Let_def split: prod.splits option.splits frame.splits)
qed simp

lemma response_frames_prefix: "prefix (fst (response_frames deadline gap bytes es)) (data_of es)"
proof (induction es arbitrary: bytes)
  case (Cons e es)
  show ?case
    using Cons.IH [of "case po_frame e of Some (FrameData d) \<Rightarrow> saturating_add bytes (length d) | _ \<Rightarrow> bytes"]
    by (auto simp: Let_def split: prod.splits option.splits frame.splits)
qed simp

lemma saturating_add_le:
  assumes "\<not> saturating_add a n > body_limit_bytes" and "a \<le> body_limit_bytes"
  shows "saturating_add a n = a + n" "a + n \<le> body_limit_bytes"
  using assms by (auto simp: saturating_add_def body_limit_bytes_def min_def split: if_splits)

lemma request_frames_bound:
  "bytes \<le> body_limit_bytes \<Longrightarrow>
     bytes + sum_list (map length (fst (request_frames deadline bytes es))) \<le> body_limit_bytes"
proof (induction es arbitrary: bytes)
  case (Cons e es)
  show ?case
  proof (cases "\<exists>d. po_frame e = Some (FrameData d) \<and> in_time (po_asked e) deadline (po_ready e) \<and>
      \<not> saturating_add bytes (length d) > body_limit_bytes")
    case True
    then obtain d where d: "po_frame e = Some (FrameData d)" "in_time (po_asked e) deadline (po_ready e)"
      "\<not> saturating_add bytes (length d) > body_limit_bytes" by blast
    with Cons.IH [OF saturating_add_le(2) [OF d(3) Cons.prems]] show ?thesis
      by (simp add: saturating_add_le(1) [OF d(3) Cons.prems] Let_def case_prod_unfold)
  next
    case False
    with Cons.prems show ?thesis
      by (auto simp: Let_def split: option.splits frame.splits)
  qed
qed simp

lemma response_frames_bound:
  "bytes \<le> body_limit_bytes \<Longrightarrow>
     bytes + sum_list (map (length \<circ> frame_bytes) (fst (response_frames deadline gap bytes es))) \<le> body_limit_bytes"
proof (induction es arbitrary: bytes)
  case (Cons e es)
  show ?case
  proof (cases "\<exists>d. po_frame e = Some (FrameData d) \<and> \<not> saturating_add bytes (length d) > body_limit_bytes")
    case True
    then obtain d where d: "po_frame e = Some (FrameData d)" "\<not> saturating_add bytes (length d) > body_limit_bytes" by blast
    with Cons.IH [OF saturating_add_le(2) [OF d(2) Cons.prems]] Cons.prems show ?thesis
      by (simp add: saturating_add_le(1) [OF d(2) Cons.prems] Let_def frame_bytes_def case_prod_unfold)
  next
    case False
    with Cons.prems Cons.IH [OF Cons.prems] show ?thesis
      by (auto simp: Let_def frame_bytes_def split: option.splits frame.splits prod.splits)
  qed
qed simp

text \<open>A body within the limits passes whole.\<close>

lemma request_frames_complete:
  assumes "\<And>e. e \<in> set es \<Longrightarrow> in_time (po_asked e) deadline (po_ready e)"
    and "map po_frame es = map (Some \<circ> FrameData) ds @ [None]"
    and "bytes + sum_list (map length ds) \<le> body_limit_bytes"
  shows "request_frames deadline bytes es = (ds, StreamEnded)"
  using assms
proof (induction ds arbitrary: es bytes)
  case Nil
  then obtain e where "es = [e]" "po_frame e = None" by auto
  with Nil show ?case by simp
next
  case (Cons d ds)
  then obtain e es' where es: "es = e # es'" "po_frame e = Some (FrameData d)"
      "map po_frame es' = map (Some \<circ> FrameData) ds @ [None]" by auto
  have "saturating_add bytes (length d) = bytes + length d"
    using Cons.prems(3) by (simp add: saturating_add_def body_limit_bytes_def)
  moreover have "request_frames deadline (bytes + length d) es' = (ds, StreamEnded)"
    using Cons.prems es by (intro Cons.IH) auto
  ultimately show ?case using Cons.prems es by simp
qed

text \<open>
  What a guest sends and what it receives are unaltered beginnings of the bodies, never
  longer than 1 MiB, whatever the peer sends and whenever.
\<close>

lemma guest_bodies_bounded:
  "prefix (map FrameData (fst (request_frames deadline 0 sent))) (data_of sent) \<and>
   sum_list (map length (fst (request_frames deadline 0 sent))) \<le> 1024 * 1024 \<and>
   prefix (hr_frames (received env deadline q (resp, body))) (data_of body) \<and>
   sum_list (map (length \<circ> frame_bytes) (hr_frames (received env deadline q (resp, body)))) \<le> 1024 * 1024"
  using request_frames_prefix [of deadline 0 sent] request_frames_bound [of 0 deadline sent]
    response_frames_prefix [of deadline _ 0 body] response_frames_bound [of 0 deadline _ body]
  by (auto simp: received_def body_limit_bytes_def split: prod.splits) (metis fst_conv)+

text \<open>A guest's upload is finished only after every frame of a body that ended was written.\<close>

fun uploaded :: "nat \<Rightarrow> (string \<Rightarrow> 'u \<Rightarrow> wrote \<times> 'u) \<Rightarrow> string list \<times> stream_end \<Rightarrow> 'u \<Rightarrow> unit \<Rightarrow> 'u \<Rightarrow> bool" where
  "uploaded deadline put ([], e) u x u' = (e = StreamEnded \<and> u' = u)"
| "uploaded deadline put (d # ds, e) u x u' =
     (fst (timed_write deadline (put d u)) = Inr () \<and> uploaded deadline put (ds, e) (snd (timed_write deadline (put d u))) x u')"

interpretation finish: gated "\<lambda>shutdown (ds, e). guest_upload deadline put (shutdown ()) e ds" "uploaded deadline put" for deadline put
proof unfold_locales
  fix k k' :: "unit \<Rightarrow> 'a \<Rightarrow> wrote \<times> 'a" and b u
  assume "(case b of (ds, e) \<Rightarrow> guest_upload deadline put (k ()) e ds) u \<noteq> (case b of (ds, e) \<Rightarrow> guest_upload deadline put (k' ()) e ds) u"
  then have "guest_upload deadline put (k ()) (snd b) (fst b) u \<noteq> guest_upload deadline put (k' ()) (snd b) (fst b) u"
    by (simp add: case_prod_unfold)
  then have "\<exists>q u'. uploaded deadline put (fst b, snd b) u q u' \<and> k q u' \<noteq> k' q u'"
  proof (induction "fst b" arbitrary: b u)
    case Nil
    then show ?case by (cases "snd b") auto
  next
    case (Cons d ds)
    from Cons(1) [of "(ds, snd b)"] Cons.prems Cons.hyps(2) [symmetric] show ?case
      by (auto split: prod.splits sum.splits unit.splits)
  qed
  then show "\<exists>q u'. uploaded deadline put b u q u' \<and> k q u' \<noteq> k' q u'" by simp
qed

section \<open>What a guest reaches\<close>

lemma clean_headers_same: "clean_headers = clean_hop_headers"
  by (intro ext) (simp add: clean_headers_def clean_hop_headers_def)

definition put_handshake :: "handshake \<Rightarrow> web_request \<Rightarrow> web_request" where
  "put_handshake hs r = r\<lparr>wq_handshake := Some hs, wq_authority := None, wq_visitor := None\<rparr>"

interpretation facts: gated "with_handshake hs" "\<lambda>r w q w'. q = put_handshake hs r \<and> w' = w" for hs
  by unfold_locales (simp add: with_handshake_def put_handshake_def)

text \<open>The native API of an invocation: the facts first, then the authorization.\<close>

interpretation guest_gate: gated_twice "with_handshake hs" "\<lambda>r w q w'. q = put_handshake hs r \<and> w' = w"
  "authorize env auth" "authorized env auth" for hs env auth
  by unfold_locales

text \<open>A request to another name: not the identity itself, pinned to the owner of the contact, bounded.\<close>

definition pinned :: "gate_env \<Rightarrow> 'w granted \<Rightarrow> remote_call \<Rightarrow> 'w \<Rightarrow> bool" where
  "pinned env gd c w = (rc_target c \<noteq> en_name (gd_endpoint gd) \<and>
     (\<exists>host. normalize_name (ge_pki env) host = Some (rc_target c)) \<and>
     get_all ''host'' (rc_headers c) = [rc_authority c] \<and>
     (\<exists>t. gd_contact gd (rc_target c) w = (Inr (rc_owner c), t)) \<and> is_none_or (gd_owner_hash_ok gd) (rc_owner c) \<and>
     (rc_authority c = rc_target c \<or> (\<exists>n. ge_sequence env n \<and> rc_authority c = rc_target c @ '':'' @ nat_text n)) \<and>
     sum_list (map length (rc_frames c)) \<le> 1024 * 1024)"

lemma outgoing_target_normal:
  assumes "outgoing_target env gd q = Inr (target, canonical)"
  shows "\<exists>host. normalize_name (ge_pki env) host = Some target"
    and "canonical = target \<or> (\<exists>n. ge_sequence env n \<and> canonical = target @ '':'' @ nat_text n)"
  using assms
  by (auto simp: outgoing_target_def outgoing_sequence_def try_r_Inr_iff opt_filter_def split: option.splits if_splits)

text \<open>Any predicate of the state that survives these two kinds of request survives the guest.\<close>

lemma send_request_keeps:
  assumes api: "\<And>r w. P w \<Longrightarrow> wq_handshake r = None \<Longrightarrow> wq_authority r = None \<Longrightarrow> wq_visitor r = None \<Longrightarrow> P (snd (gd_api gd r w))"
    and net: "\<And>c w. P w \<Longrightarrow> pinned env gd c w \<Longrightarrow> P (snd (gd_respond gd c w))"
    and "P w"
  shows "P (snd (send_request env (OutGranted gd) q w))"
proof (cases "outgoing_target env gd q")
  case (Inl e)
  with assms(3) show ?thesis by (simp add: send_request_def)
next
  case (Inr tc)
  obtain target canonical where tc: "tc = (target, canonical)" by fastforce
  let ?h = "clean_headers (parse_header_name (ge_http env)) (gr_headers q)"
  let ?d = "outgoing_deadline ?h"
  let ?b = "request_frames ?d 0 (gr_body q)"
  let ?c = "\<lparr>rc_target = target, rc_authority = canonical, rc_meth = gr_meth q, rc_path = gr_path q, rc_query = gr_query q,
     rc_headers = insert_header ''host'' canonical ?h, rc_frames = fst ?b, rc_body_end = snd ?b, rc_owner = None\<rparr>"
  have loc: "P (snd (send_local gd ?d q (local_request q ?h ?b) w))"
    using api [OF assms(3), of "local_request q ?h ?b"]
    by (auto simp: send_local_def local_request_def split: prod.splits)
  have pin: "pinned env gd (?c\<lparr>rc_owner := current\<rparr>) w"
    if "target \<noteq> en_name (gd_endpoint gd)" "gd_contact gd target w = (Inr current, t0)" "is_none_or (gd_owner_hash_ok gd) current"
    for current t0
    using that outgoing_target_normal [OF Inr [unfolded tc]] request_frames_bound [of 0 ?d "gr_body q"]
    by (auto simp: pinned_def body_limit_bytes_def)
  have rem: "P (snd (send_remote env gd ?d q ?c w))" if "target \<noteq> en_name (gd_endpoint gd)"
    using net [OF assms(3) pin [OF that]] assms(3)
    by (auto simp: send_remote_def Let_def split: prod.splits sum.splits)
  show ?thesis
    using loc rem assms(3) by (auto simp: send_request_def Inr tc Let_def split: prod.splits sum.splits)
qed

lemma host_serves_keeps:
  assumes "\<And>q w. P w \<Longrightarrow> P (snd (send_request env out q w))" and "P w"
  shows "P (snd (host_serves env ke sd out c w))"
  using assms by (cases c) (simp_all add: host_serves_def case_prod_unfold)

lemma run_guest_keeps:
  assumes "\<And>q w. P w \<Longrightarrow> P (snd (send_request env out q w))"
  shows "P w \<Longrightarrow> P (snd (run_guest env ke sd out g w))"
proof (induction g arbitrary: w)
  case (GuestCall c k)
  have "P (snd (host_serves env ke sd out c w))" by (rule host_serves_keeps) (use assms GuestCall.prems in auto)
  with GuestCall.IH show ?case by (auto split: prod.splits sum.splits)
qed simp

lemma execute_world:
  "snd (execute env ke component call r w) = snd (run_guest env ke (fst call) (snd call) (component r) w)"
  by (auto simp: execute_def split: prod.splits guest_end.splits task_end.splits)

lemma invocation_new_granted:
  assumes "invocation_new env ep hs (OutGranted gd) = Inr call"
  shows "snd call = OutGranted (layered (with_handshake hs) gd)" "sd_remote (fst call) = hs_remote hs"
  using assms by (auto simp: invocation_new_def try_r_Inr_iff)

lemma gate_visitor_handshake:
  "wq_handshake r = Some hs \<Longrightarrow> wq_handshake r' = Some hs \<Longrightarrow> gate_visitor env r' = gate_visitor env r"
  by (simp add: gate_visitor_def)

text \<open>
  Property C37: a guest acts for its caller and nobody else. Whatever the guest does, every request of
  it that reaches the native API carries the handshake of the invocation and nothing that the guest
  claimed, so that the authorization layer finds the visitor of the original request; every request to
  another name is pinned to the owner of the contact with that name, names that target as its host and
  is at most 1 MiB long. So a predicate of the state that these requests keep is kept by the guest.
\<close>

theorem guest_acts_as_caller:
  assumes "wq_handshake r = Some hs" and "invocation_new env ep hs (OutGranted gd) = Inr call"
    and "\<And>r' w. P w \<Longrightarrow> wq_handshake r' = Some hs \<Longrightarrow> wq_authority r' = None \<Longrightarrow> wq_visitor r' = None \<Longrightarrow>
      gate_visitor env r' = gate_visitor env r \<Longrightarrow> P (snd (gd_api gd r' w))"
    and "\<And>c w. P w \<Longrightarrow> pinned env gd c w \<Longrightarrow> P (snd (gd_respond gd c w))"
    and "P w"
  shows "P (snd (execute env ke component call r'' w))"
proof -
  let ?gd = "layered (with_handshake hs) gd"
  have "P (snd (send_request env (OutGranted ?gd) q w))" if "P w" for q w
  proof (rule send_request_keeps [where P = P])
    show "P w" by (rule that)
  next
    fix r' w
    assume "P w"
    then show "P (snd (gd_api ?gd r' w))"
      unfolding layered_def with_handshake_def
      using assms(3) gate_visitor_handshake [OF assms(1)] by simp
  next
    fix c w
    assume "P w" "pinned env ?gd c w"
    then show "P (snd (gd_respond ?gd c w))"
      using assms(4) by (simp add: layered_def pinned_def)
  qed
  then have "P (snd (run_guest env ke (fst call) (snd call) (component r'') w))"
    using invocation_new_granted(1) [OF assms(2)] assms(5) by (simp add: run_guest_keeps)
  then show ?thesis by (simp add: execute_world)
qed

text \<open>A guest that asks its own identity for a resource and then answers.\<close>

definition example_gate :: gate_env where
  "example_gate = \<lparr>ge_http = example_env,
     ge_pki = example_trust\<lparr>subject_key_of := (\<lambda>cs. if cs = [] then None else
       Some \<lparr>sk_text = hd cs, sk_owner = hd cs, sk_client_and_server = True, sk_sequence = 1\<rparr>)\<rparr>,
     ge_subject = Some, ge_sequence = (\<lambda>_. True)\<rparr>"

definition example_owner :: authority where
  "example_owner = \<lparr>au_name = ''a.b'', au_certificates = [''o'']\<rparr>"

definition example_handshake :: handshake where
  "example_handshake = \<lparr>hs_local = Some example_owner, hs_remote = Some \<lparr>au_name = ''c.d'', au_certificates = [''p'']\<rparr>\<rparr>"

definition example_endpoint :: endpoint where
  "example_endpoint = \<lparr>en_name = ''a.b'', en_authority = Inr example_owner\<rparr>"

definition example_call :: guest_request where
  "example_call = \<lparr>gr_meth = ''GET'', gr_scheme = Some ''https'', gr_authority = Some \<lparr>ua_text = ''~'', ua_host = ''~'', ua_port = None\<rparr>,
     gr_path = ''/x'', gr_query = None, gr_headers = [], gr_body = [], gr_first_byte = None, gr_connect = None, gr_between = None\<rparr>"

definition example_web :: web_request where
  "example_web = local_request example_call [] ([], StreamEnded)\<lparr>wq_handshake := Some example_handshake\<rparr>"

text \<open>The state is the list of the requests that reached the native API.\<close>

definition example_granted :: "web_request list granted" where
  "example_granted = \<lparr>gd_endpoint = example_endpoint, gd_suffix = [], gd_authority_ok = (\<lambda>_. True), gd_owner_hash_ok = (\<lambda>_. True),
     gd_contact = (\<lambda>_ _. (Inr None, 0)), gd_api = (\<lambda>r log. ((plain_response 200, [], Some 0), log @ [r])),
     gd_connect = (\<lambda>_ _. (Inr (), Some 0)), gd_respond = (\<lambda>_ log. ((Inr (plain_response 200, []), Some 0), log))\<rparr>"

definition example_guest :: guest where
  "example_guest = GuestCall (CallSend example_call) (\<lambda>_. GuestEnd (GuestResponse (plain_response 200, BodyEmpty)))"

lemmas example_sandbox_defs = example_gate_def example_owner_def example_handshake_def example_endpoint_def
  example_call_def example_web_def example_granted_def example_guest_def

lemma example_invocation:
  "invocation_new example_gate example_endpoint example_handshake (OutGranted example_granted) =
     Inr (\<lparr>sd_local = example_owner, sd_remote = hs_remote example_handshake\<rparr>,
          OutGranted (layered (with_handshake example_handshake) example_granted))"
  by (simp add: invocation_new_def check_endpoint_def owner_key_def example_sandbox_defs)

lemma example_run:
  "\<exists>r. snd (run_guest example_gate ke sd (OutGranted (layered (with_handshake example_handshake) example_granted)) example_guest []) = [r]"
  by (simp add: example_guest_def host_serves_def send_request_def outgoing_target_def send_local_def layered_def
      with_handshake_def example_call_def example_granted_def example_endpoint_def example_gate_def expand_host_def
      example_trust_def example_env_def in_time_def clean_headers_def connection_names_def get_all_def contains_key_def
      Let_def case_prod_unfold)

definition example_keys :: key_env where
  "example_keys = \<lparr>ke_sign = (\<lambda>_ _ _. UnsupportedScheme), ke_verify = (\<lambda>_ _ _. None)\<rparr>"

theorem guest_acts_as_caller_witness:
  "\<exists>call r. invocation_new example_gate example_endpoint example_handshake (OutGranted example_granted) = Inr call \<and>
     snd (execute example_gate example_keys (\<lambda>_. example_guest) call example_web []) = [r] \<and>
     wq_handshake r = Some example_handshake \<and> wq_visitor r = None"
proof -
  let ?call = "(\<lparr>sd_local = example_owner, sd_remote = hs_remote example_handshake\<rparr>,
    OutGranted (layered (with_handshake example_handshake) example_granted))"
  let ?P = "\<lambda>log. \<forall>r \<in> set log. wq_handshake r = Some example_handshake \<and> wq_visitor r = None"
  let ?log = "snd (execute example_gate example_keys (\<lambda>_. example_guest) ?call example_web [])"
  have "?P ?log"
  proof (rule guest_acts_as_caller [OF _ example_invocation])
    show "wq_handshake example_web = Some example_handshake" by (simp add: example_web_def)
  qed (auto simp: example_granted_def)
  moreover obtain r where "?log = [r]"
    using example_run [of example_keys] by (auto simp: execute_world)
  ultimately show ?thesis using example_invocation by auto
qed

section \<open>Who is the owner\<close>

lemma caller_is_owner_forward:
  assumes "wq_handshake r = Some hs" and "hs_local hs = Some l"
    and "normalize_name (ge_pki env) (au_name l) = Some (en_name ep)"
  shows "caller_is_owner env \<lparr>sd_local = l, sd_remote = hs_remote hs\<rparr> = is_ok (forward_guard env ep r)"
  using assms unfolding is_ok_iff forward_guard_owner
  by (auto simp: caller_is_owner_def owner_forward_def peer_def split: option.splits)

lemma forward_require_owner:
  assumes "wq_handshake r = Some hs" and "hs_local hs = Some l" and "en_authority ep = Inr own"
    and "normalize_name (ge_pki env) (au_name l) = Some (en_name ep)"
    and "map_option sk_owner (subject_key_of (ge_pki env) (au_certificates l)) =
         map_option sk_owner (subject_key_of (ge_pki env) (au_certificates own))"
    and "\<And>a. hs_remote hs = Some a \<Longrightarrow> normalize_name (ge_pki env) (au_name a) = Some (au_name a)"
    and "inj (ge_subject env)" and "gate_visitor env r = Inr v"
  shows "is_ok (forward_guard env ep r) = is_ok (require_owner env ep (r\<lparr>wq_visitor := v\<rparr>))"
proof (cases "hs_remote hs")
  case None
  with assms(1,2,8) show ?thesis
    unfolding is_ok_iff forward_guard_owner
    by (auto simp: owner_forward_def peer_def gate_visitor_def require_owner_def try_r_Inr_iff)
next
  case (Some a)
  with assms(1,2,8) obtain ka x where a: "subject_key_of (ge_pki env) (au_certificates a) = Some ka"
      "ge_subject env (sk_owner ka) = Some x" "v = Some \<lparr>vi_name = au_name a, vi_subject = x\<rparr>"
    by (auto simp: gate_visitor_def authority_visitor_def subject_of_def bind_eq_Some_conv split: option.splits)
  have y: "ge_subject env y = Some x \<longleftrightarrow> y = sk_owner ka" for y
    using assms(7) a(2) by (auto simp: inj_def)
  let ?same = "au_name a = en_name ep \<and> map_option sk_owner (subject_key_of (ge_pki env) (au_certificates own)) = Some (sk_owner ka)"
  have "owner_forward env ep r \<longleftrightarrow> ?same"
    unfolding owner_forward_def assms(5) [symmetric] map_option_eq_Some
    using assms(1,2,4) assms(6) [OF Some] Some a(1) by (auto simp: peer_def)
  moreover have "is_ok (require_owner env ep (r\<lparr>wq_visitor := v\<rparr>)) \<longleftrightarrow> ?same"
    unfolding is_ok_iff require_owner_def map_option_eq_Some
    using assms(3) a(3) y by (auto simp: try_r_Inr_iff)
  ultimately show ?thesis by (simp add: is_ok_iff forward_guard_owner)
qed

text \<open>
  The three places that decide whether a connection is the owner's agree. For a
  connection whose local certificate has the owner of the identity, the guest's
  \<^verbatim>\<open>caller-is-owner\<close>, the guard of forwarding and the check of the management resources give the same
  answer, when the peer's name is in normal form and owners are told apart by their subjects.
\<close>

lemma owner_checks_agree:
  assumes "wq_handshake r = Some hs" and "hs_local hs = Some l" and "en_authority ep = Inr own"
    and "normalize_name (ge_pki env) (au_name l) = Some (en_name ep)"
    and "map_option sk_owner (subject_key_of (ge_pki env) (au_certificates l)) =
         map_option sk_owner (subject_key_of (ge_pki env) (au_certificates own))"
    and "\<And>a. hs_remote hs = Some a \<Longrightarrow> normalize_name (ge_pki env) (au_name a) = Some (au_name a)"
    and "inj (ge_subject env)" and "gate_visitor env r = Inr v"
  shows "caller_is_owner env \<lparr>sd_local = l, sd_remote = hs_remote hs\<rparr> = is_ok (forward_guard env ep r) \<and>
    is_ok (forward_guard env ep r) = is_ok (require_owner env ep (r\<lparr>wq_visitor := v\<rparr>))"
  using caller_is_owner_forward [OF assms(1,2,4)] forward_require_owner [OF assms] by blast

lemma owner_checks_agree_witness:
  "\<not> caller_is_owner example_gate \<lparr>sd_local = example_owner, sd_remote = hs_remote example_handshake\<rparr> \<and>
   \<not> is_ok (require_owner example_gate example_endpoint
       (example_web\<lparr>wq_visitor := Some \<lparr>vi_name = ''c.d'', vi_subject = ''p''\<rparr>\<rparr>))"
proof -
  have v: "gate_visitor example_gate example_web = Inr (Some \<lparr>vi_name = ''c.d'', vi_subject = ''p''\<rparr>)"
    by (simp add: gate_visitor_def authority_visitor_def subject_of_def example_sandbox_defs)
  have "\<not> caller_is_owner example_gate \<lparr>sd_local = example_owner, sd_remote = hs_remote example_handshake\<rparr>"
    by (simp add: caller_is_owner_def example_sandbox_defs example_trust_def)
  moreover have "caller_is_owner example_gate \<lparr>sd_local = example_owner, sd_remote = hs_remote example_handshake\<rparr> =
      is_ok (forward_guard example_gate example_endpoint example_web) \<and>
    is_ok (forward_guard example_gate example_endpoint example_web) = is_ok (require_owner example_gate example_endpoint
       (example_web\<lparr>wq_visitor := Some \<lparr>vi_name = ''c.d'', vi_subject = ''p''\<rparr>\<rparr>))"
    by (rule owner_checks_agree [OF _ _ _ _ _ _ _ v, of example_handshake _ _ example_owner])
      (auto simp: example_sandbox_defs example_trust_def inj_def)
  ultimately show ?thesis by blast
qed

end
