(* ===== verification/Install_Commit.thy ===== *)
theory Install_Commit
  imports Registry
begin

text \<open>
  How an installation or removal switches the files of its packages together with the database
  (\<^verbatim>\<open>commit_packages_files\<close> of \<^verbatim>\<open>src/package/files.rs\<close>), rolls back after an error, and is finished or
  undone at the next start (\<^verbatim>\<open>recover_package_files\<close> of \<^verbatim>\<open>src/server/files.rs\<close>).

  The disk is modelled as what these routines touch: per package and kind the live resource, its
  backup and the candidate in the staging directory, the recovery journal, and the committed
  registry. The routines are lists of steps that the file system or SQLite performs atomically;
  writing the journal and removing a directory tree are not atomic and take two steps. A crash
  stops the list after any prefix. Owners, modes and \<^verbatim>\<open>fsync\<close> are not modelled: a completed step is
  durable.
\<close>

section \<open>The disk\<close>

datatype kind = Lib | App

text \<open>A Lib is one file, an App a directory: its files by their paths. A removal tears a resource.\<close>

datatype payload = Component string | Tree "(string \<times> string) list" | Torn

type_synonym slot = "string \<times> kind"

record slot_state =
  sl_live :: "payload option"
  sl_backup :: "payload option"
  sl_candidate :: "payload option"

text \<open>
  The registration facts of a name: the package row with or without its signing columns, the
  dependencies, the declarations. They are the value of the query's JSON text.
\<close>

record facts =
  fc_package :: "(package_row \<times> bool) option"
  fc_dependencies :: "(string \<times> string) list"
  fc_capabilities :: "(string \<times> string) list"
  fc_operations :: "(string \<times> string \<times> string) list"

definition registration_facts :: "bool \<Rightarrow> registry \<Rightarrow> string \<Rightarrow> facts" where
  "registration_facts signing reg name =
     \<lparr>fc_package = map_option (\<lambda>p. if signing then (p, True)
          else (p\<lparr>pk_owner_hash := None, pk_sha256 := None, pk_leaf := None\<rparr>, False)) (find_package reg name),
      fc_dependencies = sort (map (\<lambda>d. (dp_dependency d, dp_version d)) (filter (\<lambda>d. dp_package d = name) (rg_dependencies reg))),
      fc_capabilities = sort (map (\<lambda>c. (cp_id c, cp_title c)) (filter (\<lambda>c. cp_lib c = name) (rg_capabilities reg))),
      fc_operations = sort (map (\<lambda>p. (op_cap p, op_method p, op_path p)) (filter (\<lambda>p. op_lib p = name) (rg_operations reg)))\<rparr>"

record journal_entry =
  je_id :: string
  je_directory :: string
  je_lib :: "bool \<times> bool"
  je_app :: "bool \<times> bool"
  je_facts :: facts

text \<open>The file \<^verbatim>\<open>.transaction.json\<close>: unreadable, one entry as old hosts wrote it, or a batch.\<close>

datatype marker = Unreadable | Single journal_entry | Batch "journal_entry list"

record disk =
  dk_slots :: "slot \<Rightarrow> slot_state"
  dk_marker :: "marker option"
  dk_stage :: bool
  dk_registry :: registry

definition je_resource :: "journal_entry \<Rightarrow> kind \<Rightarrow> bool \<times> bool" where
  "je_resource e k = (case k of Lib \<Rightarrow> je_lib e | App \<Rightarrow> je_app e)"

text \<open>Where a resource lives: \<^verbatim>\<open>lib/\<close>, \<^verbatim>\<open>lib/std/\<close> for the standard publishers, \<^verbatim>\<open>app/\<close>.\<close>

definition target_path :: "slot \<Rightarrow> string" where
  "target_path s = (case s of (pid, k) \<Rightarrow>
     (case k of
        Lib \<Rightarrow> (if is_some_and is_standard_author (id_author pid) then ''lib/std/'' else ''lib/'') @ short_name pid @ ''.wasm''
      | App \<Rightarrow> ''app/'' @ short_name pid))"

section \<open>Steps\<close>

datatype fs_step =
    CreateMarker
  | FillMarker marker
  | MoveOld slot
  | MoveNew slot
  | CommitTx registry
  | TearLive slot
  | DropLive slot
  | RestoreOld slot
  | DropMarker
  | RemoveStage

definition on_slot :: "slot \<Rightarrow> (slot_state \<Rightarrow> slot_state) \<Rightarrow> disk \<Rightarrow> disk" where
  "on_slot s f d = d\<lparr>dk_slots := (dk_slots d)(s := f (dk_slots d s))\<rparr>"

definition move_old :: "slot_state \<Rightarrow> slot_state" where
  "move_old x = x\<lparr>sl_backup := sl_live x, sl_live := None\<rparr>"

definition move_new :: "slot_state \<Rightarrow> slot_state" where
  "move_new x = x\<lparr>sl_live := sl_candidate x, sl_candidate := None\<rparr>"

definition tear_live :: "slot_state \<Rightarrow> slot_state" where
  "tear_live x = x\<lparr>sl_live := map_option (\<lambda>_. Torn) (sl_live x)\<rparr>"

definition drop_live :: "slot_state \<Rightarrow> slot_state" where
  "drop_live x = x\<lparr>sl_live := None\<rparr>"

definition restore_old :: "slot_state \<Rightarrow> slot_state" where
  "restore_old x = x\<lparr>sl_live := sl_backup x, sl_backup := None\<rparr>"

fun fs_apply :: "fs_step \<Rightarrow> disk \<Rightarrow> disk" where
  "fs_apply CreateMarker d = d\<lparr>dk_marker := Some Unreadable\<rparr>"
| "fs_apply (FillMarker m) d = d\<lparr>dk_marker := Some m\<rparr>"
| "fs_apply (MoveOld s) d = on_slot s move_old d"
| "fs_apply (MoveNew s) d = on_slot s move_new d"
| "fs_apply (CommitTx reg) d = d\<lparr>dk_registry := reg\<rparr>"
| "fs_apply (TearLive s) d = on_slot s tear_live d"
| "fs_apply (DropLive s) d = on_slot s drop_live d"
| "fs_apply (RestoreOld s) d = on_slot s restore_old d"
| "fs_apply DropMarker d = d\<lparr>dk_marker := None\<rparr>"
| "fs_apply RemoveStage d = d\<lparr>dk_stage := False, dk_marker := None,
     dk_slots := (\<lambda>s. (dk_slots d s)\<lparr>sl_backup := None, sl_candidate := None\<rparr>)\<rparr>"

abbreviation fs_run :: "fs_step list \<Rightarrow> disk \<Rightarrow> disk" where
  "fs_run \<equiv> fold fs_apply"

section \<open>Committing\<close>

text \<open>What is known of a resource when the journal is written: whether it is installed, whether it is staged.\<close>

type_synonym target = "slot \<times> bool \<times> bool"

definition slot_target :: "disk \<Rightarrow> slot \<Rightarrow> target" where
  "slot_target d s = (s, sl_live (dk_slots d s) \<noteq> None, sl_candidate (dk_slots d s) \<noteq> None)"

definition targets_of :: "disk \<Rightarrow> string list \<Rightarrow> target list" where
  "targets_of d pids = concat (map (\<lambda>pid. [slot_target d (pid, Lib), slot_target d (pid, App)]) pids)"

text \<open>\<open>single\<close> is set by \<^verbatim>\<open>commit_package_files\<close>, which stages its one package at the top.\<close>

definition journal_of :: "bool \<Rightarrow> disk \<Rightarrow> string list \<Rightarrow> registry \<Rightarrow> journal_entry list" where
  "journal_of single d pids reg =
     map (\<lambda>pid. \<lparr>je_id = pid, je_directory = (if single then [] else short_name pid),
                 je_lib = snd (slot_target d (pid, Lib)), je_app = snd (slot_target d (pid, App)),
                 je_facts = registration_facts True reg (short_name pid)\<rparr>) pids"

definition move_steps :: "target list \<Rightarrow> fs_step list" where
  "move_steps ts = concat (map (\<lambda>(s, old, new).
     (if old then [MoveOld s] else []) @ (if new then [MoveNew s] else [])) ts)"

text \<open>
  Undoing one resource, in \<^verbatim>\<open>rollback\<close> and in recovery alike: a backup goes back in place of
  whatever is live; without one, a new resource that has left the staging directory is removed.
\<close>

definition restore_steps :: "disk \<Rightarrow> target \<Rightarrow> fs_step list" where
  "restore_steps d t = (case t of (s, old, new) \<Rightarrow>
     if sl_backup (dk_slots d s) \<noteq> None then [TearLive s, DropLive s, RestoreOld s]
     else if \<not> old \<and> new \<and> sl_candidate (dk_slots d s) = None then [TearLive s, DropLive s]
     else [])"

definition cleanup_steps :: "fs_step list" where
  "cleanup_steps = [DropMarker, RemoveStage]"

definition begin_steps :: "bool \<Rightarrow> disk \<Rightarrow> string list \<Rightarrow> registry \<Rightarrow> fs_step list" where
  "begin_steps single d pids reg = [CreateMarker, FillMarker (Batch (journal_of single d pids reg))]"

definition commit_steps :: "bool \<Rightarrow> disk \<Rightarrow> string list \<Rightarrow> registry \<Rightarrow> fs_step list" where
  "commit_steps single d pids reg =
     begin_steps single d pids reg @ move_steps (targets_of d pids) @ [CommitTx reg] @ cleanup_steps"

definition rollback_steps :: "disk \<Rightarrow> target list \<Rightarrow> fs_step list" where
  "rollback_steps d ts = concat (map (restore_steps d) ts) @ cleanup_steps"

text \<open>
  The errors that its environment gives the routine. \<open>cf_prepare\<close>: \<open>Some (n, e)\<close> is the error \<open>e\<close> before
  the journal is published, after \<open>n\<close> of the steps that write it; none has been taken while the targets
  are inspected.
  \<open>cf_moves\<close>: \<open>Some (n, e)\<close> is the error \<open>e\<close> after \<open>n\<close> of the moves, the failure of the commit being the
  last of them. \<open>cf_undo\<close>: \<open>Some n\<close> is an error of the rollback after \<open>n\<close> of its steps. \<open>cf_cleanup\<close>:
  \<open>Some n\<close> is an error of the final cleanup after \<open>n\<close> of its steps, or, before the journal is
  published, of the removal of the staging directory.
\<close>

record commit_faults =
  cf_prepare :: "(nat \<times> error) option"
  cf_moves :: "(nat \<times> error) option"
  cf_undo :: "nat option"
  cf_cleanup :: "nat option"

definition interrupted :: "nat option \<Rightarrow> 'a list \<Rightarrow> 'a list" where
  "interrupted fault steps = (case fault of None \<Rightarrow> steps | Some n \<Rightarrow> take n steps)"

text \<open>
  The rollback with its cleanup, which follows only a rollback that succeeded: otherwise the journal and
  the backups stay for the next start. The routine reports the error of the moves in every case, and an
  error of the cleanup is only logged.
\<close>

definition undo_steps :: "commit_faults \<Rightarrow> disk \<Rightarrow> target list \<Rightarrow> fs_step list" where
  "undo_steps f d ts = (let undo = concat (map (restore_steps d) ts) in
     case cf_undo f of
       None \<Rightarrow> undo @ interrupted (cf_cleanup f) cleanup_steps
     | Some n \<Rightarrow> take n undo)"

text \<open>
  What ends the routine before its journal is published: an error, or a journal over the limit, whose
  size is \<open>journal_bytes\<close>; it is refused before it is written.
\<close>

definition unprepared :: "commit_faults \<Rightarrow> nat \<Rightarrow> (nat \<times> error) option" where
  "unprepared f bytes =
     (if bytes > 2 * 1024 * 1024 \<and> is_none_or (\<lambda>x. fst x > 0) (cf_prepare f)
      then Some (0, BadRequest ''package recovery journal exceeds 2 MiB'')
      else cf_prepare f)"

definition commit_packages_files ::
  "(journal_entry list \<Rightarrow> nat) \<Rightarrow> commit_faults \<Rightarrow> bool \<Rightarrow> string list \<Rightarrow> registry \<Rightarrow> disk \<Rightarrow> unit res \<times> disk"
where
  "commit_packages_files journal_bytes f single pids reg d =
     (case unprepared f (journal_bytes (journal_of single d pids reg)) of
        Some (n, e) \<Rightarrow> (Inl e, fs_run (take n (begin_steps single d pids reg) @ interrupted (cf_cleanup f) [RemoveStage]) d)
      | None \<Rightarrow>
          let ts = targets_of d pids; d1 = fs_run (begin_steps single d pids reg) d in
          case cf_moves f of
            None \<Rightarrow> (Inr (), fs_run (move_steps ts @ [CommitTx reg] @ interrupted (cf_cleanup f) cleanup_steps) d1)
          | Some (n, e) \<Rightarrow>
              let d2 = fs_run (take n (move_steps ts)) d1 in
              (Inl e, fs_run (undo_steps f d2 ts) d2))"

text \<open>The case in which neither the rollback nor the cleanup fails.\<close>

definition settled :: "commit_faults \<Rightarrow> bool" where
  "settled f = (cf_undo f = None \<and> cf_cleanup f = None)"

definition no_faults :: commit_faults where
  "no_faults = \<lparr>cf_prepare = None, cf_moves = None, cf_undo = None, cf_cleanup = None\<rparr>"

section \<open>Recovery\<close>

definition entry_committed :: "bool \<Rightarrow> registry \<Rightarrow> journal_entry \<Rightarrow> bool" where
  "entry_committed signing reg e =
     (je_facts e = registration_facts signing reg (short_name (je_id e)) \<or>
      signing \<and> je_facts e = registration_facts False reg (short_name (je_id e)))"

fun check_entries :: "normalizer \<Rightarrow> bool \<Rightarrow> journal_entry list \<Rightarrow> string list \<Rightarrow> unit res" where
  "check_entries norm single [] names = Inr ()"
| "check_entries norm single (e # es) names =
     try_r (valid_id norm (je_id e)) (\<lambda>_.
     try_r (ensure_r (\<not> (short_name (je_id e) \<in> set names \<or>
                         \<not> (je_directory e = short_name (je_id e) \<or> je_directory e = [] \<and> single)))
              (InvalidConfig ''invalid recovery directory'')) (\<lambda>_.
     check_entries norm single es (short_name (je_id e) # names)))"

definition marker_entries :: "marker \<Rightarrow> journal_entry list res" where
  "marker_entries m = (case m of
     Unreadable \<Rightarrow> Inl (InvalidConfig ''invalid package recovery journal'')
   | Single e \<Rightarrow> Inr [e]
   | Batch es \<Rightarrow> (if es \<noteq> [] \<and> length es \<le> 100 then Inr es
                 else Inl (InvalidConfig ''invalid package recovery batch'')))"

definition entry_targets :: "journal_entry list \<Rightarrow> target list" where
  "entry_targets es = concat (map (\<lambda>e. [((je_id e, Lib), je_lib e), ((je_id e, App), je_app e)]) es)"

text \<open>\<open>signing\<close>: whether the database already has the signing columns.\<close>

definition recovery_steps :: "normalizer \<Rightarrow> bool \<Rightarrow> disk \<Rightarrow> fs_step list res" where
  "recovery_steps norm signing d = (case dk_marker d of
     None \<Rightarrow> Inr []
   | Some m \<Rightarrow>
       try_r (marker_entries m) (\<lambda>es.
       try_r (check_entries norm (length es = 1) es []) (\<lambda>_.
       Inr ((if list_all (entry_committed signing (dk_registry d)) es then []
             else concat (map (restore_steps d) (entry_targets es))) @ cleanup_steps))))"

definition recover_package_files :: "normalizer \<Rightarrow> bool \<Rightarrow> disk \<Rightarrow> disk res" where
  "recover_package_files norm signing d =
     try_r (recovery_steps norm signing d) (\<lambda>steps. Inr (fs_run steps d))"


section \<open>What a transaction promises\<close>

abbreviation live :: "disk \<Rightarrow> slot \<Rightarrow> payload option" where
  "live d s \<equiv> sl_live (dk_slots d s)"

definition txn_slots :: "string list \<Rightarrow> slot set" where
  "txn_slots pids = set pids \<times> UNIV"

text \<open>
  The situation in which the routine is called: 1 to 100 valid packages with distinct short names,
  no journal and no backups in the fresh staging directory, and registrations that differ from the
  committed ones for at least one package.
\<close>

definition txn_ok :: "normalizer \<Rightarrow> bool \<Rightarrow> disk \<Rightarrow> string list \<Rightarrow> registry \<Rightarrow> bool" where
  "txn_ok norm single d0 pids reg =
     (pids \<noteq> [] \<and> length pids \<le> 100 \<and> distinct (map short_name pids) \<and>
      list_all (\<lambda>pid. valid_id norm pid = Inr ()) pids \<and> (single \<longrightarrow> length pids = 1) \<and>
      dk_marker d0 = None \<and>
      list_all (\<lambda>pid. sl_backup (dk_slots d0 (pid, Lib)) = None \<and> sl_backup (dk_slots d0 (pid, App)) = None) pids \<and>
      list_ex (\<lambda>pid. registration_facts True reg (short_name pid) \<noteq>
                     registration_facts True (dk_registry d0) (short_name pid)) pids)"

text \<open>A resource that can still be undone, by its old and its new content.\<close>

definition slot_ok :: "payload option \<Rightarrow> payload option \<Rightarrow> slot_state \<Rightarrow> bool" where
  "slot_ok old new x =
     (if old \<noteq> None then sl_backup x = None \<and> sl_live x = old \<or> sl_backup x = old
      else sl_backup x = None \<and>
           (if new = None then sl_live x = None else sl_candidate x = None \<or> sl_live x = None))"

definition old_state :: "disk \<Rightarrow> disk \<Rightarrow> bool" where
  "old_state d0 d = (dk_registry d = dk_registry d0 \<and> dk_marker d = None \<and> (\<forall>s. live d s = live d0 s))"

definition new_state :: "disk \<Rightarrow> string list \<Rightarrow> registry \<Rightarrow> disk \<Rightarrow> bool" where
  "new_state d0 pids reg d = (dk_registry d = reg \<and> dk_marker d = None \<and>
     (\<forall>s. live d s = (if s \<in> txn_slots pids then sl_candidate (dk_slots d0 s) else live d0 s)))"

text \<open>Every disk between the writing of the journal and the commit: everything can still be undone.\<close>

definition undoable :: "bool \<Rightarrow> disk \<Rightarrow> string list \<Rightarrow> registry \<Rightarrow> disk \<Rightarrow> bool" where
  "undoable single d0 pids reg d =
     (old_state d0 d \<or>
      dk_registry d = dk_registry d0 \<and> dk_marker d = Some (Batch (journal_of single d0 pids reg)) \<and>
      (\<forall>s. if s \<in> txn_slots pids then slot_ok (live d0 s) (sl_candidate (dk_slots d0 s)) (dk_slots d s)
           else live d s = live d0 s))"

definition undo_promise :: "normalizer \<Rightarrow> bool \<Rightarrow> disk \<Rightarrow> string list \<Rightarrow> registry \<Rightarrow> disk \<Rightarrow> bool" where
  "undo_promise norm single d0 pids reg d = (txn_ok norm single d0 pids reg \<and> undoable single d0 pids reg d)"

fun undo_safe :: "disk \<Rightarrow> string list \<Rightarrow> fs_step \<Rightarrow> disk \<Rightarrow> bool" where
  "undo_safe d0 pids (MoveOld s) d =
     (dk_marker d \<noteq> None \<and> s \<in> txn_slots pids \<and> live d0 s \<noteq> None \<and> sl_backup (dk_slots d s) = None)"
| "undo_safe d0 pids (MoveNew s) d =
     (dk_marker d \<noteq> None \<and> s \<in> txn_slots pids \<and> sl_candidate (dk_slots d0 s) \<noteq> None \<and> sl_backup (dk_slots d s) = live d0 s)"
| "undo_safe d0 pids (TearLive s) d =
     (dk_marker d \<noteq> None \<and> s \<in> txn_slots pids \<and> (sl_backup (dk_slots d s) \<noteq> None \<or>
        live d0 s = None \<and> sl_candidate (dk_slots d0 s) \<noteq> None \<and> sl_candidate (dk_slots d s) = None))"
| "undo_safe d0 pids (DropLive s) d =
     (dk_marker d \<noteq> None \<and> s \<in> txn_slots pids \<and> (sl_backup (dk_slots d s) \<noteq> None \<or>
        live d0 s = None \<and> sl_candidate (dk_slots d0 s) \<noteq> None \<and> sl_candidate (dk_slots d s) = None))"
| "undo_safe d0 pids (RestoreOld s) d = (dk_marker d \<noteq> None \<and> s \<in> txn_slots pids \<and> sl_backup (dk_slots d s) \<noteq> None)"
| "undo_safe d0 pids DropMarker d = (\<forall>s. live d s = live d0 s)"
| "undo_safe d0 pids RemoveStage d = (dk_marker d = None)"
| "undo_safe d0 pids _ d = False"

definition done_promise :: "normalizer \<Rightarrow> bool \<Rightarrow> disk \<Rightarrow> string list \<Rightarrow> registry \<Rightarrow> disk \<Rightarrow> bool" where
  "done_promise norm single d0 pids reg d =
     (txn_ok norm single d0 pids reg \<and>
      (dk_marker d = None \<or> dk_marker d = Some (Batch (journal_of single d0 pids reg))) \<and>
      new_state d0 pids reg (d\<lparr>dk_marker := None\<rparr>))"

definition done_safe :: "fs_step \<Rightarrow> disk \<Rightarrow> bool" where
  "done_safe step d = (step \<in> set cleanup_steps)"

section \<open>Facts decide the outcome\<close>

lemma journal_committed: "list_all (entry_committed True reg) (journal_of single d0 pids reg)"
  by (auto simp: list_all_iff journal_of_def entry_committed_def)

lemma facts_v3_distinct:
  assumes "registration_facts True reg n = registration_facts False reg0 n"
  shows "registration_facts True reg n = registration_facts True reg0 n"
  using assms by (cases "find_package reg n"; cases "find_package reg0 n")
    (simp_all add: registration_facts_def del: find_package_None_iff)

lemma journal_uncommitted:
  assumes "txn_ok norm single d0 pids reg"
  shows "\<not> list_all (entry_committed True (dk_registry d0)) (journal_of single d0 pids reg)"
proof -
  from assms obtain pid where pid: "pid \<in> set pids"
    and ne: "registration_facts True reg (short_name pid) \<noteq> registration_facts True (dk_registry d0) (short_name pid)"
    unfolding txn_ok_def list_ex_iff by blast
  define e where "e = \<lparr>je_id = pid, je_directory = (if single then [] else short_name pid),
      je_lib = snd (slot_target d0 (pid, Lib)), je_app = snd (slot_target d0 (pid, App)),
      je_facts = registration_facts True reg (short_name pid)\<rparr>"
  have "e \<in> set (journal_of single d0 pids reg)" using pid by (simp add: journal_of_def e_def)
  moreover have "\<not> entry_committed True (dk_registry d0) e"
    using ne facts_v3_distinct [of reg "short_name pid" "dk_registry d0"] by (auto simp: entry_committed_def e_def)
  ultimately show ?thesis unfolding list_all_iff by blast
qed

lemma check_entries_journal:
  assumes "list_all (\<lambda>pid. valid_id norm pid = Inr ()) pids" and "distinct (map short_name pids)"
    and "set (map short_name pids) \<inter> set names = {}" and "single \<longrightarrow> one"
  shows "check_entries norm one (journal_of single d0 pids reg) names = Inr ()"
  using assms
proof (induction pids arbitrary: names)
  case (Cons pid pids)
  have "check_entries norm one (journal_of single d0 pids reg) (short_name pid # names) = Inr ()"
    using Cons.prems by (intro Cons.IH) auto
  with Cons.prems show ?case by (auto simp: journal_of_def try_r_Inr_iff)
qed (simp add: journal_of_def)

lemma recovery_steps_journal:
  assumes "txn_ok norm single d0 pids reg" and "dk_marker d = Some (Batch (journal_of single d0 pids reg))"
  shows "recovery_steps norm True d =
    Inr ((if list_all (entry_committed True (dk_registry d)) (journal_of single d0 pids reg) then []
          else concat (map (restore_steps d) (entry_targets (journal_of single d0 pids reg)))) @ cleanup_steps)"
proof -
  have "check_entries norm (length (journal_of single d0 pids reg) = 1) (journal_of single d0 pids reg) [] = Inr ()"
    using assms(1) by (intro check_entries_journal) (auto simp: txn_ok_def journal_of_def)
  moreover have "journal_of single d0 pids reg \<noteq> [] \<and> length (journal_of single d0 pids reg) \<le> 100"
    using assms(1) by (auto simp: txn_ok_def journal_of_def)
  ultimately show ?thesis
    using assms(2) by (simp add: recovery_steps_def marker_entries_def)
qed

lemma entry_targets_journal: "entry_targets (journal_of single d0 pids reg) = targets_of d0 pids"
  by (induction pids) (auto simp: entry_targets_def journal_of_def targets_of_def slot_target_def)


section \<open>Single steps\<close>

lemma on_slot_simps [simp]:
  "dk_slots (on_slot s f d) t = (if t = s then f (dk_slots d s) else dk_slots d t)"
  "dk_marker (on_slot s f d) = dk_marker d" "dk_registry (on_slot s f d) = dk_registry d"
  "dk_stage (on_slot s f d) = dk_stage d"
  by (simp_all add: on_slot_def)

lemmas slot_moves = move_old_def move_new_def tear_live_def drop_live_def restore_old_def

lemma slot_ok_steps:
  assumes "slot_ok old new x"
  shows "old \<noteq> None \<Longrightarrow> sl_backup x = None \<Longrightarrow> slot_ok old new (move_old x)"
    and "new \<noteq> None \<Longrightarrow> sl_backup x = old \<Longrightarrow> slot_ok old new (move_new x)"
    and "sl_backup x \<noteq> None \<or> old = None \<and> new \<noteq> None \<and> sl_candidate x = None \<Longrightarrow> slot_ok old new (tear_live x)"
    and "sl_backup x \<noteq> None \<or> old = None \<and> new \<noteq> None \<and> sl_candidate x = None \<Longrightarrow> slot_ok old new (drop_live x)"
    and "sl_backup x \<noteq> None \<Longrightarrow> slot_ok old new (restore_old x)"
  using assms by (auto simp: slot_ok_def slot_moves split: if_splits)

lemma undoable_keeps:
  assumes "undoable single d0 pids reg d" and "undo_safe d0 pids step d"
  shows "undoable single d0 pids reg (fs_apply step d)"
proof (cases "dk_marker d = None")
  case True
  with assms show ?thesis
    by (cases step) (auto simp: undoable_def old_state_def)
next
  case False
  with assms(1) have
    db: "dk_registry d = dk_registry d0" "dk_marker d = Some (Batch (journal_of single d0 pids reg))" and
    slots: "\<And>s. s \<in> txn_slots pids \<Longrightarrow> slot_ok (live d0 s) (sl_candidate (dk_slots d0 s)) (dk_slots d s)"
      "\<And>s. s \<notin> txn_slots pids \<Longrightarrow> live d s = live d0 s"
    by (auto simp: undoable_def old_state_def split: if_splits)
  show ?thesis
  proof (cases step)
    case DropMarker
    with assms(2) db show ?thesis by (simp add: undoable_def old_state_def)
  qed (use assms(2) False db slots slot_ok_steps in \<open>auto simp: undoable_def\<close>)
qed

lemma undoable_prefix:
  "undoable single d0 pids reg d \<Longrightarrow> all_safe fs_apply (undo_safe d0 pids) steps d \<Longrightarrow>
     undoable single d0 pids reg (fs_run (take n steps) d)"
  by (induction steps arbitrary: d n) (auto simp: take_Cons' intro: undoable_keeps)

lemma undo_keeps:
  assumes "undo_promise norm single d0 pids reg d" and "undo_safe d0 pids step d"
  shows "undo_promise norm single d0 pids reg (fs_apply step d)"
  using assms undoable_keeps by (auto simp: undo_promise_def)

lemma done_keeps:
  assumes "done_promise norm single d0 pids reg d" and "done_safe step d"
  shows "done_promise norm single d0 pids reg (fs_apply step d)"
  using assms by (cases step) (auto simp: done_promise_def done_safe_def cleanup_steps_def new_state_def)

section \<open>Lists of steps\<close>

text \<open>The targets of a transaction: distinct slots, with the flags the initial disk gives them.\<close>

definition targets_ok :: "disk \<Rightarrow> string list \<Rightarrow> target list \<Rightarrow> bool" where
  "targets_ok d0 pids ts = (distinct (map fst ts) \<and>
     list_all (\<lambda>(s, old, new). s \<in> txn_slots pids \<and> old = (live d0 s \<noteq> None) \<and>
                                new = (sl_candidate (dk_slots d0 s) \<noteq> None)) ts)"

lemma targets_of_ok: "distinct pids \<Longrightarrow> targets_ok d0 pids (targets_of d0 pids)"
proof -
  assume d: "distinct pids"
  have "distinct (map fst (targets_of d0 ps)) \<and> fst ` set (targets_of d0 ps) = set ps \<times> UNIV" if "distinct ps" for ps
    using that
  proof (induction ps)
    case (Cons p ps)
    have "UNIV = {Lib, App}" using kind.exhaust by auto
    with Cons show ?case by (auto simp: targets_of_def slot_target_def)
  qed (simp add: targets_of_def)
  with d show ?thesis
    by (auto simp: targets_ok_def txn_slots_def list_all_iff targets_of_def slot_target_def)
qed

lemma targets_of_slots: "fst ` set (targets_of d0 pids) = txn_slots pids"
proof -
  have "UNIV = {Lib, App}" using kind.exhaust by auto
  then show ?thesis by (induction pids) (auto simp: targets_of_def slot_target_def txn_slots_def)
qed

lemma targets_ok_Cons:
  "targets_ok d0 pids (t # ts) \<longleftrightarrow> fst t \<notin> fst ` set ts \<and> targets_ok d0 pids ts \<and> fst t \<in> txn_slots pids \<and>
     snd t = (live d0 (fst t) \<noteq> None, sl_candidate (dk_slots d0 (fst t)) \<noteq> None)"
  by (cases t) (auto simp: targets_ok_def)

text \<open>What undoing leaves live in a slot.\<close>

definition restored :: "slot_state \<Rightarrow> bool \<times> bool \<Rightarrow> payload option" where
  "restored x flags = (case flags of (old, new) \<Rightarrow>
     if sl_backup x \<noteq> None then sl_backup x
     else if \<not> old \<and> new \<and> sl_candidate x = None then None else sl_live x)"

lemma restored_old: "slot_ok old new x \<Longrightarrow> restored x (old \<noteq> None, new \<noteq> None) = old"
  by (auto simp: slot_ok_def restored_def split: if_splits)

definition restores :: "disk \<Rightarrow> target list \<Rightarrow> disk \<Rightarrow> disk \<Rightarrow> bool" where
  "restores d ts d' r = (dk_marker r = dk_marker d' \<and> dk_registry r = dk_registry d' \<and>
     (\<forall>(s, flags) \<in> set ts. live r s = restored (dk_slots d s) flags) \<and>
     (\<forall>s. s \<notin> fst ` set ts \<longrightarrow> dk_slots r s = dk_slots d' s))"

lemma restores_other: "restores d ts d' r \<Longrightarrow> s \<notin> fst ` set ts \<Longrightarrow> dk_slots r s = dk_slots d' s"
  unfolding restores_def by blast

lemma restore_one:
  assumes "targets_ok d0 pids [t]" and "dk_slots d' (fst t) = dk_slots d (fst t)" and "dk_marker d' \<noteq> None"
  shows "all_safe fs_apply (undo_safe d0 pids) (restore_steps d t) d'" and "restores d [t] d' (fs_run (restore_steps d t) d')"
  using assms
  by (auto simp: restore_steps_def restores_def restored_def targets_ok_def slot_moves split: prod.splits)

lemma restore_all:
  assumes "targets_ok d0 pids ts" and "\<And>s. s \<in> fst ` set ts \<Longrightarrow> dk_slots d' s = dk_slots d s" and "dk_marker d' \<noteq> None"
  shows "all_safe fs_apply (undo_safe d0 pids) (concat (map (restore_steps d) ts)) d' \<and>
    restores d ts d' (fs_run (concat (map (restore_steps d) ts)) d')"
  using assms
proof (induction ts arbitrary: d')
  case (Cons t ts)
  let ?r = "fs_run (restore_steps d t) d'"
  have t: "targets_ok d0 pids [t]" using Cons.prems(1) by (simp add: targets_ok_Cons targets_ok_def)
  have eq: "dk_slots d' (fst t) = dk_slots d (fst t)" using Cons.prems(2) by auto
  note one = restore_one [OF t eq Cons.prems(3)]
  have notin: "fst t \<notin> fst ` set ts" and ts: "targets_ok d0 pids ts"
    using Cons.prems(1) by (simp_all add: targets_ok_Cons)
  have slots: "dk_slots ?r s = dk_slots d s" if "s \<in> fst ` set ts" for s
  proof -
    have "s \<noteq> fst t" using notin that by blast
    then have "dk_slots ?r s = dk_slots d' s" by (intro restores_other [OF one(2)]) simp
    also have "\<dots> = dk_slots d s" using that by (intro Cons.prems(2)) auto
    finally show ?thesis .
  qed
  have m: "dk_marker ?r \<noteq> None" using one(2) Cons.prems(3) by (simp add: restores_def)
  from Cons.IH [OF ts slots m] one notin show ?case
    by (cases t) (fastforce simp: all_safe_append restores_def)
qed (simp add: restores_def)


definition moved :: "disk \<Rightarrow> target list \<Rightarrow> disk \<Rightarrow> disk \<Rightarrow> bool" where
  "moved d0 ts d r = (dk_marker r = dk_marker d \<and> dk_registry r = dk_registry d \<and>
     (\<forall>s \<in> fst ` set ts. live r s = sl_candidate (dk_slots d0 s)) \<and>
     (\<forall>s. s \<notin> fst ` set ts \<longrightarrow> dk_slots r s = dk_slots d s))"

lemma moved_other: "moved d0 ts d r \<Longrightarrow> s \<notin> fst ` set ts \<Longrightarrow> dk_slots r s = dk_slots d s"
  unfolding moved_def by blast

lemma move_steps_Cons: "move_steps (t # ts) = move_steps [t] @ move_steps ts"
  by (simp add: move_steps_def)

lemma move_one:
  assumes "targets_ok d0 pids [t]" and "dk_slots d (fst t) = dk_slots d0 (fst t)" and "sl_backup (dk_slots d0 (fst t)) = None"
    and "dk_marker d \<noteq> None"
  shows "all_safe fs_apply (undo_safe d0 pids) (move_steps [t]) d" and "moved d0 [t] d (fs_run (move_steps [t]) d)"
  using assms
  by (auto simp: move_steps_def moved_def targets_ok_def slot_moves split: prod.splits)

lemma move_all:
  assumes "targets_ok d0 pids ts" and "\<And>s. s \<in> fst ` set ts \<Longrightarrow> dk_slots d s = dk_slots d0 s \<and> sl_backup (dk_slots d0 s) = None"
    and "dk_marker d \<noteq> None"
  shows "all_safe fs_apply (undo_safe d0 pids) (move_steps ts) d \<and> moved d0 ts d (fs_run (move_steps ts) d)"
  using assms
proof (induction ts arbitrary: d)
  case (Cons t ts)
  let ?r = "fs_run (move_steps [t]) d"
  have t: "targets_ok d0 pids [t]" using Cons.prems(1) by (simp add: targets_ok_Cons targets_ok_def)
  have eq: "dk_slots d (fst t) = dk_slots d0 (fst t)" "sl_backup (dk_slots d0 (fst t)) = None" using Cons.prems(2) by auto
  note one = move_one [OF t eq Cons.prems(3)]
  have notin: "fst t \<notin> fst ` set ts" and ts: "targets_ok d0 pids ts"
    using Cons.prems(1) by (simp_all add: targets_ok_Cons)
  have slots: "dk_slots ?r s = dk_slots d0 s \<and> sl_backup (dk_slots d0 s) = None" if "s \<in> fst ` set ts" for s
  proof -
    have "s \<noteq> fst t" using notin that by blast
    then have "dk_slots ?r s = dk_slots d s" by (intro moved_other [OF one(2)]) simp
    with Cons.prems(2) [of s] that show ?thesis by simp
  qed
  have m: "dk_marker ?r \<noteq> None" using one(2) Cons.prems(3) by (simp add: moved_def)
  note ih = Cons.IH [OF ts slots m]
  have "dk_slots (fs_run (move_steps ts) ?r) (fst t) = dk_slots ?r (fst t)"
    using ih notin by (blast intro: moved_other)
  with ih one show ?case
    unfolding move_steps_Cons [of t ts] fold_append comp_def all_safe_append
    by (auto simp: moved_def)
qed (simp add: move_steps_def moved_def)

lemma txn_ok_distinct: "txn_ok norm single d0 pids reg \<Longrightarrow> distinct pids"
  by (auto simp: txn_ok_def distinct_map)

text \<open>Undoing the whole transaction from any state that keeps the promise.\<close>

lemma restore_undoable:
  assumes "distinct pids" and "undoable single d0 pids reg d" and "dk_marker d \<noteq> None"
  shows "all_safe fs_apply (undo_safe d0 pids) (rollback_steps d (targets_of d0 pids)) d"
    and "old_state d0 (fs_run (rollback_steps d (targets_of d0 pids)) d)"
proof -
  from assms have db: "dk_registry d = dk_registry d0"
    and slots: "\<And>s. s \<in> txn_slots pids \<Longrightarrow> slot_ok (live d0 s) (sl_candidate (dk_slots d0 s)) (dk_slots d s)"
      "\<And>s. s \<notin> txn_slots pids \<Longrightarrow> live d s = live d0 s"
    by (auto simp: undoable_def old_state_def split: if_splits)
  let ?ts = "targets_of d0 pids"
  let ?r = "fs_run (concat (map (restore_steps d) ?ts)) d"
  have ok: "targets_ok d0 pids ?ts" using assms(1) by (rule targets_of_ok)
  have r: "all_safe fs_apply (undo_safe d0 pids) (concat (map (restore_steps d) ?ts)) d" "restores d ?ts d ?r"
    using restore_all [OF ok _ assms(3), of d] by simp_all
  have live: "live ?r s = live d0 s" for s
  proof (cases "s \<in> txn_slots pids")
    case True
    then obtain t where t: "t \<in> set ?ts" "fst t = s" using targets_of_slots [of d0 pids] by (metis imageE)
    with ok have "snd t = (live d0 s \<noteq> None, sl_candidate (dk_slots d0 s) \<noteq> None)"
      by (auto simp: targets_ok_def list_all_iff)
    with t r(2) have "live ?r s = restored (dk_slots d s) (live d0 s \<noteq> None, sl_candidate (dk_slots d0 s) \<noteq> None)"
      by (cases t) (auto simp: restores_def)
    then show ?thesis using restored_old [OF slots(1) [OF True]] by simp
  next
    case False
    then have "dk_slots ?r s = dk_slots d s"
      by (intro restores_other [OF r(2)]) (simp add: targets_of_slots)
    with slots(2) [OF False] show ?thesis by simp
  qed
  show "all_safe fs_apply (undo_safe d0 pids) (rollback_steps d ?ts) d"
    using r(1) live by (simp add: rollback_steps_def all_safe_append cleanup_steps_def)
  show "old_state d0 (fs_run (rollback_steps d ?ts) d)"
    using live r(2) db by (simp add: rollback_steps_def cleanup_steps_def old_state_def restores_def)
qed

lemmas restore_promise = restore_undoable [OF txn_ok_distinct]

lemma undo_promiseD:
  assumes "undo_promise norm single d0 pids reg d"
  shows "txn_ok norm single d0 pids reg" and "undoable single d0 pids reg d"
  using assms by (simp_all add: undo_promise_def)

lemma undo_recovery_steps:
  assumes "undo_promise norm single d0 pids reg d" and "dk_marker d \<noteq> None"
  shows "recovery_steps norm True d = Inr (rollback_steps d (targets_of d0 pids))"
proof -
  from assms have txn: "txn_ok norm single d0 pids reg" "dk_registry d = dk_registry d0"
    "dk_marker d = Some (Batch (journal_of single d0 pids reg))"
    by (auto simp: undo_promise_def undoable_def old_state_def)
  with journal_uncommitted [OF txn(1)] recovery_steps_journal [OF txn(1,3)] show ?thesis
    by (simp add: rollback_steps_def entry_targets_journal)
qed

interpretation undo: crash_safe fs_apply "undo_safe d0 pids" "undo_promise norm single d0 pids reg"
    "recover_package_files norm True" "old_state d0" for norm single d0 pids reg
proof unfold_locales
  fix d
  assume p: "undo_promise norm single d0 pids reg d"
  show "\<exists>r. recover_package_files norm True d = Inr r \<and> old_state d0 r"
  proof (cases "dk_marker d = None")
    case True
    with p show ?thesis
      by (auto simp: recover_package_files_def recovery_steps_def undo_promise_def undoable_def)
  next
    case False
    with undo_recovery_steps [OF p] restore_promise(2) [OF undo_promiseD [OF p]] show ?thesis
      by (simp add: recover_package_files_def)
  qed
qed (rule undo_keeps)

interpretation redo: crash_safe fs_apply done_safe "done_promise norm single d0 pids reg"
    "recover_package_files norm True" "new_state d0 pids reg" for norm single d0 pids reg
proof unfold_locales
  fix d
  assume p: "done_promise norm single d0 pids reg d"
  show "\<exists>r. recover_package_files norm True d = Inr r \<and> new_state d0 pids reg r"
  proof (cases "dk_marker d = None")
    case True
    with p show ?thesis
      by (auto simp: recover_package_files_def recovery_steps_def done_promise_def new_state_def)
  next
    case False
    with p have m: "txn_ok norm single d0 pids reg" "dk_marker d = Some (Batch (journal_of single d0 pids reg))"
      "dk_registry d = reg" by (auto simp: done_promise_def new_state_def)
    with recovery_steps_journal [OF m(1,2)] journal_committed have "recovery_steps norm True d = Inr cleanup_steps" by simp
    with p show ?thesis
      by (auto simp: recover_package_files_def cleanup_steps_def done_promise_def new_state_def)
  qed
qed (rule done_keeps)


section \<open>The routine\<close>

definition after_begin :: "bool \<Rightarrow> disk \<Rightarrow> string list \<Rightarrow> registry \<Rightarrow> disk" where
  "after_begin single d0 pids reg = d0\<lparr>dk_marker := Some (Batch (journal_of single d0 pids reg))\<rparr>"

lemma begin_run: "fs_run (begin_steps single d0 pids reg) d0 = after_begin single d0 pids reg"
  by (simp add: begin_steps_def after_begin_def)

lemma slot_backup_fresh:
  assumes "txn_ok norm single d0 pids reg" and "s \<in> txn_slots pids"
  shows "sl_backup (dk_slots d0 s) = None"
proof -
  obtain pid k where s: "s = (pid, k)" by (cases s)
  with assms show ?thesis by (cases k) (auto simp: txn_ok_def list_all_iff txn_slots_def)
qed

lemma begin_undoable:
  assumes "\<And>s. s \<in> txn_slots pids \<Longrightarrow> sl_backup (dk_slots d0 s) = None"
  shows "undoable single d0 pids reg (after_begin single d0 pids reg)"
  using assms by (auto simp: undoable_def after_begin_def slot_ok_def)

lemma begin_promise:
  assumes "txn_ok norm single d0 pids reg"
  shows "undo_promise norm single d0 pids reg (after_begin single d0 pids reg)"
  using assms slot_backup_fresh [OF assms] by (simp add: undo_promise_def begin_undoable)

lemma fresh_moves_safe:
  assumes "distinct pids" and "\<And>s. s \<in> txn_slots pids \<Longrightarrow> sl_backup (dk_slots d0 s) = None"
  shows "all_safe fs_apply (undo_safe d0 pids) (move_steps (targets_of d0 pids)) (after_begin single d0 pids reg)"
    and "moved d0 (targets_of d0 pids) (after_begin single d0 pids reg)
           (fs_run (move_steps (targets_of d0 pids)) (after_begin single d0 pids reg))"
proof -
  have "dk_slots (after_begin single d0 pids reg) s = dk_slots d0 s \<and> sl_backup (dk_slots d0 s) = None"
    if "s \<in> fst ` set (targets_of d0 pids)" for s
    using that assms(2) unfolding targets_of_slots by (simp add: after_begin_def)
  from move_all [OF targets_of_ok [OF assms(1)] this]
  show "all_safe fs_apply (undo_safe d0 pids) (move_steps (targets_of d0 pids)) (after_begin single d0 pids reg)"
    and "moved d0 (targets_of d0 pids) (after_begin single d0 pids reg)
           (fs_run (move_steps (targets_of d0 pids)) (after_begin single d0 pids reg))"
    by (simp_all add: after_begin_def)
qed

lemmas moves_safe = fresh_moves_safe [OF txn_ok_distinct slot_backup_fresh]

lemma moves_marker: "dk_marker (fs_run (take k (move_steps ts)) d) = dk_marker d"
proof -
  have "dk_marker (fs_run xs d) = dk_marker d" if "set xs \<subseteq> range MoveOld \<union> range MoveNew" for xs and d :: disk
    using that by (induction xs arbitrary: d) auto
  moreover have "set (take k (move_steps ts)) \<subseteq> range MoveOld \<union> range MoveNew"
    by (rule subset_trans [OF set_take_subset]) (auto simp: move_steps_def split: if_splits)
  ultimately show ?thesis by blast
qed

lemma commit_new_state:
  assumes "moved d0 (targets_of d0 pids) (after_begin single d0 pids reg) r"
  shows "new_state d0 pids reg ((fs_apply (CommitTx reg) r)\<lparr>dk_marker := None\<rparr>)"
proof -
  have "live r s = (if s \<in> txn_slots pids then sl_candidate (dk_slots d0 s) else live d0 s)" for s
  proof (cases "s \<in> txn_slots pids")
    case True
    with assms show ?thesis by (simp add: moved_def targets_of_slots)
  next
    case False
    then have "s \<notin> fst ` set (targets_of d0 pids)" by (simp add: targets_of_slots)
    from moved_other [OF assms this] False show ?thesis by (simp add: after_begin_def)
  qed
  with assms show ?thesis by (simp add: new_state_def moved_def after_begin_def)
qed

lemma commit_done_promise:
  assumes "txn_ok norm single d0 pids reg"
  shows "done_promise norm single d0 pids reg
    (fs_apply (CommitTx reg) (fs_run (move_steps (targets_of d0 pids)) (after_begin single d0 pids reg)))"
  using commit_new_state [OF moves_safe(2) [OF assms assms]] moves_safe(2) [OF assms assms, where single = single and reg = reg] assms
  by (simp add: done_promise_def moved_def after_begin_def)

lemma restores_self:
  assumes "distinct pids" and "undoable single d0 pids reg d" and "dk_marker d \<noteq> None"
  shows "live (fs_run (concat (map (restore_steps d) (targets_of d0 pids))) d) s = live d0 s"
proof -
  have "old_state d0 (fs_run (rollback_steps d (targets_of d0 pids)) d)" by (rule restore_undoable(2) [OF assms])
  then show ?thesis by (simp add: rollback_steps_def cleanup_steps_def old_state_def del: split_paired_All)
qed

lemma interrupted_one: "interrupted c [x] \<in> {[], [x]}"
proof -
  have "take n [x] \<in> {[], [x]}" for n by (cases n) auto
  then show ?thesis by (cases c) (auto simp: interrupted_def)
qed

lemma cleanup_keeps:
  "dk_registry (fs_run (interrupted c cleanup_steps) d) = dk_registry d"
  "live (fs_run (interrupted c cleanup_steps) d) s = live d s"
proof -
  have "take n cleanup_steps \<in> {[], [DropMarker], [DropMarker, RemoveStage]}" for n
    by (cases n; cases "n - 1") (auto simp: cleanup_steps_def)
  then have "interrupted c cleanup_steps \<in> {[], [DropMarker], [DropMarker, RemoveStage]}"
    by (cases c) (auto simp: interrupted_def cleanup_steps_def)
  then show "dk_registry (fs_run (interrupted c cleanup_steps) d) = dk_registry d"
    "live (fs_run (interrupted c cleanup_steps) d) s = live d s" by auto
qed

lemma undo_prefix: "\<exists>k. undo_steps f d ts = take k (rollback_steps d ts)"
proof (cases "cf_undo f")
  case (Some n)
  let ?undo = "concat (map (restore_steps d) ts)"
  have "undo_steps f d ts = take (min n (length ?undo)) (rollback_steps d ts)"
    by (simp add: Some undo_steps_def rollback_steps_def min_def)
  then show ?thesis by blast
next
  case None
  let ?undo = "concat (map (restore_steps d) ts)"
  have "undo_steps f d ts = take (length ?undo + (case cf_cleanup f of None \<Rightarrow> 2 | Some n \<Rightarrow> n)) (rollback_steps d ts)"
    by (simp add: None undo_steps_def rollback_steps_def interrupted_def cleanup_steps_def split: option.split)
  then show ?thesis by blast
qed

lemma settled_undo: "settled f \<Longrightarrow> undo_steps f d ts = rollback_steps d ts"
  by (simp add: settled_def undo_steps_def rollback_steps_def interrupted_def)

text \<open>The registry is left alone by everything but the commit.\<close>

lemma keeps_registry: "CommitTx ` UNIV \<inter> set steps = {} \<Longrightarrow> dk_registry (fs_run steps d) = dk_registry d"
proof (induction steps arbitrary: d)
  case (Cons s steps)
  then have "dk_registry (fs_apply s d) = dk_registry d" by (cases s) auto
  with Cons show ?case by auto
qed simp

lemma no_commit: "CommitTx ` UNIV \<inter> set (take n (move_steps ts)) = {}" "CommitTx ` UNIV \<inter> set (undo_steps f d ts) = {}"
proof -
  have "CommitTx ` UNIV \<inter> set (move_steps ts) = {}" by (auto simp: move_steps_def split: if_splits)
  then show "CommitTx ` UNIV \<inter> set (take n (move_steps ts)) = {}" using set_take_subset [of n "move_steps ts"] by blast
  obtain k where k: "undo_steps f d ts = take k (rollback_steps d ts)" using undo_prefix by blast
  have "CommitTx ` UNIV \<inter> set (rollback_steps d ts) = {}"
    by (auto simp: rollback_steps_def cleanup_steps_def restore_steps_def split: if_splits)
  then show "CommitTx ` UNIV \<inter> set (undo_steps f d ts) = {}" using set_take_subset [of k "rollback_steps d ts"] by (auto simp: k)
qed

text \<open>
  What a run without a crash leaves, whatever the registrations are: the registry is the one that the
  result says; the live files are too, unless the rollback failed; and nothing else is left when neither
  the rollback nor the cleanup fails.
\<close>

definition tidy :: "disk \<Rightarrow> bool" where
  "tidy d = (dk_marker d = None \<and> \<not> dk_stage d \<and> (\<forall>s. sl_backup (dk_slots d s) = None \<and> sl_candidate (dk_slots d s) = None))"

lemma begin_prefix:
  "dk_registry (fs_run (take n (begin_steps single d pids reg)) d) = dk_registry d"
  "dk_slots (fs_run (take n (begin_steps single d pids reg)) d) = dk_slots d"
  "dk_marker (fs_run (take n (begin_steps single d pids reg)) d) =
     (if n = 0 then dk_marker d else if n = 1 then Some Unreadable else Some (Batch (journal_of single d pids reg)))"
  by (cases n; cases "n - 1"; simp add: begin_steps_def)+

lemma discard:
  "dk_registry (fs_run (interrupted c [RemoveStage]) d) = dk_registry d"
  "live (fs_run (interrupted c [RemoveStage]) d) s = live d s"
proof -
  from interrupted_one [of c RemoveStage] show "dk_registry (fs_run (interrupted c [RemoveStage]) d) = dk_registry d"
    "live (fs_run (interrupted c [RemoveStage]) d) s = live d s" by auto
qed

lemma commit_outcome:
  assumes "distinct pids" and "\<And>s. s \<in> txn_slots pids \<Longrightarrow> sl_backup (dk_slots d0 s) = None" and "dk_marker d0 = None"
    and "commit_packages_files jb f single pids reg d0 = (res, d')"
  shows "(case res of
      Inl _ \<Rightarrow> dk_registry d' = dk_registry d0 \<and> (cf_undo f = None \<longrightarrow> (\<forall>s. live d' s = live d0 s))
    | Inr _ \<Rightarrow> dk_registry d' = reg \<and>
        (\<forall>s. live d' s = (if s \<in> txn_slots pids then sl_candidate (dk_slots d0 s) else live d0 s))) \<and>
    (settled f \<longrightarrow> tidy d')"
proof (cases "unprepared f (jb (journal_of single d0 pids reg))")
  case (Some x)
  obtain n e where x: "x = (n, e)" by (cases x)
  let ?d = "fs_run (take n (begin_steps single d0 pids reg)) d0"
  from assms(4) Some x have "res = Inl e" "d' = fs_run (interrupted (cf_cleanup f) [RemoveStage]) ?d"
    by (simp_all add: commit_packages_files_def)
  with begin_prefix [of n single d0 pids reg] discard [of "cf_cleanup f" ?d] show ?thesis
    by (simp add: settled_def interrupted_def tidy_def)
next
  case none: None
  let ?ts = "targets_of d0 pids" and ?b = "after_begin single d0 pids reg"
  note m = fresh_moves_safe [OF assms(1,2)]
  note run = assms(4) [unfolded commit_packages_files_def none option.case Let_def begin_run]
  show ?thesis
  proof (cases "cf_moves f")
    case None
    let ?c = "fs_apply (CommitTx reg) (fs_run (move_steps ?ts) ?b)"
    from run None have r: "res = Inr ()" and d': "d' = fs_run (interrupted (cf_cleanup f) cleanup_steps) ?c" by simp_all
    from commit_new_state [OF m(2)] have c: "dk_registry ?c = reg"
      "live ?c s = (if s \<in> txn_slots pids then sl_candidate (dk_slots d0 s) else live d0 s)" for s
      by (simp_all add: new_state_def del: split_paired_All)
    have "settled f \<Longrightarrow> tidy d'" by (simp add: d' settled_def interrupted_def cleanup_steps_def tidy_def)
    with r c show ?thesis by (simp add: d' cleanup_keeps)
  next
    case (Some x)
    obtain n e where x: "x = (n, e)" by (cases x)
    let ?d = "fs_run (take n (move_steps ?ts)) ?b"
    have u: "undoable single d0 pids reg ?d"
      by (rule undoable_prefix [OF begin_undoable [OF assms(2)] m(1)])
    have mk: "dk_marker ?d \<noteq> None" by (simp add: moves_marker after_begin_def)
    from run Some x have r: "res = Inl e" and d': "d' = fs_run (undo_steps f ?d ?ts) ?d" by simp_all
    have "dk_registry d' = dk_registry ?b" unfolding d' by (simp add: keeps_registry no_commit)
    then have reg: "dk_registry d' = dk_registry d0" by (simp add: after_begin_def)
    have "live d' s = live d0 s" if "cf_undo f = None" for s
      by (simp add: d' undo_steps_def that cleanup_keeps restores_self [OF assms(1) u mk])
    moreover have "settled f \<Longrightarrow> tidy d'"
      by (simp add: d' settled_undo rollback_steps_def cleanup_steps_def tidy_def)
    ultimately show ?thesis using r reg by simp
  qed
qed

lemma cleanup_safe: "all_safe fs_apply done_safe cleanup_steps d"
  by (simp add: cleanup_steps_def done_safe_def)

text \<open>Where a crash of the routine leaves the disk.\<close>

lemma commit_prefix_promise:
  assumes "txn_ok norm single d0 pids reg" and "n \<noteq> 1"
  shows "if n \<le> 2 + length (move_steps (targets_of d0 pids))
    then undo_promise norm single d0 pids reg (fs_run (take n (commit_steps single d0 pids reg)) d0)
    else done_promise norm single d0 pids reg (fs_run (take n (commit_steps single d0 pids reg)) d0)"
proof -
  let ?ms = "move_steps (targets_of d0 pids)"
  let ?b = "after_begin single d0 pids reg"
  consider (start) "n = 0" | (begun) m where "n = 2 + m"
    using assms(2) by (metis One_nat_def Suc_1 add_2_eq_Suc not0_implies_Suc)
  then show ?thesis
  proof cases
    case start
    with assms(1) show ?thesis by (simp add: undo_promise_def undoable_def old_state_def txn_ok_def)
  next
    case (begun m)
    then have run: "fs_run (take n (commit_steps single d0 pids reg)) d0 =
        fs_run (take m (?ms @ CommitTx reg # cleanup_steps)) ?b"
      by (simp add: commit_steps_def begin_steps_def after_begin_def)
    show ?thesis
    proof (cases "m \<le> length ?ms")
      case True
      with run begun undo.prefix_promise [OF begin_promise [OF assms(1)] moves_safe(1) [OF assms(1) assms(1)], of m]
      show ?thesis by simp
    next
      case False
      then obtain k where k: "m = length ?ms + Suc k" by (metis less_imp_Suc_add not_le add_Suc_right)
      with run begun redo.prefix_promise [OF commit_done_promise [OF assms(1)] cleanup_safe, of k]
      show ?thesis by simp
    qed
  qed
qed

section \<open>Properties\<close>

text \<open>
  An installation survives a crash at any point between its steps, the writing of the
  journal apart. The next start ends with no journal and either exactly the old files and the old
  registry, when the database had not committed, or exactly the new ones, when it had. Never a
  mixture, for every package of the batch and both kinds of resources.
\<close>

lemma install_crash_atomic:
  assumes "txn_ok norm single d0 pids reg" and "n \<noteq> 1"
  shows "\<exists>r. recover_package_files norm True (fs_run (take n (commit_steps single d0 pids reg)) d0) = Inr r \<and>
    (if n \<le> 2 + length (move_steps (targets_of d0 pids)) then old_state d0 r else new_state d0 pids reg r)"
  using commit_prefix_promise [OF assms] undo.recovers redo.recovers by (auto split: if_splits)

text \<open>
  Property C13: recovery itself may crash. Whatever prefix of its steps an interrupted start has
  taken after a crash of an installation, the next start reaches the same outcome. The registrations of
  the installation differ from the committed ones for at least one package (\<open>txn_ok\<close>), by which recovery
  tells the two outcomes apart.
\<close>

theorem recovery_restartable:
  assumes "txn_ok norm single d0 pids reg" and "n \<noteq> 1"
    and "recovery_steps norm True (fs_run (take n (commit_steps single d0 pids reg)) d0) = Inr steps"
  shows "\<exists>r. recover_package_files norm True
        (fs_run (take m steps) (fs_run (take n (commit_steps single d0 pids reg)) d0)) = Inr r \<and>
    (if n \<le> 2 + length (move_steps (targets_of d0 pids)) then old_state d0 r else new_state d0 pids reg r)"
proof -
  let ?d = "fs_run (take n (commit_steps single d0 pids reg)) d0"
  note p = commit_prefix_promise [OF assms(1,2)]
  show ?thesis
  proof (cases "n \<le> 2 + length (move_steps (targets_of d0 pids))")
    case True
    with p have u: "undo_promise norm single d0 pids reg ?d" by simp
    have "all_safe fs_apply (undo_safe d0 pids) steps ?d"
    proof (cases "dk_marker ?d = None")
      case True
      with assms(3) show ?thesis by (simp add: recovery_steps_def)
    next
      case False
      with undo_recovery_steps [OF u] assms(3) restore_promise(1) [OF undo_promiseD [OF u]] show ?thesis by simp
    qed
    with undo.crash_recovers [OF u this, of m] True show ?thesis by simp
  next
    case False
    with p have r: "done_promise norm single d0 pids reg ?d" by simp
    have "all_safe fs_apply done_safe steps ?d"
    proof (cases "dk_marker ?d = None")
      case True
      with assms(3) show ?thesis by (simp add: recovery_steps_def)
    next
      case False
      with r have m: "dk_marker ?d = Some (Batch (journal_of single d0 pids reg))" "dk_registry ?d = reg"
        by (auto simp: done_promise_def new_state_def)
      with recovery_steps_journal [OF assms(1) m(1)] journal_committed assms(3) have "steps = cleanup_steps" by simp
      then show ?thesis by (simp add: cleanup_safe)
    qed
    with redo.crash_recovers [OF r this, of m] False show ?thesis by simp
  qed
qed

text \<open>What the routine leaves after an error can be undone by the next start.\<close>

lemma failed_undoable:
  assumes "txn_ok norm single d0 pids reg" and "commit_packages_files jb f single pids reg d0 = (Inl e, d')"
    and "dk_marker d' \<noteq> Some Unreadable"
  shows "undo_promise norm single d0 pids reg d'"
proof (cases "unprepared f (jb (journal_of single d0 pids reg))")
  case (Some x)
  obtain n x' where x: "x = (n, x')" by (cases x)
  let ?d = "fs_run (take n (begin_steps single d0 pids reg)) d0"
  from assms(2) Some x have d': "d' = fs_run (interrupted (cf_cleanup f) [RemoveStage]) ?d"
    by (simp add: commit_packages_files_def)
  note p = begin_prefix [of n single d0 pids reg]
  from interrupted_one [of "cf_cleanup f" RemoveStage] consider "d' = ?d" | "d' = fs_apply RemoveStage ?d" by (auto simp: d')
  then show ?thesis
  proof cases
    case 1
    with assms(3) p(3) have "dk_marker ?d = dk_marker d0 \<or> dk_marker ?d = Some (Batch (journal_of single d0 pids reg))" by (auto split: if_splits)
    with 1 p(1,2) assms(1) slot_backup_fresh [OF assms(1)] show ?thesis
      by (auto simp: undo_promise_def undoable_def old_state_def txn_ok_def slot_ok_def)
  next
    case 2
    with p(1,2) assms(1) show ?thesis by (simp add: undo_promise_def undoable_def old_state_def)
  qed
next
  case none: None
  obtain n where d': "d' = (let d2 = fs_run (take n (move_steps (targets_of d0 pids))) (after_begin single d0 pids reg)
      in fs_run (undo_steps f d2 (targets_of d0 pids)) d2)"
    using assms(2) none by (auto simp: commit_packages_files_def Let_def begin_run split: option.splits)
  let ?d2 = "fs_run (take n (move_steps (targets_of d0 pids))) (after_begin single d0 pids reg)"
  have p: "undo_promise norm single d0 pids reg ?d2"
    by (rule undo.prefix_promise [OF begin_promise [OF assms(1)] moves_safe(1) [OF assms(1) assms(1)]])
  have "dk_marker ?d2 \<noteq> None" by (simp add: moves_marker after_begin_def)
  note safe = restore_promise(1) [OF undo_promiseD [OF p] this]
  obtain k where "undo_steps f ?d2 (targets_of d0 pids) = take k (rollback_steps ?d2 (targets_of d0 pids))"
    using undo_prefix by blast
  with undo.prefix_promise [OF p safe, of k] show ?thesis by (simp add: d' Let_def)
qed

text \<open>
  Property C21: an installation that fails leaves the old one. Whatever error meets the routine, before
  its journal, in any of its moves or in the database commit, the registry is the old one; the files are
  the old ones unless the rollback fails too; and journal, backups and staging directory are gone when
  neither the rollback nor the cleanup fails. Where the registrations of at least one package differ from
  the committed ones, which recovery needs to tell the two outcomes apart and a reinstallation within the
  same second lacks (\<open>same_second_reinstall_loses_files\<close>), the next start brings the old files and
  registry back from whatever the routine left, a torn journal apart, and from a crash after any step of
  its moves and of its rollback.
\<close>

theorem install_failure_rolls_back:
  assumes "distinct pids" and "\<forall>s \<in> txn_slots pids. sl_backup (dk_slots d0 s) = None" and "dk_marker d0 = None"
    and "commit_packages_files jb f single pids reg d0 = (Inl e, d')"
  shows "dk_registry d' = dk_registry d0 \<and> (cf_undo f = None \<longrightarrow> (\<forall>s. live d' s = live d0 s)) \<and>
    (settled f \<longrightarrow> old_state d0 d' \<and> tidy d') \<and>
    (txn_ok norm single d0 pids reg \<longrightarrow>
      (dk_marker d' \<noteq> Some Unreadable \<longrightarrow> (\<exists>r. recover_package_files norm True d' = Inr r \<and> old_state d0 r)) \<and>
      (\<forall>n m. let d2 = fs_run (take n (move_steps (targets_of d0 pids))) (fs_run (begin_steps single d0 pids reg) d0) in
         \<exists>r. recover_package_files norm True (fs_run (take m (rollback_steps d2 (targets_of d0 pids))) d2) = Inr r \<and> old_state d0 r))"
proof -
  note out = commit_outcome [OF assms(1) bspec [OF assms(2)] assms(3,4)]
  then have "settled f \<longrightarrow> old_state d0 d' \<and> tidy d'" by (simp add: settled_def old_state_def tidy_def)
  moreover have "\<exists>r. recover_package_files norm True d' = Inr r \<and> old_state d0 r"
    if "txn_ok norm single d0 pids reg" "dk_marker d' \<noteq> Some Unreadable"
    by (rule undo.recovers [OF failed_undoable [OF that(1) assms(4) that(2)]])
  moreover have "\<exists>r. recover_package_files norm True (fs_run (take m (rollback_steps d2 (targets_of d0 pids))) d2) = Inr r \<and> old_state d0 r"
    if t: "txn_ok norm single d0 pids reg" and d2: "d2 = fs_run (take n (move_steps (targets_of d0 pids))) (after_begin single d0 pids reg)" for n m d2
  proof -
    have p: "undo_promise norm single d0 pids reg d2"
      unfolding d2 by (rule undo.prefix_promise [OF begin_promise [OF t] moves_safe(1) [OF t t]])
    have "dk_marker d2 \<noteq> None" by (simp add: d2 moves_marker after_begin_def)
    from restore_promise(1) [OF undo_promiseD [OF p] this] show ?thesis by (rule undo.crash_recovers [OF p])
  qed
  ultimately show ?thesis using out by (simp add: begin_run)
qed

text \<open>
  An installation that succeeds makes exactly the staged resources live, removes the
  resources that the new version no longer has, leaves every other package alone and has committed
  the new registry, also when its cleanup fails.
\<close>

lemma install_success_switches:
  assumes "txn_ok norm single d0 pids reg" and "commit_packages_files jb f single pids reg d0 = (Inr (), d')"
  shows "new_state d0 pids reg (d'\<lparr>dk_marker := None\<rparr>)" and "settled f \<Longrightarrow> tidy d'"
proof -
  have "distinct pids" "dk_marker d0 = None" using txn_ok_distinct [OF assms(1)] assms(1) by (auto simp: txn_ok_def)
  note out = commit_outcome [OF this(1) slot_backup_fresh [OF assms(1)] this(2) assms(2)]
  then show "new_state d0 pids reg (d'\<lparr>dk_marker := None\<rparr>)" by (simp add: new_state_def)
  from out show "settled f \<Longrightarrow> tidy d'" by simp
qed

text \<open>
  The one point that is not covered. A crash after the journal file is created and
  before its content is written leaves a file that recovery cannot read; the start of the identity
  fails although no file of any package has been touched and the registry is the old one.
\<close>

lemma torn_journal_blocks_start:
  "let d = fs_run (take 1 (commit_steps single d0 pids reg)) d0 in
   recover_package_files norm signing d = Inl (InvalidConfig ''invalid package recovery journal'') \<and>
   dk_slots d = dk_slots d0 \<and> dk_registry d = dk_registry d0"
  by (simp add: commit_steps_def begin_steps_def recover_package_files_def recovery_steps_def marker_entries_def)

definition example_rows :: "string \<Rightarrow> registry" where
  "example_rows v = empty_registry\<lparr>rg_packages := [new_row 1 ''x'' (Some ''a.b'') (example_meta v [])]\<rparr>"

definition example_disk :: "registry \<Rightarrow> disk" where
  "example_disk reg = \<lparr>dk_slots = (\<lambda>s. if s = (''a.b/x'', App)
        then \<lparr>sl_live = Some (Tree [(''index.html'', ''old'')]), sl_backup = None, sl_candidate = Some (Tree [(''index.html'', ''new'')])\<rparr>
        else \<lparr>sl_live = None, sl_backup = None, sl_candidate = None\<rparr>),
     dk_marker = None, dk_stage = True, dk_registry = reg\<rparr>"

lemma example_txn_ok: "txn_ok Some False (example_disk (example_rows ''1'')) [''a.b/x''] (example_rows ''2'')"
  by (simp add: txn_ok_def example_disk_def example_rows_def empty_registry_def valid_id_def package_name_ok_def
      registration_facts_def find_package_def new_row_def example_meta_def short_name_def str_eval)

lemma example_moves:
  "move_steps (targets_of (example_disk reg) [''a.b/x'']) = [MoveOld (''a.b/x'', App), MoveNew (''a.b/x'', App)]"
  by (simp add: move_steps_def targets_of_def slot_target_def example_disk_def)

lemma install_crash_atomic_witness:
  "\<exists>r. recover_package_files Some True (fs_run (take 3 (commit_steps False (example_disk (example_rows ''1'')) [''a.b/x''] (example_rows ''2'')))
        (example_disk (example_rows ''1''))) = Inr r \<and> live r (''a.b/x'', App) = Some (Tree [(''index.html'', ''old'')])"
  using install_crash_atomic [OF example_txn_ok, of 3]
  by (auto simp: example_moves old_state_def) (auto simp: example_disk_def)

theorem recovery_restartable_witness:
  "\<exists>r. recover_package_files Some True (fs_run (take 1 [TearLive (''a.b/x'', App), DropLive (''a.b/x'', App), RestoreOld (''a.b/x'', App), DropMarker, RemoveStage])
      (fs_run (take 3 (commit_steps False (example_disk (example_rows ''1'')) [''a.b/x''] (example_rows ''2'')))
        (example_disk (example_rows ''1'')))) = Inr r \<and> live r (''a.b/x'', App) = Some (Tree [(''index.html'', ''old'')])"
proof -
  let ?init = "example_disk (example_rows ''1'')"
  let ?d = "fs_run (take 3 (commit_steps False ?init [''a.b/x''] (example_rows ''2''))) ?init"
  let ?t = "targets_of ?init [''a.b/x'']"
  have p: "undo_promise Some False ?init [''a.b/x''] (example_rows ''2'') ?d"
    using undo.prefix_promise [OF begin_promise [OF example_txn_ok] moves_safe(1) [OF example_txn_ok example_txn_ok], of 1]
    by (simp add: commit_steps_def begin_steps_def after_begin_def example_moves)
  have "dk_marker ?d \<noteq> None" by (simp add: commit_steps_def begin_steps_def example_moves)
  from undo_recovery_steps [OF p this]
  have "recovery_steps Some True ?d = Inr (rollback_steps ?d ?t)" .
  also have "rollback_steps ?d ?t = [TearLive (''a.b/x'', App), DropLive (''a.b/x'', App), RestoreOld (''a.b/x'', App), DropMarker, RemoveStage]"
    by (simp add: rollback_steps_def restore_steps_def targets_of_def slot_target_def cleanup_steps_def
        commit_steps_def begin_steps_def move_steps_def slot_moves on_slot_def example_disk_def)
  finally show ?thesis
    using recovery_restartable [OF example_txn_ok, of 3 _ 1]
    by (auto simp: example_moves old_state_def) (auto simp: example_disk_def)
qed

lemma example_failed_rollback:
  "commit_packages_files (\<lambda>_. 0) (no_faults\<lparr>cf_moves := Some (1, Denied), cf_undo := Some 1\<rparr>) False [''a.b/x''] reg' (example_disk reg) =
     (Inl Denied, on_slot (''a.b/x'', App) move_old
       (after_begin False (example_disk reg) [''a.b/x''] reg'))"
proof -
  have t: "targets_of (example_disk reg) [''a.b/x''] = [((''a.b/x'', Lib), False, False), ((''a.b/x'', App), True, True)]"
    by (simp add: targets_of_def slot_target_def example_disk_def)
  let ?d = "on_slot (''a.b/x'', App) move_old (after_begin False (example_disk reg) [''a.b/x''] reg')"
  have u: "undo_steps (no_faults\<lparr>cf_moves := Some (1, Denied), cf_undo := Some 1\<rparr>) ?d (targets_of (example_disk reg) [''a.b/x'']) =
      [TearLive (''a.b/x'', App)]"
    by (simp add: undo_steps_def no_faults_def t restore_steps_def move_old_def after_begin_def) (simp add: example_disk_def)
  have "fs_apply (TearLive (''a.b/x'', App)) ?d = ?d"
    by (simp add: on_slot_def move_old_def tear_live_def)
  with u show ?thesis
    by (simp add: commit_packages_files_def unprepared_def no_faults_def is_none_or_def begin_run example_moves Let_def)
qed

theorem install_failure_rolls_back_witness:
  "let d' = snd (commit_packages_files (\<lambda>_. 0) (no_faults\<lparr>cf_moves := Some (1, Denied), cf_undo := Some 1\<rparr>) False [''a.b/x'']
       (example_rows ''2'') (example_disk (example_rows ''1'')))
   in live d' (''a.b/x'', App) = None \<and>
      (\<exists>r. recover_package_files Some True d' = Inr r \<and> live r (''a.b/x'', App) = Some (Tree [(''index.html'', ''old'')]))"
proof -
  let ?init = "example_disk (example_rows ''1'')"
  let ?d = "on_slot (''a.b/x'', App) move_old (after_begin False ?init [''a.b/x''] (example_rows ''2''))"
  have pre: "distinct [''a.b/x'']" "\<forall>s \<in> txn_slots [''a.b/x'']. sl_backup (dk_slots ?init s) = None" "dk_marker ?init = None"
    by (auto simp: example_disk_def)
  have "dk_marker ?d \<noteq> Some Unreadable" by (simp add: after_begin_def)
  with install_failure_rolls_back [OF pre example_failed_rollback, where norm = Some] example_txn_ok
  obtain r where "recover_package_files Some True ?d = Inr r" "old_state ?init r" by blast
  moreover have "live ?init (''a.b/x'', App) = Some (Tree [(''index.html'', ''old'')])" by (simp add: example_disk_def)
  moreover have "live ?d (''a.b/x'', App) = None" by (simp add: move_old_def)
  ultimately show ?thesis unfolding example_failed_rollback snd_conv Let_def by (simp add: old_state_def)
qed

lemma install_success_switches_witness:
  "live (snd (commit_packages_files (\<lambda>_. 0) (no_faults\<lparr>cf_cleanup := Some 0\<rparr>) False [''a.b/x''] (example_rows ''2'') (example_disk (example_rows ''1''))))
     (''a.b/x'', App) = Some (Tree [(''index.html'', ''new'')])"
proof -
  let ?c = "commit_packages_files (\<lambda>_. 0) (no_faults\<lparr>cf_cleanup := Some 0\<rparr>) False [''a.b/x''] (example_rows ''2'') (example_disk (example_rows ''1''))"
  have "?c = (Inr (), snd ?c)" by (simp add: commit_packages_files_def no_faults_def unprepared_def is_none_or_def Let_def)
  from install_success_switches(1) [OF example_txn_ok this] show ?thesis
    by (simp add: new_state_def txn_slots_def) (simp add: example_disk_def)
qed

text \<open>
  The decision of recovery rests on the registrations alone, and the same version
  reinstalled within one second registers itself with the same facts. A crash between the two moves
  of such an installation is then taken for a finished one: recovery deletes the backup, and the
  resource is lost although the registry says it is installed.
\<close>

lemma same_second_reinstall_loses_files:
  "let op = Install 7 [(''a.b/x'', example_meta ''1'' [], Inr JNull)];
       reg = fold (registry_step Some (\<lambda>_. [])) [op, op] empty_registry;
       d0 = example_disk reg in
   register_packages (\<lambda>_. []) 7 [(''a.b/x'', example_meta ''1'' [], Inr JNull)] reg = Inr reg \<and>
   (\<exists>r. recover_package_files Some True (fs_run (take 3 (commit_steps False d0 [''a.b/x''] reg)) d0) = Inr r \<and>
      live d0 (''a.b/x'', App) = Some (Tree [(''index.html'', ''old'')]) \<and> live r (''a.b/x'', App) = None \<and>
      sl_backup (dk_slots r (''a.b/x'', App)) = None \<and> map pk_name (rg_packages (dk_registry r)) = [''x''])"
proof -
  let ?op = "Install 7 [(''a.b/x'', example_meta ''1'' [], Inr JNull)]"
  define reg where "reg = fold (registry_step Some (\<lambda>_. [])) [?op, ?op] empty_registry"
  let ?init = "example_disk reg"
  let ?d = "fs_run (take 3 (commit_steps False ?init [''a.b/x''] reg)) ?init"
  have reg: "register_packages (\<lambda>_. []) 7 [(''a.b/x'', example_meta ''1'' [], Inr JNull)] reg = Inr reg"
    "map pk_name (rg_packages reg) = [''x'']"
    by (simp_all add: reg_def registry_eval str_eval Let_def)
  have d: "?d = ?init\<lparr>dk_marker := Some (Batch (journal_of False ?init [''a.b/x''] reg)),
      dk_slots := (dk_slots ?init)((''a.b/x'', App) := move_old (dk_slots ?init (''a.b/x'', App)))\<rparr>"
    by (simp add: commit_steps_def begin_steps_def example_moves on_slot_def)
  have v: "valid_id Some ''a.b/x'' = Inr ()" by (simp add: valid_id_def package_name_ok_def str_eval)
  let ?js = "journal_of False ?init [''a.b/x''] reg"
  have m: "dk_marker ?d = Some (Batch ?js)" "dk_registry ?d = reg"
    unfolding d by (simp_all, simp add: example_disk_def)
  have e: "?js \<noteq> []" "length ?js \<le> 100" "check_entries Some (length ?js = 1) ?js [] = Inr ()"
    using v by (simp_all add: journal_of_def)
  have "recovery_steps Some True ?d = Inr cleanup_steps"
    unfolding recovery_steps_def m using journal_committed [of reg False ?init "[''a.b/x'']"] e
    by (simp add: marker_entries_def)
  then have r: "recover_package_files Some True ?d = Inr (fs_run cleanup_steps ?d)" by (simp add: recover_package_files_def)
  have "live (fs_run cleanup_steps ?d) (''a.b/x'', App) = None"
    "sl_backup (dk_slots (fs_run cleanup_steps ?d) (''a.b/x'', App)) = None"
    "dk_registry (fs_run cleanup_steps ?d) = reg" "live ?init (''a.b/x'', App) = Some (Tree [(''index.html'', ''old'')])"
    unfolding d by (simp_all add: cleanup_steps_def move_old_def) (simp_all add: example_disk_def)
  with r reg show ?thesis
    unfolding Let_def reg_def [symmetric] by auto
qed

end
