(* ===== verification/Installer.thy ===== *)
theory Installer
  imports Store_Laws Install_Commit
begin

text \<open>
  Installing a verified dependency closure (\<^verbatim>\<open>install_packages\<close> of \<^verbatim>\<open>src/package/files.rs\<close>, called by
  \<^verbatim>\<open>install_store_package\<close> with the closure of \<^verbatim>\<open>Store\<close>): every package is checked again against its
  publication proof, the revocation lists, the owner of the installed version and the routes of the
  other packages; the registrations are written; the resources are staged and their Libs loaded;
  the revocations are checked once more; the files and the database are switched together; and the
  collections of the running sandbox follow.

  The state is what these routines share: the disk with its committed registry, the configured
  proxies, the cached revocation lists, and the running Libs and Apps. What the file system and
  WebAssembly compilation answer are fields of the environment.
\<close>

section \<open>State and environment\<close>

record loaded_lib =
  ll_openapi :: api_doc
  ll_wasm :: string

text \<open>An App by its version and the directory that is served.\<close>

record host =
  ho_disk :: disk
  ho_proxies :: "string list"
  ho_crls :: "string \<Rightarrow> string option"
  ho_libs :: "string \<Rightarrow> loaded_lib option"
  ho_apps :: "string \<Rightarrow> (string \<times> payload) option"
  ho_closed :: bool

record install_env =
  ie_tools :: tools
  ie_render :: "json \<Rightarrow> string"
  ie_now :: int
  ie_later :: int
  ie_stage :: "slot \<Rightarrow> unit res"
  ie_compile :: "string \<Rightarrow> string \<Rightarrow> unit res"
  ie_journal_bytes :: "journal_entry list \<Rightarrow> nat"
  ie_opened :: "unit res"
  ie_owned :: "unit res"
  ie_began :: "unit res"
  ie_fault :: commit_faults

abbreviation ie_pki :: "install_env \<Rightarrow> pki" where
  "ie_pki env \<equiv> tk_pki (ie_tools env)"

section \<open>Routes of packages\<close>

definition expanded_error :: error where
  "expanded_error = InvalidComponent ''invalid or modified expanded package''"

definition kind_name :: "kind \<Rightarrow> string" where
  "kind_name k = (case k of Lib \<Rightarrow> ''lib'' | App \<Rightarrow> ''app'')"

definition app_route :: "string \<Rightarrow> string \<Rightarrow> string \<times> string list" where
  "app_route pid path = (''/app/'' @ short_name pid @ ''/'' @ (if path = ''index.html'' then [] else path), [''GET'', ''HEAD''])"

definition package_routes :: "tools \<Rightarrow> package_files \<Rightarrow> string \<Rightarrow> kind \<Rightarrow> (string \<times> string list) list res" where
  "package_routes tk package pid k = (case k of
     Lib \<Rightarrow>
       try_r (package_openapi tk package) (\<lambda>raw.
       try_r (validate_openapi tk raw) (\<lambda>api.
       Inr (sort_key fst (map (\<lambda>(path, item). (mount_prefix (id_author pid) (short_name pid) @ path, map fst (ai_methods item)))
              (the (ad_paths api))))))
   | App \<Rightarrow>
       Inr (sort_key fst (map (app_route pid) (List.map_filter (strip_prefix ''public/'' \<circ> fst) package) @
              [(''/app/'' @ short_name pid, [''GET'', ''HEAD''])])))"

text \<open>
  The directory of an App as \<^verbatim>\<open>installed_routes\<close> walks it: a name of the recovery is skipped with
  what lies below it; at most 10000 entries, directories at most 32 deep.
\<close>

definition hidden_entry :: "string \<Rightarrow> bool" where
  "hidden_entry path = (rsplit_first (CHR ''/'') path \<in> {''.transaction.json'', ''.previous''})"

definition visible :: "string \<Rightarrow> bool" where
  "visible path = list_all (\<lambda>dir. \<not> hidden_entry dir) (ancestors path)"

definition walk_entries :: "string list \<Rightarrow> string list" where
  "walk_entries paths = filter visible (remdups (concat (map ancestors paths) @ paths))"

definition walk_ok :: "string list \<Rightarrow> bool" where
  "walk_ok paths = (\<not> length (walk_entries paths) > 10000 \<and>
     list_all (\<lambda>dir. hidden_entry dir \<or> \<not> length (split_on (CHR ''/'') dir) > 32)
       (filter visible (concat (map ancestors paths))))"

definition runtime_wasm :: "string \<Rightarrow> string res" where
  "runtime_wasm bytes =
     try_r (ensure_r (\<not> length bytes > 64 * 1024 * 1024) (InvalidComponent ''component exceeds 64 MiB'')) (\<lambda>_. Inr bytes)"

definition missing_resource :: error where
  "missing_resource = Io NotFound ''No such file or directory''"

definition layout_error :: error where
  "layout_error = Io InvalidInput ''resource layout must contain real directories and regular files''"

definition installed_routes :: "tools \<Rightarrow> disk \<Rightarrow> string \<Rightarrow> kind \<Rightarrow> (string \<times> string list) list res" where
  "installed_routes tk d pid k = (case (k, live d (pid, k)) of
     (Lib, Some (Component bytes)) \<Rightarrow>
       try_r (runtime_wasm bytes) (\<lambda>bytes. package_routes tk [(''backend.wasm'', bytes)] pid Lib)
   | (App, Some (Tree files)) \<Rightarrow>
       try_r (ensure_r (walk_ok (map fst files)) expanded_error) (\<lambda>_.
       package_routes tk (map (\<lambda>p. (''public/'' @ p, []))
         (filter (\<lambda>p. visible p \<and> \<not> hidden_entry p) (map fst files))) pid App)
   | (_, None) \<Rightarrow> Inl missing_resource
   | _ \<Rightarrow> Inl layout_error)"

definition proxy_conflict :: "string \<Rightarrow> string \<Rightarrow> bool" where
  "proxy_conflict mount location =
     under_mount (trim_end_matches (CHR ''/'') (case strip_prefix ''= '' location of None \<Rightarrow> location | Some p \<Rightarrow> p)) mount"

definition check_route ::
  "kind \<Rightarrow> kind \<Rightarrow> string \<Rightarrow> (string \<times> string list) list \<Rightarrow> string \<times> string list \<Rightarrow> unit \<Rightarrow> unit res"
where
  "check_route k other_kind other routes entry _ = (case entry of (path, mtds) \<Rightarrow>
     ensure_r (\<not> is_some_and (\<lambda>ours. (k = Lib \<and> other_kind = Lib) \<or> list_ex (\<lambda>m. m \<in> set ours) mtds) (map_of routes path))
       (conflict_error (''route '' @ path @ '' conflicts with installed '' @ kind_name other_kind @ '' '' @ other)))"

definition check_other ::
  "tools \<Rightarrow> disk \<Rightarrow> string \<Rightarrow> kind \<Rightarrow> (string \<times> string list) list \<Rightarrow> kind \<Rightarrow> string \<times> string \<Rightarrow> unit \<Rightarrow> unit res"
where
  "check_other tk d pid k routes other_kind record _ = (let other = fst record in
     if other = pid then Inr ()
     else try_r (installed_routes tk d other other_kind) (\<lambda>theirs.
          fold_r (check_route k other_kind other routes) theirs ()))"

definition check_routes :: "tools \<Rightarrow> string list \<Rightarrow> disk \<Rightarrow> string \<Rightarrow> kind \<Rightarrow> package_files \<Rightarrow> unit res" where
  "check_routes tk proxies d pid k package =
     (let mount = (case k of App \<Rightarrow> ''/app/'' | Lib \<Rightarrow> ''/'') @ short_name pid in
     try_r (if k = App \<or> \<not> is_standard_author (split_first (CHR ''/'') pid)
            then (case find (proxy_conflict mount) proxies of
                    None \<Rightarrow> Inr ()
                  | Some location \<Rightarrow> Inl (conflict_error (kind_name k @ '' '' @ mount @ '' conflicts with configured proxy '' @ location)))
            else Inr ()) (\<lambda>_.
     try_r (package_routes tk package pid k) (\<lambda>routes.
     fold_r (\<lambda>other_kind _.
        try_r (registered_packages (normalize_name (tk_pki tk)) (dk_registry d) (kind_name other_kind) None) (\<lambda>records.
        fold_r (check_other tk d pid k routes other_kind) records ())) [Lib, App] ())))"

section \<open>Preparing the packages\<close>

text \<open>The collections of the request so far are \<open>names\<close>; what is checked before the revocation lists.\<close>

definition admit_package ::
  "install_env \<Rightarrow> string list \<Rightarrow> resource \<Rightarrow> (package_files \<times> signer_facts) res"
where
  "admit_package env names r = (case r of (pid, bytes, proof_doc) \<Rightarrow>
     let p = ie_pki env in
     try_r (valid_id (normalize_name p) pid) (\<lambda>_.
     try_r (ensure_r (\<not> (short_name pid = ''std'' \<or> short_name pid \<in> set names)) (BadRequest ''reserved or duplicate package name'')) (\<lambda>_.
     try_r (ok_or (split_once (CHR ''/'') pid) (policy ''signing_identity_mismatch'' 403)) (\<lambda>(author, name).
     try_r (ok_or (as_str (jidx proof_doc ''version'')) (policy ''package_policy_upgrade_required'' 422)) (\<lambda>version.
     try_r (verify_release (ie_tools env) (ie_now env) bytes proof_doc author name version) (\<lambda>_.
     let at = the (proof_time proof_doc) in
     try_r (read_package_at (ie_tools env) bytes at) (\<lambda>package.
     try_r (Signing.facts p package author at) (\<lambda>fc.
     Inr (package, fc)))))))))"

text \<open>The check of the revocation lists with the list it leaves in the cache, whatever its answer is.\<close>

definition revocation_step ::
  "pki \<Rightarrow> (string \<Rightarrow> string option) \<Rightarrow> package_files \<Rightarrow> json \<Rightarrow> int \<Rightarrow> unit res \<times> (string \<Rightarrow> string option)"
where
  "revocation_step p store files supplied now = (case certificates p files of
     Inl e \<Rightarrow> (Inl e, store)
   | Inr chain \<Rightarrow>
       (case check_revocations p files (store (crl_key p (chain ! 1))) supplied now of
          (res, cached) \<Rightarrow> (res, store(crl_key p (chain ! 1) := cached))))"

definition package_meta_of :: "json \<Rightarrow> signer_facts \<Rightarrow> json \<Rightarrow> package_meta" where
  "package_meta_of metadata fc proof_doc =
     \<lparr>pm_publisher = the (as_str (jidx metadata ''publisher'')), pm_name = the (as_str (jidx metadata ''name'')),
      pm_version = the (as_str (jidx metadata ''version'')), pm_title = as_str (jidx metadata ''title''),
      pm_description = as_str (jidx metadata ''description''), pm_license = as_str (jidx metadata ''license''),
      pm_repository = as_str (jidx metadata ''repository''),
      pm_has_lib = (jidx metadata ''has_lib'' = JBool True), pm_has_app = (jidx metadata ''has_app'' = JBool True),
      pm_owner_hash = Some (sf_owner_hash fc), pm_sha256 = as_str (jidx proof_doc ''package_sha256''),
      pm_leaf = Some (sf_leaf_fingerprint fc), pm_dependencies = document_requests metadata\<rparr>"

definition has_kind :: "package_meta \<Rightarrow> kind \<Rightarrow> bool" where
  "has_kind m k = (case k of Lib \<Rightarrow> pm_has_lib m | App \<Rightarrow> pm_has_app m)"

definition check_resource_identity :: "package_meta \<Rightarrow> string \<Rightarrow> unit res" where
  "check_resource_identity m pid = (case split_once (CHR ''/'') pid of
     None \<Rightarrow> Inr ()
   | Some (publisher, name) \<Rightarrow>
       ensure_r (\<not> (pm_publisher m \<noteq> publisher \<or> pm_name m \<noteq> name)) (InvalidComponent ''Lib ID and manifest identity disagree''))"

definition owner_conflict :: error where
  "owner_conflict = policy ''publisher_ownership_conflict'' 409"

text \<open>The owner of the installed version: recorded, or proved by the receipt of its release.\<close>

definition original_owner :: "pki \<Rightarrow> int \<Rightarrow> string \<Rightarrow> json \<Rightarrow> package_row \<Rightarrow> json res" where
  "original_owner p now pid proof_doc current = (case pk_owner_hash current of
     Some h \<Rightarrow> Inr (JStr h)
   | None \<Rightarrow>
       let previous = jidx proof_doc ''_previous_release''; signature = jidx previous ''signature'';
           (author, name) = the (split_once (CHR ''/'') pid) in
       try_r (ensure_r (\<not> (jidx previous ''id'' \<noteq> JStr pid \<or> jidx previous ''author'' \<noteq> JStr author \<or>
                jidx previous ''name'' \<noteq> JStr name \<or> jidx previous ''version'' \<noteq> JStr (pk_version current) \<or>
                jidx signature ''purpose'' \<noteq> JStr ''code_signing'')) owner_conflict) (\<lambda>_.
       try_r (ok_or (as_i64 (jidx signature ''verified_at'')) owner_conflict) (\<lambda>previous_at.
       try_r (verify_receipt p now previous previous_at) (\<lambda>_.
       Inr (jidx previous ''author_owner_hash'')))))"

definition check_current :: "pki \<Rightarrow> int \<Rightarrow> string \<Rightarrow> json \<Rightarrow> package_meta \<Rightarrow> package_row option \<Rightarrow> unit res" where
  "check_current p now pid proof_doc m current = (case current of
     None \<Rightarrow> Inr ()
   | Some row \<Rightarrow>
       try_r (original_owner p now pid proof_doc row) (\<lambda>owner.
       try_r (ensure_r (Some owner = map_option JStr (pm_owner_hash m)) owner_conflict) (\<lambda>_.
       ensure_r (\<not> (pk_version row = pm_version m \<and> pk_sha256 row \<noteq> None \<and> pk_sha256 row \<noteq> pm_sha256 m))
         (policy ''package_version_conflict'' 409))))"

text \<open>A dependency that is already there in the very same form is left alone; the root never is.\<close>

definition reused :: "host \<Rightarrow> bool \<Rightarrow> string \<Rightarrow> package_meta \<Rightarrow> package_row option \<Rightarrow> bool" where
  "reused host last_one pid m current = (\<not> last_one \<and>
     is_some_and (\<lambda>v. pk_version v = pm_version m \<and> pk_sha256 v = pm_sha256 m \<and> pk_leaf v = pm_leaf m \<and>
        pk_has_lib v = pm_has_lib m \<and> pk_has_app v = pm_has_app m) current \<and>
     (\<not> pm_has_lib m \<or> is_some_and (\<lambda>lib. ad_version (ll_openapi lib) = pm_version m) (ho_libs host pid)) \<and>
     (\<not> pm_has_app m \<or> is_some_and (\<lambda>app. fst app = pm_version m) (ho_apps host pid)))"

record planned =
  pl_id :: string
  pl_files :: package_files
  pl_meta :: package_meta

definition plan_package ::
  "install_env \<Rightarrow> host \<Rightarrow> bool \<Rightarrow> resource \<Rightarrow> package_files \<Rightarrow> signer_facts \<Rightarrow> planned option res"
where
  "plan_package env host last_one r package fc = (case r of (pid, bytes, proof_doc) \<Rightarrow>
     let tk = ie_tools env; reg = dk_registry (ho_disk host) in
     try_r (package_metadata tk package) (\<lambda>metadata.
     let m = package_meta_of metadata fc proof_doc in
     try_r (check_resource_identity m pid) (\<lambda>_.
     try_r (check_name reg pid ''pkg'') (\<lambda>_.
     let current = (case registered_metadata reg pid of Inr (row, _) \<Rightarrow> Some row | Inl _ \<Rightarrow> None) in
     try_r (check_current (tk_pki tk) (ie_now env) pid proof_doc m current) (\<lambda>_.
     if reused host last_one pid m current then Inr None
     else
       try_r (fold_r (\<lambda>k _. if has_kind m k then check_routes tk (ho_proxies host) (ho_disk host) pid k package else Inr ())
                [Lib, App] ()) (\<lambda>_.
       Inr (Some \<lparr>pl_id = pid, pl_files = package, pl_meta = m\<rparr>)))))))"

fun prepare_loop ::
  "install_env \<Rightarrow> host \<Rightarrow> resource list \<Rightarrow> string list \<Rightarrow> (string \<Rightarrow> string option)
     \<Rightarrow> planned list res \<times> (string \<Rightarrow> string option)"
where
  "prepare_loop env host [] names crls = (Inr [], crls)"
| "prepare_loop env host (r # rest) names crls =
     (case admit_package env names r of
        Inl e \<Rightarrow> (Inl e, crls)
      | Inr (package, fc) \<Rightarrow>
          (case revocation_step (ie_pki env) crls package (jidx (snd (snd r)) ''revocation_list'') (ie_now env) of
             (Inl e, crls') \<Rightarrow> (Inl e, crls')
           | (Inr _, crls') \<Rightarrow>
               (case plan_package env host (rest = []) r package fc of
                  Inl e \<Rightarrow> (Inl e, crls')
                | Inr change \<Rightarrow>
                    (case prepare_loop env host rest (short_name (fst r) # names) crls' of
                       (Inl e, crls'') \<Rightarrow> (Inl e, crls'')
                     | (Inr changed, crls'') \<Rightarrow> (Inr ((case change of None \<Rightarrow> [] | Some c \<Rightarrow> [c]) @ changed), crls'')))))"

section \<open>Registering, staging, switching\<close>

text \<open>The OpenAPI document as the registration reads it.\<close>

definition planned_document :: "tools \<Rightarrow> package_files \<Rightarrow> json res" where
  "planned_document tk package =
     try_r (package_openapi tk package) (\<lambda>raw. ok_or (parse_json (tk_pki tk) raw) (InvalidComponent ''OpenAPI''))"

definition planned_change :: "tools \<Rightarrow> planned \<Rightarrow> change" where
  "planned_change tk c = (pl_id c, pl_meta c, planned_document tk (pl_files c))"

definition write_file :: "string \<times> string \<Rightarrow> (string \<times> string) list \<Rightarrow> (string \<times> string) list res" where
  "write_file f files = (case strip_prefix ''public/'' (fst f) of
     None \<Rightarrow> Inr files
   | Some relative \<Rightarrow>
       try_r (ensure_r (split_first (CHR ''/'') relative \<notin> {''.transaction.json'', ''.previous''})
                (InvalidComponent ''reserved recovery path in App'')) (\<lambda>_.
       Inr (files @ [(relative, snd f)])))"

definition write_expanded :: "package_files \<Rightarrow> kind \<Rightarrow> payload res" where
  "write_expanded package k = (case k of
     Lib \<Rightarrow> try_r (ok_or (map_of package ''backend.wasm'') expanded_error) (\<lambda>bytes. Inr (Component bytes))
   | App \<Rightarrow> try_r (fold_r write_file package []) (\<lambda>files. Inr (Tree files)))"

text \<open>\<^verbatim>\<open>Lib::load\<close>; preparing its data directory and compiling the component are the environment's.\<close>

definition load_lib :: "tools \<Rightarrow> (string \<Rightarrow> string \<Rightarrow> unit res) \<Rightarrow> string \<Rightarrow> string \<Rightarrow> loaded_lib res" where
  "load_lib tk compile pid bytes =
     try_r (map_err (\<lambda>_. InvalidComponent ''invalid Lib id'') (valid_id (normalize_name (tk_pki tk)) pid)) (\<lambda>_.
     try_r (runtime_wasm bytes) (\<lambda>_.
     try_r (fold_r openapi_item (tk_wasm tk bytes) (None, 0)) (\<lambda>(document, _).
     try_r (ok_or document (InvalidComponent ''missing pishoo:openapi section'')) (\<lambda>raw.
     try_r (ok_or (tk_openapi tk raw) (InvalidComponent ''OpenAPI'')) (\<lambda>api.
     try_r (compile pid bytes) (\<lambda>_.
     Inr \<lparr>ll_openapi = api, ll_wasm = bytes\<rparr>))))))"

record staging =
  st_files :: "(slot \<times> payload) list"
  st_libs :: "(string \<times> loaded_lib) list"
  st_apps :: "(string \<times> string \<times> payload) list"

definition stage_kind :: "install_env \<Rightarrow> planned \<Rightarrow> kind \<Rightarrow> staging \<Rightarrow> staging res" where
  "stage_kind env c k st =
     (if \<not> has_kind (pl_meta c) k then Inr st
      else
        try_r (ie_stage env (pl_id c, k)) (\<lambda>_.
        try_r (write_expanded (pl_files c) k) (\<lambda>content.
        let st' = st\<lparr>st_files := st_files st @ [((pl_id c, k), content)]\<rparr> in
        (case content of
           Component bytes \<Rightarrow>
             try_r (runtime_wasm bytes) (\<lambda>bytes.
             try_r (load_lib (ie_tools env) (ie_compile env) (pl_id c) bytes) (\<lambda>lib.
             Inr (st'\<lparr>st_libs := st_libs st @ [(pl_id c, lib)]\<rparr>)))
         | _ \<Rightarrow> Inr (st'\<lparr>st_apps := st_apps st @ [(pl_id c, pm_version (pl_meta c), content)]\<rparr>)))))"

definition stage_package :: "install_env \<Rightarrow> planned \<Rightarrow> staging \<Rightarrow> staging res" where
  "stage_package env c st = fold_r (stage_kind env c) [Lib, App] st"

definition stage_disk :: "(slot \<times> payload) list \<Rightarrow> disk \<Rightarrow> disk" where
  "stage_disk files d = d\<lparr>dk_stage := True,
     dk_slots := (\<lambda>s. (dk_slots d s)\<lparr>sl_candidate := map_of files s\<rparr>)\<rparr>"

text \<open>The revocation checks after the compilation.\<close>

fun recheck_loop ::
  "install_env \<Rightarrow> resource list \<Rightarrow> (string \<Rightarrow> string option) \<Rightarrow> unit res \<times> (string \<Rightarrow> string option)"
where
  "recheck_loop env [] crls = (Inr (), crls)"
| "recheck_loop env ((pid, bytes, proof_doc) # rest) crls =
     (case read_package_at (ie_tools env) bytes (the (proof_time proof_doc)) of
        Inl e \<Rightarrow> (Inl e, crls)
      | Inr package \<Rightarrow>
          (case revocation_step (ie_pki env) crls package (jidx proof_doc ''revocation_list'') (ie_later env) of
             (Inl e, crls') \<Rightarrow> (Inl e, crls')
           | (Inr _, crls') \<Rightarrow> recheck_loop env rest crls'))"

text \<open>\<^verbatim>\<open>HashMap::extend\<close> after the removal of the changed packages.\<close>

definition replace_running :: "string list \<Rightarrow> (string \<times> 'a) list \<Rightarrow> (string \<Rightarrow> 'a option) \<Rightarrow> string \<Rightarrow> 'a option" where
  "replace_running pids new old = (\<lambda>pid. case map_of (rev new) pid of
     Some x \<Rightarrow> Some x | None \<Rightarrow> if pid \<in> set pids then None else old pid)"

definition commit_installation ::
  "install_env \<Rightarrow> planned list \<Rightarrow> registry \<Rightarrow> staging \<Rightarrow> host \<Rightarrow> unit res \<times> host"
where
  "commit_installation env changed reg staged host =
     (let pids = map pl_id changed in
      case commit_packages_files (ie_journal_bytes env) (ie_fault env) False pids reg
             (stage_disk (st_files staged) (ho_disk host)) of
        (Inl e, d) \<Rightarrow> (Inl e, host\<lparr>ho_disk := d\<rparr>)
      | (Inr _, d) \<Rightarrow> (Inr (), host\<lparr>ho_disk := d, ho_libs := replace_running pids (st_libs staged) (ho_libs host),
                                  ho_apps := replace_running pids (st_apps staged) (ho_apps host)\<rparr>))"

text \<open>
  Opening the database for an installation or a removal: \<^verbatim>\<open>initialized_profile\<close> and
  \<^verbatim>\<open>installation_database\<close>. \<open>ie_opened\<close> is the answer of opening it read-only, of the lock, and of
  \<^verbatim>\<open>load_server_config\<close>, which has nothing to initialize in a database that could be opened
  (\<open>opened_initialized\<close>); \<open>ie_owned\<close> that of \<^verbatim>\<open>database_owner\<close>, which runs after the preparation has
  committed; \<open>ie_began\<close> that of the beginning of the transaction.
\<close>

definition open_installation :: "install_env \<Rightarrow> host \<Rightarrow> unit res \<times> host" where
  "open_installation env host =
     (case try_r (ie_opened env) (\<lambda>_. migrate_registration (dk_registry (ho_disk host))) of
        Inl e \<Rightarrow> (Inl e, host)
      | Inr reg \<Rightarrow> (ie_owned env, host\<lparr>ho_disk := (ho_disk host)\<lparr>dk_registry := reg\<rparr>\<rparr>))"

text \<open>The installation on the open database.\<close>

definition install_opened :: "install_env \<Rightarrow> resource list \<Rightarrow> host \<Rightarrow> unit res \<times> host" where
  "install_opened env packages host =
     (case ie_began env of
        Inl e \<Rightarrow> (Inl e, host)
      | Inr _ \<Rightarrow>
          (case prepare_loop env host packages [] (ho_crls host) of
            (Inl e, crls) \<Rightarrow> (Inl e, host\<lparr>ho_crls := crls\<rparr>)
          | (Inr changed, crls) \<Rightarrow>
              (case try_r (register_packages (ie_render env) (ie_now env) (map (planned_change (ie_tools env)) changed)
                             (dk_registry (ho_disk host))) (\<lambda>reg.
                    try_r (fold_r (stage_package env) changed \<lparr>st_files = [], st_libs = [], st_apps = []\<rparr>) (\<lambda>staged.
                    Inr (reg, staged))) of
                 Inl e \<Rightarrow> (Inl e, host\<lparr>ho_crls := crls\<rparr>)
               | Inr (reg, staged) \<Rightarrow>
                   (case recheck_loop env packages crls of
                      (Inl e, crls') \<Rightarrow> (Inl e, host\<lparr>ho_crls := crls'\<rparr>)
                    | (Inr _, crls') \<Rightarrow> commit_installation env changed reg staged (host\<lparr>ho_crls := crls'\<rparr>)))))"

definition install_packages :: "install_env \<Rightarrow> resource list \<Rightarrow> host \<Rightarrow> unit res \<times> host" where
  "install_packages env packages host =
     (if packages = [] \<or> length packages > 100 then (Inl (BadRequest ''installation requires 1 to 100 packages''), host)
      else if ho_closed host then (Inl Denied, host)
      else (case open_installation env host of
          (Inl e, host') \<Rightarrow> (Inl e, host')
        | (Inr _, host') \<Rightarrow> install_opened env packages host'))"

end
