(* ===== verification/Installer_Laws.thy ===== *)
theory Installer_Laws
  imports Installer
begin

text \<open>
  What an installation guarantees: it is all or nothing over the three places that know about
  packages, and the registry, the files and the running sandbox always agree.
\<close>

section \<open>Rows by full identity\<close>

definition row_kind :: "package_row \<Rightarrow> kind \<Rightarrow> bool" where
  "row_kind row k = (case k of Lib \<Rightarrow> pk_has_lib row | App \<Rightarrow> pk_has_app row)"

definition registered_kind :: "registry \<Rightarrow> slot \<Rightarrow> bool" where
  "registered_kind reg s = (\<exists>row \<in> set (rg_packages reg). row_id row = fst s \<and> row_kind row (snd s))"

lemma row_id_short:
  assumes "CHR ''/'' \<notin> set (pk_name row)"
  shows "short_name (row_id row) = pk_name row"
  using assms by (cases "pk_author row") (simp_all add: row_id_def short_name_def rsplit_first_absent rsplit_first_after)

lemma registered_kind_iff:
  assumes "graph_ok reg"
  shows "registered_kind reg s \<longleftrightarrow>
    (\<exists>row. find_package reg (short_name (fst s)) = Some row \<and> row_id row = fst s \<and> row_kind row (snd s))"
proof
  assume "registered_kind reg s"
  then obtain row where row: "row \<in> set (rg_packages reg)" "row_id row = fst s" "row_kind row (snd s)"
    by (auto simp: registered_kind_def)
  with assms have "short_name (fst s) = pk_name row" using row_id_short [of row] by (auto simp: graph_ok_def)
  with row assms find_package_row [of reg row]
  show "\<exists>row. find_package reg (short_name (fst s)) = Some row \<and> row_id row = fst s \<and> row_kind row (snd s)"
    by (auto simp: graph_ok_def)
next
  assume "\<exists>row. find_package reg (short_name (fst s)) = Some row \<and> row_id row = fst s \<and> row_kind row (snd s)"
  then show "registered_kind reg s" by (auto simp: registered_kind_def dest: find_package_Some)
qed

lemma id_split:
  assumes "split_once (CHR ''/'') pid = Some (author, n)" and "valid_id norm pid = Inr ()"
  shows "pid = author @ CHR ''/'' # n" and "short_name pid = n" and "id_author pid = Some author"
proof -
  show eq: "pid = author @ CHR ''/'' # n" using assms(1) by (simp add: split_once_Some_iff)
  with valid_id_parts [of norm author n] assms(2) show "short_name pid = n" by simp
  show "id_author pid = Some author" using assms(1) by (simp add: id_author_def)
qed

definition registrable :: "normalizer \<Rightarrow> string \<Rightarrow> bool" where
  "registrable norm pid = (valid_id norm pid = Inr () \<and> split_once (CHR ''/'') pid \<noteq> None)"

lemma save_registration_kinds:
  assumes "save_registration render now pid m doc reg = Inr reg'" and "registry_ok reg"
    and "registrable norm pid"
  shows "registered_kind reg' s = (if fst s = pid then has_kind m (snd s) else registered_kind reg s)"
proof -
  note pk = save_registration_packages [OF assms(1,2)]
  have ok: "graph_ok reg" "graph_ok reg'"
    using assms(2) save_registration_ok [OF assms(1,2)] by (simp_all add: registry_ok_def)
  have "check_name reg pid ''pkg'' = Inr ()" using assms(1) by (rule save_registration_steps)
  then have name: "row_id row = pid" if "find_package reg (short_name pid) = Some row" for row
    using find_package_Some [OF that] by (auto simp: check_name_def in_kind_def find_None_iff split: option.splits)
  obtain row where row: "find_package reg' (short_name pid) = Some row" "row_id row = pid" "\<And>k. row_kind row k = has_kind m k"
  proof -
    obtain author n where p: "split_once (CHR ''/'') pid = Some (author, n)" and v: "valid_id norm pid = Inr ()"
      using assms(3) by (auto simp: registrable_def)
    note sp = id_split [OF p v]
    from pk [of "short_name pid"] obtain row where row: "find_package reg' (short_name pid) = Some row"
      "row = new_row now n (Some author) m \<or> (\<exists>old. row = upgraded_row now (new_row now n (Some author) m) old)"
      by (cases "find_package reg (short_name pid)") (auto simp: sp(2,3) simp del: find_package_None_iff)
    then have "row_id row = pid" "\<And>k. row_kind row k = has_kind m k"
      by (auto simp: sp(1) row_id_def new_row_def upgraded_row_def row_kind_def has_kind_def split: kind.splits)
    with row(1) show ?thesis by (rule that)
  qed
  show ?thesis
  proof (cases "short_name (fst s) = short_name pid")
    case True
    with row ok name show ?thesis by (auto simp: registered_kind_iff)
  next
    case False
    with ok show ?thesis by (auto simp: registered_kind_iff pk)
  qed
qed


lemma drop_all_dependencies:
  "rg_packages (fold (\<lambda>(pid, _, _). drop_dependencies (short_name pid)) changed reg) = rg_packages reg"
  by (induction changed arbitrary: reg) auto

lemma registered_kind_cong: "rg_packages reg = rg_packages reg' \<Longrightarrow> registered_kind reg = registered_kind reg'"
  by (rule ext) (simp add: registered_kind_def)

lemma save_registrations_kinds:
  assumes "fold_r (\<lambda>(pid, m, doc). save_registration render now pid m doc) changed reg = Inr reg'" and "registry_ok reg"
    and "distinct (map fst changed)"
    and "\<forall>c \<in> set changed. registrable norm (fst c)"
  shows "registered_kind reg' s = (case map_of changed (fst s) of None \<Rightarrow> registered_kind reg s | Some (m, _) \<Rightarrow> has_kind m (snd s))"
  using assms
proof (induction changed arbitrary: reg)
  case (Cons c changed)
  obtain pid m doc where c: "c = (pid, m, doc)" by (cases c)
  from Cons.prems(1) obtain reg1 where s: "save_registration render now pid m doc reg = Inr reg1"
    and rest: "fold_r (\<lambda>(pid, m, doc). save_registration render now pid m doc) changed reg1 = Inr reg'"
    by (auto simp: c try_r_Inr_iff)
  have v: "registrable norm pid" using Cons.prems(4) by (simp add: c)
  note one = save_registration_kinds [OF s Cons.prems(2) v]
  have "registered_kind reg' s = (case map_of changed (fst s) of None \<Rightarrow> registered_kind reg1 s | Some (m, _) \<Rightarrow> has_kind m (snd s))"
    by (rule Cons.IH [OF rest save_registration_ok [OF s Cons.prems(2)]]) (use Cons.prems(3,4) in simp_all)
  moreover have "map_of changed pid = None" using Cons.prems(3) by (auto simp: c map_of_eq_None_iff)
  ultimately show ?case using one by (auto simp: c split: option.splits)
qed simp

lemma register_packages_kinds:
  assumes "register_packages render now changed reg = Inr reg'" and "registry_ok reg"
    and "distinct (map fst changed)"
    and "\<forall>c \<in> set changed. registrable norm (fst c)"
  shows "registered_kind reg' s = (case map_of changed (fst s) of None \<Rightarrow> registered_kind reg s | Some (m, _) \<Rightarrow> has_kind m (snd s))"
proof -
  let ?r = "fold (\<lambda>(pid, _, _). drop_dependencies (short_name pid)) changed reg"
  have "registry_ok ?r" using assms(2) by (induction changed arbitrary: reg) (auto simp: drop_dependencies_ok)
  from save_registrations_kinds [OF assms(1) [unfolded register_packages_def] this assms(3,4)]
    registered_kind_cong [OF drop_all_dependencies]
  show ?thesis by metis
qed

section \<open>Preparing\<close>

text \<open>What is known of a package that will change.\<close>

definition prepared :: "install_env \<Rightarrow> resource list \<Rightarrow> planned \<Rightarrow> bool" where
  "prepared env packages c = (\<exists>r \<in> set packages. \<exists>author name version. fst r = pl_id c \<and>
     valid_id (normalize_name (ie_pki env)) (pl_id c) = Inr () \<and> split_once (CHR ''/'') (pl_id c) = Some (author, name) \<and>
     verify_release (ie_tools env) (ie_now env) (fst (snd r)) (snd (snd r)) author name version = Inr () \<and>
     read_package_at (ie_tools env) (fst (snd r)) (the (proof_time (snd (snd r)))) = Inr (pl_files c))"

lemma admit_package_ok:
  assumes "admit_package env names r = Inr (package, fc)"
  shows "prepared env (r # rs) \<lparr>pl_id = fst r, pl_files = package, pl_meta = m\<rparr>" and "short_name (fst r) \<notin> set names"
  using assms
  by (auto simp: admit_package_def Let_def try_r_Inr_iff prepared_def split: prod.splits)

lemma plan_package_ok:
  assumes "plan_package env host last_one r package fc = Inr change"
  shows "case change of None \<Rightarrow> \<not> last_one | Some c \<Rightarrow> pl_id c = fst r \<and> pl_files c = package"
  using assms
  by (auto simp: plan_package_def Let_def try_r_Inr_iff reused_def split: prod.splits if_splits)

lemma prepared_mono: "prepared env rs c \<Longrightarrow> prepared env (r # rs) c"
  by (auto simp: prepared_def)

lemma prepare_loop_ok:
  assumes "prepare_loop env host rs names crls = (Inr changed, crls')"
  shows "distinct (map (short_name \<circ> pl_id) changed) \<and> set names \<inter> (short_name \<circ> pl_id) ` set changed = {} \<and>
    (\<forall>c \<in> set changed. prepared env rs c) \<and> (rs \<noteq> [] \<longrightarrow> changed \<noteq> [] \<and> pl_id (last changed) = fst (last rs))"
  using assms
proof (induction rs arbitrary: names crls changed)
  case (Cons r rest)
  from Cons.prems obtain package fc crls1 change changed' where
    admit: "admit_package env names r = Inr (package, fc)" and
    plan: "plan_package env host (rest = []) r package fc = Inr change" and
    rest: "prepare_loop env host rest (short_name (fst r) # names) crls1 = (Inr changed', crls')" and
    changed: "changed = (case change of None \<Rightarrow> [] | Some c \<Rightarrow> [c]) @ changed'"
    by (auto split: sum.splits prod.splits)
  note ih = Cons.IH [OF rest] and a = admit_package_ok [OF admit] and p = plan_package_ok [OF plan]
  have nil: "changed' = []" if "rest = []" using rest that by auto
  show ?case
  proof (cases change)
    case None
    with p have "rest \<noteq> []" by simp
    with ih None show ?thesis by (auto simp: changed prepared_mono)
  next
    case (Some c)
    with p have c: "pl_id c = fst r" "pl_files c = package" by auto
    have "prepared env (r # rest) c" using a(1) [of rest] by (simp add: prepared_def c)
    with ih a(2) Some nil c show ?thesis by (cases "rest = []") (auto simp: changed prepared_mono)
  qed
qed auto


section \<open>Staging\<close>

text \<open>What has been staged for the pairs \<open>cs\<close> of a package and a kind: the resources, each with its running part.\<close>

definition staged_from :: "(planned \<times> kind) list \<Rightarrow> slot \<times> payload \<Rightarrow> bool" where
  "staged_from cs x = (\<exists>c k. (c, k) \<in> set cs \<and> fst x = (pl_id c, k) \<and> has_kind (pl_meta c) k \<and>
     write_expanded (pl_files c) k = Inr (snd x))"

definition staged_all :: "(planned \<times> kind) list \<Rightarrow> staging \<Rightarrow> bool" where
  "staged_all cs st = (\<forall>c k. (c, k) \<in> set cs \<longrightarrow> has_kind (pl_meta c) k \<longrightarrow> (pl_id c, k) \<in> fst ` set (st_files st))"

definition staged_version :: "(planned \<times> kind) list \<Rightarrow> string \<times> string \<times> payload \<Rightarrow> bool" where
  "staged_version cs a = (\<exists>c k. (c, k) \<in> set cs \<and> pl_id c = fst a \<and> pm_version (pl_meta c) = fst (snd a))"

definition staged_ok :: "(planned \<times> kind) list \<Rightarrow> staging \<Rightarrow> bool" where
  "staged_ok cs st =
     (distinct (map fst (st_files st)) \<and> list_all (staged_from cs) (st_files st) \<and> staged_all cs st \<and>
      filter (\<lambda>x. snd (fst x) = Lib) (st_files st) = map (\<lambda>(pid, lib). ((pid, Lib), Component (ll_wasm lib))) (st_libs st) \<and>
      filter (\<lambda>x. snd (fst x) = App) (st_files st) = map (\<lambda>(pid, v, content). ((pid, App), content)) (st_apps st) \<and>
      list_all (staged_version cs) (st_apps st))"

lemma staged_more:
  "staged_from cs x \<Longrightarrow> staged_from (cs @ ds) x" "staged_version cs a \<Longrightarrow> staged_version (cs @ ds) a"
  by (auto simp: staged_from_def staged_version_def)

lemma staged_mono:
  "list_all (staged_from cs) xs \<Longrightarrow> list_all (staged_from (cs @ ds)) xs"
  "list_all (staged_version cs) as \<Longrightarrow> list_all (staged_version (cs @ ds)) as"
  by (auto simp: list_all_iff staged_more)

lemma write_expanded_kind:
  "write_expanded package Lib = Inr content \<Longrightarrow> \<exists>bytes. content = Component bytes"
  "write_expanded package App = Inr content \<Longrightarrow> \<exists>files. content = Tree files"
  by (auto simp: write_expanded_def try_r_Inr_iff)

lemma load_lib_wasm: "load_lib tk compile pid bytes = Inr lib \<Longrightarrow> ll_wasm lib = bytes"
  by (auto simp: load_lib_def try_r_Inr_iff split: prod.splits)

text \<open>A loaded Lib is what loading its component gives; \<open>load_lib\<close> asks the compiler last.\<close>

definition loads :: "tools \<Rightarrow> string \<Rightarrow> loaded_lib \<Rightarrow> bool" where
  "loads tk pid lib = (load_lib tk (\<lambda>_ _. Inr ()) pid (ll_wasm lib) = Inr lib)"

lemma load_lib_loads: "load_lib tk compile pid bytes = Inr lib \<Longrightarrow> loads tk pid lib"
  by (auto simp: loads_def load_lib_def try_r_Inr_iff split: prod.splits)

lemma stage_kind_loads:
  assumes "stage_kind env c k st = Inr st'" and "list_all (\<lambda>(pid, lib). loads (ie_tools env) pid lib) (st_libs st)"
  shows "list_all (\<lambda>(pid, lib). loads (ie_tools env) pid lib) (st_libs st')"
proof (cases "has_kind (pl_meta c) k")
  case False
  with assms show ?thesis by (simp add: stage_kind_def)
next
  case True
  with assms(1) obtain content where
    rest: "(let st1 = st\<lparr>st_files := st_files st @ [((pl_id c, k), content)]\<rparr> in case content of
       Component bytes \<Rightarrow> try_r (runtime_wasm bytes) (\<lambda>bytes. try_r (load_lib (ie_tools env) (ie_compile env) (pl_id c) bytes)
         (\<lambda>lib. Inr (st1\<lparr>st_libs := st_libs st @ [(pl_id c, lib)]\<rparr>)))
     | _ \<Rightarrow> Inr (st1\<lparr>st_apps := st_apps st @ [(pl_id c, pm_version (pl_meta c), content)]\<rparr>)) = Inr st'"
    unfolding stage_kind_def by (auto simp only: if_not_P not_not try_r_Inr_iff)
  show ?thesis
  proof (cases content)
    case (Component bytes)
    with rest obtain lib bytes' where l: "load_lib (ie_tools env) (ie_compile env) (pl_id c) bytes' = Inr lib"
      and libs: "st_libs st' = st_libs st @ [(pl_id c, lib)]"
      by (auto simp: Let_def try_r_Inr_iff)
    from load_lib_loads [OF l] libs assms(2) show ?thesis by simp
  qed (use rest assms(2) in \<open>simp_all add: Let_def, auto\<close>)
qed

lemma stage_packages_loads:
  assumes "fold_r (stage_package env) changed st = Inr st'" and "list_all (\<lambda>(pid, lib). loads (ie_tools env) pid lib) (st_libs st)"
  shows "list_all (\<lambda>(pid, lib). loads (ie_tools env) pid lib) (st_libs st')"
  using assms
proof (induction changed arbitrary: st)
  case (Cons c changed)
  from Cons.prems(1) obtain st2 where p: "stage_package env c st = Inr st2" and s3: "fold_r (stage_package env) changed st2 = Inr st'"
    by (auto simp: try_r_Inr_iff)
  from p obtain st1 where s: "stage_kind env c Lib st = Inr st1" "stage_kind env c App st1 = Inr st2"
    by (auto simp: stage_package_def try_r_Inr_iff)
  show ?case by (rule Cons.IH [OF s3 stage_kind_loads [OF s(2) stage_kind_loads [OF s(1) Cons.prems(2)]]])
qed simp

lemma runtime_wasm_Inr_iff: "runtime_wasm bytes = Inr bytes' \<longleftrightarrow> bytes' = bytes \<and> length bytes \<le> 64 * 1024 * 1024"
  by (auto simp: runtime_wasm_def try_r_Inr_iff)

lemma stage_kind_cases:
  assumes "stage_kind env c k st = Inr st'"
  obtains (none) "\<not> has_kind (pl_meta c) k" "st' = st"
  | (lib) lib where "k = Lib" "pm_has_lib (pl_meta c)" "write_expanded (pl_files c) Lib = Inr (Component (ll_wasm lib))"
      "st' = st\<lparr>st_files := st_files st @ [((pl_id c, Lib), Component (ll_wasm lib))], st_libs := st_libs st @ [(pl_id c, lib)]\<rparr>"
  | (app) files where "k = App" "pm_has_app (pl_meta c)" "write_expanded (pl_files c) App = Inr (Tree files)"
      "st' = st\<lparr>st_files := st_files st @ [((pl_id c, App), Tree files)],
                st_apps := st_apps st @ [(pl_id c, pm_version (pl_meta c), Tree files)]\<rparr>"
proof (cases "has_kind (pl_meta c) k")
  case False
  with assms show ?thesis by (intro none) (simp_all add: stage_kind_def)
next
  case True
  with assms obtain content where w: "write_expanded (pl_files c) k = Inr content"
    by (auto simp: stage_kind_def try_r_Inr_iff)
  show ?thesis
  proof (cases k)
    case Lib
    with w obtain bytes where b: "content = Component bytes" using write_expanded_kind(1) by blast
    with assms True w obtain lib where "ll_wasm lib = bytes"
      "st' = st\<lparr>st_files := st_files st @ [((pl_id c, Lib), Component bytes)], st_libs := st_libs st @ [(pl_id c, lib)]\<rparr>"
      by (auto simp: stage_kind_def try_r_Inr_iff Let_def runtime_wasm_Inr_iff Lib dest: load_lib_wasm)
    with Lib True w b show ?thesis by (intro lib [of lib]) (simp_all add: has_kind_def)
  next
    case App
    with w obtain files where f: "content = Tree files" using write_expanded_kind(2) by blast
    with assms True w App show ?thesis
      by (intro app [of files]) (auto simp: stage_kind_def try_r_Inr_iff Let_def has_kind_def)
  qed
qed


lemma stage_kind_ok:
  assumes "stage_kind env c k st = Inr st'" and "staged_ok cs st"
    and "(pl_id c, k) \<notin> (\<lambda>(c, k). (pl_id c, k)) ` set cs"
  shows "staged_ok (cs @ [(c, k)]) st'"
proof -
  have new: "(pl_id c, k) \<notin> fst ` set (st_files st)"
  proof
    assume "(pl_id c, k) \<in> fst ` set (st_files st)"
    then obtain x where "x \<in> set (st_files st)" "fst x = (pl_id c, k)" by auto
    with assms(2) have "(pl_id c, k) \<in> (\<lambda>(c, k). (pl_id c, k)) ` set cs"
      by (force simp: staged_ok_def list_all_iff staged_from_def)
    with assms(3) show False by contradiction
  qed
  from assms(1) show ?thesis
  proof (cases rule: stage_kind_cases)
    case none
    with assms(2) show ?thesis by (auto simp: staged_ok_def staged_mono staged_all_def)
  next
    case (lib lib)
    have "staged_from (cs @ [(c, k)]) ((pl_id c, Lib), Component (ll_wasm lib))"
      using lib by (auto simp: staged_from_def has_kind_def)
    with lib assms(2) new show ?thesis by (simp add: staged_ok_def staged_mono staged_all_def)
  next
    case (app files)
    have "staged_from (cs @ [(c, k)]) ((pl_id c, App), Tree files)"
      and "staged_version (cs @ [(c, k)]) (pl_id c, pm_version (pl_meta c), Tree files)"
      using app by (auto simp: staged_from_def staged_version_def has_kind_def)
    with app assms(2) new show ?thesis by (simp add: staged_ok_def staged_mono staged_all_def)
  qed
qed

lemma stage_package_ok:
  assumes "stage_package env c st = Inr st'" and "staged_ok cs st" and "pl_id c \<notin> (pl_id \<circ> fst) ` set cs"
  shows "staged_ok (cs @ [(c, Lib), (c, App)]) st'"
proof -
  from assms(1) obtain st1 where s: "stage_kind env c Lib st = Inr st1" "stage_kind env c App st1 = Inr st'"
    by (auto simp: stage_package_def try_r_Inr_iff)
  have "staged_ok (cs @ [(c, Lib)]) st1"
    by (rule stage_kind_ok [OF s(1) assms(2)]) (use assms(3) in force)
  then have "staged_ok ((cs @ [(c, Lib)]) @ [(c, App)]) st'"
    by (rule stage_kind_ok [OF s(2)]) (use assms(3) in force)
  then show ?thesis by simp
qed

definition all_kinds :: "planned list \<Rightarrow> (planned \<times> kind) list" where
  "all_kinds changed = concat (map (\<lambda>c. [(c, Lib), (c, App)]) changed)"

lemma all_kinds_set: "(c, k) \<in> set (all_kinds changed) \<longleftrightarrow> c \<in> set changed"
  by (cases k) (auto simp: all_kinds_def)

lemma stage_packages_ok:
  assumes "fold_r (stage_package env) changed st = Inr st'" and "staged_ok cs st"
    and "distinct (map pl_id changed)" and "set (map pl_id changed) \<inter> (pl_id \<circ> fst) ` set cs = {}"
  shows "staged_ok (cs @ all_kinds changed) st'"
  using assms
proof (induction changed arbitrary: st cs)
  case (Cons c changed)
  from Cons.prems(1) obtain st1 where s: "stage_package env c st = Inr st1" "fold_r (stage_package env) changed st1 = Inr st'"
    by (auto simp: try_r_Inr_iff)
  have "staged_ok (cs @ [(c, Lib), (c, App)]) st1"
    by (rule stage_package_ok [OF s(1) Cons.prems(2)]) (use Cons.prems(4) in auto)
  then have "staged_ok ((cs @ [(c, Lib), (c, App)]) @ all_kinds changed) st'"
    by (rule Cons.IH [OF s(2)]) (use Cons.prems(3,4) in auto)
  then show ?case by (simp add: all_kinds_def)
qed (simp add: all_kinds_def)

text \<open>Looking up what has been staged.\<close>

lemma map_of_filter_kind: "map_of (filter (\<lambda>x. snd (fst x) = k) xs) (pid, k) = map_of xs (pid, k)"
  by (induction xs) auto

lemma staged_lookup:
  assumes "staged_ok cs st"
  shows "map_option (Component \<circ> ll_wasm) (map_of (st_libs st) pid) = map_of (st_files st) (pid, Lib)"
    and "map_option snd (map_of (st_apps st) pid) = map_of (st_files st) (pid, App)"
    and "distinct (map fst (st_libs st))" and "distinct (map fst (st_apps st))"
proof -
  note eq = assms [unfolded staged_ok_def]
  have lib: "map_of (map (\<lambda>(pid, lib). ((pid, Lib), Component (ll_wasm lib))) libs) (pid, Lib) =
      map_option (Component \<circ> ll_wasm) (map_of libs pid)" for libs
    by (induction libs) auto
  have app: "map_of (map (\<lambda>(pid, v, content). ((pid, App), content)) apps) (pid, App) = map_option snd (map_of apps pid)"
    for apps :: "(string \<times> string \<times> payload) list"
    by (induction apps) auto
  from eq have f: "filter (\<lambda>x. snd (fst x) = Lib) (st_files st) = map (\<lambda>(pid, lib). ((pid, Lib), Component (ll_wasm lib))) (st_libs st)"
    "filter (\<lambda>x. snd (fst x) = App) (st_files st) = map (\<lambda>(pid, v, content). ((pid, App), content)) (st_apps st)" by blast+
  show "map_option (Component \<circ> ll_wasm) (map_of (st_libs st) pid) = map_of (st_files st) (pid, Lib)"
    unfolding map_of_filter_kind [of Lib "st_files st" pid, symmetric] f(1) lib ..
  show "map_option snd (map_of (st_apps st) pid) = map_of (st_files st) (pid, App)"
    unfolding map_of_filter_kind [of App "st_files st" pid, symmetric] f(2) app ..
  have d: "distinct (map fst (filter P (st_files st)))" for P
    using eq by (simp add: distinct_map_filter)
  from d [of "\<lambda>x. snd (fst x) = Lib"] have "distinct (map (\<lambda>p. (p, Lib)) (map fst (st_libs st)))"
    unfolding f(1) by (simp add: comp_def case_prod_unfold)
  then show "distinct (map fst (st_libs st))" using distinct_map [of "\<lambda>p. (p, Lib)" "map fst (st_libs st)"] by blast
  from d [of "\<lambda>x. snd (fst x) = App"] have "distinct (map (\<lambda>p. (p, App)) (map fst (st_apps st)))"
    unfolding f(2) by (simp add: comp_def case_prod_unfold)
  then show "distinct (map fst (st_apps st))" using distinct_map [of "\<lambda>p. (p, App)" "map fst (st_apps st)"] by blast
qed

text \<open>Where a resource is staged, and with what.\<close>

lemma staged_files:
  assumes "staged_ok (all_kinds changed) st" and "distinct (map pl_id changed)"
  shows "c \<in> set changed \<Longrightarrow> map_of (st_files st) (pl_id c, k) =
      (if has_kind (pl_meta c) k then Some (projr (write_expanded (pl_files c) k)) else None)"
    and "pid \<notin> pl_id ` set changed \<Longrightarrow> map_of (st_files st) (pid, k) = None"
proof -
  note ok = assms(1) [unfolded staged_ok_def]
  have from_c: "\<exists>c \<in> set changed. pid = pl_id c \<and> has_kind (pl_meta c) k \<and> write_expanded (pl_files c) k = Inr x"
    if "map_of (st_files st) (pid, k) = Some x" for pid k x
    using map_of_SomeD [OF that] ok by (fastforce simp: list_all_iff staged_from_def all_kinds_set)
  show "pid \<notin> pl_id ` set changed \<Longrightarrow> map_of (st_files st) (pid, k) = None"
    using from_c [of pid k] by (cases "map_of (st_files st) (pid, k)") auto
  assume c: "c \<in> set changed"
  then have "(pl_id c, k) \<in> fst ` set (st_files st)" if "has_kind (pl_meta c) k"
    using ok that by (auto simp: staged_all_def all_kinds_set)
  moreover have "c' = c" if "c' \<in> set changed" "pl_id c = pl_id c'" for c'
    using assms(2) c that by (auto simp: distinct_map dest: inj_onD)
  ultimately show "map_of (st_files st) (pl_id c, k) =
      (if has_kind (pl_meta c) k then Some (projr (write_expanded (pl_files c) k)) else None)"
    using from_c [of "pl_id c" k]
    by (cases "map_of (st_files st) (pl_id c, k)") (auto simp: map_of_eq_None_iff)
qed

section \<open>All or nothing\<close>

text \<open>The three places that know about packages, and nothing in between left on the disk.\<close>

definition clean_disk :: "disk \<Rightarrow> bool" where
  "clean_disk d = (dk_marker d = None \<and> (\<forall>s. sl_backup (dk_slots d s) = None \<and> sl_candidate (dk_slots d s) = None))"

definition same_installation :: "host \<Rightarrow> host \<Rightarrow> bool" where
  "same_installation host host' =
     (dk_registry (ho_disk host') = dk_registry (ho_disk host) \<and> (\<forall>s. live (ho_disk host') s = live (ho_disk host) s) \<and>
      ho_libs host' = ho_libs host \<and> ho_apps host' = ho_apps host)"

text \<open>What a failure leaves: the files too, unless the rollback failed with it.\<close>

definition kept :: "bool \<Rightarrow> host \<Rightarrow> host \<Rightarrow> bool" where
  "kept files host host' =
     (dk_registry (ho_disk host') = dk_registry (ho_disk host) \<and> ho_libs host' = ho_libs host \<and> ho_apps host' = ho_apps host \<and>
      (files \<longrightarrow> (\<forall>s. live (ho_disk host') s = live (ho_disk host) s)))"

lemma kept_files [simp]: "kept True host host' = same_installation host host'"
  by (auto simp: kept_def same_installation_def)

lemma kept_same: "same_installation host host' \<Longrightarrow> kept files host host'"
  by (simp add: kept_def same_installation_def)

text \<open>The content that a changed package has to have, from the archive that was verified.\<close>

definition planned_content :: "planned \<Rightarrow> kind \<Rightarrow> payload option" where
  "planned_content c k = (if has_kind (pl_meta c) k then Some (projr (write_expanded (pl_files c) k)) else None)"

definition switched :: "install_env \<Rightarrow> resource list \<Rightarrow> host \<Rightarrow> planned list \<Rightarrow> host \<Rightarrow> bool" where
  "switched env packages host changed host' =
     (changed \<noteq> [] \<and> distinct (map pl_id changed) \<and> pl_id (last changed) = fst (last packages) \<and>
      (\<forall>c \<in> set changed. prepared env packages c) \<and>
      register_packages (ie_render env) (ie_now env) (map (planned_change (ie_tools env)) changed) (dk_registry (ho_disk host)) =
        Inr (dk_registry (ho_disk host')) \<and>
      (\<forall>c \<in> set changed. \<forall>k. live (ho_disk host') (pl_id c, k) = planned_content c k) \<and>
      (\<forall>pid k. pid \<notin> pl_id ` set changed \<longrightarrow> live (ho_disk host') (pid, k) = live (ho_disk host) (pid, k) \<and>
         ho_libs host' pid = ho_libs host pid \<and> ho_apps host' pid = ho_apps host pid) \<and>
      (\<forall>c \<in> set changed. map_option (Component \<circ> ll_wasm) (ho_libs host' (pl_id c)) = live (ho_disk host') (pl_id c, Lib) \<and>
         map_option snd (ho_apps host' (pl_id c)) = live (ho_disk host') (pl_id c, App)) \<and>
      (\<forall>c \<in> set changed. (\<forall>lib. ho_libs host' (pl_id c) = Some lib \<longrightarrow> loads (ie_tools env) (pl_id c) lib) \<and>
         (\<forall>app. ho_apps host' (pl_id c) = Some app \<longrightarrow> fst app = pm_version (pl_meta c) \<and> (\<exists>files. snd app = Tree files))))"

lemma map_of_rev: "distinct (map fst xs) \<Longrightarrow> map_of (rev xs) k = map_of xs k"
proof (induction xs)
  case (Cons x xs)
  then have "map_of xs (fst x) = None" by (simp add: map_of_eq_None_iff)
  with Cons show ?case by (cases x) (auto simp: map_add_def split: option.split)
qed simp

lemma stage_disk_simps [simp]:
  "dk_marker (stage_disk files d) = dk_marker d" "dk_registry (stage_disk files d) = dk_registry d"
  "live (stage_disk files d) s = live d s" "sl_backup (dk_slots (stage_disk files d) s) = sl_backup (dk_slots d s)"
  "sl_candidate (dk_slots (stage_disk files d) s) = map_of files s"
  by (simp_all add: stage_disk_def)

lemma commit_installation_outcome:
  assumes "commit_installation env changed reg staged host = (res, host')" and "staged_ok (all_kinds changed) staged"
    and "distinct (map pl_id changed)" and "clean_disk (ho_disk host)"
  shows "ho_proxies host' = ho_proxies host \<and> ho_closed host' = ho_closed host \<and>
    (settled (ie_fault env) \<longrightarrow> clean_disk (ho_disk host')) \<and>
    (case res of Inl _ \<Rightarrow> kept (cf_undo (ie_fault env) = None) host host' | Inr _ \<Rightarrow>
       dk_registry (ho_disk host') = reg \<and>
       (\<forall>s. live (ho_disk host') s = (if fst s \<in> pl_id ` set changed then map_of (st_files staged) s else live (ho_disk host) s)) \<and>
       ho_libs host' = replace_running (map pl_id changed) (st_libs staged) (ho_libs host) \<and>
       ho_apps host' = replace_running (map pl_id changed) (st_apps staged) (ho_apps host))"
proof -
  let ?d0 = "stage_disk (st_files staged) (ho_disk host)"
  obtain r d where c: "commit_packages_files (ie_journal_bytes env) (ie_fault env) False (map pl_id changed) reg ?d0 = (r, d)"
    by fastforce
  have clean: "dk_marker ?d0 = None" "sl_backup (dk_slots ?d0 s) = None" for s
    using assms(4) unfolding clean_disk_def by (simp_all del: split_paired_All)
  note out = commit_outcome [OF assms(3) clean(2,1) c]
  then have tidy: "settled (ie_fault env) \<longrightarrow> clean_disk d" by (auto simp: clean_disk_def tidy_def)
  show ?thesis
  proof (cases r)
    case (Inl e)
    with c assms(1) have "res = Inl e" "host' = host\<lparr>ho_disk := d\<rparr>" by (auto simp: commit_installation_def Let_def)
    with Inl out tidy show ?thesis by (simp add: kept_def)
  next
    case (Inr u)
    with c assms(1) have "res = Inr ()" "host' = host\<lparr>ho_disk := d,
        ho_libs := replace_running (map pl_id changed) (st_libs staged) (ho_libs host),
        ho_apps := replace_running (map pl_id changed) (st_apps staged) (ho_apps host)\<rparr>"
      by (auto simp: commit_installation_def Let_def)
    with Inr out tidy show ?thesis by (simp add: txn_slots_def mem_Times_iff)
  qed
qed

lemma commit_switches:
  assumes "commit_installation env changed reg staged (host\<lparr>ho_crls := crls\<rparr>) = (res, host')"
    and "fold_r (stage_package env) changed \<lparr>st_files = [], st_libs = [], st_apps = []\<rparr> = Inr staged"
    and "register_packages (ie_render env) (ie_now env) (map (planned_change (ie_tools env)) changed) (dk_registry (ho_disk host)) = Inr reg"
    and "distinct (map pl_id changed)" and "\<forall>c \<in> set changed. prepared env packages c"
    and "changed \<noteq> []" and "pl_id (last changed) = fst (last packages)" and "clean_disk (ho_disk host)"
  shows "ho_proxies host' = ho_proxies host \<and> ho_closed host' = ho_closed host \<and>
    (settled (ie_fault env) \<longrightarrow> clean_disk (ho_disk host')) \<and>
    (case res of Inl _ \<Rightarrow> kept (cf_undo (ie_fault env) = None) host host' | Inr _ \<Rightarrow> \<exists>changed. switched env packages host changed host')"
proof -
  have "staged_ok [] \<lparr>st_files = [], st_libs = [], st_apps = []\<rparr>" by (simp add: staged_ok_def staged_all_def)
  from stage_packages_ok [OF assms(2) this assms(4)] have ok: "staged_ok (all_kinds changed) staged" by simp
  note out = commit_installation_outcome [OF assms(1) ok assms(4)]
  note files = staged_files [OF ok assms(4)]
  note run = staged_lookup [OF ok]
  have lookup: "map_option (Component \<circ> ll_wasm) (replace_running (map pl_id changed) (st_libs staged) libs (pl_id c)) = map_of (st_files staged) (pl_id c, Lib)"
    "map_option snd (replace_running (map pl_id changed) (st_apps staged) apps (pl_id c)) = map_of (st_files staged) (pl_id c, App)"
    if "c \<in> set changed" for c libs apps
    using that run by (auto simp: replace_running_def map_of_rev simp flip: run(1,2) split: option.splits)
  have other: "replace_running (map pl_id changed) (st_libs staged) libs pid = libs pid"
    "replace_running (map pl_id changed) (st_apps staged) apps pid = apps pid"
    if "pid \<notin> pl_id ` set changed" for pid libs apps
    using files(2) [OF that, of Lib] files(2) [OF that, of App] that run(3,4)
    by (auto simp: replace_running_def map_of_rev simp flip: run(1,2))
  have libs: "loads (ie_tools env) (pl_id c) lib"
    if "c \<in> set changed" "replace_running (map pl_id changed) (st_libs staged) libs (pl_id c) = Some lib" for c libs lib
  proof -
    have "list_all (\<lambda>(pid, lib). loads (ie_tools env) pid lib) (st_libs staged)"
      by (rule stage_packages_loads [OF assms(2)]) simp
    moreover from that run(3) have "map_of (st_libs staged) (pl_id c) = Some lib"
      by (auto simp: replace_running_def map_of_rev split: option.splits if_splits)
    ultimately show ?thesis by (auto simp: list_all_iff dest: map_of_SomeD)
  qed
  have apps: "fst app = pm_version (pl_meta c) \<and> (\<exists>files. snd app = Tree files)"
    if "c \<in> set changed" "replace_running (map pl_id changed) (st_apps staged) apps (pl_id c) = Some app" for c apps app
  proof -
    from that run(4) have lookup_app: "map_of (st_apps staged) (pl_id c) = Some app"
      by (auto simp: replace_running_def map_of_rev split: option.splits if_splits)
    from lookup_app ok obtain c' where c': "c' \<in> set changed" "pl_id c' = pl_id c" "pm_version (pl_meta c') = fst app"
      by (cases app) (fastforce simp: staged_ok_def list_all_iff staged_version_def all_kinds_set dest: map_of_SomeD)
    with that(1) assms(4) have "c' = c" by (auto simp: distinct_map dest: inj_onD)
    moreover have "\<exists>files. snd app = Tree files"
    proof -
      have "map_of (st_files staged) (pl_id c, App) = Some (snd app)" using run(2) [of "pl_id c"] lookup_app by simp
      then have "((pl_id c, App), snd app) \<in> set (st_files staged)" by (rule map_of_SomeD)
      with ok have "staged_from (all_kinds changed) ((pl_id c, App), snd app)"
        unfolding staged_ok_def list_all_iff by blast
      then obtain x :: planned where "write_expanded (pl_files x) App = Inr (snd app)" by (auto simp: staged_from_def)
      then show ?thesis by (rule write_expanded_kind(2))
    qed
    ultimately show ?thesis using c'(3) by simp
  qed
  show ?thesis
  proof (cases res)
    case (Inl e)
    with out assms(8) show ?thesis by (simp add: kept_def)
  next
    case (Inr u)
    with out assms(8) have "switched env packages host changed host'"
      unfolding switched_def using assms(3-7) lookup other files libs apps
      by (simp add: planned_content_def)
    with Inr out assms(8) show ?thesis by auto
  qed
qed

lemma install_opened_cases:
  assumes "install_opened env packages host = (res, host')" and "clean_disk (ho_disk host)" and "packages \<noteq> []"
  shows "ho_proxies host' = ho_proxies host \<and> ho_closed host' = ho_closed host \<and>
    (settled (ie_fault env) \<longrightarrow> clean_disk (ho_disk host')) \<and>
    (case res of Inl _ \<Rightarrow> kept (cf_undo (ie_fault env) = None) host host' | Inr _ \<Rightarrow> \<exists>changed. switched env packages host changed host')"
proof -
  have refused: ?thesis if "res = Inl e" "host' = host\<lparr>ho_crls := crls\<rparr>" for e crls
    using that assms(2) by (simp add: kept_def)
  have same: ?thesis if "res = Inl e" "host' = host" for e
    using that assms(2) by (simp add: kept_def)
  show ?thesis
  proof (cases "ie_began env")
    case (Inl e)
    with assms(1) show ?thesis by (intro same [of e]) (simp_all add: install_opened_def)
  next
    case begun: (Inr v)
    obtain prep crls where p: "prepare_loop env host packages [] (ho_crls host) = (prep, crls)" by fastforce
    note inst = assms(1) [unfolded install_opened_def begun p]
    show ?thesis
    proof (cases prep)
      case (Inl e)
      with inst show ?thesis by (intro refused [of e crls]) simp_all
    next
      case (Inr changed)
      note prepared = prepare_loop_ok [OF p [unfolded Inr]]
      let ?st = "\<lparr>st_files = [], st_libs = [], st_apps = []\<rparr>"
      let ?plan = "try_r (register_packages (ie_render env) (ie_now env) (map (planned_change (ie_tools env)) changed)
          (dk_registry (ho_disk host))) (\<lambda>reg. try_r (fold_r (stage_package env) changed ?st) (\<lambda>staged. Inr (reg, staged)))"
      show ?thesis
      proof (cases ?plan)
        case (Inl e)
        with inst Inr show ?thesis by (intro refused [of e crls]) simp_all
      next
        case plan: (Inr x)
        obtain reg staged where x: "x = (reg, staged)" by (cases x)
        from plan have
          reg: "register_packages (ie_render env) (ie_now env) (map (planned_change (ie_tools env)) changed) (dk_registry (ho_disk host)) = Inr reg" and
          staged: "fold_r (stage_package env) changed ?st = Inr staged"
          by (auto simp: try_r_Inr_iff x)
        obtain again crls' where r: "recheck_loop env packages crls = (again, crls')" by fastforce
        show ?thesis
        proof (cases again)
          case (Inl e)
          with inst Inr plan x r show ?thesis by (intro refused [of e crls']) simp_all
        next
          case again: (Inr u)
          let ?host = "host\<lparr>ho_crls := crls'\<rparr>"
          have c: "commit_installation env changed reg staged ?host = (res, host')"
            using inst Inr plan x r again by simp
          have "distinct (map pl_id changed)" using prepared by (simp add: distinct_map inj_on_def)
          then show ?thesis
            by (rule commit_switches [OF c staged reg]) (use prepared assms(2,3) in simp_all)
        qed
      qed
    qed
  qed
qed

text \<open>Opening the database leaves everything but the paths of operations.\<close>

lemma open_installation_cases:
  "snd (open_installation env host) = host \<or> (\<exists>reg. migrate_registration (dk_registry (ho_disk host)) = Inr reg \<and>
     snd (open_installation env host) = host\<lparr>ho_disk := (ho_disk host)\<lparr>dk_registry := reg\<rparr>\<rparr>)"
  by (auto simp: open_installation_def try_r_Inr_iff split: sum.splits)

lemma open_installation_opened:
  "clean_disk (ho_disk (snd (open_installation env host))) = clean_disk (ho_disk host)"
  "live (ho_disk (snd (open_installation env host))) s = live (ho_disk host) s"
  "ho_proxies (snd (open_installation env host)) = ho_proxies host" "ho_closed (snd (open_installation env host)) = ho_closed host"
  "ho_crls (snd (open_installation env host)) = ho_crls host"
  "ho_libs (snd (open_installation env host)) = ho_libs host" "ho_apps (snd (open_installation env host)) = ho_apps host"
  "rg_packages (dk_registry (ho_disk (snd (open_installation env host)))) = rg_packages (dk_registry (ho_disk host))"
  "registry_ok (dk_registry (ho_disk host)) \<Longrightarrow> registry_ok (dk_registry (ho_disk (snd (open_installation env host))))"
proof -
  consider "snd (open_installation env host) = host" | reg where "migrate_registration (dk_registry (ho_disk host)) = Inr reg"
      "snd (open_installation env host) = host\<lparr>ho_disk := (ho_disk host)\<lparr>dk_registry := reg\<rparr>\<rparr>"
    using open_installation_cases by blast
  note cs = this
  show "clean_disk (ho_disk (snd (open_installation env host))) = clean_disk (ho_disk host)"
    "live (ho_disk (snd (open_installation env host))) s = live (ho_disk host) s"
    "ho_proxies (snd (open_installation env host)) = ho_proxies host" "ho_closed (snd (open_installation env host)) = ho_closed host"
    "ho_crls (snd (open_installation env host)) = ho_crls host"
    "ho_libs (snd (open_installation env host)) = ho_libs host" "ho_apps (snd (open_installation env host)) = ho_apps host"
    by (rule cs; simp add: clean_disk_def)+
  show "rg_packages (dk_registry (ho_disk (snd (open_installation env host)))) = rg_packages (dk_registry (ho_disk host))"
    by (rule cs) (simp_all add: migrate_registration_fields(1))
  show "registry_ok (dk_registry (ho_disk host)) \<Longrightarrow> registry_ok (dk_registry (ho_disk (snd (open_installation env host))))"
    by (rule cs) (simp_all add: migrate_registration_ok)
qed

lemma open_installation_current:
  assumes "current_operations (dk_registry (ho_disk host))"
  shows "snd (open_installation env host) = host"
  using migrate_registration_current [OF _ assms]
  by (auto simp: open_installation_def try_r_Inr_iff split: sum.splits)

lemma install_packages_cases:
  assumes "install_packages env packages host = (res, host')" and "clean_disk (ho_disk host)"
  shows "ho_proxies host' = ho_proxies host \<and> ho_closed host' = ho_closed host \<and>
    (settled (ie_fault env) \<longrightarrow> clean_disk (ho_disk host')) \<and>
    (case res of
       Inl _ \<Rightarrow> kept (cf_undo (ie_fault env) = None) host host' \<or> kept (cf_undo (ie_fault env) = None) (snd (open_installation env host)) host'
     | Inr _ \<Rightarrow> \<exists>changed. switched env packages (snd (open_installation env host)) changed host')"
proof (cases "packages = [] \<or> length packages > 100 \<or> ho_closed host")
  case True
  with assms(1) obtain e where "res = Inl e" "host' = host" by (auto simp: install_packages_def split: if_splits)
  with assms(2) show ?thesis by (simp add: kept_def)
next
  case False
  let ?h = "snd (open_installation env host)"
  obtain r where o: "open_installation env host = (r, ?h)" by (metis prod.collapse)
  show ?thesis
  proof (cases r)
    case (Inl e)
    with assms(1) False o have "res = Inl e" "host' = ?h" by (auto simp: install_packages_def split: prod.splits)
    with assms(2) show ?thesis by (simp add: kept_def open_installation_opened)
  next
    case (Inr u)
    with assms(1) False o have i: "install_opened env packages ?h = (res, host')"
      by (auto simp: install_packages_def split: prod.splits)
    have "clean_disk (ho_disk ?h)" using assms(2) by (simp add: open_installation_opened)
    from install_opened_cases [OF i this] False show ?thesis
      by (cases res) (simp_all add: open_installation_opened)
  qed
qed

section \<open>Registry, files and sandbox agree\<close>

definition running_ok :: "host \<Rightarrow> bool" where
  "running_ok host =
     (registry_ok (dk_registry (ho_disk host)) \<and> clean_disk (ho_disk host) \<and>
      (\<forall>s. (live (ho_disk host) s \<noteq> None) = registered_kind (dk_registry (ho_disk host)) s) \<and>
      (\<forall>pid. map_option (Component \<circ> ll_wasm) (ho_libs host pid) = live (ho_disk host) (pid, Lib) \<and>
             map_option snd (ho_apps host pid) = live (ho_disk host) (pid, App)))"

lemma planned_lookup:
  assumes "distinct (map pl_id changed)"
  shows "map_of (map (planned_change tk) changed) pid =
    (case find (\<lambda>c. pl_id c = pid) changed of None \<Rightarrow> None | Some c \<Rightarrow> Some (pl_meta c, planned_document tk (pl_files c)))"
  by (induction changed) (auto simp: planned_change_def)

lemma prepared_registrable: "prepared env packages c \<Longrightarrow> registrable (normalize_name (ie_pki env)) (pl_id c)"
  by (auto simp: prepared_def registrable_def)

lemma switched_running:
  assumes "switched env packages host changed host'" and "distinct (map pl_id changed)" and "running_ok host"
    and "clean_disk (ho_disk host')"
  shows "running_ok host'"
proof -
  note sw = assms(1) [unfolded switched_def] and old = assms(3) [unfolded running_ok_def]
  let ?changes = "map (planned_change (ie_tools env)) changed"
  have d: "distinct (map fst ?changes)" using assms(2) by (simp add: planned_change_def comp_def)
  have v: "\<forall>c \<in> set ?changes. registrable (normalize_name (ie_pki env)) (fst c)"
    using sw by (auto simp: planned_change_def dest: prepared_registrable)
  from sw have reg: "register_packages (ie_render env) (ie_now env) ?changes (dk_registry (ho_disk host)) = Inr (dk_registry (ho_disk host'))"
    by blast
  from old have ok: "registry_ok (dk_registry (ho_disk host))" by blast
  note kinds = register_packages_kinds [OF reg ok d v]
  have files: "(live (ho_disk host') (pid, k) \<noteq> None) = registered_kind (dk_registry (ho_disk host')) (pid, k)" for pid k
  proof (cases "find (\<lambda>c. pl_id c = pid) changed")
    case None
    then have "pid \<notin> pl_id ` set changed" by (auto simp: find_None_iff)
    with None sw old show ?thesis by (simp add: kinds planned_lookup [OF assms(2)])
  next
    case (Some c)
    then have c: "c \<in> set changed" "pl_id c = pid" by (auto simp: find_Some_iff)
    then have "live (ho_disk host') (pid, k) = planned_content c k" using sw by blast
    with Some show ?thesis by (simp add: kinds planned_lookup [OF assms(2)] planned_content_def)
  qed
  have run: "map_option (Component \<circ> ll_wasm) (ho_libs host' pid) = live (ho_disk host') (pid, Lib) \<and>
      map_option snd (ho_apps host' pid) = live (ho_disk host') (pid, App)" for pid
  proof (cases "pid \<in> pl_id ` set changed")
    case True
    with sw show ?thesis by blast
  next
    case False
    with sw old show ?thesis by simp
  qed
  show ?thesis
    unfolding running_ok_def using register_packages_ok [OF reg ok] assms(4) files run by auto
qed

lemma opened_running: "running_ok host \<Longrightarrow> running_ok (snd (open_installation env host))"
  using registered_kind_cong [OF open_installation_opened(8) [of env host]]
  by (simp add: running_ok_def open_installation_opened del: split_paired_All)

lemma same_running: "same_installation h host' \<Longrightarrow> running_ok h \<Longrightarrow> clean_disk (ho_disk host') \<Longrightarrow> running_ok host'"
  by (auto simp: same_installation_def running_ok_def)

text \<open>An environment in which no file transaction is left to the next start.\<close>

abbreviation settles :: "install_env \<Rightarrow> bool" where
  "settles env \<equiv> settled (ie_fault env)"

lemma settled_undone: "settled f \<Longrightarrow> cf_undo f = None"
  by (simp add: settled_def)

interpretation installs: guarded_machine "\<lambda>(env, packages) host. snd (install_packages env packages host)" running_ok
    "\<lambda>(env, packages). settles env"
proof
  fix host :: host and req :: "install_env \<times> resource list"
  assume s: "case req of (env, packages) \<Rightarrow> settles env" and ok: "running_ok host"
  obtain env packages where req: "req = (env, packages)" by (cases req)
  obtain res host' where i: "install_packages env packages host = (res, host')" by fastforce
  have "clean_disk (ho_disk host)" using ok by (simp add: running_ok_def)
  note out = install_packages_cases [OF i this]
  note after = opened_running [OF ok, of env]
  have u: "cf_undo (ie_fault env) = None" and c: "clean_disk (ho_disk host')"
    using s out settled_undone by (auto simp: req)
  have same: "running_ok host'" if "same_installation h host'" "running_ok h" for h
    by (rule same_running [OF that c])
  have "running_ok host'"
  proof (cases res)
    case (Inl e)
    with out u same ok after show ?thesis by auto
  next
    case (Inr v)
    with out obtain changed where sw: "switched env packages (snd (open_installation env host)) changed host'" by auto
    then have "distinct (map pl_id changed)" by (simp add: switched_def)
    with switched_running [OF sw _ after c] show ?thesis by blast
  qed
  then show "running_ok ((\<lambda>(env, packages) host. snd (install_packages env packages host)) req host)"
    by (simp add: req i)
qed

section \<open>Properties\<close>

text \<open>
  Property C14: an installation is all or nothing. When it fails, wherever it fails, the registry and
  the running Libs and Apps are what they were, and so are the files, unless the rollback of the file
  transaction fails with it, which the next start makes good (C21). When it succeeds, the registry is
  what registering the changed packages gives, the files of each are those of its verified archive
  and no others, the sandbox runs exactly these files, and nothing else has changed. The requested
  package, which stands last, is always among the changed ones. The preparation of the database, which
  commits before the installation begins, is the only other change: it moves operations that earlier
  releases mounted below \<^verbatim>\<open>/std\<close>, and changes nothing where there are none.
\<close>

theorem install_all_or_nothing:
  assumes "install_packages env packages host = (res, host')" and "clean_disk (ho_disk host)"
    and "opened = snd (open_installation env host)"
  shows "(case res of
      Inl _ \<Rightarrow> kept (cf_undo (ie_fault env) = None) host host' \<or> kept (cf_undo (ie_fault env) = None) opened host'
    | Inr _ \<Rightarrow> \<exists>changed. switched env packages opened changed host') \<and>
    (settled (ie_fault env) \<longrightarrow> clean_disk (ho_disk host')) \<and>
    (opened = host \<or> (\<exists>reg. migrate_registration (dk_registry (ho_disk host)) = Inr reg \<and>
       opened = host\<lparr>ho_disk := (ho_disk host)\<lparr>dk_registry := reg\<rparr>\<rparr>)) \<and>
    (current_operations (dk_registry (ho_disk host)) \<longrightarrow> opened = host)"
  using install_packages_cases [OF assms(1,2)] open_installation_current [of host env] open_installation_cases [of env host]
  unfolding assms(3) by blast

text \<open>
  Registry, files and sandbox agree, whatever is installed with whatever outcome. A
  resource is on the disk exactly when the registry has it, and what runs is exactly what is on the
  disk.
\<close>

lemma installations_stay_consistent:
  assumes "running_ok host" and "\<forall>(env, packages) \<in> set requests. settles env"
  shows "running_ok (fold (\<lambda>(env, packages) host. snd (install_packages env packages host)) requests host)"
  using assms by (intro installs.run_inv) (auto simp: list_all_iff)

section \<open>An installation of the example package\<close>

definition example_install_env :: install_env where
  "example_install_env = \<lparr>ie_tools = example_tools, ie_render = (\<lambda>_. []), ie_now = 10, ie_later = 11, ie_stage = (\<lambda>_. Inr ()),
     ie_compile = (\<lambda>_ _. Inr ()), ie_journal_bytes = (\<lambda>_. 0),
     ie_opened = Inr (), ie_owned = Inr (), ie_began = Inr (), ie_fault = no_faults\<rparr>"

definition example_host :: host where
  "example_host = \<lparr>ho_disk = \<lparr>dk_slots = (\<lambda>_. \<lparr>sl_live = None, sl_backup = None, sl_candidate = None\<rparr>), dk_marker = None,
     dk_stage = False, dk_registry = empty_registry\<rparr>, ho_proxies = [], ho_crls = (\<lambda>_. None), ho_libs = (\<lambda>_. None),
     ho_apps = (\<lambda>_. None), ho_closed = False\<rparr>"

definition example_signer :: signer_facts where
  "example_signer = \<lparr>sf_leaf_fingerprint = hex_text example_digest, sf_issuer_id = hex_text example_digest, sf_serial = ''4C'',
     sf_ski = ''k'', sf_sequence = 1, sf_owner_hash = ''o'', sf_not_before = 0, sf_not_after = 100\<rparr>"

definition example_pm :: package_meta where
  "example_pm = package_meta_of example_metadata example_signer example_release"

lemma example_pm_simps [simp]:
  "pm_publisher example_pm = ''a.b''" "pm_name example_pm = ''x''" "pm_version example_pm = ''1.0.0''" "pm_has_lib example_pm = False"
  "pm_has_app example_pm = True" "pm_owner_hash example_pm = Some ''o''" "pm_dependencies example_pm = []"
  "has_kind example_pm Lib = False" "has_kind example_pm App = True"
  by (simp_all add: example_pm_def package_meta_of_def example_metadata_def example_signer_def document_requests_def has_kind_def)

definition example_plan :: planned where
  "example_plan = \<lparr>pl_id = ''a.b/x'', pl_files = example_files, pl_meta = example_pm\<rparr>"

lemma example_names: "short_name ''a.b/x'' = ''x''" "id_author ''a.b/x'' = Some ''a.b''" "split_once (CHR ''/'') ''a.b/x'' = Some (''a.b'', ''x'')"
  by (simp_all add: short_name_def id_author_def str_eval)

lemma example_host_simps [simp]:
  "dk_registry (ho_disk example_host) = empty_registry" "ho_proxies example_host = []" "ho_closed example_host = False"
  "ho_crls example_host = (\<lambda>_. None)"
  by (simp_all add: example_host_def)

lemma example_install_env_simps [simp]:
  "ie_tools example_install_env = example_tools" "ie_now example_install_env = 10" "ie_later example_install_env = 11" "ie_stage example_install_env s = Inr ()"
  "ie_opened example_install_env = Inr ()" "ie_owned example_install_env = Inr ()" "ie_began example_install_env = Inr ()"
  "ie_fault example_install_env = no_faults" "ie_journal_bytes example_install_env es = 0" "ie_render example_install_env = (\<lambda>_. [])"
  by (simp_all add: example_install_env_def)

lemma example_admit: "admit_package example_install_env [] example_resource = Inr (example_files, example_signer)"
proof -
  have "jidx example_release ''version'' = JStr ''1.0.0''" by (simp add: example_release_def)
  then show ?thesis
    by (simp add: admit_package_def example_resource_def example_id example_verified example_time example_reads
        example_facts example_signer_def example_names Let_def)
qed

lemma example_revocation: "revocation_step example_trust (\<lambda>_. None) example_files JNull now = (Inr (), \<lambda>_. None)"
  by (simp add: revocation_step_def example_certificates check_revocations_def transpose_r_def fun_upd_def)

lemma example_routes: "check_routes example_tools [] (ho_disk example_host) ''a.b/x'' App example_files = Inr ()"
  by (simp add: check_routes_def package_routes_def registered_packages_def empty_registry_def kind_name_def Let_def)

lemma example_planned: "plan_package example_install_env example_host True example_resource example_files example_signer = Inr (Some example_plan)"
proof -
  have "registered_metadata empty_registry ''a.b/x'' = Inl RouteNotFound" "check_name empty_registry ''a.b/x'' ''pkg'' = Inr ()"
    by (simp_all add: registered_metadata_def check_name_def empty_registry_def)
  then show ?thesis
    by (simp add: plan_package_def example_resource_def example_metadata flip: example_pm_def)
      (simp add: check_resource_identity_def example_names check_current_def reused_def example_routes example_plan_def)
qed

lemma example_prepared:
  "prepare_loop example_install_env example_host [example_resource] [] (\<lambda>_. None) = (Inr [example_plan], \<lambda>_. None)"
proof -
  have "jidx (snd (snd example_resource)) ''revocation_list'' = JNull" by (simp add: example_resource_def example_release_def)
  then show ?thesis by (simp add: example_admit example_revocation example_planned)
qed

lemma example_registered:
  "\<exists>reg. register_packages (\<lambda>_. []) 10 [planned_change example_tools example_plan] empty_registry = Inr reg"
  by (simp add: planned_change_def example_plan_def registry_eval example_names Let_def)

lemma example_staged:
  "fold_r (stage_package example_install_env) [example_plan] \<lparr>st_files = [], st_libs = [], st_apps = []\<rparr> =
     Inr \<lparr>st_files = [((''a.b/x'', App), Tree [(''index.html'', ''h'')])], st_libs = [],
          st_apps = [(''a.b/x'', ''1.0.0'', Tree [(''index.html'', ''h'')])]\<rparr>"
proof -
  have "write_expanded example_files App = Inr (Tree [(''index.html'', ''h'')])"
    by (simp add: write_expanded_def write_file_def example_files_def split_first_def)
  then show ?thesis by (simp add: stage_package_def stage_kind_def example_plan_def Let_def)
qed

lemma example_recheck: "recheck_loop example_install_env [example_resource] (\<lambda>_. None) = (Inr (), \<lambda>_. None)"
proof -
  have "jidx example_release ''revocation_list'' = JNull" by (simp add: example_release_def)
  then show ?thesis by (simp add: example_resource_def example_time example_reads example_revocation)
qed

lemma example_opened: "open_installation example_install_env example_host = (Inr (), example_host)"
proof -
  have "migrate_registration empty_registry = Inr empty_registry" by (simp add: migrate_registration_def empty_registry_def)
  then show ?thesis by (simp add: open_installation_def)
qed

lemma example_commit:
  "\<exists>d. commit_packages_files (\<lambda>_. 0) no_faults single pids reg d0 = (Inr (), d)"
  by (simp add: commit_packages_files_def unprepared_def no_faults_def Let_def)

lemma example_install: "\<exists>host'. install_packages example_install_env [example_resource] example_host = (Inr (), host')"
proof -
  obtain reg where reg: "register_packages (\<lambda>_. []) 10 [planned_change example_tools example_plan] empty_registry = Inr reg"
    using example_registered by blast
  have "\<exists>host'. commit_installation example_install_env changed reg staged host = (Inr (), host')" for changed staged host
    by (auto simp: commit_installation_def Let_def commit_packages_files_def unprepared_def no_faults_def)
  with reg show ?thesis
    by (simp add: install_packages_def install_opened_def example_opened example_prepared example_staged example_recheck
        del: fold_r.simps prepare_loop.simps recheck_loop.simps)
qed

lemma example_running: "running_ok example_host"
  by (simp add: running_ok_def clean_disk_def registered_kind_def empty_registry_ok)
    (simp add: example_host_def empty_registry_def)

theorem install_all_or_nothing_witness:
  "\<exists>host' changed. install_packages example_install_env [example_resource] example_host = (Inr (), host') \<and>
     switched example_install_env [example_resource] example_host changed host'"
proof -
  obtain host' where i: "install_packages example_install_env [example_resource] example_host = (Inr (), host')"
    using example_install by blast
  have "clean_disk (ho_disk example_host)" using example_running by (simp add: running_ok_def)
  from install_all_or_nothing [OF i this refl] i show ?thesis by (auto simp: example_opened)
qed

lemma installations_stay_consistent_witness:
  "running_ok (snd (install_packages example_install_env [example_resource] example_host))"
  using installations_stay_consistent [OF example_running, of "[(example_install_env, [example_resource])]"]
  by (simp add: settled_def no_faults_def)

end
