(* ===== verification/Serving.thy ===== *)
theory Serving
  imports Sandbox_Laws Installer_Laws
begin

text \<open>
  From a request to what serves it: the static files of an identity (\<^verbatim>\<open>static_file\<close> of
  \<^verbatim>\<open>src/routes.rs\<close>), installed Libs and Apps (\<^verbatim>\<open>api_router\<close> and \<^verbatim>\<open>app_response\<close> of
  \<^verbatim>\<open>src/sandbox.rs\<close>, \<^verbatim>\<open>app_file\<close> of \<^verbatim>\<open>src/package/files.rs\<close>), the local projects of the owner
  (\<^verbatim>\<open>src/development.rs\<close>) and the composition of all routes (\<^verbatim>\<open>src/server.rs\<close>).

  A directory is a tree of files, directories and links, opened the way the program does it: one
  component at a time, without following links. A hash map is the list of its entries in the order of
  an iteration, which may be any.
\<close>

section \<open>Directories\<close>

record metadata =
  md_dev :: nat
  md_ino :: nat
  md_uid :: nat
  md_mode :: nat
  md_len :: nat
  md_mtime :: "int \<times> int"
  md_ctime :: "int \<times> int"

datatype node =
    NFile metadata string
  | NDir metadata "(string \<times> node) list"
  | NLink metadata
  | NSpecial metadata

primrec node_meta :: "node \<Rightarrow> metadata" where
  "node_meta (NFile m _) = m"
| "node_meta (NDir m _) = m"
| "node_meta (NLink m) = m"
| "node_meta (NSpecial m) = m"

definition entry :: "node \<Rightarrow> string \<Rightarrow> node option" where
  "entry d name = (case d of NDir _ es \<Rightarrow> map_of es name | _ \<Rightarrow> None)"

text \<open>\<^verbatim>\<open>openat\<close> with \<^verbatim>\<open>NOFOLLOW\<close> for one component, and with \<^verbatim>\<open>DIRECTORY\<close> in \<^verbatim>\<open>child_dir\<close>.\<close>

definition open_at :: "node \<Rightarrow> string \<Rightarrow> node res" where
  "open_at d name = (case entry d name of
     None \<Rightarrow> Inl missing_resource
   | Some (NLink _) \<Rightarrow> Inl layout_error
   | Some n \<Rightarrow> Inr n)"

definition child_dir :: "node \<Rightarrow> string \<Rightarrow> node res" where
  "child_dir d name = try_r (open_at d name) (\<lambda>n. case n of NDir _ _ \<Rightarrow> Inr n | _ \<Rightarrow> Inl layout_error)"

fun expanded_parts :: "node \<Rightarrow> string list \<Rightarrow> node res" where
  "expanded_parts d [] = Inl expanded_error"
| "expanded_parts d (p # ps) =
     (if p = [] \<or> p = ''.'' \<or> p = ''..'' \<or> CHR 0x5C \<in> set p then Inl expanded_error
      else if ps \<noteq> [] then try_r (child_dir d p) (\<lambda>d'. expanded_parts d' ps)
      else try_r (open_at d p) (\<lambda>n. case n of NFile _ _ \<Rightarrow> Inr n | _ \<Rightarrow> Inl expanded_error))"

definition expanded_file :: "node \<Rightarrow> string \<Rightarrow> node res" where
  "expanded_file d path = expanded_parts d (split_on (CHR ''/'') path)"

definition hidden_part :: "string \<Rightarrow> bool" where
  "hidden_part p = (p = [] \<or> p \<in> {''.'', ''..'', ''.transaction.json'', ''.previous''} \<or> contains_char [CHR 0x5C, CHR 0x00] p)"

fun app_parts :: "nat \<Rightarrow> node \<Rightarrow> string list \<Rightarrow> node res" where
  "app_parts device d [] = Inl RouteNotFound"
| "app_parts device d (p # ps) =
     (if hidden_part p then Inl RouteNotFound
      else if ps \<noteq> [] then
        try_r (map_err (\<lambda>_. RouteNotFound) (child_dir d p)) (\<lambda>d'.
        try_r (ensure_r (md_dev (node_meta d') = device) RouteNotFound) (\<lambda>_. app_parts device d' ps))
      else
        try_r (map_err (\<lambda>_. RouteNotFound) (expanded_file d p)) (\<lambda>f.
        try_r (ensure_r (md_dev (node_meta f) = device) RouteNotFound) (\<lambda>_. Inr f)))"

definition app_file :: "node \<Rightarrow> string \<Rightarrow> node res" where
  "app_file root path = app_parts (md_dev (node_meta root)) root (split_on (CHR ''/'') path)"

section \<open>The state and the environment\<close>

record 'l sandbox =
  sb_libs :: "(string \<times> 'l) list"
  sb_apps :: "(string \<times> string \<times> node) list"
  sb_dev :: "(string \<times> metadata \<times> 'l) list"
  sb_closed :: bool

record ('l, 'v) world =
  wo_sandbox :: "'l sandbox"
  wo_rest :: 'v

record 'l serve_env =
  se_gate :: gate_env
  se_keys :: key_env
  se_endpoint :: endpoint
  se_component :: "'l \<Rightarrow> web_request \<Rightarrow> guest"
  se_rebuild :: "web_request \<Rightarrow> string \<times> string option \<Rightarrow> bool"
  se_decode :: "string \<Rightarrow> string option"
  se_mime :: "string \<Rightarrow> string"

section \<open>Static files\<close>

text \<open>A directory as \<^verbatim>\<open>cap_std\<close> opens it: which paths are directories, and what opening a path gives.\<close>

record cap_dir =
  cp_is_dir :: "string \<Rightarrow> bool"
  cp_open :: "string \<Rightarrow> (bool \<times> string) option"

definition path_push :: "string \<Rightarrow> string \<Rightarrow> string" where
  "path_push p f = (if p = [] \<or> last p = CHR ''/'' then p @ f else p @ ''/'' @ f)"

definition static_file :: "'l serve_env \<Rightarrow> cap_dir option \<Rightarrow> web_request \<Rightarrow> reply res" where
  "static_file env root r =
     try_r (ensure_r (\<not> (rq_meth r \<noteq> ''GET'' \<and> rq_meth r \<noteq> ''HEAD'')) MethodNotAllowed) (\<lambda>_.
     try_r (ok_or (strip_prefix ''/std/file/'' (rq_path r)) RouteNotFound) (\<lambda>path.
     try_r (ensure_r (path \<noteq> []) RouteNotFound) (\<lambda>_.
     try_r (ok_or (se_decode env path) (BadRequest ''invalid path encoding'')) (\<lambda>decoded.
     try_r (ensure_r (\<not> (contains_char [CHR 0x5C, CHR 0x00] decoded \<or>
              list_ex (\<lambda>p. p = ''..'' \<or> p = ''.'') (split_on (CHR ''/'') decoded))) RouteNotFound) (\<lambda>_.
     let path = trim_start_matches (CHR ''/'') decoded in
     try_r (ok_or root RouteNotFound) (\<lambda>dir.
     let path = (if path = [] \<or> cp_is_dir dir path then path_push path ''index.html'' else path) in
     try_r (ok_or (cp_open dir path) RouteNotFound) (\<lambda>(is_file, content).
     try_r (ensure_r is_file RouteNotFound) (\<lambda>_.
     Inr (\<lparr>rs_status = 200, rs_headers = [(''content-length'', nat_text (length content)), (''content-type'', se_mime env path)]\<rparr>,
          if rq_meth r = ''HEAD'' then BodyEmpty else BodyFile content)))))))))"

section \<open>Frontends\<close>

definition asset_request :: "string \<Rightarrow> web_request \<Rightarrow> bool" where
  "asset_request rest r =
     (starts_with ''/assets/'' rest \<or> starts_with ''/static/'' rest \<or> rest = ''/assets'' \<or> rest = ''/static'' \<or>
      contains_char [CHR ''.''] (rsplit_first (CHR ''/'') (trim_end_matches (CHR ''/'') rest)) \<or>
      is_some_and (\<lambda>v. v \<notin> {''document'', ''iframe'', ''empty''})
        (Option.bind (get_header ''sec-fetch-dest'' (rq_headers r)) header_to_str))"

text \<open>The file that is served: the named one or, for a page, the index.\<close>

definition app_target :: "node \<Rightarrow> string \<Rightarrow> web_request \<Rightarrow> (string \<times> node) res" where
  "app_target directory rest r =
     (let file = (if rest = ''/'' then ''index.html'' else trim_start_matches (CHR ''/'') rest) in
      case app_file directory file of
        Inr f \<Rightarrow> Inr (file, f)
      | Inl _ \<Rightarrow>
          if asset_request rest r then Inl RouteNotFound
          else try_r (app_file directory ''index.html'') (\<lambda>f. Inr (''index.html'', f)))"

definition app_headers :: "'l serve_env \<Rightarrow> string \<Rightarrow> nat \<Rightarrow> headers" where
  "app_headers env file len =
     [(''content-type'', se_mime env file), (''content-length'', nat_text len), (''cache-control'', ''no-store''),
      (''x-content-type-options'', ''nosniff''), (''referrer-policy'', ''no-referrer''),
      (''cross-origin-resource-policy'', ''same-origin''), (''x-frame-options'', ''DENY'')]"

definition node_content :: "node \<Rightarrow> string" where
  "node_content n = (case n of NFile _ content \<Rightarrow> content | _ \<Rightarrow> [])"

definition app_response :: "'l serve_env \<Rightarrow> node \<Rightarrow> string \<Rightarrow> web_request \<Rightarrow> reply res" where
  "app_response env directory rest r =
     (if \<not> (rq_meth r = ''GET'' \<or> rq_meth r = ''HEAD'')
      then Inr (\<lparr>rs_status = 405, rs_headers = [(''allow'', ''GET, HEAD'')]\<rparr>, BodyEmpty)
      else if rest = []
      then Inr (\<lparr>rs_status = 307, rs_headers = [(''location'', case rq_query r of
             Some query \<Rightarrow> rq_path r @ ''/?'' @ query | None \<Rightarrow> rq_path r @ ''/'')]\<rparr>, BodyEmpty)
      else
        try_r (ok_or (se_decode env rest) RouteNotFound) (\<lambda>rest.
        try_r (ensure_r (\<not> (contains_char [CHR 0x5C, CHR 0x00, CHR ''%''] rest \<or>
                 list_ex (\<lambda>p. p = ''.'' \<or> p = ''..'') (split_on (CHR ''/'') rest) \<or>
                 list_ex is_control (str_chars rest))) RouteNotFound) (\<lambda>_.
        try_r (app_target directory rest r) (\<lambda>(file, f).
        Inr (\<lparr>rs_status = 200, rs_headers = app_headers env file (length (node_content f))\<rparr>,
             if rq_meth r = ''HEAD'' then BodyEmpty else BodyFile (node_content f))))))"

section \<open>Installed Libs and Apps\<close>

definition lib_standard :: "string \<Rightarrow> bool" where
  "lib_standard pid = is_standard_author (split_first (CHR ''/'') pid)"

definition find_lib :: "(string \<times> 'l) list \<Rightarrow> bool \<Rightarrow> string \<Rightarrow> 'l option" where
  "find_lib libs standard name =
     map_option snd (find (\<lambda>(pid, _). lib_standard pid = standard \<and> short_name pid = name) libs)"

text \<open>The Lib that a path selects by its directory, and the path that its guest gets.\<close>

definition select_lib :: "(string \<times> 'l) list \<Rightarrow> string \<Rightarrow> ('l \<times> string) res" where
  "select_lib libs path =
     (let (standard, tail) = (case strip_prefix ''/std/'' path of
            Some tail \<Rightarrow> (True, tail)
          | None \<Rightarrow> (False, case strip_prefix ''/'' path of Some tail \<Rightarrow> tail | None \<Rightarrow> path));
          name = split_first (CHR ''/'') tail in
      try_r (ok_or (find_lib libs standard name) RouteNotFound) (\<lambda>lib.
      Inr (lib, if standard then ''/'' @ tail
                else (case drop (length name) tail of [] \<Rightarrow> ''/'' | rest \<Rightarrow> rest))))"

text \<open>The request with the path for the guest, which has to parse and to fit the URI.\<close>

definition guest_target :: "'l serve_env \<Rightarrow> error \<Rightarrow> error \<Rightarrow> string \<Rightarrow> web_request \<Rightarrow> web_request res" where
  "guest_target env bad_path bad_uri path r =
     try_r (ok_or (parse_path (ge_http (se_gate env))
              (case rq_query r of Some query \<Rightarrow> path @ ''?'' @ query | None \<Rightarrow> path)) bad_path) (\<lambda>pq.
     try_r (ensure_r (se_rebuild env r pq) bad_uri) (\<lambda>_.
     Inr (r\<lparr>rq_path := fst pq, rq_query := snd pq\<rparr>)))"

text \<open>One invocation of a Lib for a request, after the Lib was chosen.\<close>

definition invoke ::
  "'l serve_env \<Rightarrow> 'w granted \<Rightarrow> error \<Rightarrow> error \<Rightarrow> 'l \<Rightarrow> string \<Rightarrow> web_request \<Rightarrow> 'w \<Rightarrow> reply res \<times> 'w"
where
  "invoke env gd bad_path bad_uri lib path r w =
     (case try_r (ok_or (wq_handshake r) MissingHandshake) (\<lambda>hs.
           try_r (invocation_new (se_gate env) (se_endpoint env) hs (OutGranted gd)) (\<lambda>call.
           try_r (guest_target env bad_path bad_uri path r) (\<lambda>r'. Inr (call, r')))) of
        Inl e \<Rightarrow> (Inl e, w)
      | Inr (call, r') \<Rightarrow> execute (se_gate env) (se_keys env) (se_component env lib) call r' w)"

definition answer :: "reply res \<times> 'w \<Rightarrow> reply \<times> 'w" where
  "answer x = (case x of (Inl e, w) \<Rightarrow> (rejected e, w) | (Inr rp, w) \<Rightarrow> (rp, w))"

definition serve_lib :: "'l serve_env \<Rightarrow> ('l, 'v) world granted \<Rightarrow> ('l, 'v) world handler" where
  "serve_lib env gd r w = answer (case select_lib (sb_libs (wo_sandbox w)) (rq_path r) of
     Inl e \<Rightarrow> (Inl e, w)
   | Inr (lib, path) \<Rightarrow> invoke env gd (BadRequest ''invalid API path'') (BadRequest ''invalid request URI'') lib path r w)"

definition find_app :: "(string \<times> string \<times> node) list \<Rightarrow> string \<Rightarrow> node option" where
  "find_app apps name = map_option (snd \<circ> snd) (find (\<lambda>(pid, _). short_name pid = name) apps)"

definition serve_app :: "'l serve_env \<Rightarrow> ('l, 'v) world handler" where
  "serve_app env r w = answer
     (try_r (ok_or (strip_prefix ''/app/'' (rq_path r)) RouteNotFound) (\<lambda>tail.
      let name = split_first (CHR ''/'') tail in
      try_r (ok_or (find_app (sb_apps (wo_sandbox w)) name) RouteNotFound) (\<lambda>directory.
      app_response env directory (drop (length name) tail) r)), w)"

definition api_router :: "'l serve_env \<Rightarrow> ('l, 'v) world granted \<Rightarrow> ('l, 'v) world handler" where
  "api_router env gd r w =
     (if rq_path r = ''/std'' then (rejected RouteNotFound, w)
      else if starts_with ''/app/'' (rq_path r) then serve_app env r w
      else serve_lib env gd r w)"

section \<open>The routes of an identity\<close>

definition installed :: "'l sandbox \<Rightarrow> string \<Rightarrow> bool" where
  "installed sb path =
     (is_some_and (\<lambda>tail. list_ex (\<lambda>(pid, _). short_name pid = split_first (CHR ''/'') tail) (sb_apps sb))
        (strip_prefix ''/app/'' path) \<or>
      list_ex (\<lambda>(pid, _). \<not> lib_standard pid \<and> short_name pid = split_first (CHR ''/'') (trim_start_matches (CHR ''/'') path))
        (sb_libs sb))"

text \<open>
  The native resources claim their paths first (\<open>native\<close>), then the API under \<^verbatim>\<open>/std\<close>; any other path
  belongs to an installed package or to the location table.
\<close>

definition routes ::
  "'l serve_env \<Rightarrow> ('l, 'v) world granted \<Rightarrow> (string \<Rightarrow> ('l, 'v) world handler option) \<Rightarrow>
   (web_request \<Rightarrow> response) \<Rightarrow> ('l, 'v) world handler"
where
  "routes env gd native proxied r w = (case native (rq_path r) of
     Some h \<Rightarrow> h r w
   | None \<Rightarrow>
      if rq_path r = ''/std'' \<or> starts_with ''/std/'' (rq_path r) \<and> rq_path r \<noteq> ''/std/'' then api_router env gd r w
      else if installed (wo_sandbox w) (rq_path r) then api_router env gd r w
      else ((proxied r, BodyStream []), w))"

text \<open>What is left of a guest's request to its own identity when no native resource claims it.\<close>

definition native_mounted :: "'l sandbox \<Rightarrow> string \<Rightarrow> bool" where
  "native_mounted sb path = list_ex (\<lambda>(pid, _). \<not> lib_standard pid \<and>
     is_some_and (\<lambda>tail. tail = [] \<or> starts_with ''/'' tail) (strip_prefix (''/'' @ short_name pid) path)) (sb_libs sb)"

definition native_name :: "string \<Rightarrow> string" where
  "native_name path = split_first (CHR ''/'')
     (case strip_prefix ''/app/'' path of Some tail \<Rightarrow> tail | None \<Rightarrow> trim_start_matches (CHR ''/'') path)"

definition native_fallback ::
  "'l serve_env \<Rightarrow> (string \<Rightarrow> bool) \<Rightarrow> (dhttp_call \<Rightarrow> ('l, 'v) world \<Rightarrow> reply res \<times> ('l, 'v) world) \<Rightarrow>
   ('l, 'v) world handler option \<Rightarrow> ('l, 'v) world handler"
where
  "native_fallback env dev_exists send router r w =
     (let path = rq_path r;
          local = (is_ok (valid_id (normalize_name (ge_pki (se_gate env))) (native_name path)) \<and> dev_exists (native_name path)) in
      if \<not> local \<and> \<not> starts_with ''/std/'' path \<and> \<not> native_mounted (wo_sandbox w) path
      then ((plain_response 404, BodyEmpty), w)
      else if wq_handshake r = None \<and> wq_authority r \<noteq> None
      then forward_dhttp (se_gate env) (se_endpoint env) send
             (r\<lparr>rq_path := dhttp_prefix @ en_name (se_endpoint env) @ (if path = [] then ''/'' else path)\<rparr>) w
      else (case router of
          None \<Rightarrow> ((plain_response 503, BodyEmpty), w)
        | Some h \<Rightarrow> h r w))"

end
