(* ===== verification/Development.thy ===== *)
theory Development
  imports Serving
begin

text \<open>
  Development mode (\<^verbatim>\<open>src/development.rs\<close>): the projects that the owner keeps under \<^verbatim>\<open>dev/\<close> are served
  in place of installed packages, to the owner alone, straight from the files. A compiled Lib is kept
  with the metadata of its file and used again only while the file is the same.
\<close>

section \<open>The project directory\<close>

text \<open>
  What the file system gives: whether a name exists under \<^verbatim>\<open>dev/\<close>, the owner of the identity's
  directory, the opened \<^verbatim>\<open>dev/\<close>, the metadata of a file once more after it was read, the volume of
  the Libs' data (created if it was missing) and the compilation of a component.
\<close>

record 'l dev_env =
  dv_exists :: "string \<Rightarrow> bool res"
  dv_uid :: nat
  dv_root :: "node option"
  dv_second :: "metadata \<Rightarrow> metadata"
  dv_volume :: "metadata res"
  dv_load :: "string \<Rightarrow> string \<Rightarrow> 'l res"

text \<open>\<^verbatim>\<open>mode & 0o022 != 0\<close>.\<close>

definition others_write :: "metadata \<Rightarrow> bool" where
  "others_write m = (md_mode m div 2 mod 2 = 1 \<or> md_mode m div 16 mod 2 = 1)"

definition dev_root :: "'l dev_env \<Rightarrow> node res" where
  "dev_root dv =
     try_r (ok_or (dv_root dv) RouteNotFound) (\<lambda>root.
     try_r (ensure_r (\<not> (md_uid (node_meta root) \<noteq> dv_uid dv \<or> others_write (node_meta root))) Denied) (\<lambda>_.
     Inr root))"

definition dev_child :: "node \<Rightarrow> string \<Rightarrow> bool \<Rightarrow> node res" where
  "dev_child parent name directory =
     try_r (map_err (\<lambda>_. RouteNotFound) (if directory then child_dir parent name else open_at parent name)) (\<lambda>n.
     let m = node_meta n; own = node_meta parent in
     try_r (ensure_r (\<not> (md_uid m \<noteq> md_uid own \<or> md_dev m \<noteq> md_dev own \<or> others_write m \<or>
              (if directory then \<not> (case n of NDir _ _ \<Rightarrow> True | _ \<Rightarrow> False)
               else \<not> (case n of NFile _ _ \<Rightarrow> True | _ \<Rightarrow> False)))) Denied) (\<lambda>_.
     Inr n))"

definition author_from_directory :: "pki \<Rightarrow> node \<Rightarrow> string \<Rightarrow> string res" where
  "author_from_directory p directory name =
     try_r (dev_child directory ''manifest.json'' False) (\<lambda>file.
     let bytes = take (1024 * 1024 + 1) (node_content file) in
     try_r (ensure_r (\<not> length bytes > 1024 * 1024) Denied) (\<lambda>_.
     try_r (ok_or (parse_json p bytes) Denied) (\<lambda>manifest.
     try_r (ok_or (as_str (jidx (jidx manifest ''package'') ''author'')) Denied) (\<lambda>author.
     try_r (ensure_r (\<not> (jidx (jidx manifest ''package'') ''name'' \<noteq> JStr name \<or> normalize_name p author \<noteq> Some author)) Denied) (\<lambda>_.
     Inr author)))))"

definition dev_author :: "pki \<Rightarrow> 'l dev_env \<Rightarrow> string \<Rightarrow> string res" where
  "dev_author p dv name =
     try_r (dev_root dv) (\<lambda>root.
     try_r (dev_child root name True) (\<lambda>directory.
     author_from_directory p directory name))"

section \<open>Compiled projects\<close>

definition same_file :: "metadata \<Rightarrow> metadata \<Rightarrow> bool" where
  "same_file a b = (md_dev a = md_dev b \<and> md_ino a = md_ino b \<and> md_len a = md_len b \<and> md_mtime a = md_mtime b \<and> md_ctime a = md_ctime b)"

definition forget :: "string \<Rightarrow> 'l sandbox \<Rightarrow> 'l sandbox" where
  "forget name sb = sb\<lparr>sb_dev := filter (\<lambda>(pid, _). short_name pid \<noteq> name) (sb_dev sb)\<rparr>"

definition dev_open :: "pki \<Rightarrow> 'l dev_env \<Rightarrow> string \<Rightarrow> string \<Rightarrow> node res" where
  "dev_open p dv expected name =
     try_r (dev_root dv) (\<lambda>root.
     try_r (dev_child root name True) (\<lambda>directory.
     try_r (dev_child directory ''lib.wasm'' False) (\<lambda>file.
     try_r (author_from_directory p directory name) (\<lambda>author.
     try_r (ensure_r (author = expected) RouteNotFound) (\<lambda>_. Inr file)))))"

definition dev_compile :: "'l dev_env \<Rightarrow> string \<Rightarrow> node \<Rightarrow> 'l res" where
  "dev_compile dv pid file =
     (let bytes = take (64 * 1024 * 1024 + 1) (node_content file) in
     try_r (ensure_r (same_file (node_meta file) (dv_second dv (node_meta file)))
              (InvalidComponent ''development file changed while reading'')) (\<lambda>_.
     try_r (dv_volume dv) (\<lambda>volume.
     try_r (ensure_r (\<not> (md_uid volume \<noteq> dv_uid dv \<or> others_write volume)) Denied) (\<lambda>_.
     dv_load dv pid bytes))))"

definition dev_load :: "pki \<Rightarrow> 'l dev_env \<Rightarrow> string \<Rightarrow> string \<Rightarrow> 'l sandbox \<Rightarrow> 'l res \<times> 'l sandbox" where
  "dev_load p dv expected name sb = (case dev_open p dv expected name of
     Inl e \<Rightarrow> (Inl e, forget name sb)
   | Inr file \<Rightarrow>
      (let pid = expected @ ''/'' @ name in
       if sb_closed sb then (Inl Denied, sb)
       else (case opt_filter (\<lambda>(previous, _). same_file previous (node_meta file)) (map_of (sb_dev sb) pid) of
           Some (_, lib) \<Rightarrow> (Inr lib, sb)
         | None \<Rightarrow>
            (let sb = forget name sb in
             case dev_compile dv pid file of
               Inl e \<Rightarrow> (Inl e, sb)
             | Inr lib \<Rightarrow> (Inr lib, sb\<lparr>sb_dev := (pid, node_meta file, lib) # sb_dev sb\<rparr>)))))"

section \<open>The route\<close>

record dev_target =
  dt_frontend :: bool
  dt_standard :: bool
  dt_tail :: string

definition dev_target :: "string \<Rightarrow> dev_target" where
  "dev_target path = (case strip_prefix ''/app/'' path of
     Some tail \<Rightarrow> \<lparr>dt_frontend = True, dt_standard = False, dt_tail = tail\<rparr>
   | None \<Rightarrow> (case strip_prefix ''/std/'' path of
       Some tail \<Rightarrow> \<lparr>dt_frontend = False, dt_standard = True, dt_tail = tail\<rparr>
     | None \<Rightarrow> \<lparr>dt_frontend = False, dt_standard = False, dt_tail = trim_start_matches (CHR ''/'') path\<rparr>))"

definition dev_name :: "dev_target \<Rightarrow> string" where
  "dev_name t = split_first (CHR ''/'') (dt_tail t)"

definition dev_suffix :: "dev_target \<Rightarrow> string" where
  "dev_suffix t = (if dt_standard t then ''/'' @ dt_tail t else drop (length (dev_name t)) (dt_tail t))"

text \<open>Native services retain precedence over local projects.\<close>

definition dev_reserved :: "dev_target \<Rightarrow> bool" where
  "dev_reserved t = (\<not> dt_frontend t \<and> (dev_name t = ''app'' \<or>
     dt_standard t \<and> dev_name t \<in> {''sys'', ''acl'', ''contact'', ''dhttp'', ''file''}))"

text \<open>The owner's request to a project, after every check.\<close>

definition dev_serve ::
  "'l serve_env \<Rightarrow> 'l dev_env \<Rightarrow> ('l, 'v) world granted \<Rightarrow> dev_target \<times> string \<Rightarrow> web_request \<Rightarrow> ('l, 'v) world \<Rightarrow> reply res \<times> ('l, 'v) world"
where
  "dev_serve env dv gd ta r w = (case ta of (t, author) \<Rightarrow>
     if dt_frontend t then
       (try_r (dev_root dv) (\<lambda>root.
        try_r (dev_child root (dev_name t) True) (\<lambda>directory.
        try_r (dev_child directory ''app'' True) (\<lambda>app.
        app_response env app (dev_suffix t) r))), w)
     else (case dev_load (ge_pki (se_gate env)) dv author (dev_name t) (wo_sandbox w) of
         (Inl e, sb) \<Rightarrow> (Inl e, w\<lparr>wo_sandbox := sb\<rparr>)
       | (Inr lib, sb) \<Rightarrow>
           invoke env gd (BadRequest ''invalid development path'') (BadRequest ''invalid development URI'') lib
             (if dev_suffix t = [] then ''/'' else dev_suffix t) r (w\<lparr>wo_sandbox := sb\<rparr>)))"

text \<open>The decision about a request, with the state after the entry of a vanished project was dropped.\<close>

datatype ('l, 'v) dev_choice =
    DevReject error "('l, 'v) world"
  | DevFallback "('l, 'v) world"
  | DevServe "dev_target \<times> string" "('l, 'v) world"

definition dev_choose :: "'l serve_env \<Rightarrow> 'l dev_env \<Rightarrow> web_request \<Rightarrow> ('l, 'v) world \<Rightarrow> ('l, 'v) dev_choice" where
  "dev_choose env dv r w =
     (let p = ge_pki (se_gate env); t = dev_target (rq_path r); valid = is_ok (valid_id (normalize_name p) (dev_name t)) in
      case (if valid then dv_exists dv (dev_name t) else Inr False) of
        Inl e \<Rightarrow> DevReject e w
      | Inr local_exists \<Rightarrow>
         (let w = (if local_exists then w else w\<lparr>wo_sandbox := forget (dev_name t) (wo_sandbox w)\<rparr>) in
          if \<not> valid \<or> dev_reserved t \<or> \<not> local_exists then DevFallback w
          else (case dev_author p dv (dev_name t) of
              Inl e \<Rightarrow> DevReject e w
            | Inr author \<Rightarrow>
                if \<not> dt_frontend t \<and> is_standard_author author \<noteq> dt_standard t then DevFallback w
                else (case require_owner (se_gate env) (se_endpoint env) r of
                    Inl e \<Rightarrow> DevReject e w
                  | Inr _ \<Rightarrow> DevServe (t, author) w))))"

definition dev_router ::
  "'l serve_env \<Rightarrow> 'l dev_env \<Rightarrow> ('l, 'v) world handler \<Rightarrow>
   (dev_target \<times> string \<Rightarrow> web_request \<Rightarrow> ('l, 'v) world \<Rightarrow> reply res \<times> ('l, 'v) world) \<Rightarrow> ('l, 'v) world handler"
where
  "dev_router env dv fallback serve r w = (case dev_choose env dv r w of
     DevReject e w' \<Rightarrow> (rejected e, w')
   | DevFallback w' \<Rightarrow> fallback r w'
   | DevServe ta w' \<Rightarrow> answer (serve ta r w'))"

text \<open>Everything a connection reaches: the authorization layer, local projects, then the routes.\<close>

definition current_router ::
  "'l serve_env \<Rightarrow> 'l dev_env \<Rightarrow> ('l, 'v) world access_service \<Rightarrow> ('l, 'v) world granted \<Rightarrow>
   (string \<Rightarrow> ('l, 'v) world handler option) \<Rightarrow> (web_request \<Rightarrow> response) \<Rightarrow> ('l, 'v) world handler"
where
  "current_router env dv auth gd native proxied =
     authorize (se_gate env) auth (dev_router env dv (routes env gd native proxied) (dev_serve env dv gd))"

end
