(* ===== verification/Serving_Laws.thy ===== *)
theory Serving_Laws
  imports Development
begin

text \<open>
  What serving promises: a frontend serves files of its own directory and nothing else; the registry,
  and not the order of a hash map, decides which Lib or App a path reaches; local projects are served
  to the owner alone and never from stale code.
\<close>

section \<open>Files of a frontend\<close>

fun at_path :: "node \<Rightarrow> string list \<Rightarrow> node option" where
  "at_path d [] = Some d"
| "at_path d (p # ps) = (case entry d p of None \<Rightarrow> None | Some n \<Rightarrow> at_path n ps)"

text \<open>Every node on the way lies on the device.\<close>

fun on_device :: "nat \<Rightarrow> node \<Rightarrow> string list \<Rightarrow> bool" where
  "on_device dev d [] = True"
| "on_device dev d (p # ps) = (case entry d p of None \<Rightarrow> False | Some n \<Rightarrow> md_dev (node_meta n) = dev \<and> on_device dev n ps)"

definition is_file :: "node \<Rightarrow> bool" where
  "is_file n = (case n of NFile _ _ \<Rightarrow> True | _ \<Rightarrow> False)"

lemma open_at_Inr: "open_at d p = Inr n \<longleftrightarrow> entry d p = Some n \<and> (\<forall>m. n \<noteq> NLink m)"
  by (auto simp: open_at_def split: option.splits node.splits)

lemma child_dir_Inr: "child_dir d p = Inr n \<longleftrightarrow> entry d p = Some n \<and> (\<exists>m es. n = NDir m es)"
  by (cases "entry d p") (auto simp: child_dir_def open_at_def split: node.splits)

lemma expanded_file_part:
  assumes "\<not> hidden_part p" and "CHR ''/'' \<notin> set p"
  shows "expanded_file d p = Inr n \<longleftrightarrow> entry d p = Some n \<and> is_file n"
  using assms
  by (cases "entry d p")
    (auto simp: expanded_file_def hidden_part_def contains_char_iff is_file_def open_at_def split: node.splits)

lemma entry_dir: "entry n p = Some m \<Longrightarrow> \<exists>md es. n = NDir md es"
  by (auto simp: entry_def split: node.splits)

lemma app_parts_exact:
  assumes "\<And>p. p \<in> set ps \<Longrightarrow> CHR ''/'' \<notin> set p"
  shows "app_parts dev d ps = Inr f \<longleftrightarrow>
    ps \<noteq> [] \<and> list_all (\<lambda>p. \<not> hidden_part p) ps \<and> at_path d ps = Some f \<and> is_file f \<and> on_device dev d ps"
  using assms
proof (induction dev d ps rule: app_parts.induct)
  case (2 dev d p ps)
  show ?case
  proof (cases "hidden_part p")
    case visible: False
    show ?thesis
    proof (cases ps)
      case Nil
      with visible 2 show ?thesis
        by (auto simp: try_r_Inr_iff expanded_file_part split: option.splits)
    next
      case (Cons q qs)
      have IH: "app_parts dev n ps = Inr f \<longleftrightarrow>
          list_all (\<lambda>p. \<not> hidden_part p) ps \<and> at_path n ps = Some f \<and> is_file f \<and> on_device dev n ps"
        if "child_dir d p = Inr n" "md_dev (node_meta n) = dev" for n
        using 2 visible Cons that by auto
      have "app_parts dev d (p # ps) = Inr f \<longleftrightarrow>
          (\<exists>n. child_dir d p = Inr n \<and> md_dev (node_meta n) = dev \<and> app_parts dev n ps = Inr f)"
        using visible Cons by (auto simp: try_r_Inr_iff)
      also have "\<dots> \<longleftrightarrow> (\<exists>n. entry d p = Some n \<and> md_dev (node_meta n) = dev \<and>
          list_all (\<lambda>p. \<not> hidden_part p) ps \<and> at_path n ps = Some f \<and> is_file f \<and> on_device dev n ps)"
        using IH Cons entry_dir by (fastforce simp: child_dir_Inr split: option.splits)
      finally show ?thesis using visible by (auto split: option.splits)
    qed
  qed simp
qed simp

text \<open>
  Property C40: opening a resource of a frontend gives exactly the regular files below its directory
  that are reached through real directories on the same device, by components that are not empty, not
  \<^verbatim>\<open>.\<close> or \<^verbatim>\<open>..\<close> and not the names of the installation's recovery. No link is followed and nothing
  outside the directory is reached.
\<close>

theorem app_file_exact:
  "app_file root path = Inr f \<longleftrightarrow>
     list_all (\<lambda>p. \<not> hidden_part p) (split_on (CHR ''/'') path) \<and>
     at_path root (split_on (CHR ''/'') path) = Some f \<and> is_file f \<and>
     on_device (md_dev (node_meta root)) root (split_on (CHR ''/'') path)"
  unfolding app_file_def by (subst app_parts_exact) (auto dest: split_on_no_sep)

section \<open>Which package a path reaches\<close>

lemma find_keyed:
  assumes "\<And>x y. x \<in> set xs \<Longrightarrow> y \<in> set xs \<Longrightarrow> P x \<Longrightarrow> P y \<Longrightarrow> x = y" and "x \<in> set xs" and "P x"
  shows "find P xs = Some x"
  using assms by (induction xs) auto

lemma row_unique:
  assumes "running_ok host" and "row \<in> set (rg_packages (dk_registry (ho_disk host)))"
  shows "find_package (dk_registry (ho_disk host)) (pk_name row) = Some row" "short_name (row_id row) = pk_name row"
  using assms find_key_unique [of pk_name _ row] row_id_short [of row]
  by (auto simp: running_ok_def registry_ok_def graph_ok_def find_package_def)

lemma running_lib_row:
  assumes "running_ok host" and "ho_libs host pid = Some lib"
  obtains row where "row \<in> set (rg_packages (dk_registry (ho_disk host)))" "row_id row = pid" "pk_has_lib row"
proof -
  have "live (ho_disk host) (pid, Lib) \<noteq> None"
    using assms by (auto simp: running_ok_def dest!: spec [of _ pid])
  then have "registered_kind (dk_registry (ho_disk host)) (pid, Lib)"
    using assms(1) by (simp add: running_ok_def)
  then show thesis using that by (auto simp: registered_kind_def row_kind_def)
qed

lemma row_running_lib:
  assumes "running_ok host" and "row \<in> set (rg_packages (dk_registry (ho_disk host)))" and "pk_has_lib row"
  shows "ho_libs host (row_id row) \<noteq> None"
proof -
  have "registered_kind (dk_registry (ho_disk host)) (row_id row, Lib)"
    using assms by (auto simp: registered_kind_def row_kind_def)
  then have "live (ho_disk host) (row_id row, Lib) \<noteq> None" using assms(1) by (simp add: running_ok_def)
  moreover have "map_option (Component \<circ> ll_wasm) (ho_libs host (row_id row)) = live (ho_disk host) (row_id row, Lib)"
    using assms(1) by (simp add: running_ok_def)
  ultimately show ?thesis by (metis option.map_disc_iff)
qed

definition registered_lib :: "host \<Rightarrow> bool \<Rightarrow> string \<Rightarrow> loaded_lib option" where
  "registered_lib host standard name = (case find_package (dk_registry (ho_disk host)) name of
     Some row \<Rightarrow> if pk_has_lib row \<and> lib_standard (row_id row) = standard then ho_libs host (row_id row) else None
   | None \<Rightarrow> None)"

lemma find_lib_registered:
  assumes "running_ok host" and "distinct (map fst libs)" and "map_of libs = ho_libs host"
  shows "find_lib libs standard name = registered_lib host standard name"
proof (cases "registered_lib host standard name")
  case None
  have "\<not> (lib_standard pid = standard \<and> short_name pid = name)" if "(pid, lib) \<in> set libs" for pid lib
  proof
    assume sel: "lib_standard pid = standard \<and> short_name pid = name"
    have lib: "ho_libs host pid = Some lib" using that assms(2,3) map_of_is_SomeI by metis
    obtain row where row: "row \<in> set (rg_packages (dk_registry (ho_disk host)))" "row_id row = pid" "pk_has_lib row"
      by (rule running_lib_row [OF assms(1) lib])
    with row_unique [OF assms(1) row(1)] sel lib None show False by (auto simp: registered_lib_def)
  qed
  then have "find (\<lambda>(pid, _). lib_standard pid = standard \<and> short_name pid = name) libs = None"
    by (auto simp: find_None_iff)
  with None show ?thesis by (simp add: find_lib_def)
next
  case (Some lib)
  then obtain row where f: "find_package (dk_registry (ho_disk host)) name = Some row" and
      row: "pk_has_lib row" "lib_standard (row_id row) = standard" "ho_libs host (row_id row) = Some lib"
    by (auto simp: registered_lib_def split: option.splits if_splits)
  note r = find_package_Some [OF f]
  have mem: "(row_id row, lib) \<in> set libs" using row(3) assms(3) by (metis map_of_SomeD)
  have only: "pid = row_id row" if "(pid, l) \<in> set libs" "short_name pid = name" for pid l
  proof -
    have "ho_libs host pid = Some l" using that(1) assms(2,3) map_of_is_SomeI by metis
    then obtain row' where row': "row' \<in> set (rg_packages (dk_registry (ho_disk host)))" "row_id row' = pid"
      by (rule running_lib_row [OF assms(1)])
    with row_unique [OF assms(1) row'(1)] that(2) f show ?thesis by simp
  qed
  have "find (\<lambda>(pid, _). lib_standard pid = standard \<and> short_name pid = name) libs = Some (row_id row, lib)"
  proof (rule find_keyed)
    show "(row_id row, lib) \<in> set libs" by (rule mem)
    show "case (row_id row, lib) of (pid, _) \<Rightarrow> lib_standard pid = standard \<and> short_name pid = name"
      using row(2) r row_unique(2) [OF assms(1), of row] by simp
    show "x = y" if "x \<in> set libs" "y \<in> set libs" "case x of (pid, _) \<Rightarrow> lib_standard pid = standard \<and> short_name pid = name"
      "case y of (pid, _) \<Rightarrow> lib_standard pid = standard \<and> short_name pid = name" for x y
    proof -
      have "fst x = row_id row" "fst y = row_id row" using that only by (cases x; cases y; auto)+
      with that(1,2) assms(2) show "x = y" by (metis eq_key_imp_eq_value prod.collapse)
    qed
  qed
  with Some show ?thesis by (simp add: find_lib_def)
qed

text \<open>
  Property C39: the registry decides which Lib a path reaches, whatever the order in which the running
  Libs are searched. A path below the mount of a registered Lib reaches exactly that Lib: one of a
  standard author under \<^verbatim>\<open>/std/<name>\<close> with the path after \<^verbatim>\<open>/std\<close>, any other under \<^verbatim>\<open>/<name>\<close> with the
  path after its name; a name that is not registered this way is not found.
\<close>

theorem dispatch_follows_registry:
  assumes "running_ok host" and "distinct (map fst libs)" and "map_of libs = ho_libs host"
    and "CHR ''/'' \<notin> set name" and "rest = [] \<or> hd rest = CHR ''/''" and "name \<noteq> ''std''"
  shows "select_lib libs (''/std/'' @ name @ rest) =
      (case registered_lib host True name of None \<Rightarrow> Inl RouteNotFound | Some lib \<Rightarrow> Inr (lib, ''/'' @ name @ rest)) \<and>
    select_lib libs (''/'' @ name @ rest) =
      (case registered_lib host False name of None \<Rightarrow> Inl RouteNotFound
       | Some lib \<Rightarrow> Inr (lib, if rest = [] then ''/'' else rest))"
proof -
  have first: "split_first (CHR ''/'') (name @ rest) = name"
    using assms(4,5) split_first_before [OF assms(4), of "tl rest"] by (cases rest) auto
  have plain: "strip_prefix ''/std/'' (''/'' @ name @ rest) = None"
  proof (rule ccontr)
    assume "strip_prefix ''/std/'' (''/'' @ name @ rest) \<noteq> None"
    then obtain t where "name @ rest = ''std'' @ CHR ''/'' # t" by (auto simp: strip_prefix_Some_iff)
    then have "split_first (CHR ''/'') (name @ rest) = ''std''"
      using split_first_before [of "CHR ''/''" "''std''" t] by simp
    with first assms(6) show False by simp
  qed
  show ?thesis
    using first plain
    by (simp add: select_lib_def find_lib_registered [OF assms(1-3)] Let_def split: option.split list.split)
qed

text \<open>A host on which one Lib is registered, on the disk and running.\<close>

definition example_lib :: loaded_lib where
  "example_lib = \<lparr>ll_openapi = \<lparr>ad_openapi = ''3.1.0'', ad_version = ''1.0.0'', ad_paths = None\<rparr>, ll_wasm = ''w''\<rparr>"

definition example_row :: package_row where
  "example_row = \<lparr>pk_name = ''x'', pk_author = Some ''a.b'', pk_version = ''1.0.0'', pk_title = None, pk_description = None,
     pk_license = None, pk_repository = None, pk_installed_at = None, pk_upgraded_at = None, pk_has_lib = True, pk_has_app = False,
     pk_owner_hash = None, pk_sha256 = None, pk_leaf = None\<rparr>"

definition lib_host :: host where
  "lib_host = example_host\<lparr>
     ho_disk := \<lparr>dk_slots = (\<lambda>s. \<lparr>sl_live = if s = (''a.b/x'', Lib) then Some (Component ''w'') else None, sl_backup = None, sl_candidate = None\<rparr>),
       dk_marker = None, dk_stage = False, dk_registry = empty_registry\<lparr>rg_packages := [example_row]\<rparr>\<rparr>,
     ho_libs := [''a.b/x'' \<mapsto> example_lib]\<rparr>"

lemma lib_host_running: "running_ok lib_host"
  by (auto simp: running_ok_def lib_host_def example_host_def clean_disk_def registered_kind_def row_kind_def row_id_def
      example_row_def example_lib_def registry_ok_def graph_ok_def acl_keys_ok_def acl_owned_def empty_registry_def dep_graph_def
      acyclic_def split: kind.splits)

theorem dispatch_follows_registry_witness:
  "select_lib [(''a.b/x'', example_lib)] ''/x/y'' = Inr (example_lib, ''/y'') \<and>
   select_lib [(''a.b/x'', example_lib)] ''/std/x/y'' = Inl RouteNotFound"
proof -
  have "registered_lib lib_host False ''x'' = Some example_lib" "registered_lib lib_host True ''x'' = None"
    by (simp_all add: registered_lib_def find_package_def lib_host_def example_row_def row_id_def lib_standard_def
        is_standard_author_def split_first_def)
  then show ?thesis
    using dispatch_follows_registry [OF lib_host_running, of "[(''a.b/x'', example_lib)]" "''x''" "''/y''"]
    by (simp add: lib_host_def)
qed

text \<open>
  A Lib with the name \<^verbatim>\<open>app\<close> counts as installed for the paths below \<^verbatim>\<open>/app/\<close>, but these are always
  looked up as frontends: its resources are never found, and no configured location serves them.
\<close>

lemma lib_named_app_shadowed:
  assumes "native (rq_path r) = None" and "rq_path r = ''/app/'' @ tail"
    and "find_app (sb_apps (wo_sandbox w)) (split_first (CHR ''/'') tail) = None"
    and "(pid, lib) \<in> set (sb_libs (wo_sandbox w))" and "\<not> lib_standard pid" and "short_name pid = ''app''"
  shows "routes env gd native proxied r w = (rejected RouteNotFound, w)"
proof -
  have "split_first (CHR ''/'') (trim_start_matches (CHR ''/'') (''/app/'' @ tail)) = ''app''"
    by (simp add: trim_start_matches_def split_first_def)
  with assms have "installed (wo_sandbox w) (rq_path r)"
    unfolding installed_def by (auto simp: list_ex_iff)
  with assms(1-3) show ?thesis
    by (simp add: routes_def api_router_def serve_app_def answer_def starts_with_def Let_def)
qed

section \<open>Local projects\<close>

definition dev_passes ::
  "'l serve_env \<Rightarrow> 'l dev_env \<Rightarrow> web_request \<Rightarrow> ('l, 'v) world \<Rightarrow> (dev_target \<times> string) \<times> web_request \<Rightarrow> ('l, 'v) world \<Rightarrow> bool"
where
  "dev_passes env dv r w q w' =
     (require_owner (se_gate env) (se_endpoint env) r = Inr () \<and> snd q = r \<and> fst (fst q) = dev_target (rq_path r) \<and>
      dev_author (ge_pki (se_gate env)) dv (dev_name (fst (fst q))) = Inr (snd (fst q)) \<and> \<not> dev_reserved (fst (fst q)))"

lemma dev_choose_serve: "dev_choose env dv r w = DevServe ta w' \<Longrightarrow> dev_passes env dv r w (ta, r) w'"
  by (auto simp: dev_choose_def dev_passes_def Let_def split: sum.splits if_splits)

interpretation dev_gate: gated "\<lambda>serve. dev_router env dv fallback (\<lambda>ta r. serve (ta, r))" "dev_passes env dv" for env dv fallback
proof unfold_locales
  fix k k' :: "(dev_target \<times> string) \<times> web_request \<Rightarrow> ('a, 'b) world \<Rightarrow> reply res \<times> ('a, 'b) world" and r w
  assume "dev_router env dv fallback (\<lambda>ta r. k (ta, r)) r w \<noteq> dev_router env dv fallback (\<lambda>ta r. k' (ta, r)) r w"
  then obtain ta w' where "dev_choose env dv r w = DevServe ta w'" "answer (k (ta, r) w') \<noteq> answer (k' (ta, r) w')"
    by (auto simp: dev_router_def split: dev_choice.splits)
  then show "\<exists>q w'. dev_passes env dv r w q w' \<and> k q w' \<noteq> k' q w'"
    using dev_choose_serve by metis
qed

interpretation owner_gate: gated_twice "authorize (se_gate env) auth" "authorized (se_gate env) auth"
  "\<lambda>serve. dev_router env dv fallback (\<lambda>ta r. serve (ta, r))" "dev_passes env dv" for env auth dv fallback
  by unfold_locales

text \<open>
  Property C38: the local projects are for the owner. For any connection whose authenticated peer does not
  have the name and the certificate owner of the identity, the whole server answers as if every project
  refused to be served: no file and no code of a project has any effect.
\<close>

theorem projects_owner_only:
  "from_owner (se_gate env) (se_endpoint env) r \<or>
   current_router env dv auth gd native proxied r w =
     authorize (se_gate env) auth (dev_router env dv (routes env gd native proxied) (\<lambda>_ _ w. (Inl Denied, w))) r w"
proof (cases "from_owner (se_gate env) (se_endpoint env) r")
  case False
  let ?run = "\<lambda>serve. authorize (se_gate env) auth (dev_router env dv (routes env gd native proxied) (\<lambda>ta r. serve (ta, r))) r w"
  have "?run (\<lambda>q. dev_serve env dv gd (fst q) (snd q)) = ?run (\<lambda>q w. (Inl Denied, w))"
  proof (rule owner_gate.both.refused)
    fix q w'
    show "\<not> passes_both (authorized (se_gate env) auth) (dev_passes env dv) r w q w'"
      using False require_owner_from_owner by (fastforce simp: passes_both_def dev_passes_def)
  qed
  then show ?thesis by (simp add: current_router_def)
qed simp

lemma map_of_filter_fst: "P k \<Longrightarrow> map_of (filter (\<lambda>(k, _). P k) xs) k = map_of xs k"
  by (induction xs) auto

lemma forget_dev:
  "pid \<in> fst ` set (sb_dev (forget name sb)) \<longleftrightarrow> pid \<in> fst ` set (sb_dev sb) \<and> short_name pid \<noteq> name"
  "short_name pid \<noteq> name \<Longrightarrow> map_of (sb_dev (forget name sb)) pid = map_of (sb_dev sb) pid"
  "sb_libs (forget name sb) = sb_libs sb" "sb_apps (forget name sb) = sb_apps sb"
  by (force simp: forget_def map_of_filter_fst)+

text \<open>
  A changed or removed project never falls back to stale code. A load that fails, on an
  open sandbox, leaves no compiled Lib of that name; one that succeeds gives the Lib that is kept for
  the project's present file: compiled from its bytes now, or kept since it was compiled from a file
  with the same device, inode, length and times. No other project is touched, and no installed Lib.
\<close>

lemma dev_load_never_stale:
  "case dev_load p dv expected name sb of
     (Inl _, sb') \<Rightarrow> (sb_closed sb \<or> short_name ` fst ` set (sb_dev sb') \<subseteq> UNIV - {name}) \<and> sb_libs sb' = sb_libs sb
   | (Inr lib, sb') \<Rightarrow>
       (\<exists>file md. dev_open p dv expected name = Inr file \<and>
          map_of (sb_dev sb') (expected @ ''/'' @ name) = Some (md, lib) \<and> same_file md (node_meta file) \<and>
          (map_of (sb_dev sb) (expected @ ''/'' @ name) = Some (md, lib) \<or>
           md = node_meta file \<and> dv_load dv (expected @ ''/'' @ name) (take (64 * 1024 * 1024 + 1) (node_content file)) = Inr lib)) \<and>
       sb_libs sb' = sb_libs sb \<and> restrict_map (map_of (sb_dev sb')) {pid. short_name pid \<noteq> name \<and> pid \<noteq> expected @ ''/'' @ name} =
         restrict_map (map_of (sb_dev sb)) {pid. short_name pid \<noteq> name \<and> pid \<noteq> expected @ ''/'' @ name}"
proof -
  let ?pid = "expected @ ''/'' @ name"
  have none: "name \<notin> short_name ` fst ` set (sb_dev (forget name sb))"
    by (auto simp: forget_def)
  have others: "restrict_map (map_of (sb_dev (forget name sb))) {pid. short_name pid \<noteq> name \<and> pid \<noteq> ?pid} =
      restrict_map (map_of (sb_dev sb)) {pid. short_name pid \<noteq> name \<and> pid \<noteq> ?pid}"
    by (auto simp: restrict_map_def forget_dev)
  have compiled: "dev_compile dv ?pid f = Inr lib \<Longrightarrow>
      dv_load dv ?pid (take (64 * 1024 * 1024 + 1) (node_content f)) = Inr lib" for f lib
    by (auto simp: dev_compile_def try_r_Inr_iff Let_def)
  have self: "same_file m m" for m by (simp add: same_file_def)
  show ?thesis
    using none others compiled self
    by (auto simp: dev_load_def Let_def forget_dev opt_filter_def restrict_map_def fun_eq_iff
        split: sum.splits option.splits if_splits)
qed

end
