(* ===== verification/Management.thy ===== *)
theory Management
  imports Installer_Laws Access_Gate
begin

text \<open>
  The management of packages over HTTP (\<^verbatim>\<open>src/package.rs\<close>): the resources that list, show, install and
  remove packages, for the owner alone. Installation is the store's closure (theory \<open>Store\<close>) followed by
  \<^const>\<open>install_packages\<close>; removal is the registry's part (theory \<open>Registry\<close>), the file transaction
  (theory \<open>Install_Commit\<close>) and the running collections.
\<close>

section \<open>The environment\<close>

text \<open>
  Beside the environment of an installation: the endpoint to the store, percent decoding, the
  serialization of an OpenAPI document, the summary or description of an operation, the answer of opening
  the database for reading (\<^verbatim>\<open>open_config\<close>), the time in milliseconds at which the body of the request is
  complete, and the version of the program.
\<close>

record manage_env =
  mg_install :: install_env
  mg_store :: store_endpoint
  mg_gate :: gate_env
  mg_endpoint :: endpoint
  mg_decode :: "string \<Rightarrow> string option"
  mg_api_json :: "api_doc \<Rightarrow> json"
  mg_summary :: "api_doc \<Rightarrow> string \<Rightarrow> string \<Rightarrow> string option"
  mg_read :: "unit res"
  mg_body_time :: "nat option"
  mg_version :: string

abbreviation mg_norm :: "manage_env \<Rightarrow> normalizer" where
  "mg_norm env \<equiv> normalize_name (ie_pki (mg_install env))"

section \<open>Descriptions of packages\<close>

definition text_value :: "string option \<Rightarrow> json" where
  "text_value v = (case v of None \<Rightarrow> JNull | Some s \<Rightarrow> JStr s)"

definition int_value :: "int option \<Rightarrow> json" where
  "int_value v = (case v of None \<Rightarrow> JNull | Some n \<Rightarrow> JInt n)"

text \<open>The endpoints of a Lib below its mount, by path and method.\<close>

definition lib_prefix :: "string \<Rightarrow> string" where
  "lib_prefix pid = (if is_standard_author (split_first (CHR ''/'') pid) then ''/std'' else ''/'' @ short_name pid)"

definition endpoint_values :: "manage_env \<Rightarrow> string \<Rightarrow> api_doc \<Rightarrow> json list" where
  "endpoint_values env pid api =
     map (\<lambda>(path, mtd, summary). JObj [(''description'', text_value summary), (''method'', JStr mtd), (''path'', JStr path)])
       (sort_key (\<lambda>(path, mtd, _). (path, mtd))
         (concat (map (\<lambda>(path, item). map (\<lambda>(mtd, _). (lib_prefix pid @ path, mtd, mg_summary env api path mtd)) (ai_methods item))
           (case ad_paths api of None \<Rightarrow> [] | Some ps \<Rightarrow> ps))))"

definition error_value :: "string option \<Rightarrow> error \<Rightarrow> json" where
  "error_value pid e = JObj [(''error'', JStr (error_text e)), (''id'', text_value pid)]"

definition lib_metadata :: "manage_env \<Rightarrow> package_files \<Rightarrow> string option \<Rightarrow> json" where
  "lib_metadata env package pid =
     (let tk = ie_tools (mg_install env) in
      case package_metadata tk package of
        Inl e \<Rightarrow> error_value pid e
      | Inr value \<Rightarrow>
          (let described = (if map_of package ''backend.wasm'' = None then Inr (value, [])
             else
               let identity = (case pid of Some i \<Rightarrow> i | None \<Rightarrow> the (as_str (jidx value ''id''))) in
               try_r (package_openapi tk package) (\<lambda>raw.
               try_r (ok_or (tk_openapi tk raw) (InvalidComponent ''OpenAPI'')) (\<lambda>api.
               Inr (json_set ''openapi'' (mg_api_json env api) value, endpoint_values env identity api)))) in
           case described of
             Inl e \<Rightarrow> error_value pid e
           | Inr (value, endpoints) \<Rightarrow>
               (let value = json_set ''endpoints'' (JArr endpoints) value in
                case pid of None \<Rightarrow> value | Some i \<Rightarrow> json_set ''id'' (JStr i) value)))"

text \<open>The row of an installed package, with \<^verbatim>\<open>publisher\<close> renamed to \<^verbatim>\<open>author\<close> in its dependencies.\<close>

definition catalog_value :: "package_row \<times> (string option \<times> string \<times> string) list \<Rightarrow> json" where
  "catalog_value entry = (case entry of (p, deps) \<Rightarrow>
     JObj ([(''author'', text_value (pk_author p)), (''author_owner_hash'', text_value (pk_owner_hash p)),
       (''dependencies'', JArr (map (\<lambda>(a, n, v). JObj [(''author'', text_value a), (''name'', JStr n), (''version'', JStr v)]) deps)),
       (''description'', text_value (pk_description p)), (''endpoints'', JArr [])] @
       (if pk_has_app p then [(''entry'', JStr ''/'')] else []) @
      [(''has_app'', JBool (pk_has_app p)), (''has_lib'', JBool (pk_has_lib p)), (''id'', JStr (row_id p)),
       (''installed_at'', int_value (pk_installed_at p)), (''license'', text_value (pk_license p)), (''name'', JStr (pk_name p)),
       (''package_sha256'', text_value (pk_sha256 p)), (''repository'', text_value (pk_repository p)),
       (''signer_leaf_fingerprint_sha256'', text_value (pk_leaf p)), (''title'', text_value (pk_title p)),
       (''upgraded_at'', int_value (pk_upgraded_at p)), (''version'', JStr (pk_version p))]))"

definition installed_catalog :: "normalizer \<Rightarrow> registry \<Rightarrow> string option \<Rightarrow> json res" where
  "installed_catalog norm reg name = (case name of
     Some name \<Rightarrow>
       try_r (ok_or (find_package reg name) RouteNotFound) (\<lambda>row.
       try_r (installed_packages norm reg (Some (row_id row))) (\<lambda>values. Inr (catalog_value (hd values))))
   | None \<Rightarrow> try_r (installed_packages norm reg None) (\<lambda>values. Inr (JArr (map catalog_value values))))"

section \<open>Installing and removing\<close>

definition renamed_dependency :: "json \<Rightarrow> json" where
  "renamed_dependency v = (case as_object v of
     None \<Rightarrow> v
   | Some m \<Rightarrow> (case map_of m ''publisher'' of
       None \<Rightarrow> v
     | Some author \<Rightarrow> json_set ''author'' author (JObj (filter (\<lambda>e. fst e \<noteq> ''publisher'') m))))"

text \<open>Indexing a value for writing adds a missing member, as null.\<close>

definition renamed_publisher :: "json \<Rightarrow> json" where
  "renamed_publisher v =
     (let v = renamed_dependency v in
      case jget v ''dependencies'' of
        Some (JArr deps) \<Rightarrow> json_set ''dependencies'' (JArr (map renamed_dependency deps)) v
      | Some _ \<Rightarrow> v
      | None \<Rightarrow> json_set ''dependencies'' JNull v)"

definition install_store_package :: "manage_env \<Rightarrow> string \<Rightarrow> string \<Rightarrow> string \<Rightarrow> host \<Rightarrow> json res \<times> host" where
  "install_store_package env publisher name version host =
     (let ie = mg_install env; root = publisher @ ''/'' @ name in
      case try_r (valid_id (mg_norm env) root) (\<lambda>_.
           try_r (try_r (mg_read env) (\<lambda>_. installed_packages (mg_norm env) (dk_registry (ho_disk host)) None)) (\<lambda>installed.
           try_r (store_closure (ie_tools ie) (mg_store env) (ie_now ie) (map fst installed) publisher name version) (\<lambda>ordered.
           try_r (ensure_r (\<not> ho_closed host) Denied) (\<lambda>_.
           try_r (read_package_at (ie_tools ie) (fst (snd (last ordered))) (the (proof_time (snd (snd (last ordered)))))) (\<lambda>package.
           Inr (ordered, lib_metadata env package (Some root))))))) of
        Inl e \<Rightarrow> (Inl e, host)
      | Inr (ordered, result) \<Rightarrow>
          (case install_packages ie ordered host of
             (Inl e, host') \<Rightarrow> (Inl e, host')
           | (Inr _, host') \<Rightarrow> (Inr result, host')))"

text \<open>
  \<^verbatim>\<open>remove_package\<close>: the database is opened and prepared as for an installation; a package that is not
  registered is left at that; nothing is staged for the file transaction. \<open>ie_began\<close> is here the answer of
  making the staging directory and of beginning the transaction. The empty staging directory that a removal
  may leave when it ends before its file transaction is not kept apart.
\<close>

definition remove_installed :: "manage_env \<Rightarrow> string \<Rightarrow> host \<Rightarrow> unit res \<times> host" where
  "remove_installed env pid host = (case valid_id (mg_norm env) pid of
     Inl e \<Rightarrow> (Inl e, host)
   | Inr _ \<Rightarrow>
       (case open_installation (mg_install env) host of
          (Inl e, opened) \<Rightarrow> (Inl e, opened)
        | (Inr _, opened) \<Rightarrow>
            (let reg = dk_registry (ho_disk opened) in
             case try_r (if registered_packages (mg_norm env) reg ''pkg'' (Some pid) = Inl RouteNotFound then Inr ()
                         else ie_began (mg_install env)) (\<lambda>_. Registry.remove_package (mg_norm env) pid reg) of
               Inl e \<Rightarrow> (Inl e, opened)
             | Inr None \<Rightarrow> (Inr (), opened)
             | Inr (Some reg) \<Rightarrow>
                 (case commit_packages_files (ie_journal_bytes (mg_install env)) (ie_fault (mg_install env)) True [pid] reg
                         (stage_disk [] (ho_disk opened)) of
                    (r, d) \<Rightarrow> (r, opened\<lparr>ho_disk := d\<rparr>)))))"

definition delete_package :: "manage_env \<Rightarrow> string \<Rightarrow> string option \<Rightarrow> host \<Rightarrow> unit res \<times> host" where
  "delete_package env name expected host = (case mg_read env of
     Inl e \<Rightarrow> (Inl e, host)
   | Inr _ \<Rightarrow>
     (let registered = map_option row_id (find_package (dk_registry (ho_disk host)) name) in
      if expected \<noteq> None \<and> registered \<noteq> expected
      then (Inl (conflict_error ''installed package identity changed; query the catalog before removing''), host)
      else if ho_closed host then (Inl Denied, host)
      else (case registered of
          None \<Rightarrow> (Inr (), host)
        | Some pid \<Rightarrow>
            (case try_r (valid_id (mg_norm env) pid) (\<lambda>_.
                  ensure_r (short_name pid = name) (InvalidConfig ''invalid installed package name'')) of
               Inl e \<Rightarrow> (Inl e, host)
             | Inr _ \<Rightarrow>
                 (case remove_installed env pid host of
                    (Inl e, host') \<Rightarrow> (Inl e, host')
                  | (Inr _, host') \<Rightarrow> (Inr (), host'\<lparr>ho_apps := (ho_apps host')(pid := None),
                                                    ho_libs := (ho_libs host')(pid := None)\<rparr>))))))"

section \<open>The requests\<close>

text \<open>\<^verbatim>\<open>axum::body::to_bytes\<close> with a limit.\<close>

datatype body_error = BodyTooLong | BodyUnreadable

fun to_bytes :: "nat \<Rightarrow> frame list \<Rightarrow> string \<Rightarrow> (body_error, string) result" where
  "to_bytes limit [] acc = Inr acc"
| "to_bytes limit (f # fs) acc = (case f of
     FrameError _ \<Rightarrow> Inl BodyUnreadable
   | FrameTrailers \<Rightarrow> to_bytes limit fs acc
   | FrameData d \<Rightarrow> if length acc + length d > limit then Inl BodyTooLong else to_bytes limit fs (acc @ d))"

definition version_supported :: "headers \<Rightarrow> bool res" where
  "version_supported h = (case get_all ''accept-versions'' h of
     [] \<Rightarrow> Inr True
   | vs \<Rightarrow> fold_r (\<lambda>v supported.
       try_r (ok_or (header_to_str v) (BadRequest ''invalid Accept-Versions'')) (\<lambda>v.
       Inr (supported \<or> list_ex (\<lambda>x. str_trim x = ''v1'') (split_on (CHR '','') v)))) vs False)"

definition name_parameter :: "manage_env \<Rightarrow> bool \<Rightarrow> string option \<Rightarrow> string option res" where
  "name_parameter env listing q = (case q of
     None \<Rightarrow> Inr None
   | Some query \<Rightarrow> fold_r (\<lambda>item pid.
       try_r (ok_or (split_once (CHR ''='') item) (BadRequest ''expected name query parameter'')) (\<lambda>(key, value).
       try_r (ensure_r (\<not> (key \<noteq> ''name'' \<or> pid \<noteq> None \<or> listing)) (BadRequest ''unsupported query parameters'')) (\<lambda>_.
       try_r (ok_or (mg_decode env value) (BadRequest ''invalid package name encoding'')) (\<lambda>name. Inr (Some name)))))
       (split_on (CHR ''&'') query) None)"

text \<open>The request after its checks, or the answer that ends it.\<close>

datatype manage_action = ManageInstall string | ManageShow "string option" | ManageRemove string "string option"

definition status_reply :: "nat \<Rightarrow> reply" where
  "status_reply n = (plain_response n, BodyEmpty)"

definition manage_checks :: "manage_env \<Rightarrow> web_request \<Rightarrow> (reply, manage_action) result res" where
  "manage_checks env r =
     (let installing = (rq_path r = ''/std/sys/pkg/install''); listing = ends_with ''/list'' (rq_path r);
          allow = (if installing then ''POST'' else if listing then ''GET'' else ''GET, DELETE'');
          limit = (if installing then 4096 else 0) in
     try_r (version_supported (rq_headers r)) (\<lambda>supported.
     if \<not> supported then Inr (Inl (status_reply 505))
     else if \<not> (installing \<and> rq_meth r = ''POST'' \<or> \<not> installing \<and> listing \<and> rq_meth r = ''GET'' \<or>
                  \<not> installing \<and> \<not> listing \<and> rq_meth r \<in> {''GET'', ''DELETE''})
     then Inr (Inl (\<lparr>rs_status = 405, rs_headers = [(''allow'', allow)]\<rparr>, BodyEmpty))
     else
     try_r (ensure_r (\<not> (installing \<and> rq_query r \<noteq> None)) (BadRequest ''install does not accept query parameters'')) (\<lambda>_.
     try_r (name_parameter env listing (rq_query r)) (\<lambda>pid.
     try_r (case pid of
              Some i \<Rightarrow> try_r (valid_id (mg_norm env) i) (\<lambda>_.
                ensure_r (CHR ''/'' \<notin> set i) (BadRequest ''name must be a local package short name''))
            | None \<Rightarrow> Inr ()) (\<lambda>_.
     try_r (ensure_r (\<not> (\<not> installing \<and> \<not> listing \<and> pid = None)) (BadRequest ''missing name query parameter'')) (\<lambda>_.
     let expected = get_header ''expected-package-id'' (rq_headers r) in
     try_r (ensure_r (\<not> (expected \<noteq> None \<and> (rq_meth r \<noteq> ''DELETE'' \<or> pid = None)))
              (BadRequest ''Expected-Package-Id is supported only for package removal'')) (\<lambda>_.
     if installing \<and> \<not> content_type_is ''application/json'' (rq_headers r) then Inr (Inl (status_reply 415))
     else
     try_r (ensure_r (\<not> contains_key ''trailer'' (rq_headers r)) (BadRequest ''Lib management trailers are unsupported'')) (\<lambda>_.
     try_r (ensure_r (is_some_and (\<lambda>t. t \<le> (if installing then 15 else 120) * 1000) (mg_body_time env)) Deadline) (\<lambda>_.
     case to_bytes limit (wq_body r) [] of
       Inl BodyTooLong \<Rightarrow> Inr (Inl (status_reply (if installing then 413 else 400)))
     | Inl BodyUnreadable \<Rightarrow> Inl (BadRequest ''failed to read management request body'')
     | Inr bytes \<Rightarrow>
         Inr (Inr (if installing then ManageInstall bytes
                   else if rq_meth r = ''GET'' then ManageShow pid else ManageRemove (the pid) expected)))))))))))"

definition text_member :: "json \<Rightarrow> string \<Rightarrow> string res" where
  "text_member v key = ok_or (Option.bind (jget v key) as_str) (BadRequest (''missing '' @ key))"

definition install_input :: "manage_env \<Rightarrow> string \<Rightarrow> (string \<times> string \<times> string) res" where
  "install_input env bytes =
     try_r (ok_or (parse_json (ie_pki (mg_install env)) bytes) (BadRequest ''invalid store installation JSON'')) (\<lambda>input.
     try_r (ensure_r (\<not> is_none_or (\<lambda>m. length m \<noteq> 3 \<or> list_ex (\<lambda>e. fst e \<notin> {''author'', ''name'', ''version''}) m) (as_object input))
              (BadRequest ''installation requires only author, name and version'')) (\<lambda>_.
     try_r (text_member input ''name'') (\<lambda>name.
     try_r (valid_id (mg_norm env) name) (\<lambda>_.
     try_r (ensure_r (CHR ''/'' \<notin> set name) (BadRequest ''name must be a package short name'')) (\<lambda>_.
     try_r (text_member input ''author'') (\<lambda>author.
     try_r (text_member input ''version'') (\<lambda>version.
     Inr (author, name, version))))))))"

text \<open>The description of one package, with the API of the Lib that runs if it is of the same version.\<close>

definition show_value :: "manage_env \<Rightarrow> host \<Rightarrow> json \<Rightarrow> json" where
  "show_value env host v =
     (let pid = the (as_str (jidx v ''id'')) in
      case ho_libs host pid of
        Some lib \<Rightarrow>
          if as_str (jidx v ''version'') = Some (ad_version (ll_openapi lib))
          then json_set ''endpoints'' (JArr (endpoint_values env pid (ll_openapi lib)))
                 (json_set ''openapi'' (mg_api_json env (ll_openapi lib)) v)
          else v
      | None \<Rightarrow> v)"

definition show_packages :: "manage_env \<Rightarrow> string option \<Rightarrow> host \<Rightarrow> reply res" where
  "show_packages env pid host =
     try_r (try_r (mg_read env) (\<lambda>_. installed_catalog (mg_norm env) (dk_registry (ho_disk host)) pid)) (\<lambda>v.
     let v = (if pid = None then v else show_value env host v);
         package_id = Option.bind (jget v ''id'') as_str in
     try_r (ensure_r (is_none_or (header_value_ok (ge_http (mg_gate env))) package_id) (InvalidConfig ''invalid installed package ID'')) (\<lambda>_.
     Inr (\<lparr>rs_status = 200, rs_headers = (case package_id of None \<Rightarrow> [] | Some i \<Rightarrow> [(''package-id'', i)])\<rparr>, BodyJson v)))"

definition manage_request :: "manage_env \<Rightarrow> web_request \<Rightarrow> host \<Rightarrow> reply res \<times> host" where
  "manage_request env r host =
     (case try_r (require_owner (mg_gate env) (mg_endpoint env) r) (\<lambda>_. manage_checks env r) of
        Inl e \<Rightarrow> (Inl e, host)
      | Inr (Inl rp) \<Rightarrow> (Inr rp, host)
      | Inr (Inr (ManageInstall bytes)) \<Rightarrow>
          (case install_input env bytes of
             Inl e \<Rightarrow> (Inl e, host)
           | Inr (author, name, version) \<Rightarrow>
               (case install_store_package env author name version host of
                  (Inl e, host') \<Rightarrow> (Inl e, host')
                | (Inr v, host') \<Rightarrow> (Inr (plain_response 200, BodyJson (renamed_publisher v)), host')))
      | Inr (Inr (ManageShow pid)) \<Rightarrow> (show_packages env pid host, host)
      | Inr (Inr (ManageRemove name expected)) \<Rightarrow>
          (case delete_package env name expected host of
             (Inl e, host') \<Rightarrow> (Inl e, host')
           | (Inr _, host') \<Rightarrow> (Inr (status_reply 204), host')))"

section \<open>The answers\<close>

definition manage_error :: "error \<Rightarrow> reply" where
  "manage_error e = (case e of
     PackagePolicy code status \<Rightarrow>
       (plain_response status, BodyJson (JObj [(''error'', JObj [(''code'', JStr code), (''retryable'', JBool False)])]))
   | SigningStatusUnavailable \<Rightarrow>
       (\<lparr>rs_status = 503, rs_headers = [(''retry-after'', ''30'')]\<rparr>,
        BodyJson (JObj [(''error'', JObj [(''code'', JStr ''signing_status_unavailable''), (''retryable'', JBool True)])]))
   | _ \<Rightarrow>
       (let status = (case e of InvalidComponent _ \<Rightarrow> 400 | Io InvalidInput _ \<Rightarrow> 409 | _ \<Rightarrow> error_status e) in
        if is_server_error status
        then (plain_response status, BodyText ''Lib storage or compilation failed; query the resource to confirm the saved result'')
        else (plain_response status, BodyText (error_text e))))"

definition manage :: "manage_env \<Rightarrow> web_request \<Rightarrow> host \<Rightarrow> reply \<times> host" where
  "manage env r host =
     (case manage_request env r host of (x, host') \<Rightarrow>
        (case (case x of Inl e \<Rightarrow> manage_error e | Inr rp \<Rightarrow> rp) of (resp, body) \<Rightarrow>
          ((resp\<lparr>rs_headers := insert_header ''pishoo-version'' (mg_version env)
              (insert_header ''supported-versions'' ''v1'' (insert_header ''cache-control'' ''no-store'' (rs_headers resp)))\<rparr>, body), host')))"

end
