(* ===== verification/Owner_Resources.thy ===== *)
theory Owner_Resources
  imports Management Contact_Access
begin

text \<open>
  The resources through which an identity is administered: its settings (\<^verbatim>\<open>config_router\<close> of
  \<^verbatim>\<open>src/setup.rs\<close>), the declared permissions of its Libs (\<^verbatim>\<open>src/routes/capabilities.rs\<close>) and its packages
  (theory \<open>Management\<close>), as the router of a server has them side by side. The stored settings, the
  registry and the packages are one state here.
\<close>

section \<open>The state\<close>

record identity =
  id_host :: host
  id_volume :: volume

text \<open>
  Beside the environment of the package resources: the form decoding of a query, the rendering of a
  title, and the operations of an installed component as its API gives them.
\<close>

record admin_env =
  ad_manage :: manage_env
  ad_form :: "string \<Rightarrow> (string \<times> string) list"
  ad_render :: "json \<Rightarrow> string"
  ad_operations :: "string \<Rightarrow> (string \<times> string) list res"

abbreviation ad_gate :: "admin_env \<Rightarrow> gate_env" where
  "ad_gate env \<equiv> mg_gate (ad_manage env)"

abbreviation ad_pki :: "admin_env \<Rightarrow> pki" where
  "ad_pki env \<equiv> ge_pki (ad_gate env)"

section \<open>Settings\<close>

text \<open>The payload of the request after its checks, or the answer that ends it.\<close>

definition config_checks :: "admin_env \<Rightarrow> web_request \<Rightarrow> (reply, json option) result res" where
  "config_checks env r =
     try_r (version_supported (rq_headers r)) (\<lambda>supported.
     if \<not> supported then Inr (Inl (status_reply 505))
     else if rq_meth r \<notin> {''GET'', ''PATCH'', ''DELETE''}
     then Inr (Inl (\<lparr>rs_status = 405, rs_headers = [(''allow'', ''GET, PATCH, DELETE'')]\<rparr>, BodyEmpty))
     else let reading = (rq_meth r = ''GET'' \<or> rq_meth r = ''DELETE'') in
     if \<not> reading \<and> \<not> content_type_is ''application/json'' (rq_headers r) then Inr (Inl (status_reply 415))
     else (case to_bytes (if reading then 0 else 64 * 1024) (wq_body r) [] of
         Inl BodyTooLong \<Rightarrow> Inr (Inl (status_reply (if reading then 400 else 413)))
       | Inl BodyUnreadable \<Rightarrow> Inl (BadRequest ''failed to read request body'')
       | Inr bytes \<Rightarrow>
           if reading then Inr (Inr None)
           else try_r (ok_or (parse_json (ad_pki env) bytes) (BadRequest ''invalid JSON'')) (\<lambda>v. Inr (Inr (Some v)))))"

definition config_request :: "admin_env \<Rightarrow> web_request \<Rightarrow> volume \<Rightarrow> reply res \<times> volume" where
  "config_request env r vol =
     (case try_r (require_owner (ad_gate env) (mg_endpoint (ad_manage env)) r) (\<lambda>_. config_checks env r) of
        Inl e \<Rightarrow> (Inl e, vol)
      | Inr (Inl rp) \<Rightarrow> (Inr rp, vol)
      | Inr (Inr payload) \<Rightarrow>
          (case config_database (ge_http (ad_gate env)) (ad_form env) vol (rq_meth r) (rq_path r) (rq_query r) payload of
             (Inl e, vol') \<Rightarrow> (Inl e, vol')
           | (Inr v, vol') \<Rightarrow> (Inr (if rq_meth r = ''DELETE'' then status_reply 204 else (plain_response 200, BodyJson v)), vol')))"

definition config_error_reply :: "error \<Rightarrow> reply" where
  "config_error_reply e =
     (let status = (case e of Io InvalidInput _ \<Rightarrow> 409 | _ \<Rightarrow> error_status e) in
      (plain_response status, BodyText (if is_server_error status then ''configuration storage failed'' else error_text e)))"

definition config_answer :: "admin_env \<Rightarrow> web_request \<Rightarrow> volume \<Rightarrow> reply \<times> volume" where
  "config_answer env r vol =
     (case config_request env r vol of (x, vol') \<Rightarrow>
      case (case x of Inl e \<Rightarrow> config_error_reply e | Inr rp \<Rightarrow> rp) of (resp, body) \<Rightarrow>
        ((resp\<lparr>rs_headers := insert_header ''supported-versions'' ''v1''
            (insert_header ''cache-control'' ''no-store'' (rs_headers resp))\<rparr>, body), vol'))"

section \<open>Declared permissions\<close>

text \<open>The local side of a connection, or of a call inside the process.\<close>

definition local_side :: "web_request \<Rightarrow> authority option" where
  "local_side r = (case Option.bind (wq_handshake r) hs_local of Some a \<Rightarrow> Some a | None \<Rightarrow> wq_authority r)"

definition permission_owner :: "admin_env \<Rightarrow> web_request \<Rightarrow> unit res" where
  "permission_owner env r =
     try_r (ok_or (wq_visitor r) Denied) (\<lambda>visitor.
     try_r (ok_or (local_side r) MissingHandshake) (\<lambda>local.
     try_r (ok_or (subject_key_of (ad_pki env) (au_certificates local)) Denied) (\<lambda>ski.
     try_r (ok_or (ge_subject (ad_gate env) (sk_owner ski)) Denied) (\<lambda>subject.
     ensure_r (\<not> (vi_name visitor \<noteq> au_name local \<or> vi_subject visitor \<noteq> subject)) Denied))))"

text \<open>The name of the Lib and the declared groups, or the answer that ends the request.\<close>

definition permission_checks :: "admin_env \<Rightarrow> web_request \<Rightarrow> (reply, string \<times> json) result res" where
  "permission_checks env r =
     (let params = ad_form env (case rq_query r of None \<Rightarrow> [] | Some q \<Rightarrow> q) in
     try_r (ensure_r (\<not> (length params \<noteq> 1 \<or> fst (hd params) \<noteq> ''name'' \<or> CHR ''/'' \<in> set (snd (hd params))))
              (BadRequest ''exactly one Lib name is required'')) (\<lambda>_.
     let name = snd (hd params) in
     try_r (valid_id (mg_norm (ad_manage env)) name) (\<lambda>_.
     if rq_meth r = ''PUT'' \<and> \<not> content_type_is ''application/json'' (rq_headers r) then Inr (Inl (status_reply 415))
     else
     try_r (map_err (\<lambda>_. BadRequest ''invalid or oversized permissions body'')
              (to_bytes (if rq_meth r = ''PUT'' then 1024 * 1024 else 0) (wq_body r) [])) (\<lambda>bytes.
     try_r (if rq_meth r = ''PUT'' then ok_or (parse_json (ad_pki env) bytes) (BadRequest ''invalid permissions JSON'')
            else Inr (JArr [])) (\<lambda>groups.
     Inr (Inr (name, groups)))))))"

definition write_request :: "admin_env \<Rightarrow> web_request \<Rightarrow> registry \<Rightarrow> reply res \<times> registry" where
  "write_request env r reg =
     (case try_r (permission_owner env r) (\<lambda>_. permission_checks env r) of
        Inl e \<Rightarrow> (Inl e, reg)
      | Inr (Inl rp) \<Rightarrow> (Inr rp, reg)
      | Inr (Inr (name, groups)) \<Rightarrow>
          (case write_declarations (mg_norm (ad_manage env)) (ad_render env) (ad_operations env name) name (rq_meth r) groups reg of
             Inl e \<Rightarrow> (Inl e, reg)
           | Inr reg' \<Rightarrow> (Inr (status_reply 204), reg')))"

text \<open>The titles of the listing, by the first row that has an entry.\<close>

definition localized_title :: "pki \<Rightarrow> string \<Rightarrow> json" where
  "localized_title p title = (case parse_json p title of
     Some v \<Rightarrow> (case (as_str (jidx v ''en''), as_str (jidx v ''zh-CN'')) of (Some _, Some _) \<Rightarrow> v | _ \<Rightarrow> JStr title)
   | None \<Rightarrow> JStr title)"

definition permission_titles :: "pki \<Rightarrow> registry \<Rightarrow> json" where
  "permission_titles p reg = fold (\<lambda>(c, l) titles.
       let entry = lib_package l @ dot_sep @ catalog_label p (cp_title c) in
       if jget titles entry \<noteq> None then titles else json_set entry (localized_title p (cp_title c)) titles)
     (sort_key (cp_title \<circ> fst)
       (concat (map (\<lambda>c. map (Pair c) (filter (\<lambda>l. pk_has_lib l \<and> pk_name l = cp_lib c) (rg_packages reg))) (rg_capabilities reg))))
     (JObj [])"

definition permission_listing :: "pki \<Rightarrow> bool \<Rightarrow> registry \<Rightarrow> json" where
  "permission_listing p details reg =
     (if \<not> details then catalog p reg
      else (case catalog p reg of
          JObj m \<Rightarrow> JObj (map (\<lambda>(entry, endpoints).
              (entry, JObj [(''endpoints'', endpoints), (''title'', jidx (permission_titles p reg) entry)])) m)
        | v \<Rightarrow> v))"

definition no_store :: "reply \<Rightarrow> reply" where
  "no_store rp = (case rp of (resp, body) \<Rightarrow> (resp\<lparr>rs_headers := insert_header ''cache-control'' ''no-store'' (rs_headers resp)\<rparr>, body))"

definition permissions_answer :: "admin_env \<Rightarrow> web_request \<Rightarrow> registry \<Rightarrow> reply \<times> registry" where
  "permissions_answer env r reg =
     (if rq_meth r = ''GET'' \<or> rq_meth r = ''HEAD'' then
        let details = list_ex (\<lambda>kv. kv = (''details'', ''1'')) (ad_form env (case rq_query r of None \<Rightarrow> [] | Some q \<Rightarrow> q)) in
        (no_store (plain_response 200, if rq_meth r = ''HEAD'' then BodyEmpty else BodyJson (permission_listing (ad_pki env) details reg)), reg)
      else if rq_meth r = ''PUT'' \<or> rq_meth r = ''DELETE'' then
        (case write_request env r reg of (x, reg') \<Rightarrow>
          (no_store (case x of
             Inl e \<Rightarrow> (plain_response (if e = constraint_failed then 409 else error_status e), BodyText (error_text e))
           | Inr rp \<Rightarrow> rp), reg'))
      else ((\<lparr>rs_status = 405, rs_headers = [(''allow'', ''GET,HEAD,PUT,DELETE'')]\<rparr>, BodyEmpty), reg))"

section \<open>The resources together\<close>

text \<open>
  The resources share their tables: the settings check locations against the registered packages, and
  an installation checks its packages against the stored locations. Each works on its own view of them.
\<close>

definition row_view :: "package_row \<Rightarrow> pkg_row" where
  "row_view p = \<lparr>pr_name = pk_name p, pr_author = pk_author p, pr_has_lib = pk_has_lib p, pr_has_app = pk_has_app p\<rparr>"

definition volume_view :: "identity \<Rightarrow> volume" where
  "volume_view w = (id_volume w)\<lparr>vol_packages := Some (map row_view (rg_packages (dk_registry (ho_disk (id_host w)))))\<rparr>"

definition stored_locations :: "volume \<Rightarrow> string list" where
  "stored_locations vol = (case Option.bind (vol_setting vol) db_proxy of None \<Rightarrow> [] | Some rows \<Rightarrow> map fst rows)"

definition host_view :: "identity \<Rightarrow> host" where
  "host_view w = (id_host w)\<lparr>ho_proxies := stored_locations (id_volume w)\<rparr>"

definition with_registry :: "registry \<Rightarrow> identity \<Rightarrow> identity" where
  "with_registry reg w =
     w\<lparr>id_host := (id_host w)\<lparr>ho_disk := (ho_disk (id_host w))\<lparr>dk_registry := reg\<rparr>\<rparr>\<rparr>"

definition permissions_handler :: "admin_env \<Rightarrow> identity handler" where
  "permissions_handler env r w =
     (case permissions_answer env r (dk_registry (ho_disk (id_host w))) of (rp, reg) \<Rightarrow> (rp, with_registry reg w))"

definition config_handler :: "admin_env \<Rightarrow> identity handler" where
  "config_handler env r w = (case config_answer env r (volume_view w) of (rp, vol) \<Rightarrow> 
     (rp, w\<lparr>id_volume := vol\<lparr>vol_packages := vol_packages (id_volume w)\<rparr>\<rparr>))"

definition packages_handler :: "admin_env \<Rightarrow> identity handler" where
  "packages_handler env r w = (case manage (ad_manage env) r (host_view w) of (rp, host) \<Rightarrow> 
     (rp, w\<lparr>id_host := host\<lparr>ho_proxies := ho_proxies (id_host w)\<rparr>\<rparr>))"

definition admin_route :: "admin_env \<Rightarrow> string \<Rightarrow> identity handler option" where
  "admin_route env path =
     (if path = ''/std/acl/permissions'' then Some (permissions_handler env)
      else if path = ''/std/sys/listen'' \<or> path = ''/std/sys/mount'' then Some (config_handler env)
      else if path = ''/std/sys/pkg'' \<or> path = ''/std/sys/pkg/list'' \<or> path = ''/std/sys/pkg/install'' then Some (packages_handler env)
      else None)"

end
