(* ===== verification/Management_Laws.thy ===== *)
theory Management_Laws
  imports Management Serving_Laws
begin

text \<open>
  What the management of packages promises: requests of others than the owner change nothing; a removal
  is exact or has no effect; and whatever requests are served, the registry, the files and the running
  packages agree.
\<close>

section \<open>Removal\<close>

lemma remove_package_rows:
  assumes "Registry.remove_package norm pid reg = Inr (Some reg')" and "registry_ok reg"
  shows "rg_packages reg' = filter (\<lambda>p. pk_name p \<noteq> short_name pid) (rg_packages reg)"
    and "\<And>d. d \<in> set (rg_dependencies reg) \<Longrightarrow> dp_dependency d \<noteq> short_name pid"
proof -
  from assms(1) obtain reg1 where
    free: "\<And>d. d \<in> set (rg_dependencies reg) \<Longrightarrow> dp_dependency d \<noteq> short_name pid" and
    perm: "permissions (short_name pid) [] reg = Inr reg1" and
    reg': "reg' = drop_dependencies (short_name pid) (reg1\<lparr>rg_packages := filter (\<lambda>p. pk_name p \<noteq> short_name pid) (rg_packages reg1)\<rparr>)"
    by (auto simp: remove_package_def Let_def try_r_Inr_iff list_ex_iff split: if_splits)
  show "rg_packages reg' = filter (\<lambda>p. pk_name p \<noteq> short_name pid) (rg_packages reg)"
    using permissions_ok(2) [OF perm] assms(2) by (simp add: reg' drop_dependencies_def registry_ok_def)
  show "d \<in> set (rg_dependencies reg) \<Longrightarrow> dp_dependency d \<noteq> short_name pid" for d by (rule free)
qed

lemma registered_found:
  assumes "row \<in> set (rg_packages reg)" and "row_id row = pid"
  shows "registered_packages norm reg ''pkg'' (Some pid) \<noteq> Inl RouteNotFound"
proof
  assume nf: "registered_packages norm reg ''pkg'' (Some pid) = Inl RouteNotFound"
  let ?rows = "sort_key row_id (filter (\<lambda>p. in_kind ''pkg'' p \<and> is_none_or (\<lambda>i. row_id p = i) (Some pid)) (rg_packages reg))"
  let ?add = "\<lambda>p records. try_r (valid_id norm (row_id p)) (\<lambda>_.
        try_r (ensure_r (\<not> (short_name (row_id p) \<noteq> pk_name p \<or> list_ex (\<lambda>r. short_name (fst r) = pk_name p) records))
                 (InvalidConfig ''invalid or conflicting installed package name'')) (\<lambda>_.
        Inr (records @ [(row_id p, pk_version p)])))"
  have rows: "row \<in> set ?rows" using assms by (simp add: in_kind_def is_none_or_def)
  have grows: "fold_r ?add ps rs = Inr rs' \<Longrightarrow> length rs' = length rs + length ps" for ps rs rs'
    by (induction ps arbitrary: rs) (auto simp: try_r_Inr_iff)
  have fails: "fold_r ?add ps rs \<noteq> Inl RouteNotFound" for ps rs
    by (induction ps arbitrary: rs) (auto simp: try_r_Inl_iff valid_id_def split: option.splits)
  from nf fails [of ?rows "[]"] obtain records where "fold_r ?add ?rows [] = Inr records" "records = []"
    unfolding registered_packages_def by (auto simp: try_r_Inl_iff split: if_splits)
  then have "length ?rows = 0" using grows [of ?rows "[]" records] by (simp only: list.size add_0_left)
  with rows show False by (metis length_0_conv list.set(1) empty_iff)
qed

text \<open>What a removal by name leaves; nothing changes when there is no such package.\<close>

definition removed :: "host \<Rightarrow> string \<Rightarrow> host \<Rightarrow> bool" where
  "removed host name host' =
     (let reg = dk_registry (ho_disk host); gone = (\<lambda>pid. Some pid = map_option row_id (find_package reg name)) in
      rg_packages (dk_registry (ho_disk host')) = filter (\<lambda>p. pk_name p \<noteq> name) (rg_packages reg) \<and>
      (\<forall>pid k. live (ho_disk host') (pid, k) = (if gone pid then None else live (ho_disk host) (pid, k))) \<and>
      (\<forall>pid. ho_libs host' pid = (if gone pid then None else ho_libs host pid) \<and>
             ho_apps host' pid = (if gone pid then None else ho_apps host pid)))"

lemma remove_opened:
  assumes "commit_packages_files jb f True [pid] reg (stage_disk [] (ho_disk host)) = (res, d)" and "clean_disk (ho_disk host)"
  shows "(settled f \<longrightarrow> clean_disk d) \<and>
    (case res of Inl _ \<Rightarrow> kept (cf_undo f = None) host (host\<lparr>ho_disk := d\<rparr>)
     | Inr _ \<Rightarrow> dk_registry d = reg \<and> (\<forall>s. live d s = (if fst s = pid then None else live (ho_disk host) s)))"
proof -
  let ?d0 = "stage_disk [] (ho_disk host)"
  from assms(2) have clean: "dk_marker ?d0 = None" "sl_backup (dk_slots ?d0 s) = None" for s
    unfolding clean_disk_def by (simp_all del: split_paired_All)
  have "distinct [pid]" by simp
  note out = commit_outcome [OF this clean(2,1) assms(1)]
  then have "settled f \<longrightarrow> clean_disk d" by (auto simp: clean_disk_def tidy_def)
  with out show ?thesis by (cases res) (auto simp: kept_def txn_slots_def)
qed

lemma remove_installed_outcome:
  assumes "remove_installed env pid host = (res, host')" and "running_ok host"
    and "row \<in> set (rg_packages (dk_registry (ho_disk host)))" and "row_id row = pid"
    and "u = (cf_undo (ie_fault (mg_install env)) = None)" and "opened = snd (open_installation (mg_install env) host)"
  shows "ho_libs host' = ho_libs host \<and> ho_apps host' = ho_apps host \<and> (settles (mg_install env) \<longrightarrow> clean_disk (ho_disk host')) \<and>
    (case res of Inl _ \<Rightarrow> kept u host host' \<or> kept u opened host'
     | Inr _ \<Rightarrow> Registry.remove_package (mg_norm env) pid (dk_registry (ho_disk opened)) = Inr (Some (dk_registry (ho_disk host'))) \<and>
         (\<forall>s. live (ho_disk host') s = (if fst s = pid then None else live (ho_disk host) s)))"
proof -
  have clean: "clean_disk (ho_disk host)" "clean_disk (ho_disk opened)"
    using assms(2) by (simp_all add: running_ok_def assms(6) open_installation_opened)
  note same = open_installation_opened [where env = "mg_install env" and host = host, folded assms(6)]
  have early: ?thesis if "res = Inl e" "host' = host \<or> host' = opened" for e
    using that clean same by (auto simp: kept_def)
  obtain r where o: "open_installation (mg_install env) host = (r, opened)" by (simp add: assms(6) prod_eq_iff)
  note run = assms(1) [unfolded remove_installed_def o prod.case Let_def]
  show ?thesis
  proof (cases "valid_id (mg_norm env) pid")
    case (Inl e)
    with run show ?thesis by (intro early [of e]) simp_all
  next
    case valid: (Inr v)
    show ?thesis
    proof (cases r)
      case (Inl e)
      with run valid show ?thesis by (intro early [of e]) simp_all
    next
      case (Inr v')
      let ?reg = "dk_registry (ho_disk opened)"
      let ?step = "try_r (if registered_packages (mg_norm env) ?reg ''pkg'' (Some pid) = Inl RouteNotFound then Inr ()
                         else ie_began (mg_install env)) (\<lambda>_. Registry.remove_package (mg_norm env) pid ?reg)"
      note run = run [unfolded valid Inr sum.case]
      show ?thesis
      proof (cases ?step)
        case (Inl e)
        with run show ?thesis by (intro early [of e]) simp_all
      next
        case (Inr x)
        from assms(3) same(8) have "row \<in> set (rg_packages ?reg)" by simp
        from registered_found [OF this assms(4)] Inr obtain reg where x: "x = Some reg"
          and rm: "Registry.remove_package (mg_norm env) pid ?reg = Inr (Some reg)"
          by (auto simp: remove_package_def Let_def try_r_Inr_iff split: if_splits)
        obtain d where c: "commit_packages_files (ie_journal_bytes (mg_install env)) (ie_fault (mg_install env)) True [pid] reg
            (stage_disk [] (ho_disk opened)) = (res, d)" and h: "host' = opened\<lparr>ho_disk := d\<rparr>"
          using run Inr x by (auto split: prod.splits)
        from remove_opened [OF c clean(2)] rm show ?thesis
          unfolding assms(5) by (cases res) (auto simp: h same)
      qed
    qed
  qed
qed

lemma delete_package_outcome:
  assumes "delete_package env name expected host = (res, host')" and "running_ok host"
    and "u = (cf_undo (ie_fault (mg_install env)) = None)" and "opened = snd (open_installation (mg_install env) host)"
  shows "(settles (mg_install env) \<longrightarrow> running_ok host') \<and>
    (case res of Inl _ \<Rightarrow> kept u host host' \<or> kept u opened host' | Inr _ \<Rightarrow> removed host name host' \<and>
      (\<forall>e. expected = Some e \<longrightarrow> (\<exists>row. find_package (dk_registry (ho_disk host)) name = Some row \<and> row_id row = e)))"
proof -
  let ?reg = "dk_registry (ho_disk host)"
  have same: "running_ok host' \<and> kept u host host'" if "host' = host"
    using that assms(2) by (simp add: kept_def)
  have after: "running_ok opened" unfolding assms(4) by (rule opened_running [OF assms(2)])
  show ?thesis
  proof (cases "find_package ?reg name")
    case None
    then have "p \<in> set (rg_packages ?reg) \<Longrightarrow> pk_name p \<noteq> name" for p
      by (auto simp: find_package_def find_None_iff)
    then have "removed host name host" unfolding removed_def Let_def None by (simp add: filter_id_conv)
    then show ?thesis
      using assms(1) same None by (auto simp: delete_package_def Let_def simp del: find_package_None_iff split: if_splits sum.splits)
  next
    case (Some row)
    note row = find_package_Some [OF Some]
    have name: "short_name (row_id row) = name"
      using row assms(2) row_id_short [of row] by (auto simp: running_ok_def registry_ok_def graph_ok_def)
    show ?thesis
    proof (cases "host' = host \<and> \<not> is_ok res")
      case True
      with same show ?thesis by (cases res) auto
    next
      case False
      let ?valid = "try_r (valid_id (mg_norm env) (row_id row)) (\<lambda>_.
        ensure_r (short_name (row_id row) = name) (InvalidConfig ''invalid installed package name''))"
      obtain v where read: "mg_read env = Inr v"
      proof (cases "mg_read env")
        case (Inl a)
        with assms(1) have "res = Inl a \<and> host' = host" by (simp add: delete_package_def)
        with False show ?thesis by simp
      qed blast
      note run = assms(1) [unfolded delete_package_def read sum.case]
      have open_host: "\<not> (expected \<noteq> None \<and> Some (row_id row) \<noteq> expected)" "\<not> ho_closed host"
        using run False Some by (auto simp: Let_def split: if_splits)
      have "?valid = Inr ()"
      proof (cases ?valid)
        case (Inl a)
        with run Some open_host have "res = Inl a \<and> host' = host"
          unfolding Let_def by (cases expected) simp_all
        with False show ?thesis by simp
      qed simp
      with open_host obtain r host1 where rm: "remove_installed env (row_id row) host = (r, host1)"
        and res: "case r of Inl e \<Rightarrow> res = Inl e \<and> host' = host1 | Inr _ \<Rightarrow> res = Inr () \<and>
          host' = host1\<lparr>ho_apps := (ho_apps host1)(row_id row := None), ho_libs := (ho_libs host1)(row_id row := None)\<rparr>"
        and e: "expected = None \<or> expected = Some (row_id row)"
        using run Some by (cases "remove_installed env (row_id row) host") (auto simp: Let_def split: sum.splits)
      note out = remove_installed_outcome [OF rm assms(2) conjunct1 [OF row] refl assms(3,4)]
      show ?thesis
      proof (cases r)
        case (Inl x)
        with res out row have k: "kept u host host' \<or> kept u opened host'" "settles (mg_install env) \<longrightarrow> clean_disk (ho_disk host')" by auto
        then have "settles (mg_install env) \<longrightarrow> running_ok host'"
          using same_running [OF _ assms(2), of host'] same_running [OF _ after, of host']
          by (auto simp: assms(3) settled_undone)
        with k Inl res show ?thesis by simp
      next
        case (Inr x)
        with out row have rp: "Registry.remove_package (mg_norm env) (row_id row) (dk_registry (ho_disk opened)) = Inr (Some (dk_registry (ho_disk host1)))"
          and files: "\<And>s. live (ho_disk host1) s = (if fst s = row_id row then None else live (ho_disk host) s)"
          and rest: "settles (mg_install env) \<longrightarrow> clean_disk (ho_disk host1)" "ho_libs host1 = ho_libs host" "ho_apps host1 = ho_apps host" by auto
        have ok: "registry_ok ?reg" "registry_ok (dk_registry (ho_disk opened))" using assms(2) after by (simp_all add: running_ok_def)
        have rows: "rg_packages (dk_registry (ho_disk host1)) = filter (\<lambda>p. pk_name p \<noteq> name) (rg_packages ?reg)"
          using remove_package_rows(1) [OF rp ok(2)] by (simp add: name assms(4) open_installation_opened)
        have kinds: "registered_kind (dk_registry (ho_disk host1)) s \<longleftrightarrow> registered_kind ?reg s \<and> fst s \<noteq> row_id row" for s
        proof -
          have "pk_name p \<noteq> name \<longleftrightarrow> row_id p \<noteq> row_id row" if "p \<in> set (rg_packages ?reg)" for p
            using that row ok(1) row_id_short [of p] name
            by (auto simp: registry_ok_def graph_ok_def distinct_map inj_on_def)
          then show ?thesis unfolding registered_kind_def rows by simp metis
        qed
        have "removed host name host'"
          using Inr res rest rows files by (auto simp: removed_def Let_def Some)
        moreover have "settles (mg_install env) \<longrightarrow> running_ok host'"
          using assms(2) Inr res rest kinds files remove_package_ok [OF rp ok(2)] unfolding running_ok_def by auto
        ultimately show ?thesis using Inr res e Some by auto
      qed
    qed
  qed
qed

section \<open>Requests\<close>

lemma install_store_running:
  assumes "running_ok host" and "settles (mg_install env)"
  shows "running_ok (snd (install_store_package env publisher name version host))"
proof -
  have "running_ok (snd (install_packages (mg_install env) ordered host))" for ordered
    using installs.step_inv [OF _ assms(1), of "(mg_install env, ordered)"] assms(2) by simp
  then show ?thesis
    using assms(1) by (auto simp: install_store_package_def Let_def case_prod_unfold split: sum.splits)
qed

lemma manage_request_running:
  assumes "running_ok host" and "settles (mg_install env)"
  shows "running_ok (snd (manage_request env r host))"
proof -
  have "running_ok (snd (delete_package env name expected host))" for name expected
    using delete_package_outcome [OF _ assms(1) refl refl, of env name expected] assms(2) by (metis prod.collapse)
  with install_store_running [OF assms] assms(1) show ?thesis
    by (auto simp: manage_request_def case_prod_unfold split: sum.splits manage_action.splits)
qed

interpretation managed: guarded_machine "\<lambda>(env, r) host. snd (manage env r host)" running_ok
    "\<lambda>(env, r). settles (mg_install env)"
  by unfold_locales (auto simp: manage_def case_prod_unfold manage_request_running)

text \<open>
  Registry, files and sandbox agree, whatever management requests are served, of whomever
  and with whatever outcome: installations of packages with their dependencies, removals, queries and
  requests that are refused. A resource is on the disk exactly when the registry has it, and what runs is
  exactly what is on the disk.
\<close>

lemma management_stays_consistent:
  assumes "running_ok host" and "\<forall>(env, r) \<in> set requests. settles (mg_install env)"
  shows "running_ok (fold (\<lambda>(env, r) host. snd (manage env r host)) requests host)"
  using assms by (intro managed.run_inv) (auto simp: list_all_iff)

text \<open>
  Property C15: a removal is exact or has no effect. It succeeds only for the owner, with 204; the package
  of that name, which has the expected identity if one was given, is then gone from the registry, the
  disk and the sandbox, and every other package is as it was. A removal that is refused or fails, because
  other packages depend on it or in its file transaction, leaves everything as it was: registry and
  sandbox always, the files unless the rollback fails too, which the next start makes good (C21). The
  preparation of the database, which commits before, is the only other change: it moves operations that
  earlier releases mounted below \<^verbatim>\<open>/std\<close>, and changes nothing where there are none.
\<close>

theorem package_removal_exact:
  assumes "running_ok host" and "manage_checks env r = Inr (Inr (ManageRemove name expected))"
    and "manage_request env r host = (res, host')"
    and "u = (cf_undo (ie_fault (mg_install env)) = None)" and "opened = snd (open_installation (mg_install env) host)"
  shows "(case res of Inl _ \<Rightarrow> kept u host host' \<or> kept u opened host'
    | Inr rp \<Rightarrow> rp = status_reply 204 \<and> is_ok (require_owner (mg_gate env) (mg_endpoint env) r) \<and> removed host name host' \<and>
        (expected = None \<or> expected = map_option row_id (find_package (dk_registry (ho_disk host)) name))) \<and>
    (current_operations (dk_registry (ho_disk host)) \<longrightarrow> opened = host)"
proof (cases "require_owner (mg_gate env) (mg_endpoint env) r")
  case (Inl e)
  with assms(3) open_installation_current show ?thesis by (auto simp: manage_request_def kept_def assms(5))
next
  case (Inr u')
  obtain r1 host1 where d: "delete_package env name expected host = (r1, host1)" by fastforce
  note out = delete_package_outcome [OF d assms(1,4,5)]
  have "current_operations (dk_registry (ho_disk host)) \<longrightarrow> opened = host" using open_installation_current assms(5) by simp
  moreover have "case res of Inl _ \<Rightarrow> kept u host host' \<or> kept u opened host'
    | Inr rp \<Rightarrow> rp = status_reply 204 \<and> is_ok (require_owner (mg_gate env) (mg_endpoint env) r) \<and> removed host name host' \<and>
        (expected = None \<or> expected = map_option row_id (find_package (dk_registry (ho_disk host)) name))"
    using assms(2,3) Inr d out by (cases r1; cases expected) (auto simp: manage_request_def)
  ultimately show ?thesis by blast
qed

lemma others_manage_nothing:
  assumes "\<not> is_ok (require_owner (mg_gate env) (mg_endpoint env) r)"
  shows "snd (manage env r host) = host" "\<exists>e. fst (manage_request env r host) = Inl e"
proof -
  obtain e where "require_owner (mg_gate env) (mg_endpoint env) r = Inl e"
    using assms by (cases "require_owner (mg_gate env) (mg_endpoint env) r") auto
  then show "snd (manage env r host) = host" "\<exists>e. fst (manage_request env r host) = Inl e"
    by (simp_all add: manage_def manage_request_def case_prod_unfold)
qed

section \<open>A removal by the owner\<close>

definition example_visitor :: visitor where
  "example_visitor = \<lparr>vi_name = ''a.b'', vi_subject = ''o''\<rparr>"

definition example_manage :: manage_env where
  "example_manage = \<lparr>mg_install = example_install_env, mg_store = example_store, mg_gate = example_gate, mg_endpoint = example_endpoint,
     mg_decode = Some, mg_api_json = (\<lambda>_. JNull), mg_summary = (\<lambda>_ _ _. None), mg_read = Inr (), mg_body_time = Some 0, mg_version = ''1''\<rparr>"

definition example_removal :: web_request where
  "example_removal = example_web\<lparr>rq_meth := ''DELETE'', rq_path := ''/std/sys/pkg'', rq_query := Some ''name=x'',
     rq_headers := [], wq_visitor := Some example_visitor, wq_body := []\<rparr>"

lemma management_stays_consistent_witness:
  "running_ok (snd (manage example_manage example_removal lib_host))"
  using management_stays_consistent [OF lib_host_running, of "[(example_manage, example_removal)]"]
  by (simp add: example_manage_def settled_def no_faults_def)

lemma example_removal_simps [simp]:
  "rq_meth example_removal = ''DELETE''" "rq_path example_removal = ''/std/sys/pkg''" "rq_query example_removal = Some ''name=x''"
  "rq_headers example_removal = []" "wq_visitor example_removal = Some example_visitor" "wq_body example_removal = []"
  by (simp_all add: example_removal_def)

lemma example_manage_simps [simp]:
  "mg_install example_manage = example_install_env" "mg_gate example_manage = example_gate"
  "mg_endpoint example_manage = example_endpoint" "mg_decode example_manage = Some" "mg_read example_manage = Inr ()" "mg_body_time example_manage = Some 0"
  by (simp_all add: example_manage_def)

lemma example_name_parameter: "name_parameter example_manage False (Some ''name=x'') = Inr (Some ''x'')"
  by (simp add: name_parameter_def str_eval)

lemma example_removal_checks: "manage_checks example_manage example_removal = Inr (Inr (ManageRemove ''x'' None))"
  by (simp add: manage_checks_def version_supported_def example_name_parameter get_all_def get_header_def contains_key_def
      valid_id_def package_name_ok_def str_eval Let_def is_some_and_def)

theorem package_removal_exact_witness:
  "case fst (manage_request example_manage example_removal lib_host) of
     Inl _ \<Rightarrow> same_installation lib_host (snd (manage_request example_manage example_removal lib_host))
   | Inr rp \<Rightarrow> rp = status_reply 204 \<and> removed lib_host ''x'' (snd (manage_request example_manage example_removal lib_host))"
proof -
  have "current_operations (dk_registry (ho_disk lib_host))"
    by (simp add: current_operations_def lib_host_def) (simp add: empty_registry_def)
  moreover have "(cf_undo (ie_fault (mg_install example_manage)) = None) = True" by (simp add: no_faults_def)
  note this [symmetric]
  ultimately show ?thesis
    using package_removal_exact [OF lib_host_running example_removal_checks, of "fst (manage_request example_manage example_removal lib_host)"
        "snd (manage_request example_manage example_removal lib_host)" True, OF _ _ refl]
    by (auto split: sum.splits)
qed

end
