(* ===== verification/Owner_Resources_Laws.thy ===== *)
theory Owner_Resources_Laws
  imports Owner_Resources Management_Laws
begin

text \<open>
  What the administration of an identity promises: settings, registry, files and running packages fit
  together after every request, and no configured location covers the mount of an installed package.
\<close>

section \<open>Locations and mounts\<close>

definition mount_of :: "slot \<Rightarrow> string" where
  "mount_of s = (case snd s of App \<Rightarrow> ''/app/'' | Lib \<Rightarrow> ''/'') @ short_name (fst s)"

text \<open>A resource that is mounted outside \<^verbatim>\<open>/std\<close>.\<close>

definition mounted :: "slot \<Rightarrow> bool" where
  "mounted s = (snd s = App \<or> \<not> is_standard_author (split_first (CHR ''/'') (fst s)))"

definition mount_clear :: "string list \<Rightarrow> slot \<Rightarrow> bool" where
  "mount_clear locations s = (mounted s \<longrightarrow> (\<forall>l \<in> set locations. \<not> proxy_conflict (mount_of s) l))"

definition row_free :: "proxy_location list \<Rightarrow> package_row \<Rightarrow> bool" where
  "row_free proxies row =
     ((pk_has_app row \<longrightarrow> (\<forall>l \<in> set proxies. \<not> occupies (''/app/'' @ pk_name row) l)) \<and>
      (pk_has_lib row \<longrightarrow> is_none_or (\<lambda>a. \<not> is_standard_author a) (pk_author row) \<longrightarrow>
         (\<forall>l \<in> set proxies. \<not> occupies (''/'' @ pk_name row) l)))"

lemma trim_under:
  assumes "p = m \<or> starts_with (m @ ''/'') p" and "m \<noteq> []" and "last m \<noteq> CHR ''/''"
  shows "under_mount (trim_end_matches (CHR ''/'') p) m"
proof -
  have trim: "trim_end_matches (CHR ''/'') (m @ q) = m @ trim_end_matches (CHR ''/'') q" for q
  proof -
    have "dropWhile (\<lambda>x. x = CHR ''/'') (rev q @ rev m) = dropWhile (\<lambda>x. x = CHR ''/'') (rev q) @ rev m"
      if "hd (rev m) \<noteq> CHR ''/''" "rev m \<noteq> []"
      using that by (cases "rev m") (auto simp: dropWhile_append dropWhile_eq_Nil_conv)
    with assms(2,3) show ?thesis by (simp add: trim_end_matches_def hd_rev)
  qed
  from assms(1) consider "p = m" | q where "p = m @ CHR ''/'' # q" by (auto simp: starts_with_iff)
  then show ?thesis
  proof cases
    case 1
    have "trim_end_matches (CHR ''/'') m = m" using trim [of "[]"] by (simp add: trim_end_matches_def)
    with 1 show ?thesis by (simp add: under_mount_def)
  next
    case 2
    have "trim_end_matches (CHR ''/'') (CHR ''/'' # q) = [] \<or> hd (trim_end_matches (CHR ''/'') (CHR ''/'' # q)) = CHR ''/''"
      by (induction q rule: rev_induct) (auto simp: trim_end_matches_def dropWhile_append)
    with 2 trim [of "CHR ''/'' # q"] show ?thesis
      by (cases "trim_end_matches (CHR ''/'') (CHR ''/'' # q)") (auto simp: under_mount_def strip_prefix_append is_some_and_def starts_with_def)
  qed
qed

lemma occupies_conflict:
  assumes "occupies m l" and "m \<noteq> []" and "last m \<noteq> CHR ''/''"
  shows "proxy_conflict m (pl_location l)"
  using trim_under [OF _ assms(2,3)] assms(1) by (simp add: occupies_def proxy_conflict_def location_path_def split: option.splits)

lemma check_mounts_iff:
  "check_proxy_mounts (Some (map row_view rows)) proxies = Inr () \<longleftrightarrow>
     (\<forall>l \<in> set proxies. \<not> reserved (location_path (pl_location l))) \<and> (\<forall>row \<in> set rows. row_free proxies row)"
proof -
  have loop: "fold_r (\<lambda>name _. (case find (occupies (f name)) proxies of None \<Rightarrow> Inr () | Some l \<Rightarrow> Inl (g name l))) ns () = Inr u \<longleftrightarrow>
      (\<forall>n \<in> set ns. \<forall>l \<in> set proxies. \<not> occupies (f n) l)" for f ns u and g :: "string \<Rightarrow> proxy_location \<Rightarrow> error"
  proof (induction ns)
    case (Cons n ns)
    show ?case
    proof (cases "find (occupies (f n)) proxies")
      case None
      then have "\<forall>l \<in> set proxies. \<not> occupies (f n) l" by (simp add: find_None_iff)
      with None Cons show ?thesis by simp
    next
      case (Some l)
      then have "l \<in> set proxies" "occupies (f n) l" by (auto simp: find_Some_iff)
      with Some show ?thesis by auto
    qed
  qed simp
  show ?thesis
    unfolding check_proxy_mounts_def Let_def option.case try_r_Inr_iff loop
    by (auto simp: list_ex_iff row_view_def row_free_def)
qed

section \<open>What a management request registers\<close>

text \<open>A resource of a new package: its identity is an author and a name, and no location covers its mount.\<close>

definition fresh_mount :: "string list \<Rightarrow> slot \<Rightarrow> bool" where
  "fresh_mount locations s = (mount_clear locations s \<and>
     (\<exists>author name. fst s = author @ ''/'' @ name \<and> CHR ''/'' \<notin> set author \<and> CHR ''/'' \<notin> set name \<and> name \<noteq> []))"

lemma prepared_parts:
  assumes "prepared env packages c"
  shows "\<exists>author name. pl_id c = author @ ''/'' @ name \<and> CHR ''/'' \<notin> set author \<and> CHR ''/'' \<notin> set name \<and> name \<noteq> []"
proof -
  from assms obtain author name where s: "split_once (CHR ''/'') (pl_id c) = Some (author, name)"
    and v: "valid_id (normalize_name (ie_pki env)) (pl_id c) = Inr ()" by (auto simp: prepared_def)
  from s have "pl_id c = author @ CHR ''/'' # name" "CHR ''/'' \<notin> set author" by (auto simp: split_once_Some_iff)
  moreover from s v have "package_name_ok name" by (auto simp: valid_id_def try_r_Inr_iff split: if_splits)
  then have "CHR ''/'' \<notin> set name" "name \<noteq> []"
    by (auto simp: is_some_and_def package_name_ok_def list_all_iff is_ascii_lowercase_def is_ascii_digit_def byte_def)
  ultimately show ?thesis by auto
qed

lemma check_routes_clear: "check_routes tk locations d pid k files = Inr () \<Longrightarrow> mount_clear locations (pid, k)"
  by (auto simp: check_routes_def Let_def try_r_Inr_iff mount_clear_def mounted_def mount_of_def find_None_iff split: option.splits if_splits)

lemma plan_package_routes:
  assumes "plan_package env host last_one r package fc = Inr (Some c)" and "has_kind (pl_meta c) k"
  shows "mount_clear (ho_proxies host) (pl_id c, k)"
  using assms
  by (cases k) (auto simp: plan_package_def Let_def try_r_Inr_iff dest: check_routes_clear split: prod.splits if_splits)

lemma prepare_loop_routes:
  assumes "prepare_loop env host rs names crls = (Inr changed, crls')" and "c \<in> set changed" and "has_kind (pl_meta c) k"
  shows "mount_clear (ho_proxies host) (pl_id c, k)"
  using assms
proof (induction rs arbitrary: names crls changed)
  case (Cons r rest)
  from Cons.prems(1) obtain package fc crls1 change changed' where
    plan: "plan_package env host (rest = []) r package fc = Inr change" and
    rest: "prepare_loop env host rest (short_name (fst r) # names) crls1 = (Inr changed', crls')" and
    changed: "changed = (case change of None \<Rightarrow> [] | Some c \<Rightarrow> [c]) @ changed'"
    by (auto split: sum.splits prod.splits)
  from Cons.prems(2) changed consider "change = Some c" | "c \<in> set changed'" by (auto split: option.splits)
  then show ?case
  proof cases
    case 1
    with plan Cons.prems(3) show ?thesis by (auto intro: plan_package_routes)
  next
    case 2
    with Cons.IH [OF rest] Cons.prems(3) show ?thesis by simp
  qed
qed simp

lemma install_opened_mounts:
  assumes "install_opened env packages host = (Inr u, host')" and "running_ok host"
    and "registered_kind (dk_registry (ho_disk host')) s"
  shows "registered_kind (dk_registry (ho_disk host)) s \<or> fresh_mount (ho_proxies host) s"
proof -
  let ?st = "\<lparr>st_files = [], st_libs = [], st_apps = []\<rparr>"
  from assms(1) obtain changed crls reg staged crls' where
    p: "prepare_loop env host packages [] (ho_crls host) = (Inr changed, crls)" and
    reg: "register_packages (ie_render env) (ie_now env) (map (planned_change (ie_tools env)) changed) (dk_registry (ho_disk host)) = Inr reg" and
    c: "commit_installation env changed reg staged (host\<lparr>ho_crls := crls'\<rparr>) = (Inr u, host')"
    by (auto simp: install_opened_def try_r_Inr_iff split: prod.splits sum.splits)
  note prepared = prepare_loop_ok [OF p]
  have distinct: "distinct (map pl_id changed)" using prepared by (simp add: distinct_map inj_on_def)
  let ?d0 = "stage_disk (st_files staged) (ho_disk host)"
  have "clean_disk (ho_disk host)" using assms(2) by (simp add: running_ok_def)
  then have clean: "dk_marker ?d0 = None" "sl_backup (dk_slots ?d0 s) = None" for s
    unfolding clean_disk_def by (simp_all del: split_paired_All)
  obtain r d where cd: "commit_packages_files (ie_journal_bytes env) (ie_fault env) False (map pl_id changed) reg ?d0 = (r, d)" by fastforce
  with c have "\<exists>v. r = Inr v" "ho_disk host' = d" by (cases r; auto simp: commit_installation_def Let_def)+
  with commit_outcome [OF distinct clean(2,1) cd] have "dk_registry (ho_disk host') = reg" by auto
  with assms(3) have new: "registered_kind reg s" by simp
  let ?changes = "map (planned_change (ie_tools env)) changed"
  have ids: "map fst ?changes = map pl_id changed" by (simp add: planned_change_def comp_def)
  have "registered_kind reg s = (case map_of ?changes (fst s) of None \<Rightarrow> registered_kind (dk_registry (ho_disk host)) s | Some (m, _) \<Rightarrow> has_kind m (snd s))"
  proof (rule register_packages_kinds [OF reg, of "normalize_name (ie_pki env)"])
    show "registry_ok (dk_registry (ho_disk host))" using assms(2) by (simp add: running_ok_def)
    show "distinct (map fst ?changes)" unfolding ids by (rule distinct)
    show "\<forall>c \<in> set ?changes. registrable (normalize_name (ie_pki env)) (fst c)"
      using prepared prepared_registrable by (fastforce simp: planned_change_def)
  qed
  note kinds = this [unfolded planned_lookup [OF distinct]]
  show ?thesis
  proof (cases "find (\<lambda>c. pl_id c = fst s) changed")
    case None
    with kinds new show ?thesis by simp
  next
    case (Some c)
    then have c: "c \<in> set changed" "pl_id c = fst s" by (auto simp: find_Some_iff)
    with Some kinds new prepare_loop_routes [OF p c(1), of "snd s"] prepared_parts [of env packages c] prepared
    show ?thesis by (simp add: fresh_mount_def)
  qed
qed

lemma kept_kinds:
  assumes "kept u host host' \<or> kept u (snd (open_installation env host)) host'"
  shows "registered_kind (dk_registry (ho_disk host')) = registered_kind (dk_registry (ho_disk host))"
proof -
  have "rg_packages (dk_registry (ho_disk host')) = rg_packages (dk_registry (ho_disk host))"
    using assms open_installation_opened(8) [of env host] by (auto simp: kept_def)
  then show ?thesis by (rule registered_kind_cong)
qed

lemma install_mounts:
  assumes "install_packages env packages host = (res, host')" and "running_ok host"
    and "registered_kind (dk_registry (ho_disk host')) s"
  shows "registered_kind (dk_registry (ho_disk host)) s \<or> fresh_mount (ho_proxies host) s"
proof (cases res)
  case (Inl e)
  have "clean_disk (ho_disk host)" using assms(2) by (simp add: running_ok_def)
  with install_packages_cases [OF assms(1)] Inl kept_kinds [of "cf_undo (ie_fault env) = None" host host' env] assms(3)
  show ?thesis by auto
next
  case (Inr u)
  let ?h = "snd (open_installation env host)"
  have "install_opened env packages ?h = (Inr u, host')"
    using assms(1) Inr by (auto simp: install_packages_def split: if_splits prod.splits sum.splits)
  from install_opened_mounts [OF this opened_running [OF assms(2)] assms(3)]
  show ?thesis using registered_kind_cong [OF open_installation_opened(8) [of env host]] by (simp add: open_installation_opened)
qed

lemma install_store_mounts:
  assumes "running_ok host" and "registered_kind (dk_registry (ho_disk (snd (install_store_package env author name version host)))) s"
  shows "registered_kind (dk_registry (ho_disk host)) s \<or> fresh_mount (ho_proxies host) s"
proof -
  have inst: "registered_kind (dk_registry (ho_disk host)) s \<or> fresh_mount (ho_proxies host) s"
    if "registered_kind (dk_registry (ho_disk (snd (install_packages (mg_install env) ordered host)))) s" for ordered
  proof -
    obtain r host' where i: "install_packages (mg_install env) ordered host = (r, host')" by fastforce
    with install_mounts [OF i assms(1)] that show ?thesis by simp
  qed
  then show ?thesis
    using assms(2) by (auto simp: install_store_package_def Let_def case_prod_unfold split: sum.splits)
qed

lemma delete_package_kinds:
  assumes "running_ok host" and "registered_kind (dk_registry (ho_disk (snd (delete_package env name expected host)))) s"
  shows "registered_kind (dk_registry (ho_disk host)) s"
proof -
  obtain r host' where d: "delete_package env name expected host = (r, host')" by fastforce
  note out = delete_package_outcome [OF d assms(1) refl refl]
  show ?thesis
  proof (cases r)
    case (Inl e)
    with out have "registered_kind (dk_registry (ho_disk host')) = registered_kind (dk_registry (ho_disk host))"
      by (intro kept_kinds [of "cf_undo (ie_fault (mg_install env)) = None" _ _ "mg_install env"]) simp
    with assms(2) d show ?thesis by simp
  next
    case (Inr u)
    with out assms(2) d show ?thesis by (auto simp: removed_def Let_def registered_kind_def)
  qed
qed

lemma manage_mounts:
  assumes "running_ok host" and "registered_kind (dk_registry (ho_disk (snd (manage env r host)))) s"
  shows "registered_kind (dk_registry (ho_disk host)) s \<or> fresh_mount (ho_proxies host) s"
proof -
  have "registered_kind (dk_registry (ho_disk (snd (manage_request env r host)))) s"
    using assms(2) by (simp add: manage_def case_prod_unfold)
  then show ?thesis
    using install_store_mounts [OF assms(1)] delete_package_kinds [OF assms(1)]
    by (auto simp: manage_request_def case_prod_unfold split: sum.splits manage_action.splits)
qed

section \<open>Identities\<close>

definition identity_ok :: "http_env \<Rightarrow> identity \<Rightarrow> bool" where
  "identity_ok http w = (running_ok (id_host w) \<and> vol_ok http (volume_view w))"

lemma running_ok_view: "running_ok (host_view w) = running_ok (id_host w)"
  by (simp add: running_ok_def host_view_def)

text \<open>The settings of an identity fit its packages: what that means row by row.\<close>

lemma vol_ok_rows:
  "vol_ok http (vol\<lparr>vol_packages := Some (map row_view rows)\<rparr>) \<longleftrightarrow>
     (\<forall>db. vol_setting vol = Some db \<longrightarrow> db_version db = 3 \<longrightarrow> (\<exists>c. read_config http db = Inr c \<and>
        (\<forall>l \<in> set (cfg_proxies c). \<not> reserved (location_path (pl_location l))) \<and> (\<forall>row \<in> set rows. row_free (cfg_proxies c) row)))"
  by (auto simp: vol_ok_def is_ok_iff read_server_config_def try_r_Inr_iff check_mounts_iff split: option.splits)

lemma read_config_locations:
  assumes "read_config http db = Inr c" and "vol_setting vol = Some db"
  shows "pl_location ` set (cfg_proxies c) = set (stored_locations vol)"
proof -
  from assms(1) obtain rows where "db_proxy db = Some rows" "parse_proxies http (sort_key fst rows) = Inr (cfg_proxies c)"
    by (auto simp: read_config_def Let_def try_r_Inr_iff)
  with parse_proxies_ok(2) [OF this(2)] assms(2) show ?thesis by (simp add: stored_locations_def)
qed

lemma row_id_inj:
  assumes "row_id a = row_id b" and "CHR ''/'' \<notin> set (pk_name a)" and "CHR ''/'' \<notin> set (pk_name b)"
  shows "pk_name a = pk_name b \<and> pk_author a = pk_author b"
proof -
  have "pk_name a = pk_name b" using assms row_id_short [of a] row_id_short [of b] by metis
  with assms show ?thesis by (auto simp: row_id_def split: option.splits)
qed

lemma append_slash_inj:
  "CHR ''/'' \<notin> set x \<Longrightarrow> CHR ''/'' \<notin> set y \<Longrightarrow> a @ ''/'' @ x = b @ ''/'' @ y \<Longrightarrow> a = b \<and> x = y"
proof -
  assume "CHR ''/'' \<notin> set x" "CHR ''/'' \<notin> set y" and e: "a @ ''/'' @ x = b @ ''/'' @ y"
  then have "x = y" using rsplit_first_after [of "CHR ''/''" x a] rsplit_first_after [of "CHR ''/''" y b] by simp
  with e show ?thesis by simp
qed

lemma fresh_row_free:
  assumes "fresh_mount locations (row_id row, k)" and "row_kind row k" and "CHR ''/'' \<notin> set (pk_name row)"
    and "pl_location ` set proxies \<subseteq> set locations"
  shows "k = App \<Longrightarrow> \<forall>l \<in> set proxies. \<not> occupies (''/app/'' @ pk_name row) l"
    and "k = Lib \<Longrightarrow> is_none_or (\<lambda>a. \<not> is_standard_author a) (pk_author row) \<Longrightarrow> \<forall>l \<in> set proxies. \<not> occupies (''/'' @ pk_name row) l"
proof -
  from assms(1) obtain author name where id: "row_id row = author @ ''/'' @ name" "CHR ''/'' \<notin> set author" "CHR ''/'' \<notin> set name" "name \<noteq> []"
    and clear: "mount_clear locations (row_id row, k)" by (auto simp: fresh_mount_def)
  have a: "pk_author row = Some author" "pk_name row \<noteq> []"
    using id assms(3) append_slash_inj [of "pk_name row" name _ author] by (auto simp: row_id_def split: option.splits)
  have first: "split_first (CHR ''/'') (row_id row) = author"
    by (rule split_once_first [of _ _ _ name]) (simp add: split_once_Some_iff id)
  have last: "last (m @ pk_name row) \<noteq> CHR ''/''" for m
    using assms(3) last_in_set [OF a(2)] a(2) by (metis last_appendR)
  have none: "\<not> occupies (m @ pk_name row) l" if "mounted (row_id row, k)" "l \<in> set proxies" "mount_of (row_id row, k) = m @ pk_name row" for m l
    using that clear occupies_conflict [of "m @ pk_name row" l] last [of m] a(2) assms(4) by (auto simp: mount_clear_def)
  have short: "short_name (row_id row) = pk_name row" by (rule row_id_short [OF assms(3)])
  show "k = App \<Longrightarrow> \<forall>l \<in> set proxies. \<not> occupies (''/app/'' @ pk_name row) l"
    using none [of _ "''/app/''"] short by (simp add: mounted_def mount_of_def)
  show "k = Lib \<Longrightarrow> is_none_or (\<lambda>a. \<not> is_standard_author a) (pk_author row) \<Longrightarrow> \<forall>l \<in> set proxies. \<not> occupies (''/'' @ pk_name row) l"
    using none [of _ "''/''"] short first a(1) by (simp add: mounted_def mount_of_def is_none_or_def)
qed

lemma registered_rows:
  "row \<in> set (rg_packages reg) \<Longrightarrow> row_kind row k \<Longrightarrow> registered_kind reg (row_id row, k)"
  by (auto simp: registered_kind_def)

lemma packages_identity:
  assumes "identity_ok http w" and "settles (mg_install (ad_manage env))"
  shows "identity_ok http (snd (packages_handler env r w))"
proof -
  let ?host = "snd (manage (ad_manage env) r (host_view w))" and ?old = "dk_registry (ho_disk (id_host w))"
  have ok: "running_ok (host_view w)" using assms(1) by (simp add: identity_ok_def running_ok_view)
  then have new: "running_ok ?host" using managed.step_inv [of "(ad_manage env, r)" "host_view w"] assms(2) by simp
  have slash: "row \<in> set (rg_packages (dk_registry (ho_disk h))) \<Longrightarrow> CHR ''/'' \<notin> set (pk_name row)" if "running_ok h" for row h
    using that by (auto simp: running_ok_def registry_ok_def graph_ok_def)
  have free: "row_free (cfg_proxies c) row"
    if "read_config http db = Inr c" "vol_setting (id_volume w) = Some db" "\<forall>row \<in> set (rg_packages ?old). row_free (cfg_proxies c) row"
      "row \<in> set (rg_packages (dk_registry (ho_disk ?host)))" for db c row
  proof -
    have locations: "pl_location ` set (cfg_proxies c) \<subseteq> set (stored_locations (id_volume w))"
      using read_config_locations [OF that(1,2)] by simp
    note here = that
    have kinds: "(\<exists>o' \<in> set (rg_packages ?old). pk_name o' = pk_name row \<and> pk_author o' = pk_author row \<and> row_kind o' k) \<or>
        fresh_mount (stored_locations (id_volume w)) (row_id row, k)" if k: "row_kind row k" for k
    proof -
      have "registered_kind ?old (row_id row, k) \<or> fresh_mount (stored_locations (id_volume w)) (row_id row, k)"
        using manage_mounts [OF ok registered_rows [OF here(4) k]] by (simp add: host_view_def)
      then show ?thesis
      proof
        assume "registered_kind ?old (row_id row, k)"
        then obtain o' where o': "o' \<in> set (rg_packages ?old)" "row_id o' = row_id row" "row_kind o' k"
          by (auto simp: registered_kind_def)
        have "CHR ''/'' \<notin> set (pk_name o')" using slash [OF ok, of o'] o'(1) by (simp add: host_view_def)
        from row_id_inj [OF o'(2) this slash [OF new here(4)]] o' show ?thesis by blast
      qed simp
    qed
    show ?thesis
      unfolding row_free_def
    proof (intro conjI impI)
      assume "pk_has_app row"
      then show "\<forall>l \<in> set (cfg_proxies c). \<not> occupies (''/app/'' @ pk_name row) l"
        using kinds [of App] fresh_row_free(1) [OF _ _ slash [OF new here(4)] locations, of App] here(3)
        by (auto simp: row_kind_def row_free_def)
    next
      assume "pk_has_lib row" "is_none_or (\<lambda>a. \<not> is_standard_author a) (pk_author row)"
      then show "\<forall>l \<in> set (cfg_proxies c). \<not> occupies (''/'' @ pk_name row) l"
        using kinds [of Lib] fresh_row_free(2) [OF _ _ slash [OF new here(4)] locations, of Lib] here(3)
        by (auto simp: row_kind_def row_free_def)
    qed
  qed
  have "vol_ok http (volume_view (w\<lparr>id_host := ?host\<lparr>ho_proxies := x\<rparr>\<rparr>))" for x
    using assms(1) free by (fastforce simp: identity_ok_def volume_view_def vol_ok_rows)
  moreover have "running_ok (?host\<lparr>ho_proxies := x\<rparr>)" for x using new by (simp add: running_ok_def)
  ultimately show ?thesis by (simp add: packages_handler_def identity_ok_def case_prod_unfold)
qed

lemma initialize_keeps_packages:
  assumes "initialize_config vol = Inr vol'" and "vol_packages vol = Some rows"
  shows "vol_packages vol' = Some rows"
  using assms(1) by (cases rule: initialize_config_cases) (use assms(2) in simp_all)

lemma config_keeps_packages:
  assumes "config_database env pq vol mtd p q payload = (res, vol')" and "vol_packages vol = Some rows"
  shows "vol_packages vol' = Some rows"
  using assms(1) by (cases rule: config_database_cases) (use assms(2) initialize_keeps_packages in auto)

lemma config_request_volume:
  assumes "config_request env r vol = (res, vol')" and "vol_ok (ge_http (ad_gate env)) vol" and "vol_packages vol = Some rows"
  shows "vol_ok (ge_http (ad_gate env)) vol' \<and> vol_packages vol' = Some rows"
proof -
  consider "vol' = vol" | v payload where
      "config_database (ge_http (ad_gate env)) (ad_form env) vol (rq_meth r) (rq_path r) (rq_query r) payload = (v, vol')"
    using assms(1) by (auto simp: config_request_def case_prod_unfold prod_eq_iff split: sum.splits)
  then show ?thesis
    by cases (use assms(2,3) config_database_vol_ok config_keeps_packages in blast)+
qed

lemma config_identity:
  assumes "identity_ok (ge_http (ad_gate env)) w"
  shows "identity_ok (ge_http (ad_gate env)) (snd (config_handler env r w))"
proof -
  let ?rows = "map row_view (rg_packages (dk_registry (ho_disk (id_host w))))"
  obtain res vol' where c: "config_request env r (volume_view w) = (res, vol')" by fastforce
  have "vol_ok (ge_http (ad_gate env)) vol' \<and> vol_packages vol' = Some ?rows"
    using config_request_volume [OF c, of ?rows] assms by (simp add: identity_ok_def volume_view_def)
  moreover from this have "volume_view (w\<lparr>id_volume := vol'\<lparr>vol_packages := x\<rparr>\<rparr>) = vol'" for x by (simp add: volume_view_def)
  ultimately show ?thesis
    using assms c by (simp add: config_handler_def config_answer_def case_prod_unfold identity_ok_def)
qed

lemma write_request_registry:
  assumes "write_request env r reg = (res, reg')" and "registry_ok reg"
  shows "registry_ok reg' \<and> rg_packages reg' = rg_packages reg"
proof -
  consider "reg' = reg" | name groups where
      "write_declarations (mg_norm (ad_manage env)) (ad_render env) (ad_operations env name) name (rq_meth r) groups reg = Inr reg'"
    using assms(1) by (auto simp: write_request_def case_prod_unfold split: sum.splits)
  then show ?thesis
  proof cases
    case 2
    then have "rg_packages reg' = rg_packages reg"
      using permissions_ok(2) assms(2) by (fastforce simp: write_declarations_def Let_def try_r_Inr_iff registry_ok_def)
    with write_declarations_ok [OF 2 assms(2)] show ?thesis by simp
  qed (simp add: assms(2))
qed

lemma permissions_identity:
  assumes "identity_ok http w"
  shows "identity_ok http (snd (permissions_handler env r w))"
proof -
  let ?old = "dk_registry (ho_disk (id_host w))"
  obtain rp reg where a: "permissions_answer env r ?old = (rp, reg)" by fastforce
  have ok: "registry_ok ?old" using assms by (simp add: identity_ok_def running_ok_def)
  have "registry_ok reg \<and> rg_packages reg = rg_packages ?old"
  proof -
    consider "reg = ?old" | res where "write_request env r ?old = (res, reg)"
      using a by (auto simp: permissions_answer_def case_prod_unfold prod_eq_iff split: if_splits)
    then show ?thesis by cases (use ok write_request_registry in auto)
  qed
  moreover from this have "registered_kind reg = registered_kind ?old" by (intro registered_kind_cong) simp
  ultimately show ?thesis
    using assms a by (simp add: permissions_handler_def identity_ok_def with_registry_def running_ok_def volume_view_def clean_disk_def)
qed

section \<open>The routes\<close>

text \<open>What a request to one of the resources leaves; other paths are not theirs.\<close>

definition administered :: "admin_env \<Rightarrow> web_request \<Rightarrow> identity \<Rightarrow> identity" where
  "administered env r w = (case admin_route env (rq_path r) of Some handler \<Rightarrow> snd (handler r w) | None \<Rightarrow> w)"

lemma administered_ok:
  assumes "identity_ok (ge_http (ad_gate env)) w" and "settles (mg_install (ad_manage env))"
  shows "identity_ok (ge_http (ad_gate env)) (administered env r w)"
  using assms packages_identity config_identity permissions_identity by (simp add: administered_def admin_route_def)

text \<open>Whoever is the peer on a connection to the identity itself.\<close>

definition from_local :: "gate_env \<Rightarrow> web_request \<Rightarrow> bool" where
  "from_local env r = (\<exists>a own s. peer r = Some a \<and> local_side r = Some own \<and> au_name a = au_name own \<and>
     subject_of env (au_certificates a) = Some s \<and> subject_of env (au_certificates own) = Some s)"

lemma permission_owner_from_local:
  assumes "permission_owner env q = Inr u" and "authorized (ad_gate env) auth r w q w'"
  shows "from_local (ad_gate env) r"
proof -
  from assms(1) obtain x own ko where x: "wq_visitor q = Some x" "local_side q = Some own" "vi_name x = au_name own"
      "subject_key_of (ad_pki env) (au_certificates own) = Some ko" "ge_subject (ad_gate env) (sk_owner ko) = Some (vi_subject x)"
    by (auto simp: permission_owner_def try_r_Inr_iff)
  from assms(2) x have "verified (ad_gate env) r (Some x)" and q: "q = r\<lparr>wq_visitor := Some x\<rparr>" by (auto simp: authorized_def)
  moreover have "local_side q = local_side r" by (simp add: q local_side_def split: option.split)
  ultimately show ?thesis using x by (auto simp: from_local_def verified_def subject_of_def)
qed

text \<open>A handler behind the authorization layer that changes nothing for this peer.\<close>

lemma refused_behind_gate:
  assumes "\<And>q w'. authorized env auth r w q w' \<Longrightarrow> snd (k q w') = w'"
  shows "snd (authorize env auth k r w) = snd (authorize env auth (\<lambda>q w. (fst (k q w), w)) r w)"
proof -
  have "authorize env auth k r w = authorize env auth (\<lambda>q w. (fst (k q w), w)) r w"
    by (rule gate.agree) (use assms in \<open>metis prod.collapse\<close>)
  then show ?thesis by simp
qed

lemma others_change_nothing:
  assumes "admin_route env path = Some handler"
    and "\<not> is_ok (require_owner (ad_gate env) (mg_endpoint (ad_manage env)) q)" and "\<not> is_ok (permission_owner env q)"
  shows "snd (handler q w) = w"
proof -
  obtain e where e: "require_owner (ad_gate env) (mg_endpoint (ad_manage env)) q = Inl e"
    using assms(2) by (cases "require_owner (ad_gate env) (mg_endpoint (ad_manage env)) q") auto
  obtain f where f: "permission_owner env q = Inl f" using assms(3) by (cases "permission_owner env q") auto
  have "snd (packages_handler env q w) = w"
    using others_manage_nothing(1) [OF assms(2)] by (simp add: packages_handler_def host_view_def case_prod_unfold)
  moreover have "snd (config_handler env q w) = w"
    using e by (simp add: config_handler_def config_answer_def config_request_def volume_view_def case_prod_unfold)
  moreover have "snd (permissions_handler env q w) = w"
    using f by (simp add: permissions_handler_def permissions_answer_def write_request_def with_registry_def case_prod_unfold)
  ultimately show ?thesis using assms(1) by (auto simp: admin_route_def split: if_splits)
qed

end
