(* ===== verification/Ocsp.thy ===== *)
theory Ocsp
  imports Access_Gate
begin

text \<open>
  The revocation proof that an identity staples to its certificate (\<^verbatim>\<open>src/server/ocsp.rs\<close>) and the
  credentials that publishing a name needs (\<^verbatim>\<open>authority\<close> and \<^verbatim>\<open>publisher\<close> of \<^verbatim>\<open>src/dns.rs\<close>).

  The certificate parsers, the DER encoding of a request, the HTTP client and the validation of a
  response are parameters; every error text of them is the part that failed.
\<close>

section \<open>Requests for a proof\<close>

text \<open>The three values by which a responder knows a certificate.\<close>

record cert_id =
  ci_name_hash :: string
  ci_key_hash :: string
  ci_serial :: string

text \<open>
  \<open>oc_validity\<close> is whether a certificate can be parsed and is within its validity period now;
  \<open>oc_access\<close> lists, for every authority information access extension, the methods with their location
  if it is a URI. \<open>oc_issuer\<close> is the encoded subject of a certificate and the bits of its key. \<open>oc_post\<close>
  is the status and the body of an answer, \<open>oc_time\<close> when the whole exchange is over, in milliseconds.
\<close>

record ocsp_env =
  oc_validity :: "string \<Rightarrow> bool option"
  oc_access :: "string \<Rightarrow> (string \<times> string option) list list"
  oc_serial :: "string \<Rightarrow> string option"
  oc_issuer :: "string \<Rightarrow> (string \<times> string) option"
  oc_sha1 :: "string \<Rightarrow> string"
  oc_encode :: "cert_id \<Rightarrow> string option"
  oc_scheme :: "string \<Rightarrow> string option"
  oc_post :: "string \<Rightarrow> string \<Rightarrow> (nat \<times> frame list) option"
  oc_time :: "string \<Rightarrow> nat option"
  oc_valid :: "string \<Rightarrow> string list \<Rightarrow> bool"

definition ocsp_error :: "string \<Rightarrow> error" where
  "ocsp_error s = InvalidIdentity (''OCSP: '' @ s)"

definition responder_uri :: "ocsp_env \<Rightarrow> string \<Rightarrow> string option" where
  "responder_uri env leaf =
     (case List.map_filter (\<lambda>(m, uri). if m \<noteq> ''1.3.6.1.5.5.7.48.1'' then None else uri) (concat (oc_access env leaf)) of
        [] \<Rightarrow> None | uri # _ \<Rightarrow> Some uri)"

fun ocsp_body :: "frame list \<Rightarrow> string \<Rightarrow> string res" where
  "ocsp_body [] acc = Inr acc"
| "ocsp_body (f # fs) acc = (case f of
     FrameError _ \<Rightarrow> Inl (ocsp_error ''body'')
   | FrameTrailers \<Rightarrow> ocsp_body fs acc
   | FrameData d \<Rightarrow>
       if length acc + length d > 64 * 1024 then Inl (ocsp_error ''response exceeds 64KiB'') else ocsp_body fs (acc @ d))"

definition ocsp_exchange :: "ocsp_env \<Rightarrow> string \<Rightarrow> string \<Rightarrow> string list \<Rightarrow> string res" where
  "ocsp_exchange env uri request certs =
     try_r (ok_or (oc_scheme env uri) (ocsp_error ''URL'')) (\<lambda>scheme.
     try_r (ensure_r (scheme = ''http'' \<or> scheme = ''https'') (ocsp_error ''unsupported responder scheme'')) (\<lambda>_.
     try_r (ok_or (oc_post env uri request) (ocsp_error ''connection'')) (\<lambda>(status, frames).
     try_r (ensure_r (200 \<le> status \<and> status < 300) (ocsp_error ''responder returned an error'')) (\<lambda>_.
     try_r (ocsp_body frames []) (\<lambda>body.
     try_r (ensure_r (oc_valid env body certs) (ocsp_error ''invalid response'')) (\<lambda>_.
     Inr body))))))"

definition fetch_ocsp :: "ocsp_env \<Rightarrow> string list \<Rightarrow> string res" where
  "fetch_ocsp env certs =
     try_r (ok_or (case certs of [] \<Rightarrow> None | c # _ \<Rightarrow> Some c) (ocsp_error ''missing certificate'')) (\<lambda>leaf.
     try_r (ok_or (case certs of _ # c # _ \<Rightarrow> Some c | _ \<Rightarrow> None) (ocsp_error ''missing issuer certificate'')) (\<lambda>issuer.
     try_r (ok_or (oc_validity env leaf) (ocsp_error ''certificate'')) (\<lambda>current.
     try_r (ensure_r current (ocsp_error ''certificate is outside its validity period'')) (\<lambda>_.
     try_r (ok_or (responder_uri env leaf) (ocsp_error ''certificate has no OCSP responder URI'')) (\<lambda>uri.
     try_r (ok_or (oc_serial env leaf) (ocsp_error ''certificate'')) (\<lambda>serial.
     try_r (ok_or (oc_issuer env issuer) (ocsp_error ''issuer certificate'')) (\<lambda>(subject, key).
     try_r (ok_or (oc_encode env \<lparr>ci_name_hash = oc_sha1 env subject, ci_key_hash = oc_sha1 env key, ci_serial = serial\<rparr>)
              (ocsp_error ''request'')) (\<lambda>request.
     try_r (ensure_r (is_some_and (\<lambda>t. t \<le> 15 * 1000) (oc_time env uri)) (ocsp_error ''responder timed out after 15 seconds'')) (\<lambda>_.
     ocsp_exchange env uri request certs)))))))))"

section \<open>Credentials that may publish\<close>

definition dns_authority :: "gate_env \<Rightarrow> endpoint \<Rightarrow> authority res" where
  "dns_authority env ep =
     try_r (map_err (\<lambda>_. Io OtherIo ''credentials'') (en_authority ep)) (\<lambda>authority.
     try_r (ok_or (subject_key_of (ge_pki env) (au_certificates authority)) (Io OtherIo ''subject key'')) (\<lambda>ski.
     try_r (ensure_r (sk_client_and_server ski)
              (Io InvalidInput (en_name ep @ '': listening requires ClientAndServer publishing credentials''))) (\<lambda>_.
     Inr authority)))"

text \<open>A publisher is the endpoint whose credentials it uses; \<open>resolver\<close> is the construction of the client.\<close>

definition dns_publisher :: "gate_env \<Rightarrow> (endpoint \<Rightarrow> bool) \<Rightarrow> endpoint \<Rightarrow> endpoint res" where
  "dns_publisher env resolver ep =
     try_r (dns_authority env ep) (\<lambda>_. try_r (ensure_r (resolver ep) (Io OtherIo ''resolver'')) (\<lambda>_. Inr ep))"

section \<open>What they promise\<close>

lemma ocsp_body_bounded:
  "ocsp_body fs acc = Inr body \<Longrightarrow> length acc \<le> 64 * 1024 \<Longrightarrow> length body \<le> 64 * 1024"
  by (induction fs arbitrary: acc) (auto split: frame.splits if_splits)

text \<open>A proof that is fetched is valid for the chain, bounded, and from the responder the leaf names.\<close>

lemma fetch_ocsp_sound:
  assumes "fetch_ocsp env certs = Inr body"
  shows "oc_valid env body certs" and "length body \<le> 64 * 1024"
    and "\<exists>leaf issuer rest. certs = leaf # issuer # rest \<and> oc_validity env leaf = Some True"
proof -
  from assms obtain uri request where ex: "ocsp_exchange env uri request certs = Inr body"
    and "\<exists>leaf issuer rest. certs = leaf # issuer # rest \<and> oc_validity env leaf = Some True"
    by (auto simp: fetch_ocsp_def try_r_Inr_iff split: list.splits prod.splits)
  then show "\<exists>leaf issuer rest. certs = leaf # issuer # rest \<and> oc_validity env leaf = Some True" by blast
  from ex show "oc_valid env body certs" "length body \<le> 64 * 1024"
    by (auto simp: ocsp_exchange_def try_r_Inr_iff dest: ocsp_body_bounded split: prod.splits)
qed

lemma dns_publisher_Inr [dest]: "dns_publisher env resolver ep = Inr p \<Longrightarrow> p = ep"
  by (auto simp: dns_publisher_def try_r_Inr_iff)

end
