(* ===== verification/Supervision.thy ===== *)
theory Supervision
  imports Ocsp
begin

text \<open>
  The life of the servers of a process (\<^verbatim>\<open>src/server.rs\<close>, \<^verbatim>\<open>src/server/run.rs\<close>): how a server is loaded,
  listens, takes a new configuration or new credentials and closes; which identities a process
  discovers; and the scan that makes the running servers agree with the identities and their settings.

  A scan is a function of what the code outside the program answers during it (\<open>scan_env\<close>): the file
  system, the settings of the identities, the DHTTP endpoint and the tasks that a server has to wait
  for. Different scans have different answers. Announcements in the local network are the names for
  which a responder may hold a record: \<^verbatim>\<open>maintain_mdns\<close> adds the names it publishes and
  \<^verbatim>\<open>remove_mdns_name\<close> drops one.
\<close>

section \<open>State\<close>

record profile =
  pf_name :: string
  pf_path :: string

datatype scope = Loopback | Internal | External

datatype scopes = OneScope scope | AllScopes

text \<open>
  The router of a server by what \<^verbatim>\<open>current_router\<close> takes from it, the credentials and the proxy table
  (theory \<open>Development\<close> has the router itself); a closed server has the empty router. A listener is
  registered with the credentials and the scopes it was made with; it shares the router.
\<close>

record server =
  sv_profile :: profile
  sv_endpoint :: endpoint
  sv_config :: server_config
  sv_router :: "(endpoint \<times> proxy_location list) option"
  sv_publisher :: "endpoint option"
  sv_listener :: "(endpoint \<times> scopes) option"
  sv_closed :: bool

text \<open>The servers in the order of their names, and the announced names.\<close>

record supervisor =
  sp_servers :: "(string \<times> server) list"
  sp_announced :: "string list"

datatype path_kind = PathDir | PathOther | PathAbsent | PathError error

datatype load_failure = CredentialFailure string | OtherFailure string

datatype getent = GetentText string | GetentInvalid | GetentFailed | GetentMissing | GetentError error

record scan_env =
  sc_gate :: gate_env
  sc_ocsp :: ocsp_env
  sc_query :: "string \<Rightarrow> (string \<times> string) list"
  sc_getent :: getent
  sc_passwd :: "string res"
  sc_kind :: "string \<Rightarrow> path_kind"
  sc_user_home :: "string \<Rightarrow> string"
  sc_discover :: "string \<Rightarrow> profile list res"
  sc_volume :: "string \<Rightarrow> volume"
  sc_looked :: "string \<Rightarrow> unit res"
  sc_old_config :: "string \<Rightarrow> bool res"
  sc_tables :: "string \<Rightarrow> pkg_row list option \<times> setting_db"
  sc_directories :: "string \<Rightarrow> unit res"
  sc_certs :: "string \<Rightarrow> string list option"
  sc_cached :: "string \<Rightarrow> string option"
  sc_cache :: "string \<Rightarrow> string \<Rightarrow> unit res"
  sc_endpoint :: "string \<Rightarrow> (load_failure, endpoint) result"
  sc_reload :: "endpoint \<Rightarrow> (string, endpoint) result"
  sc_access :: "string \<Rightarrow> string \<Rightarrow> unit res"
  sc_libs :: "string \<Rightarrow> unit res"
  sc_contacts :: "string \<Rightarrow> (string, unit) result"
  sc_ownership :: "string \<Rightarrow> unit res"
  sc_log :: "string \<Rightarrow> scopes \<Rightarrow> unit res"
  sc_listen :: "endpoint \<Rightarrow> scopes \<Rightarrow> unit res"
  sc_resolver :: "endpoint \<Rightarrow> bool"
  sc_tasks :: "string \<Rightarrow> nat option"

section \<open>One server\<close>

definition published :: "string \<Rightarrow> bool" where
  "published listen = (listen = ''external'' \<or> listen = ''all'')"

definition announces :: "string \<Rightarrow> bool" where
  "announces listen = (listen = ''internal'' \<or> listen = ''all'')"

definition listen_scopes :: "string \<Rightarrow> scopes res" where
  "listen_scopes listen =
     (if listen = ''off'' then Inl (InvalidConfig ''listen is disabled'')
      else if listen = ''loopback'' then Inr (OneScope Loopback)
      else if listen = ''internal'' then Inr (OneScope Internal)
      else if listen = ''external'' then Inr (OneScope External)
      else if listen = ''all'' then Inr AllScopes
      else Inl (InvalidConfig ''invalid listen mode''))"

definition server_listen :: "scan_env \<Rightarrow> server \<Rightarrow> (endpoint \<times> scopes) res" where
  "server_listen env sv =
     try_r (listen_scopes (cfg_listen (sv_config sv))) (\<lambda>scopes.
     try_r (sc_log env (pf_path (sv_profile sv)) scopes) (\<lambda>_.
     try_r (sc_listen env (sv_endpoint sv) scopes) (\<lambda>_. Inr (sv_endpoint sv, scopes))))"

definition router_of :: "server \<Rightarrow> (endpoint \<times> proxy_location list) option" where
  "router_of sv = Some (sv_endpoint sv, cfg_proxies (sv_config sv))"

text \<open>Closing ends every resource and then waits up to 15 seconds for the calls of the sandbox.\<close>

definition server_close :: "scan_env \<Rightarrow> server \<Rightarrow> unit res \<times> server" where
  "server_close env sv =
     (ensure_r (is_some_and (\<lambda>t. t \<le> 15 * 1000) (sc_tasks env (pf_path (sv_profile sv)))) ShutdownDeadline,
      sv\<lparr>sv_listener := None, sv_publisher := None, sv_closed := True, sv_router := None\<rparr>)"

subsection \<open>Loading\<close>

definition config_error :: "error \<Rightarrow> error" where
  "config_error e = InvalidConfig (''configuration database: '' @ error_text e)"

definition load_server_config :: "http_env \<Rightarrow> volume \<Rightarrow> server_config res \<times> volume" where
  "load_server_config env vol = (case initialize_config vol of
     Inl e \<Rightarrow> (Inl (config_error e), vol)
   | Inr vol' \<Rightarrow> (map_err config_error (try_r (open_config vol' False) (read_server_config env (vol_packages vol'))), vol'))"

definition configure ::
  "http_env \<Rightarrow> (string \<Rightarrow> (string \<times> string) list) \<Rightarrow> volume \<Rightarrow> string option \<Rightarrow> bool \<Rightarrow> json res \<times> volume"
where
  "configure env parse_query vol mode initialize =
     (let ask = (\<lambda>vol. config_database env parse_query vol (if mode = None then ''GET'' else ''PATCH'') ''/std/sys/listen'' None
                         (map_option (\<lambda>listen. JObj [(''listen'', JStr listen)]) mode)) in
      if initialize
      then (case load_server_config env vol of (Inl e, vol') \<Rightarrow> (Inl e, vol') | (Inr _, vol') \<Rightarrow> ask vol')
      else ask vol)"

text \<open>The proof of the certificate: the cached one if it is still valid, a new one otherwise.\<close>

definition ensure_ocsp :: "scan_env \<Rightarrow> string \<Rightarrow> string list \<Rightarrow> unit res" where
  "ensure_ocsp env path certs =
     (if is_some_and (\<lambda>response. oc_valid (sc_ocsp env) response certs) (sc_cached env path) then Inr ()
      else try_r (fetch_ocsp (sc_ocsp env) certs) (\<lambda>response. sc_cache env path response))"

definition load_endpoint :: "scan_env \<Rightarrow> string \<Rightarrow> endpoint res" where
  "load_endpoint env path = map_err (\<lambda>f. case f of CredentialFailure s \<Rightarrow> InvalidIdentity s | OtherFailure s \<Rightarrow> Dhttp s) (sc_endpoint env path)"

definition server_load :: "scan_env \<Rightarrow> profile \<Rightarrow> volume \<Rightarrow> server res" where
  "server_load env profile vol =
     (let path = pf_path profile; (config, vol') = load_server_config (ge_http (sc_gate env)) vol in
     try_r (sc_directories env path) (\<lambda>_.
     try_r (ok_or (sc_certs env path) (InvalidIdentity ''certificates'')) (\<lambda>certs.
     try_r (ensure_ocsp env path certs) (\<lambda>_.
     try_r (load_endpoint env path) (\<lambda>ep.
     try_r (ok_or (subject_key_of (ge_pki (sc_gate env)) certs) (InvalidIdentity ''subject key'')) (\<lambda>ski.
     try_r (ok_or (ge_subject (sc_gate env) (sk_owner ski)) (InvalidIdentity ''invalid certificate subject'')) (\<lambda>subject.
     try_r (sc_access env path subject) (\<lambda>_.
     try_r config (\<lambda>config.
     try_r (if cfg_listen config \<noteq> ''off''
            then map_err (\<lambda>e. InvalidIdentity (error_text e)) (try_r (dns_authority (sc_gate env) ep) (\<lambda>_. Inr ()))
            else Inr ()) (\<lambda>_.
     try_r (if published (cfg_listen config)
            then try_r (dns_publisher (sc_gate env) (sc_resolver env) ep) (\<lambda>p. Inr (Some p)) else Inr None) (\<lambda>publisher.
     try_r (sc_libs env path) (\<lambda>_.
     try_r (open_config vol' False) (\<lambda>_.
     try_r (map_err InvalidConfig (sc_contacts env path)) (\<lambda>_.
     try_r (sc_ownership env path) (\<lambda>_.
     Inr \<lparr>sv_profile = profile, sv_endpoint = ep, sv_config = config, sv_router = Some (ep, cfg_proxies config),
          sv_publisher = publisher, sv_listener = None, sv_closed = False\<rparr>)))))))))))))))"

text \<open>
  The server of an identity that opted into hosting: there is a settings database, of this or of an
  older release, and it does not turn listening off. An identity that cannot serve is skipped. Looking
  for either database may fail (a directory above it that may not be searched); the older one is looked
  for only where the current one is absent.
\<close>

definition hosted :: "scan_env \<Rightarrow> string \<Rightarrow> volume \<Rightarrow> bool res" where
  "hosted env path vol =
     try_r (sc_looked env path) (\<lambda>_. if vol_setting vol \<noteq> None then Inr True else sc_old_config env path)"

definition load_profile :: "scan_env \<Rightarrow> profile \<Rightarrow> server option res" where
  "load_profile env profile =
     (let path = pf_path profile; vol = sc_volume env path; http = ge_http (sc_gate env) in
      try_r (hosted env path vol) (\<lambda>hosts.
      if \<not> hosts then Inr None
      else
       (case (case config_database http (sc_query env) vol ''GET'' ''/std/sys/listen'' None None of
                (Inr v, vol') \<Rightarrow> (Inr v, vol') | (Inl _, vol') \<Rightarrow> configure http (sc_query env) vol' None True) of
          (Inl e, _) \<Rightarrow> Inl e
        | (Inr settings, vol') \<Rightarrow>
            if jidx settings ''listen'' = JStr ''off'' then Inr None
            else (case server_load env profile vol' of
                Inr sv \<Rightarrow> if cfg_listen (sv_config sv) = ''off'' then try_r (fst (server_close env sv)) (\<lambda>_. Inr None) else Inr (Some sv)
              | Inl (InvalidIdentity _) \<Rightarrow> Inr None
              | Inl e \<Rightarrow> Inl e))))"

subsection \<open>New configurations and credentials\<close>

definition same_config :: "server_config \<Rightarrow> server_config \<Rightarrow> bool" where
  "same_config a b =
     (cfg_listen a = cfg_listen b \<and> length (cfg_proxies a) = length (cfg_proxies b) \<and>
      list_all (\<lambda>(x, y). pl_location x = pl_location y \<and> up_scheme (pl_pass x) = up_scheme (pl_pass y) \<and>
          up_authority (pl_pass x) = up_authority (pl_pass y) \<and> up_path (pl_pass x) = up_path (pl_pass y))
        (zip (cfg_proxies a) (cfg_proxies b)))"

definition next_publisher :: "scan_env \<Rightarrow> server \<Rightarrow> server_config \<Rightarrow> endpoint option res" where
  "next_publisher env sv config =
     (let scope_changed = (cfg_listen (sv_config sv) \<noteq> cfg_listen config) in
      if scope_changed \<and> cfg_listen config \<noteq> ''off'' then
        try_r (map_err (\<lambda>e. InvalidIdentity (error_text e)) (dns_authority (sc_gate env) (sv_endpoint sv))) (\<lambda>_.
        if published (cfg_listen config)
        then try_r (dns_publisher (sc_gate env) (sc_resolver env) (sv_endpoint sv)) (\<lambda>p. Inr (Some p))
        else Inr None)
      else if scope_changed then Inr None
      else Inr (sv_publisher sv))"

text \<open>
  Registering under the new scopes; when that fails, the previous configuration is registered again,
  which may fail as well.
\<close>

definition relisten :: "scan_env \<Rightarrow> server_config \<Rightarrow> server \<Rightarrow> unit res \<times> server" where
  "relisten env previous sv =
     (let sv = sv\<lparr>sv_listener := None\<rparr> in
      if cfg_listen (sv_config sv) = ''off'' then (Inr (), sv)
      else (case server_listen env sv of
          Inr l \<Rightarrow> (Inr (), sv\<lparr>sv_listener := Some l\<rparr>)
        | Inl e \<Rightarrow>
            (let sv = sv\<lparr>sv_config := previous\<rparr> in
             if cfg_listen previous = ''off'' then (Inl e, sv)
             else (case server_listen env sv of
                 Inr l \<Rightarrow> (Inl e, sv\<lparr>sv_listener := Some l\<rparr>)
               | Inl _ \<Rightarrow> (Inl e, sv)))))"

definition apply_config :: "scan_env \<Rightarrow> server \<Rightarrow> server_config \<Rightarrow> unit res \<times> server" where
  "apply_config env sv config = (case next_publisher env sv config of
     Inl e \<Rightarrow> (Inl e, sv)
   | Inr publisher \<Rightarrow>
       (case (if cfg_listen (sv_config sv) \<noteq> cfg_listen config then relisten env (sv_config sv) (sv\<lparr>sv_config := config\<rparr>)
              else (Inr (), sv\<lparr>sv_config := config\<rparr>)) of
          (Inl e, sv') \<Rightarrow> (Inl e, sv')
        | (Inr _, sv') \<Rightarrow> (Inr (), sv'\<lparr>sv_publisher := publisher, sv_router := router_of sv'\<rparr>)))"

definition apply_ocsp :: "scan_env \<Rightarrow> server \<Rightarrow> endpoint \<Rightarrow> unit res \<times> server" where
  "apply_ocsp env sv ep =
     (case (if published (cfg_listen (sv_config sv))
            then try_r (dns_publisher (sc_gate env) (sc_resolver env) ep) (\<lambda>p. Inr (Some p)) else Inr None) of
        Inl e \<Rightarrow> (Inl e, sv)
      | Inr publisher \<Rightarrow>
          (let sv' = sv\<lparr>sv_endpoint := ep, sv_publisher := publisher\<rparr> in (Inr (), sv'\<lparr>sv_router := router_of sv'\<rparr>)))"

text \<open>The renewal of a proof: fetched for the loaded chain and cached, then the endpoint loads it.\<close>

definition renew_ocsp :: "scan_env \<Rightarrow> profile \<Rightarrow> endpoint \<Rightarrow> endpoint res" where
  "renew_ocsp env profile ep =
     try_r (en_authority ep) (\<lambda>authority.
     try_r (fetch_ocsp (sc_ocsp env) (au_certificates authority)) (\<lambda>response.
     try_r (sc_cache env (pf_path profile) response) (\<lambda>_.
     map_err Dhttp (sc_reload env ep))))"

section \<open>The identities of a process\<close>

text \<open>Paths compare by their components, where \<^verbatim>\<open>..\<close> comes before every name.\<close>

definition path_key :: "string \<Rightarrow> string list" where
  "path_key p = map (\<lambda>s. if s = ''..'' then [] else s) (filter (\<lambda>s. s \<noteq> [] \<and> s \<noteq> ''.'') (split_on (CHR ''/'') p))"

fun dedup_key :: "('a \<Rightarrow> 'k) \<Rightarrow> 'a list \<Rightarrow> 'a list" where
  "dedup_key f (x # y # xs) = (if f x = f y then dedup_key f (x # xs) else x # dedup_key f (y # xs))"
| "dedup_key f xs = xs"

definition sorted_paths :: "string list \<Rightarrow> string list" where
  "sorted_paths ps = dedup_key path_key (sort_key path_key ps)"

definition text_lines :: "string \<Rightarrow> string list" where
  "text_lines s =
     (let ls = split_on (CHR 0x0A) s; ls = (if last ls = [] then butlast ls else ls) in
      map (\<lambda>l. if ends_with [CHR 0x0D] l then butlast l else l) ls)"

definition parse_account_homes :: "string \<Rightarrow> string list" where
  "parse_account_homes records =
     sorted_paths (filter (starts_with ''/'') (List.map_filter (\<lambda>line. (let fs = split_on (CHR '':'') line in
        if 5 < length fs then Some (fs ! 5) else None)) (text_lines records)))"

definition account_homes :: "scan_env \<Rightarrow> string list res" where
  "account_homes env =
     try_r (case sc_getent env of
              GetentText s \<Rightarrow> Inr s
            | GetentInvalid \<Rightarrow> Inl (InvalidConfig ''invalid account database'')
            | GetentFailed \<Rightarrow> Inl (InvalidConfig ''account discovery failed'')
            | GetentMissing \<Rightarrow> sc_passwd env
            | GetentError e \<Rightarrow> Inl e) (\<lambda>records.
     Inr (parse_account_homes records))"

definition add_home :: "scan_env \<Rightarrow> string \<Rightarrow> string list \<Rightarrow> string list res" where
  "add_home env user_home homes = (case sc_kind env user_home of
     PathDir \<Rightarrow> Inr (homes @ [sc_user_home env user_home])
   | PathError e \<Rightarrow> Inl e
   | _ \<Rightarrow> Inr homes)"

definition add_profile :: "profile \<Rightarrow> profile list \<Rightarrow> profile list res" where
  "add_profile profile profiles =
     (if list_ex (\<lambda>p. pf_name p = pf_name profile) profiles
      then Inl (InvalidConfig (''duplicate identity '' @ pf_name profile))
      else Inr (profiles @ [profile]))"

definition add_profiles :: "scan_env \<Rightarrow> string \<Rightarrow> profile list \<Rightarrow> profile list res" where
  "add_profiles env home profiles = (case sc_kind env home of
     PathDir \<Rightarrow> try_r (sc_discover env home) (\<lambda>found. fold_r add_profile found profiles)
   | PathError e \<Rightarrow> Inl e
   | _ \<Rightarrow> Inr profiles)"

definition discover_profiles :: "scan_env \<Rightarrow> string \<Rightarrow> string list option \<Rightarrow> profile list res" where
  "discover_profiles env home user_homes = (case user_homes of
     None \<Rightarrow> sc_discover env home
   | Some user_homes \<Rightarrow>
       try_r (fold_r (add_home env) user_homes [home]) (\<lambda>homes.
       try_r (fold_r (add_profiles env) (sorted_paths homes) []) (\<lambda>profiles.
       Inr (sort_key pf_name profiles))))"

section \<open>A scan\<close>

definition drop_server :: "string \<Rightarrow> supervisor \<Rightarrow> supervisor" where
  "drop_server name st = st\<lparr>sp_servers := filter (\<lambda>e. fst e \<noteq> name) (sp_servers st)\<rparr>"

definition put_server :: "string \<Rightarrow> server \<Rightarrow> supervisor \<Rightarrow> supervisor" where
  "put_server name sv st = st\<lparr>sp_servers := insort_key fst (name, sv) (filter (\<lambda>e. fst e \<noteq> name) (sp_servers st))\<rparr>"

definition remove_mdns_name :: "string \<Rightarrow> supervisor \<Rightarrow> supervisor" where
  "remove_mdns_name name st = st\<lparr>sp_announced := filter (\<lambda>n. n \<noteq> name) (sp_announced st)\<rparr>"

text \<open>A server whose identity is gone or has moved.\<close>

definition departed :: "profile list \<Rightarrow> string \<times> server \<Rightarrow> bool" where
  "departed profiles entry = (case entry of (name, sv) \<Rightarrow>
     \<not> list_ex (\<lambda>p. pf_name p = name \<and> pf_path p = pf_path (sv_profile sv)) profiles)"

text \<open>The server that is dropped is closed; a failure of that is only reported.\<close>

definition remove_server :: "string \<Rightarrow> supervisor \<Rightarrow> supervisor" where
  "remove_server name st = remove_mdns_name name (drop_server name st)"

text \<open>One identity with a running server; the result is only reported.\<close>

definition update_server :: "scan_env \<Rightarrow> string \<Rightarrow> server \<Rightarrow> supervisor \<Rightarrow> bool \<Rightarrow> unit res \<times> supervisor \<times> bool" where
  "update_server env name sv st changed =
     (case sc_tables env (pf_path (sv_profile sv)) of (packages, db) \<Rightarrow>
      case read_server_config (ge_http (sc_gate env)) packages db of
        Inl e \<Rightarrow> (Inl e, st, changed)
      | Inr config \<Rightarrow>
          if cfg_listen config = ''off'' then (fst (server_close env sv), remove_server name st, True)
          else if same_config (sv_config sv) config then (Inr (), st, changed)
          else
           (case apply_config env sv config of (r, sv') \<Rightarrow>
            let st1 = put_server name sv' st;
                st2 = (if \<not> announces (cfg_listen (sv_config sv')) \<or> sv_listener sv' = None then remove_mdns_name name st1 else st1);
                lost = (cfg_listen (sv_config sv') \<noteq> ''off'' \<and> sv_listener sv' = None);
                st3 = (if lost then drop_server name st2 else st2) in
            (case r of Inl e \<Rightarrow> (Inl e, st3, changed \<or> lost) | Inr _ \<Rightarrow> (Inr (), st3, True))))"

text \<open>One identity without a server.\<close>

definition start_server :: "scan_env \<Rightarrow> profile \<Rightarrow> supervisor \<Rightarrow> bool \<Rightarrow> unit res \<times> supervisor \<times> bool" where
  "start_server env profile st changed = (case load_profile env profile of
     Inl e \<Rightarrow> (Inl e, st, changed)
   | Inr None \<Rightarrow> (Inr (), st, changed)
   | Inr (Some sv) \<Rightarrow>
       if cfg_listen (sv_config sv) \<noteq> ''off'' then
         (case server_listen env sv of
            Inl e \<Rightarrow> (try_r (fst (server_close env sv)) (\<lambda>_. Inl e), st, changed)
          | Inr l \<Rightarrow> (Inr (), put_server (pf_name profile) (sv\<lparr>sv_listener := Some l\<rparr>) st, True))
       else (Inr (), put_server (pf_name profile) sv st, True))"

definition reconcile_identity :: "scan_env \<Rightarrow> profile \<Rightarrow> supervisor \<Rightarrow> bool \<Rightarrow> unit res \<times> supervisor \<times> bool" where
  "reconcile_identity env profile st changed = (case map_of (sp_servers st) (pf_name profile) of
     Some sv \<Rightarrow> update_server env (pf_name profile) sv st changed
   | None \<Rightarrow> start_server env profile st changed)"

fun reconcile_all :: "scan_env \<Rightarrow> profile list \<Rightarrow> supervisor \<Rightarrow> bool \<Rightarrow> supervisor \<times> bool" where
  "reconcile_all env [] st changed = (st, changed)"
| "reconcile_all env (p # ps) st changed =
     (case reconcile_identity env p st changed of (_, st', changed') \<Rightarrow> reconcile_all env ps st' changed')"

definition reconcile_profiles :: "scan_env \<Rightarrow> string \<Rightarrow> string list option \<Rightarrow> supervisor \<Rightarrow> bool res \<times> supervisor" where
  "reconcile_profiles env home user_homes st = (case discover_profiles env home user_homes of
     Inl e \<Rightarrow> (Inl e, st)
   | Inr profiles \<Rightarrow>
       (let removed = map fst (filter (departed profiles) (sp_servers st)) in
        case reconcile_all env profiles (fold remove_server removed st) (removed \<noteq> []) of
          (st', changed) \<Rightarrow> (Inr changed, st')))"

end
