(* ===== verification/Supervision_Laws.thy ===== *)
theory Supervision_Laws
  imports Supervision
begin

text \<open>
  What a scan promises: every server that is kept listens and routes by the configuration it has, a
  failure of one identity has no effect on another, and a failed discovery has no effect at all.
\<close>

section \<open>Servers that serve\<close>

definition server_ok :: "server \<Rightarrow> bool" where
  "server_ok sv =
     (let listen = cfg_listen (sv_config sv) in
      valid_listen listen \<and> \<not> sv_closed sv \<and>
      map_option (Inr \<circ> snd) (sv_listener sv) = Some (listen_scopes listen) \<and>
      sv_publisher sv = (if published listen then Some (sv_endpoint sv) else None) \<and>
      sv_router sv = router_of sv)"

definition supervisor_ok :: "supervisor \<Rightarrow> bool" where
  "supervisor_ok st = (sorted (map fst (sp_servers st)) \<and> distinct (map fst (sp_servers st)) \<and>
     (\<forall>(name, sv) \<in> set (sp_servers st). server_ok sv \<and> pf_name (sv_profile sv) = name))"

definition server_at :: "supervisor \<Rightarrow> string \<Rightarrow> server option" where
  "server_at st = map_of (sp_servers st)"

lemma same_config_iff: "same_config a b \<longleftrightarrow> a = b"
proof -
  have "list_all (\<lambda>(x, y). pl_location x = pl_location y \<and> up_scheme (pl_pass x) = up_scheme (pl_pass y) \<and>
          up_authority (pl_pass x) = up_authority (pl_pass y) \<and> up_path (pl_pass x) = up_path (pl_pass y)) (zip xs ys) \<longleftrightarrow> xs = ys"
    if "length xs = length ys" for xs ys :: "proxy_location list"
    using that by (induction xs ys rule: list_induct2) auto
  then show ?thesis by (cases a; cases b) (auto simp: same_config_def)
qed

lemma valid_listen_not_off [simp]: "valid_listen l \<Longrightarrow> l \<noteq> ''off''" "\<not> valid_listen ''off''"
  by (auto simp: valid_listen_def)

lemma read_config_listen: "read_server_config http packages db = Inr c \<Longrightarrow> cfg_listen c = ''off'' \<or> valid_listen (cfg_listen c)"
  by (auto simp: read_server_config_def read_config_def Let_def try_r_Inr_iff split: option.splits)

lemma load_config_listen: "load_server_config http vol = (Inr c, vol') \<Longrightarrow> cfg_listen c = ''off'' \<or> valid_listen (cfg_listen c)"
  by (auto simp: load_server_config_def map_err_def try_r_Inr_iff dest!: read_config_listen split: sum.splits)

lemma server_listen_Inr:
  "server_listen env sv = Inr l \<Longrightarrow> fst l = sv_endpoint sv \<and> listen_scopes (cfg_listen (sv_config sv)) = Inr (snd l)"
  by (auto simp: server_listen_def try_r_Inr_iff)

lemma server_load_facts:
  assumes "server_load env profile vol = Inr sv"
  shows "sv_profile sv = profile" "\<not> sv_closed sv" "sv_router sv = router_of sv"
    "cfg_listen (sv_config sv) = ''off'' \<or> valid_listen (cfg_listen (sv_config sv))"
    "sv_publisher sv = (if published (cfg_listen (sv_config sv)) then Some (sv_endpoint sv) else None)"
    "load_endpoint env (pf_path profile) = Inr (sv_endpoint sv)"
proof -
  obtain config vol' where l: "load_server_config (ge_http (sc_gate env)) vol = (config, vol')" by fastforce
  note facts = assms [unfolded server_load_def Let_def l prod.case]
  show "sv_profile sv = profile" "\<not> sv_closed sv" "sv_router sv = router_of sv"
    "load_endpoint env (pf_path profile) = Inr (sv_endpoint sv)"
    using facts by (auto simp: try_r_Inr_iff router_of_def)
  show "cfg_listen (sv_config sv) = ''off'' \<or> valid_listen (cfg_listen (sv_config sv))"
    using facts l by (auto simp: try_r_Inr_iff dest: load_config_listen)
  show "sv_publisher sv = (if published (cfg_listen (sv_config sv)) then Some (sv_endpoint sv) else None)"
    using facts by (auto simp: try_r_Inr_iff split: if_splits)
qed

lemma load_profile_facts:
  assumes "load_profile env profile = Inr (Some sv)"
  shows "sv_profile sv = profile" "\<not> sv_closed sv" "sv_router sv = router_of sv" "valid_listen (cfg_listen (sv_config sv))"
    "sv_publisher sv = (if published (cfg_listen (sv_config sv)) then Some (sv_endpoint sv) else None)"
    "load_endpoint env (pf_path profile) = Inr (sv_endpoint sv)"
proof -
  from assms obtain vol where l: "server_load env profile vol = Inr sv" and on: "cfg_listen (sv_config sv) \<noteq> ''off''"
    unfolding load_profile_def hosted_def Let_def
    by (auto simp: try_r_Inr_iff split: if_splits prod.splits sum.splits error.splits)
  show "sv_profile sv = profile" "\<not> sv_closed sv" "sv_router sv = router_of sv" "valid_listen (cfg_listen (sv_config sv))"
    "sv_publisher sv = (if published (cfg_listen (sv_config sv)) then Some (sv_endpoint sv) else None)"
    "load_endpoint env (pf_path profile) = Inr (sv_endpoint sv)"
    using server_load_facts [OF l] on by auto
qed

text \<open>
  A new configuration is taken completely or not at all. After a failure the server still has its old
  configuration, router and publisher, and has lost its listener only if it could not be restored.
\<close>

lemma apply_config_outcome:
  assumes "apply_config env sv config = (r, sv')" and "server_ok sv" and "valid_listen (cfg_listen config)"
  shows "sv_profile sv' = sv_profile sv \<and> sv_endpoint sv' = sv_endpoint sv \<and> (case r of
      Inr _ \<Rightarrow> server_ok sv' \<and> sv_config sv' = config
    | Inl _ \<Rightarrow> sv_config sv' = sv_config sv \<and> sv' = sv\<lparr>sv_listener := sv_listener sv'\<rparr> \<and> (sv_listener sv' = None \<or> server_ok sv'))"
proof (cases "next_publisher env sv config")
  case (Inl e)
  with assms show ?thesis by (auto simp: apply_config_def)
next
  case (Inr publisher)
  note ok = assms(2) [unfolded server_ok_def Let_def]
  show ?thesis
  proof (cases "cfg_listen (sv_config sv) = cfg_listen config")
    case True
    with assms Inr show ?thesis
      by (auto simp: apply_config_def next_publisher_def server_ok_def Let_def router_of_def)
  next
    case False
    have pub: "publisher = (if published (cfg_listen config) then Some (sv_endpoint sv) else None)"
      using Inr False assms(3) by (auto simp: next_publisher_def Let_def try_r_Inr_iff split: if_splits)
    let ?s = "sv\<lparr>sv_config := config, sv_listener := None\<rparr>" and ?b = "sv\<lparr>sv_listener := None\<rparr>"
    show ?thesis
    proof (cases "server_listen env ?s")
      case (Inr l)
      with assms(1) \<open>next_publisher env sv config = Inr publisher\<close> False assms(3)
      have "r = Inr () \<and> sv' = ?s\<lparr>sv_listener := Some l, sv_publisher := publisher, sv_router := Some (sv_endpoint sv, cfg_proxies config)\<rparr>"
        by (auto simp: apply_config_def relisten_def router_of_def)
      then show ?thesis
        using server_listen_Inr [OF Inr] pub ok assms(3) by (cases l) (auto simp: server_ok_def Let_def router_of_def)
    next
      case (Inl e)
      have "r = Inl e \<and> sv' = (case server_listen env ?b of Inr l \<Rightarrow> sv\<lparr>sv_listener := Some l\<rparr> | Inl _ \<Rightarrow> ?b)"
        using assms(1) \<open>next_publisher env sv config = Inr publisher\<close> False assms(3) ok Inl
        by (auto simp: apply_config_def relisten_def split: sum.splits)
      then show ?thesis
        using ok by (auto simp: server_ok_def Let_def router_of_def dest!: server_listen_Inr split: sum.splits)
    qed
  qed
qed

section \<open>The map of servers\<close>

lemma map_of_insort: "n \<notin> fst ` set xs \<Longrightarrow> map_of (insort_key fst (n, v) xs) = (map_of xs)(n \<mapsto> v)"
  by (induction xs) (auto simp: fun_eq_iff)

lemma map_of_filter_out: "map_of (filter (\<lambda>e. fst e \<noteq> n) xs) = (map_of xs)(n := None)"
  by (induction xs) (auto simp: fun_eq_iff)

lemma distinct_insort_fst: "n \<notin> fst ` set xs \<Longrightarrow> distinct (map fst xs) \<Longrightarrow> distinct (map fst (insort_key fst (n, v) xs))"
  by (induction xs) (auto simp: set_insort_key)

lemma insort_drop: "filter (\<lambda>e. fst e \<noteq> n) (insort_key fst (n, v) xs) = filter (\<lambda>e. fst e \<noteq> n) xs"
  by (induction xs) auto

lemma drop_server_simps [simp]:
  "drop_server n (put_server n sv st) = drop_server n st"
  "drop_server n (remove_mdns_name m st) = remove_mdns_name m (drop_server n st)"
  by (simp_all add: drop_server_def put_server_def remove_mdns_name_def insort_drop)

lemma server_at_simps [simp]:
  "server_at (drop_server n st) = (server_at st)(n := None)"
  "server_at (put_server n sv st) = (server_at st)(n \<mapsto> sv)"
  "server_at (remove_mdns_name n st) = server_at st"
  "server_at (remove_server n st) = (server_at st)(n := None)"
proof -
  have fresh: "n \<notin> fst ` set (filter (\<lambda>e. fst e \<noteq> n) (sp_servers st))" by auto
  show "server_at (put_server n sv st) = (server_at st)(n \<mapsto> sv)"
    unfolding server_at_def put_server_def by (simp add: map_of_insort [OF fresh] map_of_filter_out)
qed (auto simp: server_at_def drop_server_def remove_mdns_name_def remove_server_def map_of_filter_out)

lemma supervisor_ok_at: "supervisor_ok st \<Longrightarrow> server_at st n = Some sv \<Longrightarrow> server_ok sv \<and> pf_name (sv_profile sv) = n"
  by (auto simp: supervisor_ok_def server_at_def dest: map_of_SomeD)

lemma supervisor_ok_drop: "supervisor_ok st \<Longrightarrow> supervisor_ok (drop_server n st)"
  by (auto simp: supervisor_ok_def drop_server_def sorted_filter distinct_map_filter)

lemma supervisor_ok_put:
  assumes "supervisor_ok st" and "server_ok sv" and "pf_name (sv_profile sv) = n"
  shows "supervisor_ok (put_server n sv st)"
proof -
  let ?xs = "filter (\<lambda>e. fst e \<noteq> n) (sp_servers st)"
  have "sorted (map fst ?xs)" "distinct (map fst ?xs)"
    using assms(1) by (auto simp: supervisor_ok_def sorted_filter distinct_map_filter)
  moreover have "n \<notin> fst ` set ?xs" by auto
  ultimately have "sorted (map fst (insort_key fst (n, sv) ?xs))" "distinct (map fst (insort_key fst (n, sv) ?xs))"
    using distinct_insort_fst by (simp_all only: sorted_insort_key)
  then show ?thesis
    using assms by (auto simp: supervisor_ok_def put_server_def set_insort_key)
qed

lemma supervisor_ok_announced [simp]:
  "supervisor_ok (remove_mdns_name n st) = supervisor_ok st" "supervisor_ok (st\<lparr>sp_announced := ns\<rparr>) = supervisor_ok st"
  by (simp_all add: supervisor_ok_def remove_mdns_name_def)

section \<open>What a scan does to one identity\<close>

definition refreshed :: "scan_env \<Rightarrow> server \<Rightarrow> server option" where
  "refreshed env sv =
     (case sc_tables env (pf_path (sv_profile sv)) of (packages, db) \<Rightarrow>
      case read_server_config (ge_http (sc_gate env)) packages db of
        Inl _ \<Rightarrow> Some sv
      | Inr config \<Rightarrow>
          if cfg_listen config = ''off'' then None
          else if config = sv_config sv then Some sv
          else opt_filter (\<lambda>sv'. sv_listener sv' \<noteq> None) (Some (snd (apply_config env sv config))))"

definition launched :: "scan_env \<Rightarrow> profile \<Rightarrow> server option" where
  "launched env profile = (case load_profile env profile of
     Inr (Some sv) \<Rightarrow> (case server_listen env sv of Inr l \<Rightarrow> Some (sv\<lparr>sv_listener := Some l\<rparr>) | Inl _ \<Rightarrow> None)
   | _ \<Rightarrow> None)"

definition scanned :: "scan_env \<Rightarrow> profile list \<Rightarrow> string \<Rightarrow> server option \<Rightarrow> server option" where
  "scanned env profiles name old = (case find (\<lambda>p. pf_name p = name) profiles of
     None \<Rightarrow> None
   | Some p \<Rightarrow>
       (case opt_filter (\<lambda>sv. pf_path (sv_profile sv) = pf_path p) old of
          Some sv \<Rightarrow> refreshed env sv
        | None \<Rightarrow> launched env p))"

lemma refreshed_ok: "server_ok sv \<Longrightarrow> refreshed env sv = Some sv' \<Longrightarrow> server_ok sv' \<and> sv_profile sv' = sv_profile sv \<and> sv_endpoint sv' = sv_endpoint sv"
proof -
  assume ok: "server_ok sv" and r: "refreshed env sv = Some sv'"
  show "server_ok sv' \<and> sv_profile sv' = sv_profile sv \<and> sv_endpoint sv' = sv_endpoint sv"
  proof (cases "sv' = sv")
    case False
    with r obtain packages db config where
      "read_server_config (ge_http (sc_gate env)) packages db = Inr config" "cfg_listen config \<noteq> ''off''"
      and sv': "sv' = snd (apply_config env sv config)" "sv_listener sv' \<noteq> None"
      by (auto simp: refreshed_def opt_filter_def split: prod.splits sum.splits if_splits)
    then have "valid_listen (cfg_listen config)" using read_config_listen by blast
    with apply_config_outcome [OF _ ok this, of env "fst (apply_config env sv config)" sv'] sv'
    show ?thesis by (auto simp: split: sum.splits)
  qed (simp add: ok)
qed

text \<open>
  The credentials a listener was registered with: the current ones of its server or, after a renewal of
  the revocation proof, which does not register again, earlier ones of the same name.
\<close>

definition registered_name :: "server \<Rightarrow> string option" where
  "registered_name sv = map_option (\<lambda>l. en_name (fst l)) (sv_listener sv)"

lemma registered_new: "server_listen env sv = Inr l \<Longrightarrow> registered_name (sv\<lparr>sv_listener := Some l\<rparr>) = Some (en_name (sv_endpoint sv))"
  by (simp add: registered_name_def server_listen_Inr)

lemma apply_config_registered:
  assumes "sv_listener (snd (apply_config env sv config)) \<noteq> None" and "registered_name sv = Some (en_name (sv_endpoint sv))"
  shows "registered_name (snd (apply_config env sv config)) = Some (en_name (sv_endpoint sv))"
  using assms
  by (auto simp: apply_config_def relisten_def registered_name_def Let_def dest!: server_listen_Inr split: sum.splits if_splits)

lemma refreshed_registered:
  "refreshed env sv = Some sv' \<Longrightarrow> registered_name sv = Some (en_name (sv_endpoint sv)) \<Longrightarrow> registered_name sv' = Some (en_name (sv_endpoint sv))"
  using apply_config_registered
  by (auto simp: refreshed_def opt_filter_def split: prod.splits sum.splits if_splits)

lemma launched_registered: "launched env profile = Some sv \<Longrightarrow> registered_name sv = Some (en_name (sv_endpoint sv))"
  by (auto simp: launched_def registered_name_def dest!: server_listen_Inr split: sum.splits option.splits)

lemma launched_ok:
  "launched env profile = Some sv \<Longrightarrow> server_ok sv \<and> sv_profile sv = profile \<and> load_endpoint env (pf_path profile) = Inr (sv_endpoint sv)"
  by (auto simp: launched_def server_ok_def Let_def router_of_def load_profile_facts dest!: server_listen_Inr
      split: sum.splits option.splits)

lemma update_server_spec:
  assumes "supervisor_ok st" and "server_at st name = Some sv" and "update_server env name sv st changed = (r, st', changed')"
  shows "server_at st' = (server_at st)(name := refreshed env sv)" and "supervisor_ok st'"
    and "\<not> changed' \<Longrightarrow> \<not> changed \<and> (\<exists>sv'. refreshed env sv = Some sv' \<and> sv' = sv\<lparr>sv_listener := sv_listener sv'\<rparr>)"
proof -
  note ok = supervisor_ok_at [OF assms(1,2)]
  obtain packages db where t: "sc_tables env (pf_path (sv_profile sv)) = (packages, db)" by fastforce
  have id: "(server_at st)(name := Some sv) = server_at st" using assms(2) by auto
  have "server_at st' = (server_at st)(name := refreshed env sv) \<and> supervisor_ok st' \<and>
    (\<not> changed' \<longrightarrow> \<not> changed \<and> (\<exists>sv'. refreshed env sv = Some sv' \<and> sv' = sv\<lparr>sv_listener := sv_listener sv'\<rparr>))"
  proof (cases "read_server_config (ge_http (sc_gate env)) packages db")
    case (Inl e)
    with assms t id show ?thesis by (auto simp: update_server_def refreshed_def)
  next
    case (Inr config)
    show ?thesis
    proof (cases "cfg_listen config = ''off'' \<or> config = sv_config sv")
      case True
      with assms t id Inr ok show ?thesis
        by (auto simp: update_server_def refreshed_def same_config_iff remove_server_def supervisor_ok_drop server_ok_def Let_def)
    next
      case False
      obtain r1 sv1 where a: "apply_config env sv config = (r1, sv1)" by fastforce
      have valid: "valid_listen (cfg_listen config)" using read_config_listen [OF Inr] False by simp
      note out = apply_config_outcome [OF a _ valid]
      have on: "cfg_listen (sv_config sv1) \<noteq> ''off''"
        using out ok valid by (cases r1) (auto simp: server_ok_def Let_def)
      have new: "refreshed env sv = (if sv_listener sv1 = None then None else Some sv1)"
        using False Inr a t by (simp add: refreshed_def opt_filter_def)
      show ?thesis
        using assms(3) False Inr a t on new out ok assms(1)
        by (cases r1; cases "sv_listener sv1")
          (auto simp: update_server_def same_config_iff Let_def supervisor_ok_drop supervisor_ok_put server_ok_def split: if_splits)
    qed
  qed
  then show "server_at st' = (server_at st)(name := refreshed env sv)" "supervisor_ok st'"
    "\<not> changed' \<Longrightarrow> \<not> changed \<and> (\<exists>sv'. refreshed env sv = Some sv' \<and> sv' = sv\<lparr>sv_listener := sv_listener sv'\<rparr>)" by auto
qed

text \<open>A server up to its registration, which a failed change of the scopes renews.\<close>

definition apart_listener :: "server option \<Rightarrow> server option" where
  "apart_listener s = map_option (sv_listener_update (\<lambda>_. None)) s"

lemma start_server_spec:
  assumes "start_server env p st changed = (r, st', changed')"
  shows "launched env p = None \<and> st' = st \<and> changed' = changed \<or>
    (\<exists>sv. launched env p = Some sv \<and> st' = put_server (pf_name p) sv st \<and> changed')"
proof (cases "load_profile env p")
  case (Inr l)
  show ?thesis
  proof (cases l)
    case (Some sv)
    with Inr load_profile_facts(4) [of env p sv] have "cfg_listen (sv_config sv) \<noteq> ''off''" by simp
    with assms Inr Some show ?thesis by (cases "server_listen env sv") (auto simp: start_server_def launched_def)
  qed (use assms Inr in \<open>simp add: start_server_def launched_def\<close>)
qed (use assms in \<open>simp add: start_server_def launched_def\<close>)

lemma reconcile_identity_spec:
  assumes "supervisor_ok st" and "reconcile_identity env p st changed = (r, st', changed')"
  shows "server_at st' = (server_at st)(pf_name p := (case server_at st (pf_name p) of Some sv \<Rightarrow> refreshed env sv | None \<Rightarrow> launched env p))"
    and "supervisor_ok st'"
    and "\<not> changed' \<Longrightarrow> \<not> changed \<and>
      apart_listener (server_at st' (pf_name p)) = apart_listener (server_at st (pf_name p))"
proof -
  have "server_at st' = (server_at st)(pf_name p := (case server_at st (pf_name p) of Some sv \<Rightarrow> refreshed env sv | None \<Rightarrow> launched env p)) \<and>
    supervisor_ok st' \<and> (\<not> changed' \<longrightarrow> \<not> changed \<and>
      apart_listener (server_at st' (pf_name p)) = apart_listener (server_at st (pf_name p)))"
  proof (cases "server_at st (pf_name p)")
    case (Some sv)
    with assms(2) have "update_server env (pf_name p) sv st changed = (r, st', changed')"
      by (simp add: reconcile_identity_def server_at_def)
    note spec = update_server_spec [OF assms(1) Some this]
    have "apart_listener (refreshed env sv) = apart_listener (Some sv)" if same: "\<not> changed'"
    proof -
      obtain sv' where "refreshed env sv = Some sv'" and e: "sv' = sv\<lparr>sv_listener := sv_listener sv'\<rparr>"
        using spec(3) [OF same] by blast
      from e have "sv'\<lparr>sv_listener := None\<rparr> = sv\<lparr>sv_listener := None\<rparr>" by (cases sv; cases sv') simp
      with \<open>refreshed env sv = Some sv'\<close> show ?thesis by (simp add: apart_listener_def)
    qed
    then show ?thesis using spec(1,2) spec(3) Some by fastforce
  next
    case None
    then have id: "(server_at st)(pf_name p := None) = server_at st" by auto
    from None assms(2) have "start_server env p st changed = (r, st', changed')"
      by (simp add: reconcile_identity_def server_at_def)
    note spec = start_server_spec [OF this]
    show ?thesis
    proof (cases "launched env p")
      case None
      with spec \<open>server_at st (pf_name p) = None\<close> id assms(1) show ?thesis by simp
    next
      case (Some sv)
      with spec \<open>server_at st (pf_name p) = None\<close> assms(1) launched_ok [OF Some] show ?thesis by (simp add: supervisor_ok_put)
    qed
  qed
  then show "server_at st' = (server_at st)(pf_name p := (case server_at st (pf_name p) of Some sv \<Rightarrow> refreshed env sv | None \<Rightarrow> launched env p))"
    "supervisor_ok st'"
    "\<not> changed' \<Longrightarrow> \<not> changed \<and>
      apart_listener (server_at st' (pf_name p)) = apart_listener (server_at st (pf_name p))" by auto
qed

lemma reconcile_all_spec:
  assumes "supervisor_ok st" and "reconcile_all env ps st changed = (st', changed')" and "distinct (map pf_name ps)"
  shows "supervisor_ok st' \<and> (\<forall>name.
      server_at st' name = (case find (\<lambda>p. pf_name p = name) ps of None \<Rightarrow> server_at st name
        | Some p \<Rightarrow> (case server_at st name of Some sv \<Rightarrow> refreshed env sv | None \<Rightarrow> launched env p)) \<and>
      (\<not> changed' \<longrightarrow> \<not> changed \<and>
        apart_listener (server_at st' name) = apart_listener (server_at st name)))"
  using assms
proof (induction ps arbitrary: st changed)
  case (Cons p ps)
  obtain r st1 changed1 where id: "reconcile_identity env p st changed = (r, st1, changed1)"
    by (cases "reconcile_identity env p st changed") auto
  with Cons.prems have rest: "reconcile_all env ps st1 changed1 = (st', changed')" "distinct (map pf_name ps)" by auto
  note first = reconcile_identity_spec [OF Cons.prems(1) id]
  from Cons.prems(3) have "find (\<lambda>q. pf_name q = pf_name p) ps = None" by (metis (mono_tags, lifting) distinct.simps(2) find_None_iff imageI list.set_map list.simps(9))
  note last = this
  have ih: "supervisor_ok st'"
    "server_at st' name = (case find (\<lambda>p. pf_name p = name) ps of None \<Rightarrow> server_at st1 name
       | Some p \<Rightarrow> (case server_at st1 name of Some sv \<Rightarrow> refreshed env sv | None \<Rightarrow> launched env p))"
    "\<not> changed' \<Longrightarrow> \<not> changed1 \<and> apart_listener (server_at st' name) = apart_listener (server_at st1 name)" for name
    using Cons.IH [OF first(2) rest] by blast+
  have other: "server_at st1 name = server_at st name" if "name \<noteq> pf_name p" for name using first(1) that by simp
  have "server_at st' name = (case find (\<lambda>p. pf_name p = name) (p # ps) of None \<Rightarrow> server_at st name
       | Some p \<Rightarrow> (case server_at st name of Some sv \<Rightarrow> refreshed env sv | None \<Rightarrow> launched env p))" for name
  proof (cases "name = pf_name p")
    case True
    with last have "find (\<lambda>p. pf_name p = name) ps = None" by simp
    then show ?thesis unfolding ih(2) [of name] first(1) by (simp add: True)
  next
    case False
    then show ?thesis unfolding ih(2) [of name] other [OF False] by simp
  qed
  moreover have "\<not> changed \<and> apart_listener (server_at st' name) = apart_listener (server_at st name)" if "\<not> changed'" for name
    using ih(3) [OF that, of name] first(3) other [of name] by (cases "name = pf_name p") auto
  ultimately show ?case using ih(1) by blast
qed simp

section \<open>A whole scan\<close>

text \<open>A home has one identity of a name.\<close>

definition discovers_once :: "scan_env \<Rightarrow> bool" where
  "discovers_once env = (\<forall>home profiles. sc_discover env home = Inr profiles \<longrightarrow> distinct (map pf_name profiles))"

lemma add_profile_Inr: "add_profile p ps = Inr x \<longleftrightarrow> (\<forall>q \<in> set ps. pf_name q \<noteq> pf_name p) \<and> x = ps @ [p]"
  by (auto simp: add_profile_def list_ex_iff)

lemma add_profiles_distinct:
  "fold_r add_profile found profiles = Inr all \<Longrightarrow> distinct (map pf_name profiles) \<Longrightarrow> distinct (map pf_name all)"
proof (induction found arbitrary: profiles)
  case (Cons p found)
  then have "\<forall>q \<in> set profiles. pf_name q \<noteq> pf_name p" "fold_r add_profile found (profiles @ [p]) = Inr all"
    by (auto simp: add_profile_Inr try_r_Inr_iff)
  moreover from this(1) Cons.prems(2) have "distinct (map pf_name (profiles @ [p]))" by auto
  ultimately show ?case using Cons.IH by blast
qed simp

lemma discover_profiles_distinct:
  assumes "discover_profiles env home user_homes = Inr profiles" and "discovers_once env"
  shows "distinct (map pf_name profiles)"
proof (cases user_homes)
  case None
  with assms show ?thesis by (auto simp: discover_profiles_def discovers_once_def)
next
  case (Some hs)
  have "fold_r (add_profiles env) homes start = Inr all \<Longrightarrow> distinct (map pf_name start) \<Longrightarrow> distinct (map pf_name all)" for homes start all
    by (induction homes arbitrary: start)
      (auto simp: add_profiles_def try_r_Inr_iff dest: add_profiles_distinct split: path_kind.splits)
  with assms(1) Some obtain all where "profiles = sort_key pf_name all" "distinct (map pf_name all)"
    by (auto simp: discover_profiles_def try_r_Inr_iff)
  then show ?thesis by (simp add: distinct_map inj_on_def)
qed

lemma server_at_removed: "server_at (fold remove_server ns st) name = (if name \<in> set ns then None else server_at st name)"
  by (induction ns arbitrary: st) auto

lemma removed_ok: "supervisor_ok st \<Longrightarrow> supervisor_ok (fold remove_server ns st)"
  by (induction ns arbitrary: st) (auto simp: remove_server_def supervisor_ok_drop)

lemma departed_iff:
  assumes "supervisor_ok st" and "distinct (map pf_name profiles)"
  shows "name \<in> fst ` set (filter (departed profiles) (sp_servers st)) \<longleftrightarrow>
    (\<exists>sv. server_at st name = Some sv \<and> is_none_or (\<lambda>p. pf_path (sv_profile sv) \<noteq> pf_path p) (find (\<lambda>p. pf_name p = name) profiles))"
proof -
  have at: "(name, sv) \<in> set (sp_servers st) \<longleftrightarrow> server_at st name = Some sv" for sv
    using assms(1) by (simp add: supervisor_ok_def server_at_def)
  have found: "(\<exists>p \<in> set profiles. pf_name p = name \<and> pf_path p = x) \<longleftrightarrow>
      \<not> is_none_or (\<lambda>p. x \<noteq> pf_path p) (find (\<lambda>p. pf_name p = name) profiles)" for x
    using assms(2) by (induction profiles) (auto simp: is_none_or_def, metis imageI)
  have dep: "departed profiles (name, sv) \<longleftrightarrow> is_none_or (\<lambda>p. pf_path (sv_profile sv) \<noteq> pf_path p) (find (\<lambda>p. pf_name p = name) profiles)" for sv
    using found [of "pf_path (sv_profile sv)"] by (auto simp: departed_def list_ex_iff)
  have "name \<in> fst ` set (filter (departed profiles) (sp_servers st)) \<longleftrightarrow> (\<exists>sv. (name, sv) \<in> set (sp_servers st) \<and> departed profiles (name, sv))"
    by force
  then show ?thesis unfolding at dep .
qed

lemma scan_isolates:
  assumes "supervisor_ok st" and "discovers_once env" and "reconcile_profiles env home user_homes st = (r, st')"
  shows "supervisor_ok st' \<and> (case r of
      Inl e \<Rightarrow> discover_profiles env home user_homes = Inl e \<and> st' = st
    | Inr changed \<Rightarrow> \<exists>profiles. discover_profiles env home user_homes = Inr profiles \<and> (\<forall>name.
        server_at st' name = scanned env profiles name (server_at st name) \<and>
        (\<not> changed \<longrightarrow> apart_listener (server_at st' name) = apart_listener (server_at st name))))"
proof (cases "discover_profiles env home user_homes")
  case (Inl e)
  with assms show ?thesis by (auto simp: reconcile_profiles_def)
next
  case (Inr profiles)
  note distinct = discover_profiles_distinct [OF Inr assms(2)]
  let ?gone = "map fst (filter (departed profiles) (sp_servers st))"
  obtain changed where all: "reconcile_all env profiles (fold remove_server ?gone st) (?gone \<noteq> []) = (st', changed)" and r: "r = Inr changed"
    using assms(3) Inr by (auto simp: reconcile_profiles_def Let_def split: prod.splits)
  note spec = reconcile_all_spec [OF removed_ok [OF assms(1)] all distinct]
  have mid: "server_at (fold remove_server ?gone st) name = opt_filter (\<lambda>sv. \<not> is_none_or (\<lambda>p. pf_path (sv_profile sv) \<noteq> pf_path p)
      (find (\<lambda>p. pf_name p = name) profiles)) (server_at st name)" for name
    unfolding server_at_removed set_map departed_iff [OF assms(1) distinct] by (cases "server_at st name") (auto simp: opt_filter_def)
  have "server_at st' name = scanned env profiles name (server_at st name)" for name
    using spec mid [of name] by (cases "find (\<lambda>p. pf_name p = name) profiles"; cases "server_at st name")
      (auto simp: scanned_def opt_filter_def is_none_or_def)
  moreover have "apart_listener (server_at st' name) = apart_listener (server_at st name)" if "\<not> changed" for name
  proof -
    from spec that have "?gone = []" "apart_listener (server_at st' name) = apart_listener (server_at (fold remove_server ?gone st) name)"
      by blast+
    then show ?thesis by simp
  qed
  ultimately show ?thesis using spec Inr r by auto
qed

end
