(* ===== verification/Event_Loop.thy ===== *)
theory Event_Loop
  imports Supervision_Laws
begin

text \<open>
  The event loop of the process (\<^verbatim>\<open>run\<close> of \<^verbatim>\<open>src/server/run.rs\<close>, \<^verbatim>\<open>publish\<close> of \<^verbatim>\<open>src/dns.rs\<close>): turns that
  announce and publish the servers, and between two turns the events that its \<^verbatim>\<open>select!\<close> admits. Work
  in flight are publications (\<^verbatim>\<open>jobs\<close>), renewals of revocation proofs (\<^verbatim>\<open>ocsp_updates\<close>) and runs of
  contacts and Libs (\<^verbatim>\<open>runs\<close>); each completes in any order. The guards of \<^verbatim>\<open>select!\<close> decide which event
  may be taken in which state; everything else, such as timers and signals, may happen at any moment.
\<close>

section \<open>State and events\<close>

record job =
  jb_name :: string
  jb_publisher :: endpoint
  jb_addresses :: "string list"

record process =
  ps_sup :: supervisor
  ps_jobs :: "job list"
  ps_updates :: "(profile \<times> endpoint) list"
  ps_runs :: "string list"
  ps_due :: "nat option"
  ps_removed :: "string list"

text \<open>The answers to a turn: the outcome of the announcements, the time, the addresses to publish.\<close>

record turn =
  tn_maintained :: bool
  tn_now :: nat
  tn_addresses :: "string list"

datatype published_result = Published | PublishFailed | PublishTimeout

datatype event =
    Interrupted "unit res"
  | Terminated
  | JobDone nat published_result nat nat
  | WasiTick
  | RunDone nat
  | Reload
  | ConfigTick scan_env
  | OcspTick
  | OcspDone nat scan_env
  | AddressEvents "string option list option"
  | OuterChanged bool
  | DueReached

datatype outcome = Stay process | NextTurn process | Exit "unit res" | Panicked

section \<open>Turns\<close>

text \<open>When to publish again: 20 seconds after the start, or 5 seconds after a failure; times in milliseconds.\<close>

definition publish :: "string list \<Rightarrow> published_result \<Rightarrow> nat \<Rightarrow> nat \<Rightarrow> nat option" where
  "publish addresses result started now =
     (if addresses = [] then None
      else (case result of Published \<Rightarrow> Some (started + 20000) | _ \<Rightarrow> Some (now + 5000)))"

definition server_name :: "server \<Rightarrow> string" where
  "server_name sv = en_name (sv_endpoint sv)"

definition announced_names :: "supervisor \<Rightarrow> string list" where
  "announced_names st = map server_name (filter (\<lambda>sv. announces (cfg_listen (sv_config sv))) (map snd (sp_servers st)))"

definition publications :: "string list \<Rightarrow> supervisor \<Rightarrow> job list" where
  "publications addresses st = List.map_filter (\<lambda>(_, sv).
     map_option (\<lambda>p. \<lparr>jb_name = server_name sv, jb_publisher = p, jb_addresses = addresses\<rparr>) (sv_publisher sv)) (sp_servers st)"

definition begin_turn :: "turn \<Rightarrow> process \<Rightarrow> process" where
  "begin_turn tn p =
     (let st = ps_sup p in
      p\<lparr>ps_sup := st\<lparr>sp_announced := sp_announced st @ announced_names st\<rparr>,
        ps_due := (if tn_maintained tn then None else Some (tn_now tn + 5000)),
        ps_removed := [],
        ps_jobs := ps_jobs p @ publications (tn_addresses tn) st\<rparr>)"

section \<open>Events\<close>

definition scan :: "string \<Rightarrow> bool \<Rightarrow> scan_env \<Rightarrow> supervisor \<Rightarrow> bool res \<times> supervisor" where
  "scan home multiuser env st =
     (case (if multiuser then try_r (account_homes env) (\<lambda>hs. Inr (Some hs)) else Inr None) of
        Inl e \<Rightarrow> (Inl e, st)
      | Inr user_homes \<Rightarrow> reconcile_profiles env home user_homes st)"

definition drop_at :: "nat \<Rightarrow> 'a list \<Rightarrow> 'a list" where
  "drop_at i xs = take i xs @ drop (Suc i) xs"

text \<open>The guards of the branches.\<close>

fun enabled :: "event \<Rightarrow> process \<Rightarrow> bool" where
  "enabled (JobDone i _ _ _) p = (i < length (ps_jobs p))"
| "enabled WasiTick p = (ps_runs p = [])"
| "enabled (RunDone i) p = (i < length (ps_runs p))"
| "enabled (ConfigTick _) p = (ps_jobs p = [] \<and> ps_updates p = [])"
| "enabled OcspTick p = (ps_updates p = [])"
| "enabled (OcspDone i _) p = (ps_jobs p = [] \<and> i < length (ps_updates p))"
| "enabled (AddressEvents _) p = (ps_jobs p = [])"
| "enabled (OuterChanged _) p = (ps_jobs p = [])"
| "enabled DueReached p = (ps_jobs p = [] \<and> ps_due p \<noteq> None)"
| "enabled _ p = True"

definition earliest :: "nat option \<Rightarrow> nat \<Rightarrow> nat" where
  "earliest previous due = (case previous of None \<Rightarrow> due | Some t \<Rightarrow> min t due)"

text \<open>
  The renewed credentials of a server. The renewal started with the credentials of the server at the
  tick; its server is expected to be there still.
\<close>

definition ocsp_done :: "profile \<times> endpoint \<Rightarrow> scan_env \<Rightarrow> supervisor \<Rightarrow> supervisor option" where
  "ocsp_done update env st = (case update of (profile, ep) \<Rightarrow>
     (case map_of (sp_servers st) (pf_name profile) of
        None \<Rightarrow> None
      | Some sv \<Rightarrow>
          Some (case renew_ocsp env profile ep of
              Inl _ \<Rightarrow> st
            | Inr ep' \<Rightarrow> put_server (pf_name profile) (snd (apply_ocsp env sv ep')) st)))"

fun on_event :: "string \<Rightarrow> bool \<Rightarrow> event \<Rightarrow> process \<Rightarrow> outcome" where
  "on_event home multiuser (Interrupted r) p = Exit r"
| "on_event home multiuser Terminated p = Exit (Inr ())"
| "on_event home multiuser (JobDone i result started now) p =
     (let p' = p\<lparr>ps_jobs := drop_at i (ps_jobs p)\<rparr> in
      case publish (jb_addresses (ps_jobs p ! i)) result started now of
        None \<Rightarrow> Stay p'
      | Some due \<Rightarrow> Stay (p'\<lparr>ps_due := Some (earliest (ps_due p) due)\<rparr>))"
| "on_event home multiuser WasiTick p = Stay (p\<lparr>ps_runs := map fst (sp_servers (ps_sup p))\<rparr>)"
| "on_event home multiuser (RunDone i) p = Stay (p\<lparr>ps_runs := drop_at i (ps_runs p)\<rparr>)"
| "on_event home multiuser Reload p = Stay p"
| "on_event home multiuser (ConfigTick env) p =
     (case scan home multiuser env (ps_sup p) of
        (Inr True, st) \<Rightarrow> NextTurn (p\<lparr>ps_sup := st\<rparr>)
      | (_, st) \<Rightarrow> Stay (p\<lparr>ps_sup := st\<rparr>))"
| "on_event home multiuser OcspTick p =
     Stay (p\<lparr>ps_updates := map (\<lambda>(_, sv). (sv_profile sv, sv_endpoint sv)) (sp_servers (ps_sup p))\<rparr>)"
| "on_event home multiuser (OcspDone i env) p =
     (case ocsp_done (ps_updates p ! i) env (ps_sup p) of
        None \<Rightarrow> Panicked
      | Some st \<Rightarrow> NextTurn (p\<lparr>ps_sup := st, ps_updates := drop_at i (ps_updates p)\<rparr>))"
| "on_event home multiuser (AddressEvents es) p =
     (case es of
        None \<Rightarrow> Exit (Inl (Io OtherIo ''DNS address subscription ended''))
      | Some es \<Rightarrow> NextTurn (p\<lparr>ps_removed := ps_removed p @ List.map_filter id es\<rparr>))"
| "on_event home multiuser (OuterChanged alive) p =
     (if alive then NextTurn p else Exit (Inl (Io OtherIo ''address channel closed'')))"
| "on_event home multiuser DueReached p = NextTurn p"

section \<open>Start and end\<close>

definition empty_supervisor :: supervisor where
  "empty_supervisor = \<lparr>sp_servers = [], sp_announced = []\<rparr>"

definition start_process :: "supervisor \<Rightarrow> process" where
  "start_process st = \<lparr>ps_sup = st, ps_jobs = [], ps_updates = [], ps_runs = [], ps_due = None, ps_removed = []\<rparr>"

text \<open>Closing every server; the last failure is the result.\<close>

fun close_all :: "scan_env \<Rightarrow> (string \<times> server) list \<Rightarrow> unit res \<Rightarrow> unit res \<times> (string \<times> server) list" where
  "close_all env [] r = (r, [])"
| "close_all env ((name, sv) # svs) r =
     (case server_close env sv of (c, sv') \<Rightarrow>
      case close_all env svs (case c of Inl e \<Rightarrow> Inl e | Inr _ \<Rightarrow> r) of (r', svs') \<Rightarrow> (r', (name, sv') # svs'))"

definition shut_down :: "scan_env \<Rightarrow> unit res \<Rightarrow> unit res \<Rightarrow> supervisor \<Rightarrow> unit res \<times> supervisor" where
  "shut_down env mdns result st =
     (let st1 = fold remove_mdns_name (map (server_name \<circ> snd) (sp_servers st)) st in
      case close_all env (sp_servers st1) (Inr ()) of (closed, servers) \<Rightarrow>
        (try_r result (\<lambda>_. case mdns of Inl e \<Rightarrow> Inl e | Inr _ \<Rightarrow> closed), st1\<lparr>sp_servers := servers\<rparr>))"

text \<open>
  The states of a running process. What the DHTTP library answers is constrained only in this: the
  identities of a home have different names, the credentials of an identity carry its name, and
  reloading them does not change the name.
\<close>

definition named_credentials :: "scan_env \<Rightarrow> bool" where
  "named_credentials env = (discovers_once env \<and>
     (\<forall>home profiles profile ep. sc_discover env home = Inr profiles \<longrightarrow> profile \<in> set profiles \<longrightarrow>
        sc_endpoint env (pf_path profile) = Inr ep \<longrightarrow> en_name ep = pf_name profile) \<and>
     (\<forall>ep ep'. sc_reload env ep = Inr ep' \<longrightarrow> en_name ep' = en_name ep))"

fun event_env :: "event \<Rightarrow> scan_env option" where
  "event_env (ConfigTick env) = Some env"
| "event_env (OcspDone _ env) = Some env"
| "event_env _ = None"

inductive running :: "string \<Rightarrow> bool \<Rightarrow> process \<Rightarrow> bool" for home :: string and multiuser :: bool where
  starts: "named_credentials env \<Longrightarrow> scan home multiuser env empty_supervisor = (Inr changed, st) \<Longrightarrow>
    running home multiuser (begin_turn tn (start_process st))"
| stays: "running home multiuser p \<Longrightarrow> enabled ev p \<Longrightarrow> is_none_or (named_credentials) (event_env ev) \<Longrightarrow>
    on_event home multiuser ev p = Stay p' \<Longrightarrow> running home multiuser p'"
| turns: "running home multiuser p \<Longrightarrow> enabled ev p \<Longrightarrow> is_none_or (named_credentials) (event_env ev) \<Longrightarrow>
    on_event home multiuser ev p = NextTurn p' \<Longrightarrow> running home multiuser (begin_turn tn p')"

end
