(* ===== verification/Event_Loop_Laws.thy ===== *)
theory Event_Loop_Laws
  imports Event_Loop Sandbox_Laws
begin

text \<open>
  What the event loop promises in every reachable state: servers serve, what is announced is served,
  publications use the current credentials, and a renewal always finds its server.
\<close>

section \<open>The invariant\<close>

text \<open>Names: a server is known under the name its credentials carry, and its listener is registered under it.\<close>

definition named :: "supervisor \<Rightarrow> bool" where
  "named st = (\<forall>name sv. server_at st name = Some sv \<longrightarrow> server_name sv = name \<and> registered_name sv = Some name)"

definition announced_ok :: "supervisor \<Rightarrow> bool" where
  "announced_ok st = (\<forall>name \<in> set (sp_announced st). \<exists>sv. server_at st name = Some sv \<and> announces (cfg_listen (sv_config sv)))"

definition process_ok :: "process \<Rightarrow> bool" where
  "process_ok p =
     (let st = ps_sup p in
      supervisor_ok st \<and> named st \<and> announced_ok st \<and>
      distinct (map jb_name (ps_jobs p)) \<and>
      (\<forall>j \<in> set (ps_jobs p). \<exists>sv. server_at st (jb_name j) = Some sv \<and> sv_publisher sv = Some (jb_publisher j)) \<and>
      (\<forall>(profile, ep) \<in> set (ps_updates p). \<exists>sv. server_at st (pf_name profile) = Some sv \<and> sv_profile sv = profile \<and> server_name sv = en_name ep))"

lemma at_iff: "supervisor_ok st \<Longrightarrow> (name, sv) \<in> set (sp_servers st) \<longleftrightarrow> server_at st name = Some sv"
  by (simp add: supervisor_ok_def server_at_def)

section \<open>Announcements under a scan\<close>

lemma announced_removed: "announced_ok st \<Longrightarrow> announced_ok (remove_server n st)"
  by (auto simp: announced_ok_def remove_server_def) (simp_all add: remove_mdns_name_def drop_server_def)

lemma announced_update:
  assumes "update_server env name sv st changed = (r, st', changed')" and "announced_ok st" and "server_at st name = Some sv"
  shows "announced_ok st'"
proof -
  obtain packages db where t: "sc_tables env (pf_path (sv_profile sv)) = (packages, db)" by fastforce
  have put: "announced_ok (put_server name sv' st)" if "announces (cfg_listen (sv_config sv'))" for sv'
    using assms(2) that by (auto simp: announced_ok_def) (simp add: put_server_def)
  have rm: "announced_ok (remove_mdns_name name (put_server name sv' st))" for sv'
    using assms(2) by (auto simp: announced_ok_def) (simp_all add: remove_mdns_name_def put_server_def)
  have rd: "announced_ok (remove_mdns_name name (drop_server name st))"
    using announced_removed [OF assms(2)] by (simp add: remove_server_def)
  show ?thesis
    using assms(1,2) t put rm rd announced_removed [OF assms(2)]
    by (auto simp: update_server_def Let_def split: sum.splits prod.splits if_splits)
qed

lemma announced_identity:
  assumes "reconcile_identity env p st changed = (r, st', changed')" and "announced_ok st"
  shows "announced_ok st'"
proof (cases "server_at st (pf_name p)")
  case (Some sv)
  with assms show ?thesis by (auto simp: reconcile_identity_def server_at_def intro: announced_update)
next
  case None
  with assms(1) have "start_server env p st changed = (r, st', changed')" by (simp add: reconcile_identity_def server_at_def)
  from start_server_spec [OF this] consider "st' = st" | sv where "st' = put_server (pf_name p) sv st" by blast
  then show ?thesis
  proof cases
    case 2
    have "sp_announced st' = sp_announced st" by (simp add: 2 put_server_def)
    moreover have "server_at st' = (server_at st)(pf_name p \<mapsto> sv)" by (simp add: 2)
    ultimately show ?thesis using assms(2) None by (auto simp: announced_ok_def)
  qed (simp add: assms(2))
qed

lemma announced_all: "reconcile_all env ps st changed = (st', changed') \<Longrightarrow> announced_ok st \<Longrightarrow> announced_ok st'"
  by (induction ps arbitrary: st changed) (auto split: prod.splits dest: announced_identity)

lemma announced_reconcile: "reconcile_profiles env home uh st = (r, st') \<Longrightarrow> announced_ok st \<Longrightarrow> announced_ok st'"
proof -
  have gone: "announced_ok st \<Longrightarrow> announced_ok (fold remove_server ns st)" for ns st
    by (induction ns arbitrary: st) (auto intro: announced_removed)
  show "reconcile_profiles env home uh st = (r, st') \<Longrightarrow> announced_ok st \<Longrightarrow> announced_ok st'"
    by (auto simp: reconcile_profiles_def Let_def split: sum.splits prod.splits dest: announced_all gone)
qed

section \<open>Names under a scan\<close>

lemma discovered_somewhere:
  assumes "discover_profiles env home user_homes = Inr profiles" and "profile \<in> set profiles"
  shows "\<exists>home found. sc_discover env home = Inr found \<and> profile \<in> set found"
proof (cases user_homes)
  case None
  with assms show ?thesis by (auto simp: discover_profiles_def)
next
  case (Some hs)
  have one: "fold_r add_profile found start = Inr all \<Longrightarrow> set all \<subseteq> set start \<union> set found" for found start all
    by (induction found arbitrary: start) (fastforce simp: try_r_Inr_iff add_profile_Inr)+
  have many: "fold_r (add_profiles env) homes start = Inr all \<Longrightarrow> profile \<in> set all \<Longrightarrow>
      profile \<in> set start \<or> (\<exists>home found. sc_discover env home = Inr found \<and> profile \<in> set found)" for homes start all
  proof (induction homes arbitrary: start)
    case (Cons h homes)
    then obtain mid where "add_profiles env h start = Inr mid" "fold_r (add_profiles env) homes mid = Inr all" by (auto simp: try_r_Inr_iff)
    with Cons.IH [OF this(2) Cons.prems(2)] show ?case
      by (auto simp: add_profiles_def try_r_Inr_iff dest: one split: path_kind.splits)
  qed simp
  from assms Some obtain homes all where "fold_r (add_profiles env) homes [] = Inr all" "profile \<in> set all"
    by (auto simp: discover_profiles_def try_r_Inr_iff)
  with many show ?thesis by fastforce
qed

lemma named_reconcile:
  assumes "reconcile_profiles env home uh st = (r, st')" and "supervisor_ok st" and "named st" and "named_credentials env"
  shows "named st'"
proof (cases r)
  case (Inl e)
  with assms scan_isolates [OF assms(2) _ assms(1)] show ?thesis by (simp add: named_credentials_def)
next
  case (Inr changed)
  with assms(4) scan_isolates [OF assms(2) _ assms(1)] obtain profiles where d: "discover_profiles env home uh = Inr profiles"
    and at: "\<And>name. server_at st' name = scanned env profiles name (server_at st name)" by (auto simp: named_credentials_def)
  have "server_name sv = name \<and> registered_name sv = Some name" if "server_at st' name = Some sv" for name sv
  proof -
    from that at obtain p where p: "find (\<lambda>p. pf_name p = name) profiles = Some p"
      and new: "(case opt_filter (\<lambda>sv. pf_path (sv_profile sv) = pf_path p) (server_at st name) of
          Some sv \<Rightarrow> refreshed env sv | None \<Rightarrow> launched env p) = Some sv"
      by (auto simp: scanned_def split: option.splits)
    have pp: "p \<in> set profiles" "pf_name p = name" using p by (auto simp: find_Some_iff)
    consider old where "server_at st name = Some old" "refreshed env old = Some sv" | "launched env p = Some sv"
      using new by (auto simp: opt_filter_def split: option.splits if_splits)
    then show ?thesis
    proof cases
      case 1
      with assms(2,3) refreshed_ok [of old env sv] refreshed_registered [of env old sv] supervisor_ok_at
      show ?thesis by (auto simp: named_def server_name_def)
    next
      case 2
      from launched_ok [OF this] have "sc_endpoint env (pf_path p) = Inr (sv_endpoint sv)"
        by (auto simp: load_endpoint_def map_err_def split: sum.splits)
      with assms(4) discovered_somewhere [OF d pp(1)] pp(2) launched_registered [OF 2]
      show ?thesis by (auto simp: named_credentials_def server_name_def)
    qed
  qed
  then show ?thesis by (simp add: named_def)
qed

lemma scan_ok:
  assumes "scan home multiuser env st = (r, st')" and "supervisor_ok st" and "named st" and "announced_ok st"
    and "named_credentials env"
  shows "supervisor_ok st' \<and> named st' \<and> announced_ok st'"
proof -
  consider "st' = st" | uh where "reconcile_profiles env home uh st = (r, st')"
    using assms(1) by (auto simp: scan_def split: sum.splits)
  then show ?thesis
  proof cases
    case 2
    with assms scan_isolates [OF assms(2) _ 2] named_reconcile [OF 2 assms(2,3,5)] announced_reconcile [OF 2 assms(4)]
    show ?thesis by (simp add: named_credentials_def)
  qed (simp add: assms)
qed

section \<open>Turns and renewals\<close>

lemma drop_at_subset: "set (drop_at i xs) \<subseteq> set xs"
  unfolding drop_at_def using set_take_subset set_drop_subset by fastforce

lemma distinct_drop_at: "distinct (map f xs) \<Longrightarrow> distinct (map f (drop_at i xs))"
proof -
  assume "distinct (map f xs)"
  then have "distinct (take i (map f xs) @ drop i (map f xs))" by simp
  moreover have "set (drop (Suc i) (map f xs)) \<subseteq> set (drop i (map f xs))" by (rule set_drop_subset_set_drop) simp
  moreover from \<open>distinct (map f xs)\<close> have "distinct (drop (Suc i) (map f xs))" by (rule distinct_drop)
  ultimately show ?thesis unfolding drop_at_def map_append take_map drop_map by (auto simp del: append_take_drop_id)
qed

lemma begin_turn_ok:
  assumes "process_ok p" and "ps_jobs p = []"
  shows "process_ok (begin_turn tn p)"
proof -
  let ?st = "ps_sup p" and ?js = "publications (tn_addresses tn) (ps_sup p)"
  note ok = assms(1) [unfolded process_ok_def Let_def]
  have at: "server_at (?st\<lparr>sp_announced := ns\<rparr>) = server_at ?st" for ns by (simp add: server_at_def)
  have ann: "announced_ok (?st\<lparr>sp_announced := sp_announced ?st @ announced_names ?st\<rparr>)"
    using ok by (auto simp: announced_ok_def at announced_names_def named_def at_iff)
  have jobs: "\<exists>sv. server_at ?st (jb_name j) = Some sv \<and> sv_publisher sv = Some (jb_publisher j)" if "j \<in> set ?js" for j
    using that ok by (auto simp: publications_def map_filter_def named_def at_iff)
  have "distinct (map jb_name ?js)"
  proof -
    have "map jb_name ?js = map fst (filter (\<lambda>e. sv_publisher (snd e) \<noteq> None) (sp_servers ?st))"
    proof -
      have "map jb_name (List.map_filter (\<lambda>(_, sv). map_option (\<lambda>q. \<lparr>jb_name = server_name sv, jb_publisher = q, jb_addresses = tn_addresses tn\<rparr>) (sv_publisher sv)) es) =
          map fst (filter (\<lambda>e. sv_publisher (snd e) \<noteq> None) es)" if "\<forall>(n, sv) \<in> set es. server_name sv = n" for es
        using that by (induction es) (auto simp: map_filter_simps split: option.splits)
      moreover have "\<forall>(n, sv) \<in> set (sp_servers ?st). server_name sv = n" using ok by (auto simp: named_def at_iff)
      ultimately show ?thesis by (simp add: publications_def)
    qed
    then show ?thesis using ok by (simp add: supervisor_ok_def distinct_map_filter)
  qed
  with ok ann jobs assms(2) show ?thesis
    by (auto simp: process_ok_def begin_turn_def Let_def at named_def)
qed

lemma apply_ocsp_ok:
  assumes "server_ok sv"
  shows "server_ok (snd (apply_ocsp env sv ep))" and "sv_profile (snd (apply_ocsp env sv ep)) = sv_profile sv"
    and "sv_config (snd (apply_ocsp env sv ep)) = sv_config sv"
    and "snd (apply_ocsp env sv ep) = sv \<or> sv_endpoint (snd (apply_ocsp env sv ep)) = ep"
    and "registered_name (snd (apply_ocsp env sv ep)) = registered_name sv"
  using assms by (auto simp: registered_name_def apply_ocsp_def server_ok_def Let_def router_of_def try_r_Inr_iff split: sum.splits if_splits)

lemma ocsp_done_ok:
  assumes "supervisor_ok st" "named st" "announced_ok st" and "server_at st (pf_name profile) = Some sv" and "server_name sv = en_name ep"
    and "named_credentials env"
  shows "\<exists>st'. ocsp_done (profile, ep) env st = Some st' \<and> supervisor_ok st' \<and> named st' \<and> announced_ok st' \<and>
    (\<forall>name sv. server_at st name = Some sv \<longrightarrow> (\<exists>sv'. server_at st' name = Some sv' \<and> sv_profile sv' = sv_profile sv))"
proof (cases "renew_ocsp env profile ep")
  case (Inl e)
  with assms show ?thesis by (auto simp: ocsp_done_def server_at_def)
next
  case (Inr ep')
  let ?sv = "snd (apply_ocsp env sv ep')" and ?st = "put_server (pf_name profile) (snd (apply_ocsp env sv ep')) st"
  note ok = supervisor_ok_at [OF assms(1,4)]
  note new = apply_ocsp_ok [OF conjunct1 [OF ok], of env ep']
  have "sc_reload env ep = Inr ep'" using Inr by (auto simp: renew_ocsp_def try_r_Inr_iff map_err_def split: sum.splits)
  with assms(6) have "en_name ep' = en_name ep" by (simp add: named_credentials_def)
  with assms(2,4,5) new(4) have name: "server_name ?sv = pf_name profile \<and> registered_name ?sv = Some (pf_name profile)"
    by (auto simp: named_def server_name_def new(5))
  have renewed: "ocsp_done (profile, ep) env st = Some ?st" using Inr assms(4) by (simp add: ocsp_done_def server_at_def)
  have "supervisor_ok ?st" using supervisor_ok_put [OF assms(1) new(1)] new(2) ok by simp
  moreover have "named ?st" using assms(2) name by (auto simp: named_def)
  moreover have "announced_ok ?st"
  proof -
    have "sp_announced ?st = sp_announced st" by (simp add: put_server_def)
    with assms(3,4) new(3) show ?thesis by (auto simp: announced_ok_def)
  qed
  moreover have "\<exists>sv'. server_at ?st n = Some sv' \<and> sv_profile sv' = sv_profile s" if "server_at st n = Some s" for n s
    using that assms(4) new(2) by auto
  ultimately show ?thesis using renewed by blast
qed

lemma process_ok_update:
  assumes "process_ok p" and "i < length (ps_updates p)" and "ps_updates p ! i = (profile, ep)"
  obtains sv where "server_at (ps_sup p) (pf_name profile) = Some sv" "server_name sv = en_name ep"
  using assms nth_mem [OF assms(2)] by (force simp: process_ok_def Let_def)

lemma start_ok: "process_ok (start_process empty_supervisor)"
  by (simp add: process_ok_def start_process_def empty_supervisor_def supervisor_ok_def named_def announced_ok_def server_at_def)

lemma stays_ok:
  assumes "process_ok p" "enabled ev p" "is_none_or named_credentials (event_env ev)" "on_event home multiuser ev p = Stay p'"
  shows "process_ok p'"
proof (cases ev)
  case (JobDone i result launch now)
  have "process_ok (p\<lparr>ps_jobs := drop_at i (ps_jobs p), ps_due := d\<rparr>)" "process_ok (p\<lparr>ps_jobs := drop_at i (ps_jobs p)\<rparr>)" for d
    using assms(1) drop_at_subset [of i "ps_jobs p"] by (auto simp: process_ok_def Let_def intro: distinct_drop_at)
  with assms(4) JobDone show ?thesis by (auto simp: Let_def split: option.splits)
next
  case (ConfigTick env)
  obtain r st where s: "scan home multiuser env (ps_sup p) = (r, st)" by fastforce
  with assms(4) ConfigTick have "p' = p\<lparr>ps_sup := st\<rparr>" by (auto split: sum.splits bool.splits)
  moreover have "supervisor_ok st \<and> named st \<and> announced_ok st"
    using assms(1,3) ConfigTick by (intro scan_ok [OF s]) (auto simp: process_ok_def Let_def is_none_or_def)
  ultimately show ?thesis using assms(2) ConfigTick by (simp add: process_ok_def)
next
  case OcspTick
  have "server_at (ps_sup p) (pf_name (sv_profile sv)) = Some sv" if "(n, sv) \<in> set (sp_servers (ps_sup p))" for n sv
    using that assms(1) supervisor_ok_at [of "ps_sup p" n sv] by (auto simp: process_ok_def Let_def at_iff)
  with OcspTick assms show ?thesis by (fastforce simp: process_ok_def Let_def server_name_def)
qed (use assms in \<open>auto simp: process_ok_def Let_def split: option.splits if_splits\<close>)

lemma turns_ok:
  assumes "process_ok p" "enabled ev p" "is_none_or named_credentials (event_env ev)" "on_event home multiuser ev p = NextTurn p'"
  shows "process_ok p' \<and> ps_jobs p' = []"
proof (cases ev)
  case (ConfigTick env)
  obtain r st where s: "scan home multiuser env (ps_sup p) = (r, st)" by fastforce
  with assms(4) ConfigTick have "p' = p\<lparr>ps_sup := st\<rparr>" by (auto split: sum.splits bool.splits)
  moreover have "supervisor_ok st \<and> named st \<and> announced_ok st"
    using assms(1,3) ConfigTick by (intro scan_ok [OF s]) (auto simp: process_ok_def Let_def is_none_or_def)
  ultimately show ?thesis using assms(2) ConfigTick by (simp add: process_ok_def)
next
  case (OcspDone i env)
  obtain profile ep where u: "ps_updates p ! i = (profile, ep)" by fastforce
  from assms(2) OcspDone have i: "i < length (ps_updates p)" and jobs: "ps_jobs p = []" by auto
  obtain sv where sv: "server_at (ps_sup p) (pf_name profile) = Some sv" "server_name sv = en_name ep"
    by (rule process_ok_update [OF assms(1) i u])
  note ok = assms(1) [unfolded process_ok_def Let_def]
  obtain st where d: "ocsp_done (profile, ep) env (ps_sup p) = Some st" and st: "supervisor_ok st" "named st" "announced_ok st"
    and at: "\<And>name sv. server_at (ps_sup p) name = Some sv \<Longrightarrow> \<exists>sv'. server_at st name = Some sv' \<and> sv_profile sv' = sv_profile sv"
    using ocsp_done_ok [OF _ _ _ sv, of env] ok assms(3) OcspDone by (auto simp: is_none_or_def)
  have p': "p' = p\<lparr>ps_sup := st, ps_updates := drop_at i (ps_updates p)\<rparr>" using assms(4) OcspDone u d by simp
  have "\<exists>sv. server_at st (pf_name pf) = Some sv \<and> sv_profile sv = pf \<and> server_name sv = en_name ep1"
    if "(pf, ep1) \<in> set (ps_updates p)" for pf ep1
  proof -
    from that ok obtain s where s: "server_at (ps_sup p) (pf_name pf) = Some s" "sv_profile s = pf" "server_name s = en_name ep1" by auto
    with at obtain s' where "server_at st (pf_name pf) = Some s'" "sv_profile s' = pf" by blast
    with s st(2) ok show ?thesis by (auto simp: named_def)
  qed
  with drop_at_subset [of i "ps_updates p"] st jobs show ?thesis by (auto simp: p' process_ok_def)
qed (use assms in \<open>auto simp: process_ok_def Let_def split: option.splits if_splits\<close>)

lemma running_process_ok: "running home multiuser p \<Longrightarrow> process_ok p"
proof (induction rule: running.induct)
  case (starts env changed st tn)
  note e = start_ok [unfolded process_ok_def Let_def]
  have "supervisor_ok st \<and> named st \<and> announced_ok st"
    using starts e by (intro scan_ok [OF starts(2)]) (simp_all add: start_process_def)
  then have "process_ok (start_process st)" by (simp add: process_ok_def start_process_def)
  then show ?case by (rule begin_turn_ok) (simp add: start_process_def)
next
  case (stays p ev p')
  then show ?case by (blast intro: stays_ok)
next
  case (turns p ev p' tn)
  then show ?case using turns_ok begin_turn_ok by blast
qed

text \<open>
  Property C34: a scan treats every identity by itself. When discovery fails, nothing changes. Otherwise
  the server of a name is afterwards a function of that identity alone (\<^const>\<open>scanned\<close>): it is gone
  when the identity is gone, started anew when the identity is new or has moved, kept as it is when its
  settings are unreadable or unchanged, closed when they turn listening off, and otherwise it has the
  new configuration or still its old one. Whatever fails for other identities has no influence. Every
  server that is left listens under the scopes of its configuration, publishes exactly if these are
  external, and routes by its configuration; and a scan that reports no change has left every server as
  it was, up to a renewed registration.
\<close>

theorem scan_isolates_identities:
  assumes "supervisor_ok st" and "discovers_once env" and "reconcile_profiles env home user_homes st = (r, st')"
  shows "supervisor_ok st' \<and> (case r of
      Inl e \<Rightarrow> discover_profiles env home user_homes = Inl e \<and> st' = st
    | Inr changed \<Rightarrow> \<exists>profiles. discover_profiles env home user_homes = Inr profiles \<and> (\<forall>name.
        server_at st' name = scanned env profiles name (server_at st name) \<and>
        (\<not> changed \<longrightarrow> apart_listener (server_at st' name) = apart_listener (server_at st name))))"
  using assms by (rule scan_isolates)

text \<open>
  Property C33: in every reachable state of the process, whatever identities come and go, whatever fails
  and in whatever order work completes, every server listens under its own name and the scopes of its
  configuration (with the credentials it had when it registered: a renewal of the revocation proof does
  not register it again), publishes with its current credentials exactly if these scopes are external, and routes by its current
  configuration and credentials; and every name that is announced in the local network belongs to such a
  server, with a configuration that announces it.
\<close>

theorem servers_serve_and_announcements_hold:
  assumes "running home multiuser p"
  shows "(\<forall>(name, sv) \<in> set (sp_servers (ps_sup p)). server_ok sv \<and> server_name sv = name \<and> registered_name sv = Some name) \<and>
    set (sp_announced (ps_sup p)) \<subseteq> {name. \<exists>sv. server_at (ps_sup p) name = Some sv \<and> announces (cfg_listen (sv_config sv))}"
  using running_process_ok [OF assms] by (auto simp: process_ok_def Let_def at_iff named_def announced_ok_def dest: supervisor_ok_at)

text \<open>
  Property C35: work in flight never meets a server it was not started for. Every outstanding publication
  is the only one of its name and uses the credentials that its server publishes with now, and a renewal
  that completes always finds its server: the program's expectation that it is registered holds, and no
  event makes the loop panic.
\<close>

theorem work_in_flight_is_current:
  assumes "running home multiuser p" and "enabled ev p" and "is_none_or named_credentials (event_env ev)"
  shows "distinct (map jb_name (ps_jobs p)) \<and>
    (\<forall>j \<in> set (ps_jobs p). \<exists>sv. server_at (ps_sup p) (jb_name j) = Some sv \<and> sv_publisher sv = Some (jb_publisher j)) \<and>
    on_event home multiuser ev p \<noteq> Panicked"
proof -
  note ok = running_process_ok [OF assms(1)]
  have "on_event home multiuser ev p \<noteq> Panicked"
  proof (cases ev)
    case (OcspDone i env)
    obtain profile ep where u: "ps_updates p ! i = (profile, ep)" by fastforce
    from assms(2) OcspDone have "i < length (ps_updates p)" by simp
    then obtain sv where "server_at (ps_sup p) (pf_name profile) = Some sv" by (rule process_ok_update [OF ok _ u])
    then show ?thesis using OcspDone u by (simp add: ocsp_done_def server_at_def)
  qed (auto simp: Let_def split: option.splits sum.splits prod.splits bool.splits)
  with ok show ?thesis by (simp add: process_ok_def Let_def)
qed

section \<open>The end of a process\<close>

lemma close_all_spec:
  "close_all env svs r = (r', svs') \<Longrightarrow> svs' = map (\<lambda>(name, sv). (name, snd (server_close env sv))) svs \<and>
     (is_ok r' \<longleftrightarrow> is_ok r \<and> (\<forall>(name, sv) \<in> set svs. is_ok (fst (server_close env sv))))"
  by (induction env svs r arbitrary: r' svs' rule: close_all.induct) (auto simp: is_ok_def split: prod.splits sum.splits)

lemma announced_fold_removed: "sp_announced (fold remove_mdns_name ns st) = filter (\<lambda>n. n \<notin> set ns) (sp_announced st)"
  "sp_servers (fold remove_mdns_name ns st) = sp_servers st"
  by (induction ns arbitrary: st) (auto simp: remove_mdns_name_def intro!: filter_cong)

text \<open>
  However the loop ends, nothing is announced afterwards and every server is closed; the process reports
  success exactly if the loop, every server and the responders ended without an error.
\<close>

lemma shut_down_complete:
  assumes "running home multiuser p" and "shut_down env mdns result (ps_sup p) = (r, st)"
  shows "sp_announced st = []"
    and "\<forall>(name, sv) \<in> set (sp_servers st). sv_closed sv \<and> sv_listener sv = None \<and> sv_publisher sv = None \<and> sv_router sv = None"
    and "is_ok r \<longleftrightarrow> is_ok result \<and> is_ok mdns \<and> (\<forall>(name, sv) \<in> set (sp_servers (ps_sup p)). is_ok (fst (server_close env sv)))"
proof -
  let ?ns = "map (server_name \<circ> snd) (sp_servers (ps_sup p))"
  note ok = running_process_ok [OF assms(1), unfolded process_ok_def Let_def]
  obtain closed svs where c: "close_all env (sp_servers (ps_sup p)) (Inr ()) = (closed, svs)" by fastforce
  note all = close_all_spec [OF c]
  have st: "st = (fold remove_mdns_name ?ns (ps_sup p))\<lparr>sp_servers := svs\<rparr>"
    and r: "r = try_r result (\<lambda>_. case mdns of Inl e \<Rightarrow> Inl e | Inr _ \<Rightarrow> closed)"
    using assms(2) c by (auto simp: shut_down_def announced_fold_removed(2))
  have "name \<in> set ?ns" if "name \<in> set (sp_announced (ps_sup p))" for name
    using that ok by (force simp: announced_ok_def named_def at_iff [symmetric])
  then show "sp_announced st = []" by (auto simp: st announced_fold_removed filter_empty_conv)
  show "\<forall>(name, sv) \<in> set (sp_servers st). sv_closed sv \<and> sv_listener sv = None \<and> sv_publisher sv = None \<and> sv_router sv = None"
    using all by (auto simp: st server_close_def)
  show "is_ok r \<longleftrightarrow> is_ok result \<and> is_ok mdns \<and> (\<forall>(name, sv) \<in> set (sp_servers (ps_sup p)). is_ok (fst (server_close env sv)))"
    using all by (cases result; cases mdns) (auto simp: r)
qed

section \<open>A process with one identity\<close>

definition example_profile :: profile where
  "example_profile = \<lparr>pf_name = ''a.b'', pf_path = ''/h/a.b''\<rparr>"

definition example_db :: setting_db where
  "example_db = \<lparr>db_version = 3, db_check = ''ok'', db_setting = Some [(''listen'', ''all'')], db_proxy = Some [], db_other_objects = False\<rparr>"

definition example_ocsp :: ocsp_env where
  "example_ocsp = \<lparr>oc_validity = (\<lambda>_. None), oc_access = (\<lambda>_. []), oc_serial = (\<lambda>_. None), oc_issuer = (\<lambda>_. None), oc_sha1 = id,
     oc_encode = (\<lambda>_. None), oc_scheme = (\<lambda>_. None), oc_post = (\<lambda>_ _. None), oc_time = (\<lambda>_. None), oc_valid = (\<lambda>_ _. True)\<rparr>"

definition example_scan :: scan_env where
  "example_scan = \<lparr>sc_gate = example_gate, sc_ocsp = example_ocsp, sc_query = (\<lambda>_. []), sc_getent = GetentMissing, sc_passwd = Inr [],
     sc_kind = (\<lambda>_. PathDir), sc_user_home = id, sc_discover = (\<lambda>_. Inr [example_profile]),
     sc_volume = (\<lambda>_. example_volume\<lparr>vol_setting := Some example_db\<rparr>), sc_looked = (\<lambda>_. Inr ()), sc_old_config = (\<lambda>_. Inr False),
     sc_tables = (\<lambda>_. (Some [], example_db)), sc_directories = (\<lambda>_. Inr ()), sc_certs = (\<lambda>_. Some [''o'']), sc_cached = (\<lambda>_. Some []),
     sc_cache = (\<lambda>_ _. Inr ()), sc_endpoint = (\<lambda>_. Inr example_endpoint), sc_reload = Inr, sc_access = (\<lambda>_ _. Inr ()),
     sc_libs = (\<lambda>_. Inr ()), sc_contacts = (\<lambda>_. Inr ()), sc_ownership = (\<lambda>_. Inr ()), sc_log = (\<lambda>_ _. Inr ()),
     sc_listen = (\<lambda>_ _. Inr ()), sc_resolver = (\<lambda>_. True), sc_tasks = (\<lambda>_. Some 0)\<rparr>"

definition example_config :: server_config where
  "example_config = \<lparr>cfg_listen = ''all'', cfg_proxies = []\<rparr>"

definition example_server :: server where
  "example_server = \<lparr>sv_profile = example_profile, sv_endpoint = example_endpoint, sv_config = example_config,
     sv_router = Some (example_endpoint, []), sv_publisher = Some example_endpoint, sv_listener = None, sv_closed = False\<rparr>"

lemma fold_r_Inr: "fold_r (\<lambda>_. Inr) xs u = Inr u"
  by (induction xs arbitrary: u) simp_all

lemma example_settings_read: "read_server_config example_env packages example_db = Inr example_config"
  by (simp add: fold_r_Inr read_server_config_def read_config_def example_db_def example_config_def check_proxy_mounts_def valid_listen_def
      parse_proxies_def split: option.splits)

lemma example_open: "open_config (example_volume\<lparr>vol_setting := Some example_db\<rparr>) w = Inr example_db"
  by (simp add: open_config_def example_volume_def example_db_def)

lemma example_initialized: "initialize_config (example_volume\<lparr>vol_setting := Some example_db\<rparr>) = Inr (example_volume\<lparr>vol_setting := Some example_db\<rparr>)"
  by (simp add: initialize_config_def archive_old_def open_config_def example_volume_def example_db_def)

lemma example_settings:
  "config_database example_env (\<lambda>_. []) (example_volume\<lparr>vol_setting := Some example_db\<rparr>) ''GET'' ''/std/sys/listen'' None None =
     (Inr (JObj [(''listen'', JStr ''all'')]), example_volume\<lparr>vol_setting := Some example_db\<rparr>)"
  by (simp add: config_database_def config_plan_def parse_deletion_def example_open example_settings_read config_reply_def)
    (simp add: example_config_def)

lemma example_authority: "dns_authority example_gate example_endpoint = Inr example_owner"
  by (simp add: dns_authority_def example_gate_def example_endpoint_def example_owner_def)

lemma example_gate_simps:
  "ge_http example_gate = example_env" "ge_subject example_gate = Some"
  "subject_key_of (ge_pki example_gate) [''o''] = Some \<lparr>sk_text = ''o'', sk_owner = ''o'', sk_client_and_server = True, sk_sequence = 1\<rparr>"
  by (simp_all add: example_gate_def)

lemma example_load: "server_load example_scan example_profile (example_volume\<lparr>vol_setting := Some example_db\<rparr>) = Inr example_server"
  by (simp add: server_load_def load_server_config_def example_initialized example_open example_scan_def ensure_ocsp_def
      example_ocsp_def load_endpoint_def example_authority dns_publisher_def example_server_def example_gate_simps example_settings_read
      example_config_def published_def)

lemma example_load_profile: "load_profile example_scan example_profile = Inr (Some example_server)"
proof -
  have "sc_volume example_scan x = example_volume\<lparr>vol_setting := Some example_db\<rparr>" "ge_http (sc_gate example_scan) = example_env"
    "sc_query example_scan = (\<lambda>_. [])" "sc_looked example_scan x = Inr ()" for x
    by (simp_all add: example_scan_def example_gate_simps)
  then show ?thesis
    by (simp add: load_profile_def hosted_def example_settings example_load jidx_def) (simp add: example_server_def example_config_def)
qed

lemma example_scanned:
  "scan ''/h'' False example_scan empty_supervisor =
     (Inr True, \<lparr>sp_servers = [(''a.b'', example_server\<lparr>sv_listener := Some (example_endpoint, AllScopes)\<rparr>)], sp_announced = []\<rparr>)"
proof -
  have "server_listen example_scan example_server = Inr (example_endpoint, AllScopes)"
    by (simp add: server_listen_def listen_scopes_def example_server_def example_config_def example_scan_def)
  then have "start_server example_scan example_profile empty_supervisor False =
      (Inr (), put_server ''a.b'' (example_server\<lparr>sv_listener := Some (example_endpoint, AllScopes)\<rparr>) empty_supervisor, True)"
    by (simp add: start_server_def example_load_profile) (simp add: example_server_def example_config_def example_profile_def)
  moreover have "discover_profiles example_scan ''/h'' None = Inr [example_profile]"
    by (simp add: discover_profiles_def example_scan_def)
  ultimately show ?thesis
    by (simp add: scan_def reconcile_profiles_def reconcile_identity_def empty_supervisor_def)
      (simp add: put_server_def)
qed

lemma example_named: "named_credentials example_scan"
  by (simp add: named_credentials_def discovers_once_def example_scan_def example_profile_def example_endpoint_def)

definition example_turn :: turn where
  "example_turn = \<lparr>tn_maintained = True, tn_now = 0, tn_addresses = [''x'']\<rparr>"

definition example_process :: process where
  "example_process = \<lparr>ps_sup = \<lparr>sp_servers = [(''a.b'', example_server\<lparr>sv_listener := Some (example_endpoint, AllScopes)\<rparr>)], sp_announced = [''a.b'']\<rparr>,
     ps_jobs = [\<lparr>jb_name = ''a.b'', jb_publisher = example_endpoint, jb_addresses = [''x'']\<rparr>], ps_updates = [], ps_runs = [], ps_due = None,
     ps_removed = []\<rparr>"

lemma example_process_running: "running ''/h'' False example_process"
proof -
  have "example_process = begin_turn example_turn (start_process
      \<lparr>sp_servers = [(''a.b'', example_server\<lparr>sv_listener := Some (example_endpoint, AllScopes)\<rparr>)], sp_announced = []\<rparr>)"
    by (simp add: example_process_def begin_turn_def start_process_def example_turn_def publications_def announced_names_def
        server_name_def announces_def map_filter_simps example_server_def example_config_def example_endpoint_def)
  note eq = this
  show ?thesis unfolding eq by (rule running.starts [OF example_named example_scanned])
qed

theorem servers_serve_and_announcements_hold_witness:
  "server_ok (example_server\<lparr>sv_listener := Some (example_endpoint, AllScopes)\<rparr>) \<and> ''a.b'' \<in> set (sp_announced (ps_sup example_process))"
  using servers_serve_and_announcements_hold [OF example_process_running] by (simp add: example_process_def)

theorem work_in_flight_is_current_witness:
  "\<exists>sv. server_at (ps_sup example_process) ''a.b'' = Some sv \<and> sv_publisher sv = Some example_endpoint \<and>
     on_event ''/h'' False (JobDone 0 Published 0 1) example_process \<noteq> Panicked"
proof -
  have "enabled (JobDone 0 Published 0 1) example_process" "is_none_or named_credentials (event_env (JobDone 0 Published 0 1))"
    by (simp_all add: example_process_def is_none_or_def)
  from work_in_flight_is_current [OF example_process_running this] show ?thesis by (simp add: example_process_def)
qed

theorem scan_isolates_identities_witness:
  "scanned example_scan [example_profile] ''a.b'' None = Some (example_server\<lparr>sv_listener := Some (example_endpoint, AllScopes)\<rparr>)"
proof -
  have ok: "supervisor_ok empty_supervisor" by (simp add: supervisor_ok_def empty_supervisor_def)
  have once: "discovers_once example_scan" using example_named by (simp add: named_credentials_def)
  have rec: "reconcile_profiles example_scan ''/h'' None empty_supervisor =
      (Inr True, \<lparr>sp_servers = [(''a.b'', example_server\<lparr>sv_listener := Some (example_endpoint, AllScopes)\<rparr>)], sp_announced = []\<rparr>)"
    using example_scanned by (simp add: scan_def)
  have d: "discover_profiles example_scan ''/h'' None = Inr [example_profile]"
    by (simp add: discover_profiles_def example_scan_def)
  from scan_isolates_identities [OF ok once rec] d
  have "server_at \<lparr>sp_servers = [(''a.b'', example_server\<lparr>sv_listener := Some (example_endpoint, AllScopes)\<rparr>)], sp_announced = []\<rparr> ''a.b'' =
      scanned example_scan [example_profile] ''a.b'' (server_at empty_supervisor ''a.b'')" by simp
  then show ?thesis by (simp add: server_at_def empty_supervisor_def)
qed

end
