(* ===== verification/Startup.thy ===== *)
theory Startup
  imports Management
begin

text \<open>
  The packages of an identity when its server starts: the recovery of an interrupted file transaction
  (\<^verbatim>\<open>src/server/files.rs\<close>), the loading of the registered Libs and Apps (\<^verbatim>\<open>load_libs\<close> of
  \<^verbatim>\<open>src/sandbox.rs\<close>, \<^verbatim>\<open>disk_bytes\<close> and \<^verbatim>\<open>installed_apps\<close> of \<^verbatim>\<open>src/package/files.rs\<close>), and the private
  volume that \<^verbatim>\<open>Lib::load\<close> (\<^verbatim>\<open>src/sandbox/runtime.rs\<close>) prepares for the data of each Lib.

  Owners and modes are not modelled, and the layouts of earlier releases are taken as migrated. The
  roots \<^verbatim>\<open>lib/\<close> and \<^verbatim>\<open>app/\<close> exist: the start creates them before.
\<close>

section \<open>The volume of a Lib\<close>

text \<open>
  What is at a path: a directory with the files below it, a regular file, or a link, which leads to
  nothing, to a directory or to something else.
\<close>

datatype place = Folder "(string \<times> string) list" | Regular | LinkTo "bool option"

type_synonym places = "string \<Rightarrow> place option"

definition place_exists :: "place option \<Rightarrow> bool" where
  "place_exists p = (case p of None \<Rightarrow> False | Some (LinkTo None) \<Rightarrow> False | _ \<Rightarrow> True)"

definition is_folder :: "place option \<Rightarrow> bool" where
  "is_folder p = (case p of Some (Folder _) \<Rightarrow> True | _ \<Rightarrow> False)"

definition data_parent :: "string \<Rightarrow> string list" where
  "data_parent pid = (if is_standard_author (split_first (CHR ''/'') pid) then [''.volume'', ''.volume/std''] else [''.volume''])"

definition data_dir :: "string \<Rightarrow> string" where
  "data_dir pid = last (data_parent pid) @ ''/'' @ short_name pid"

definition legacy_dirs :: "string \<Rightarrow> string list" where
  "legacy_dirs pid = (''db/'' @ short_name pid) #
     (case split_once (CHR ''/'') pid of None \<Rightarrow> [] | Some (author, _) \<Rightarrow> [''db/'' @ author @ ''/'' @ short_name pid])"

definition exists_error :: error where
  "exists_error = Io AlreadyExists ''File exists''"

definition data_error :: error where
  "data_error = InvalidComponent ''Lib data must be a real directory''"

text \<open>\<^verbatim>\<open>create_dir_all\<close>, from the outermost directory.\<close>

definition create_dir :: "string \<Rightarrow> places \<Rightarrow> places res" where
  "create_dir path ps = (case ps path of
     None \<Rightarrow> Inr (ps(path \<mapsto> Folder []))
   | Some (Folder _) \<Rightarrow> Inr ps
   | Some (LinkTo (Some True)) \<Rightarrow> Inr ps
   | Some _ \<Rightarrow> Inl exists_error)"

text \<open>Data of an earlier release moves to the volume, when the volume does not exist yet.\<close>

definition adopt_legacy :: "string \<Rightarrow> places \<Rightarrow> unit res \<times> places" where
  "adopt_legacy pid ps =
     (if place_exists (ps (data_dir pid)) then (Inr (), ps)
      else let existing = filter (\<lambda>p. place_exists (ps p)) (legacy_dirs pid) in
      if length existing > 1 then (Inl (InvalidConfig ''multiple legacy Lib data directories require reconciliation''), ps)
      else (case fold_r create_dir (data_parent pid) ps of
          Inl e \<Rightarrow> (Inl e, ps)
        | Inr ps1 \<Rightarrow>
            (case existing of
               [] \<Rightarrow> (Inr (), ps1)
             | source # _ \<Rightarrow>
                 if \<not> is_folder (ps1 source) then (Inl (InvalidConfig ''legacy Lib data must be a real directory''), ps1)
                 else if ps1 (data_dir pid) \<noteq> None then (Inl (Io OtherIo ''Not a directory''), ps1)
                 else (Inr (), ps1(data_dir pid := ps1 source, source := None)))))"

definition real_or_missing :: "place option \<Rightarrow> unit res" where
  "real_or_missing p = ensure_r (p = None \<or> is_folder p) data_error"

definition make_data_dir :: "string \<Rightarrow> places \<Rightarrow> unit res \<times> places" where
  "make_data_dir pid ps = (case ps (last (data_parent pid)) of
     None \<Rightarrow> (Inl missing_resource, ps)
   | Some parent \<Rightarrow>
       if \<not> is_folder (Some parent) then (Inl (InvalidComponent ''Lib database root must be a real directory''), ps)
       else (case ps (data_dir pid) of
           None \<Rightarrow> (Inr (), ps(data_dir pid \<mapsto> Folder []))
         | Some p \<Rightarrow> if is_folder (Some p) then (Inr (), ps) else (Inl data_error, ps)))"

definition prepare_volume :: "(string \<Rightarrow> unit res) \<Rightarrow> string \<Rightarrow> string \<Rightarrow> places \<Rightarrow> unit res \<times> places" where
  "prepare_volume compile pid bytes ps = (case adopt_legacy pid ps of
     (Inl e, ps1) \<Rightarrow> (Inl e, ps1)
   | (Inr _, ps1) \<Rightarrow>
       (case try_r (real_or_missing (ps1 (last (data_parent pid)))) (\<lambda>_.
             try_r (real_or_missing (ps1 (data_dir pid))) (\<lambda>_. compile bytes)) of
          Inl e \<Rightarrow> (Inl e, ps1)
        | Inr _ \<Rightarrow> make_data_dir pid ps1))"

section \<open>Loading\<close>

record start_env =
  su_tools :: tools
  su_compile :: "string \<Rightarrow> unit res"

abbreviation su_norm :: "start_env \<Rightarrow> normalizer" where
  "su_norm env \<equiv> normalize_name (tk_pki (su_tools env))"

text \<open>The component of a registered Lib.\<close>

definition disk_bytes :: "normalizer \<Rightarrow> disk \<Rightarrow> string \<Rightarrow> string res" where
  "disk_bytes norm d pid =
     try_r (valid_id norm pid) (\<lambda>_.
     try_r (registered_metadata (dk_registry d) pid) (\<lambda>(row, _).
     try_r (ensure_r (\<not> \<not> pk_has_lib row) RouteNotFound) (\<lambda>_.
     (case live d (pid, Lib) of
        None \<Rightarrow> Inl missing_resource
      | Some (Component bytes) \<Rightarrow> runtime_wasm bytes
      | Some _ \<Rightarrow> Inl layout_error))))"

definition lib_load :: "start_env \<Rightarrow> string \<Rightarrow> string \<Rightarrow> places \<Rightarrow> loaded_lib res \<times> places" where
  "lib_load env pid bytes ps = (case load_lib (su_tools env) (\<lambda>_ _. Inr ()) pid bytes of
     Inl e \<Rightarrow> (Inl e, ps)
   | Inr lib \<Rightarrow> (case prepare_volume (su_compile env) pid bytes ps of
       (Inl e, ps') \<Rightarrow> (Inl e, ps')
     | (Inr _, ps') \<Rightarrow> (Inr lib, ps')))"

text \<open>\<^verbatim>\<open>SELECT ... FROM lib ORDER BY author,name\<close>; a missing author comes first.\<close>

definition registered_libs :: "registry \<Rightarrow> string list" where
  "registered_libs reg = map row_id (sort_key (\<lambda>p. (case pk_author p of None \<Rightarrow> [] | Some a \<Rightarrow> [a], pk_name p))
     (filter pk_has_lib (rg_packages reg)))"

fun load_each ::
  "start_env \<Rightarrow> disk \<Rightarrow> string list \<Rightarrow> (string \<Rightarrow> loaded_lib option) \<Rightarrow> places \<Rightarrow> (string \<Rightarrow> loaded_lib option) res \<times> places"
where
  "load_each env d [] libs ps = (Inr libs, ps)"
| "load_each env d (pid # pids) libs ps = (case disk_bytes (su_norm env) d pid of
     Inl e \<Rightarrow> (Inl e, ps)
   | Inr bytes \<Rightarrow> (case lib_load env pid bytes ps of
       (Inl e, ps') \<Rightarrow> (Inl e, ps')
     | (Inr lib, ps') \<Rightarrow> load_each env d pids (libs(pid \<mapsto> lib)) ps'))"

definition open_app ::
  "disk \<Rightarrow> string \<times> string \<Rightarrow> (string \<Rightarrow> (string \<times> payload) option) \<Rightarrow> (string \<Rightarrow> (string \<times> payload) option) res"
where
  "open_app d record apps =
     try_r (registered_metadata (dk_registry d) (fst record)) (\<lambda>(row, _).
     (case live d (fst record, App) of
        None \<Rightarrow> Inl missing_resource
      | Some (Component _) \<Rightarrow> Inl layout_error
      | Some content \<Rightarrow> Inr (apps(fst record \<mapsto> (pk_version row, content)))))"

definition installed_apps :: "normalizer \<Rightarrow> disk \<Rightarrow> string option \<Rightarrow> (string \<Rightarrow> (string \<times> payload) option) res" where
  "installed_apps norm d pid =
     try_r (case pid of None \<Rightarrow> Inr () | Some i \<Rightarrow> valid_id norm i) (\<lambda>_.
     try_r (registered_packages norm (dk_registry d) ''app'' pid) (\<lambda>records.
     fold_r (open_app d) records (\<lambda>_. None)))"

text \<open>The collections of a sandbox; they are set only when everything has been loaded.\<close>

definition load_libs ::
  "start_env \<Rightarrow> disk \<Rightarrow> places \<Rightarrow> ((string \<Rightarrow> loaded_lib option) \<times> (string \<Rightarrow> (string \<times> payload) option)) res \<times> places"
where
  "load_libs env d ps = (case load_each env d (registered_libs (dk_registry d)) (\<lambda>_. None) ps of
     (Inl e, ps') \<Rightarrow> (Inl e, ps')
   | (Inr libs, ps') \<Rightarrow> (try_r (installed_apps (su_norm env) d None) (\<lambda>apps. Inr (libs, apps)), ps'))"

text \<open>
  From the disk of a stopped process to a running sandbox: \<^verbatim>\<open>Server::load\<close>, as far as packages go. The
  first error ends the start. \<open>signing\<close> is whether the database has the signing columns.
\<close>

definition start_packages :: "start_env \<Rightarrow> bool \<Rightarrow> host \<Rightarrow> places \<Rightarrow> host res \<times> places" where
  "start_packages env signing host ps = (case recover_package_files (su_norm env) signing (ho_disk host) of
     Inl e \<Rightarrow> (Inl e, ps)
   | Inr d \<Rightarrow> (case load_libs env d ps of
       (Inl e, ps') \<Rightarrow> (Inl e, ps')
     | (Inr (libs, apps), ps') \<Rightarrow>
         (Inr (host\<lparr>ho_disk := d, ho_libs := libs, ho_apps := apps, ho_closed := False\<rparr>), ps')))"

end
