(* ===== verification/Startup_Laws.thy ===== *)
theory Startup_Laws
  imports Startup Management_Laws
begin

text \<open>
  What a start promises: the data of a Lib is never lost or replaced when its volume is prepared; a
  restarted process runs exactly the packages that ran before; and after a crash in the middle of an
  installation it runs exactly the old packages or exactly the new ones.
\<close>

section \<open>Volumes\<close>

lemma data_dir_apart:
  "data_dir pid \<notin> set (data_parent pid)" "data_dir pid \<notin> set (legacy_dirs pid)" "set (legacy_dirs pid) \<inter> set (data_parent pid) = {}"
  by (auto simp: data_dir_def data_parent_def legacy_dirs_def split: option.splits)

lemma legacy_distinct: "p \<in> set (legacy_dirs pid) \<Longrightarrow> p \<noteq> data_dir pid"
  using data_dir_apart(2) by auto

lemma create_dir_keeps:
  assumes "create_dir path ps = Inr ps'"
  shows "ps p \<noteq> None \<Longrightarrow> ps' p = ps p" and "p \<noteq> path \<Longrightarrow> ps' p = ps p"
  using assms by (auto simp: create_dir_def split: option.splits place.splits bool.splits)

lemma create_dirs_keep:
  assumes "fold_r create_dir paths ps = Inr ps'"
  shows "ps p \<noteq> None \<Longrightarrow> ps' p = ps p" and "p \<notin> set paths \<Longrightarrow> ps' p = ps p"
proof -
  have "(ps p \<noteq> None \<longrightarrow> ps' p = ps p) \<and> (p \<notin> set paths \<longrightarrow> ps' p = ps p)"
    using assms
  proof (induction paths arbitrary: ps)
    case (Cons x paths)
    from Cons.prems obtain ps1 where c: "create_dir x ps = Inr ps1" and r: "fold_r create_dir paths ps1 = Inr ps'"
      by (auto simp: try_r_Inr_iff)
    from Cons.IH [OF r] create_dir_keeps [OF c, of p] show ?case by auto
  qed simp
  then show "ps p \<noteq> None \<Longrightarrow> ps' p = ps p" "p \<notin> set paths \<Longrightarrow> ps' p = ps p" by auto
qed

text \<open>The cases of \<open>adopt_legacy\<close>: nothing to move, directories made, one source moved.\<close>

lemma adopt_legacy_cases:
  assumes "adopt_legacy pid ps = (res, ps1)"
  obtains (there) "place_exists (ps (data_dir pid))" "res = Inr ()" "ps1 = ps"
  | (failed) e where "\<not> place_exists (ps (data_dir pid))" "res = Inl e" "\<And>p. ps p \<noteq> None \<Longrightarrow> ps1 p = ps p"
      "\<And>p. p \<notin> set (data_parent pid) \<Longrightarrow> ps1 p = ps p"
  | (fresh) "\<not> place_exists (ps (data_dir pid))" "filter (\<lambda>p. place_exists (ps p)) (legacy_dirs pid) = []" "res = Inr ()"
      "\<And>p. ps p \<noteq> None \<Longrightarrow> ps1 p = ps p" "\<And>p. p \<notin> set (data_parent pid) \<Longrightarrow> ps1 p = ps p"
  | (moved) source ps0 files where "\<not> place_exists (ps (data_dir pid))" "filter (\<lambda>p. place_exists (ps p)) (legacy_dirs pid) = [source]"
      "res = Inr ()" "ps source = Some (Folder files)" "ps (data_dir pid) = None"
      "ps1 = ps0(data_dir pid \<mapsto> Folder files, source := None)"
      "\<And>p. ps p \<noteq> None \<Longrightarrow> ps0 p = ps p" "\<And>p. p \<notin> set (data_parent pid) \<Longrightarrow> ps0 p = ps p"
proof (cases "place_exists (ps (data_dir pid))")
  case True
  with assms show ?thesis by (intro there) (auto simp: adopt_legacy_def)
next
  case False
  let ?existing = "filter (\<lambda>p. place_exists (ps p)) (legacy_dirs pid)"
  note a = assms [unfolded adopt_legacy_def Let_def if_not_P [OF False]]
  show ?thesis
  proof (cases "length ?existing > 1")
    case True
    with a False show ?thesis by (intro failed) auto
  next
    case few: False
    note a = a [unfolded if_not_P [OF few]]
    show ?thesis
    proof (cases "fold_r create_dir (data_parent pid) ps")
      case (Inl e)
      with a False show ?thesis by (intro failed) auto
    next
      case (Inr ps0)
      note keep = create_dirs_keep [OF Inr]
      show ?thesis
      proof (cases ?existing)
        case Nil
        with a Inr have "res = Inr ()" "ps1 = ps0" by auto
        with keep show ?thesis by (intro fresh [OF False Nil]) auto
      next
        case (Cons source rest)
        with few have one: "?existing = [source]" by (cases rest) auto
        have "source \<in> set ?existing" unfolding one by simp
        then have src: "source \<in> set (legacy_dirs pid)" "place_exists (ps source)" by auto
        have same: "ps0 source = ps source" "ps0 (data_dir pid) = ps (data_dir pid)"
          using keep(2) [of source] keep(2) [of "data_dir pid"] src data_dir_apart by blast+
        show ?thesis
        proof (cases "is_folder (ps source) \<and> ps (data_dir pid) = None")
          case True
          then obtain files where "ps source = Some (Folder files)" by (auto simp: is_folder_def split: option.splits place.splits)
          with True one a Inr same False keep show ?thesis by (intro moved [of source files ps0]) auto
        next
          case no: False
          with one a Inr same obtain e where "res = Inl e" "ps1 = ps0" by (auto split: if_splits)
          with False keep show ?thesis by (intro failed) auto
        qed
      qed
    qed
  qed
qed

lemma make_data_dir_keeps:
  assumes "make_data_dir pid ps = (res, ps')"
  shows "ps p \<noteq> None \<Longrightarrow> ps' p = ps p" and "p \<noteq> data_dir pid \<Longrightarrow> ps' p = ps p"
    and "res = Inr () \<Longrightarrow> is_folder (ps' (last (data_parent pid))) \<and> is_folder (ps' (data_dir pid)) \<and>
           (ps (data_dir pid) = None \<longrightarrow> ps' (data_dir pid) = Some (Folder []))"
proof -
  have "data_dir pid \<noteq> last (data_parent pid)" by (auto simp: data_dir_def)
  with assms show "ps p \<noteq> None \<Longrightarrow> ps' p = ps p" and "p \<noteq> data_dir pid \<Longrightarrow> ps' p = ps p"
    and "res = Inr () \<Longrightarrow> is_folder (ps' (last (data_parent pid))) \<and> is_folder (ps' (data_dir pid)) \<and>
           (ps (data_dir pid) = None \<longrightarrow> ps' (data_dir pid) = Some (Folder []))"
    by (auto simp: make_data_dir_def is_folder_def split: option.splits if_splits place.splits)
qed

lemma place_exists_None [simp]: "\<not> place_exists None" by (simp add: place_exists_def)

lemma folder_exists: "is_folder p \<Longrightarrow> place_exists p"
  by (auto simp: is_folder_def place_exists_def split: option.splits place.splits)

lemma prepare_volume_ready:
  assumes "is_folder (ps (last (data_parent pid)))" and "is_folder (ps (data_dir pid))" and "compile bytes = Inr ()"
  shows "prepare_volume compile pid bytes ps = (Inr (), ps)"
  using assms folder_exists [OF assms(2)]
  by (auto simp: prepare_volume_def adopt_legacy_def real_or_missing_def make_data_dir_def is_folder_def split: option.splits)

lemma prepare_volume_steps:
  assumes "prepare_volume compile pid bytes ps = (res, ps')" and "adopt_legacy pid ps = (r1, ps1)"
  shows "ps' = ps1 \<and> res \<noteq> Inr () \<or> r1 = Inr () \<and> real_or_missing (ps1 (data_dir pid)) = Inr () \<and> compile bytes = Inr () \<and>
    make_data_dir pid ps1 = (res, ps')"
  using assms by (auto simp: prepare_volume_def try_r_Inr_iff split: sum.splits)

text \<open>
  Property C6: the data of a Lib is never lost. Whatever preparing its volume meets and however it ends:
  a volume that exists is left as it is; every directory of data is afterwards where it was or, from a
  place of an earlier release, is the volume; nothing else changes. On success the volume holds what it
  held, else what the one earlier place held, else nothing, and preparing it again changes nothing.
\<close>

theorem lib_data_preserved:
  assumes "prepare_volume compile pid bytes ps = (res, ps')"
  shows "(place_exists (ps (data_dir pid)) \<longrightarrow> ps' (data_dir pid) = ps (data_dir pid)) \<and>
    (\<forall>p files. ps p = Some (Folder files) \<longrightarrow> ps' p = Some (Folder files) \<or>
       p \<in> set (legacy_dirs pid) \<and> ps (data_dir pid) = None \<and> ps' (data_dir pid) = Some (Folder files)) \<and>
    (\<forall>p. p \<notin> insert (data_dir pid) (set (legacy_dirs pid) \<union> set (data_parent pid)) \<longrightarrow> ps' p = ps p) \<and>
    (res = Inr () \<longrightarrow> prepare_volume compile pid bytes ps' = (Inr (), ps') \<and>
       ps' (data_dir pid) = (if place_exists (ps (data_dir pid)) then ps (data_dir pid)
         else case filter (\<lambda>p. place_exists (ps p)) (legacy_dirs pid) of [] \<Rightarrow> Some (Folder []) | p # _ \<Rightarrow> ps p))"
proof -
  obtain r1 ps1 where a: "adopt_legacy pid ps = (r1, ps1)" by fastforce
  note steps = prepare_volume_steps [OF assms a]
  have again: "prepare_volume compile pid bytes ps' = (Inr (), ps')" if "res = Inr ()"
    using that steps make_data_dir_keeps(3) [of pid ps1 res ps'] by (auto intro: prepare_volume_ready)
  have made: "ps1 p \<noteq> None \<Longrightarrow> ps' p = ps1 p" "p \<noteq> data_dir pid \<Longrightarrow> ps' p = ps1 p" for p
    using steps make_data_dir_keeps(1,2) [of pid ps1 res ps' p] by auto
  have empty: "res = Inr () \<Longrightarrow> ps1 (data_dir pid) = None \<Longrightarrow> ps' (data_dir pid) = Some (Folder [])"
    and real: "res = Inr () \<Longrightarrow> is_folder (ps' (data_dir pid))"
    using steps make_data_dir_keeps(3) [of pid ps1 res ps'] by auto
  from a show ?thesis
  proof (cases rule: adopt_legacy_cases)
    case there
    then have "ps (data_dir pid) \<noteq> None" using place_exists_None by metis
    with there made have data: "ps' (data_dir pid) = ps (data_dir pid)" by metis
    have "ps p = Some (Folder x) \<Longrightarrow> ps' p = Some (Folder x)" for p x using made(1) [of p] there by simp
    with there made(2) again data show ?thesis by auto
  next
    case (failed e)
    with steps have "ps' = ps1" "res \<noteq> Inr ()" by auto
    with failed show ?thesis by auto
  next
    case fresh
    have "ps (data_dir pid) = None" if "res = Inr ()"
    proof (rule ccontr)
      assume "ps (data_dir pid) \<noteq> None"
      with fresh made have "ps' (data_dir pid) = ps (data_dir pid)" by metis
      with real [OF that] fresh(1) folder_exists show False by metis
    qed
    moreover have "ps1 (data_dir pid) = ps (data_dir pid)" using fresh(5) data_dir_apart(1) by metis
    ultimately have "res = Inr () \<Longrightarrow> ps' (data_dir pid) = Some (Folder [])" using empty by metis
    moreover have "ps p = Some (Folder files) \<Longrightarrow> ps' p = Some (Folder files)" for p files
      using fresh(4) [of p] made(1) [of p] by simp
    ultimately show ?thesis using fresh made again by auto
  next
    case (moved source ps0 files)
    have "source \<in> set (filter (\<lambda>p. place_exists (ps p)) (legacy_dirs pid))" unfolding moved(2) by simp
    then have src: "source \<in> set (legacy_dirs pid)" by simp
    then have ne: "source \<noteq> data_dir pid" "source \<notin> set (data_parent pid)" using data_dir_apart by auto
    have data: "ps' (data_dir pid) = Some (Folder files)" using made(1) [of "data_dir pid"] moved(6) ne by simp
    have keep: "p \<noteq> source \<Longrightarrow> p \<noteq> data_dir pid \<Longrightarrow> ps' p = ps0 p" for p using made(2) [of p] moved(6) by simp
    have "ps' p = Some (Folder x) \<or> p \<in> set (legacy_dirs pid) \<and> ps' (data_dir pid) = Some (Folder x)" if "ps p = Some (Folder x)" for p x
    proof (cases "p = source")
      case True
      with that moved(4) src data show ?thesis by simp
    next
      case False
      moreover have "p \<noteq> data_dir pid" using that moved(5) by auto
      ultimately show ?thesis using that keep [of p] moved(7) [of p] by simp
    qed
    moreover have "ps' p = ps p" if "p \<notin> insert (data_dir pid) (set (legacy_dirs pid) \<union> set (data_parent pid))" for p
      using that src keep [of p] moved(8) [of p] by auto
    ultimately show ?thesis using moved(1-5) data again by auto
  qed
qed

theorem lib_data_preserved_witness:
  "prepare_volume (\<lambda>_. Inr ()) ''a.b/x'' [] [''db/a.b/x'' \<mapsto> Folder [(''f'', ''1'')]] =
     (Inr (), [''.volume/x'' \<mapsto> Folder [(''f'', ''1'')], ''.volume'' \<mapsto> Folder []]) \<and>
   prepare_volume (\<lambda>_. Inr ()) ''a.b/x'' [] [''.volume/x'' \<mapsto> Folder [(''f'', ''1'')], ''.volume'' \<mapsto> Folder []] =
     (Inr (), [''.volume/x'' \<mapsto> Folder [(''f'', ''1'')], ''.volume'' \<mapsto> Folder []])"
proof -
  have run: "prepare_volume (\<lambda>_. Inr ()) ''a.b/x'' [] [''db/a.b/x'' \<mapsto> Folder [(''f'', ''1'')]] =
     (Inr (), [''.volume/x'' \<mapsto> Folder [(''f'', ''1'')], ''.volume'' \<mapsto> Folder []])"
    by (auto simp: prepare_volume_def adopt_legacy_def legacy_dirs_def data_dir_def data_parent_def create_dir_def place_exists_def
        is_folder_def real_or_missing_def make_data_dir_def is_standard_author_def short_name_def str_eval fun_eq_iff)
  with lib_data_preserved [OF run] show ?thesis by blast
qed

section \<open>Rows and versions\<close>

definition listed :: "registry \<Rightarrow> string \<Rightarrow> string \<Rightarrow> bool" where
  "listed reg pid v = (\<exists>row \<in> set (rg_packages reg). row_id row = pid \<and> pk_version row = v)"

definition ids_valid :: "normalizer \<Rightarrow> registry \<Rightarrow> bool" where
  "ids_valid norm reg = (\<forall>row \<in> set (rg_packages reg). valid_id norm (row_id row) = Inr ())"

lemma save_registration_rows:
  assumes "save_registration render now pid m doc reg = Inr reg'" and "registry_ok reg" and "registrable norm pid"
  shows "listed reg' pid (pm_version m)"
    and "listed reg p v \<Longrightarrow> p \<noteq> pid \<Longrightarrow> listed reg' p v"
    and "row \<in> set (rg_packages reg') \<Longrightarrow> row_id row = pid \<or> row \<in> set (rg_packages reg)"
proof -
  note pk = save_registration_packages [OF assms(1,2)]
  have ok: "graph_ok reg" "graph_ok reg'"
    using assms(2) save_registration_ok [OF assms(1,2)] by (simp_all add: registry_ok_def)
  have "check_name reg pid ''pkg'' = Inr ()" using assms(1) by (rule save_registration_steps)
  then have name: "row_id row = pid" if "row \<in> set (rg_packages reg)" "pk_name row = short_name pid" for row
    using that by (auto simp: check_name_def in_kind_def find_None_iff split: option.splits)
  obtain author n where p: "split_once (CHR ''/'') pid = Some (author, n)" and v: "valid_id norm pid = Inr ()"
    using assms(3) by (auto simp: registrable_def)
  note sp = id_split [OF p v]
  from pk [of "short_name pid"] obtain new where new: "find_package reg' (short_name pid) = Some new"
    "new = new_row now n (Some author) m \<or> (\<exists>old. new = upgraded_row now (new_row now n (Some author) m) old)"
    by (cases "find_package reg (short_name pid)") (auto simp: sp(2,3) simp del: find_package_None_iff)
  then have id: "row_id new = pid" "pk_version new = pm_version m" by (auto simp: sp(1) row_id_def)
  with find_package_Some [OF new(1)] show "listed reg' pid (pm_version m)" by (auto simp: listed_def)
  show "listed reg' p v" if "listed reg p v" "p \<noteq> pid"
  proof -
    from that obtain row where row: "row \<in> set (rg_packages reg)" "row_id row = p" "pk_version row = v" by (auto simp: listed_def)
    with name that(2) have "pk_name row \<noteq> short_name pid" by auto
    with pk [of "pk_name row"] find_package_row [of reg row] row(1) ok(1) have "find_package reg' (pk_name row) = Some row"
      by (simp add: graph_ok_def)
    then have "row \<in> set (rg_packages reg')" using find_package_Some by blast
    with row show ?thesis by (auto simp: listed_def)
  qed
  show "row_id row = pid \<or> row \<in> set (rg_packages reg)" if "row \<in> set (rg_packages reg')"
  proof -
    have f: "find_package reg' (pk_name row) = Some row" using find_package_row [of reg' row] that ok(2) by (simp add: graph_ok_def)
    show ?thesis
    proof (cases "pk_name row = short_name pid")
      case True
      with f new(1) id show ?thesis by simp
    next
      case False
      with f pk [of "pk_name row"] have "find_package reg (pk_name row) = Some row" by simp
      from find_package_Some [OF this] show ?thesis by simp
    qed
  qed
qed

lemma save_registrations_rows:
  assumes "fold_r (\<lambda>(pid, m, doc). save_registration render now pid m doc) changed reg = Inr reg'" and "registry_ok reg"
    and "distinct (map fst changed)" and "\<forall>c \<in> set changed. registrable norm (fst c)"
  shows "(\<forall>(pid, m, doc) \<in> set changed. listed reg' pid (pm_version m)) \<and>
    (\<forall>p v. p \<notin> fst ` set changed \<longrightarrow> listed reg p v \<longrightarrow> listed reg' p v) \<and>
    (\<forall>row \<in> set (rg_packages reg'). row_id row \<in> fst ` set changed \<or> row \<in> set (rg_packages reg))"
  using assms
proof (induction changed arbitrary: reg)
  case (Cons c changed)
  obtain pid m doc where c: "c = (pid, m, doc)" by (cases c)
  from Cons.prems(1) obtain reg1 where s: "save_registration render now pid m doc reg = Inr reg1"
    and rest: "fold_r (\<lambda>(pid, m, doc). save_registration render now pid m doc) changed reg1 = Inr reg'"
    by (auto simp: c try_r_Inr_iff)
  have v: "registrable norm pid" using Cons.prems(4) by (simp add: c)
  note one = save_registration_rows [OF s Cons.prems(2) v]
  have ih: "(\<forall>(pid, m, doc) \<in> set changed. listed reg' pid (pm_version m)) \<and>
    (\<forall>p v. p \<notin> fst ` set changed \<longrightarrow> listed reg1 p v \<longrightarrow> listed reg' p v) \<and>
    (\<forall>row \<in> set (rg_packages reg'). row_id row \<in> fst ` set changed \<or> row \<in> set (rg_packages reg1))"
    by (rule Cons.IH [OF rest save_registration_ok [OF s Cons.prems(2)]]) (use Cons.prems(3,4) in simp_all)
  moreover have "pid \<notin> fst ` set changed" using Cons.prems(3) by (simp add: c)
  moreover have "row_id row \<in> fst ` set (c # changed) \<or> row \<in> set (rg_packages reg)" if "row \<in> set (rg_packages reg')" for row
    using that ih one(3) [of row] by (auto simp: c)
  ultimately show ?case using one(1,2) by (auto simp: c)
qed simp

lemma listed_cong: "rg_packages reg = rg_packages reg' \<Longrightarrow> listed reg = listed reg'"
  by (intro ext) (simp add: listed_def)

lemma register_packages_rows:
  assumes "register_packages render now changed reg = Inr reg'" and "registry_ok reg"
    and "distinct (map fst changed)" and "\<forall>c \<in> set changed. registrable norm (fst c)"
  shows "(pid, m, doc) \<in> set changed \<Longrightarrow> listed reg' pid (pm_version m)"
    and "p \<notin> fst ` set changed \<Longrightarrow> listed reg p v \<Longrightarrow> listed reg' p v"
    and "row \<in> set (rg_packages reg') \<Longrightarrow> row_id row \<in> fst ` set changed \<or> row \<in> set (rg_packages reg)"
proof -
  let ?r = "fold (\<lambda>(pid, _, _). drop_dependencies (short_name pid)) changed reg"
  have "registry_ok ?r" using assms(2) by (induction changed arbitrary: reg) (auto simp: drop_dependencies_ok)
  note all = save_registrations_rows [OF assms(1) [unfolded register_packages_def] this assms(3,4),
      unfolded listed_cong [OF drop_all_dependencies] drop_all_dependencies]
  from all show "(pid, m, doc) \<in> set changed \<Longrightarrow> listed reg' pid (pm_version m)" by blast
  from all show "p \<notin> fst ` set changed \<Longrightarrow> listed reg p v \<Longrightarrow> listed reg' p v" by blast
  from all show "row \<in> set (rg_packages reg') \<Longrightarrow> row_id row \<in> fst ` set changed \<or> row \<in> set (rg_packages reg)" by blast
qed

section \<open>What can be loaded again\<close>

text \<open>
  Beside \<open>running_ok\<close>: every registered identity is valid, every running Lib is what loading its file
  gives, and every running App has the registered version and is a directory.
\<close>

definition restartable :: "tools \<Rightarrow> host \<Rightarrow> bool" where
  "restartable tk host =
     (running_ok host \<and> ids_valid (normalize_name (tk_pki tk)) (dk_registry (ho_disk host)) \<and>
      (\<forall>pid lib. ho_libs host pid = Some lib \<longrightarrow> loads tk pid lib) \<and>
      (\<forall>pid app. ho_apps host pid = Some app \<longrightarrow>
         listed (dk_registry (ho_disk host)) pid (fst app) \<and> (\<forall>bytes. snd app \<noteq> Component bytes)))"

lemma restartable_same:
  assumes "restartable tk host" and "same_installation host host'" and "clean_disk (ho_disk host')"
  shows "restartable tk host'"
  using assms by (auto simp: restartable_def running_ok_def same_installation_def)

lemma switched_restartable:
  assumes "switched env packages host changed host'" and "restartable (ie_tools env) host" and "clean_disk (ho_disk host')"
  shows "restartable (ie_tools env) host'"
proof -
  note sw = assms(1) [unfolded switched_def]
  let ?changes = "map (planned_change (ie_tools env)) changed" and ?reg = "dk_registry (ho_disk host)" and ?reg' = "dk_registry (ho_disk host')"
  have old: "running_ok host" "ids_valid (normalize_name (ie_pki env)) ?reg"
    "\<And>pid lib. ho_libs host pid = Some lib \<Longrightarrow> loads (ie_tools env) pid lib"
    "\<And>pid app. ho_apps host pid = Some app \<Longrightarrow> listed ?reg pid (fst app) \<and> (\<forall>bytes. snd app \<noteq> Component bytes)"
    using assms(2) unfolding restartable_def by blast+
  have d: "distinct (map pl_id changed)" using sw by blast
  have d': "distinct (map fst ?changes)" using d by (simp add: planned_change_def comp_def)
  have v: "\<forall>c \<in> set ?changes. registrable (normalize_name (ie_pki env)) (fst c)"
    using sw by (auto simp: planned_change_def dest: prepared_registrable)
  have ids: "fst ` set ?changes = pl_id ` set changed" by (force simp: planned_change_def)
  have reg: "register_packages (ie_render env) (ie_now env) ?changes ?reg = Inr ?reg'" using sw by blast
  have ok: "registry_ok ?reg" using old(1) by (simp add: running_ok_def)
  note rows = register_packages_rows [OF reg ok d' v, unfolded ids]
  have version: "listed ?reg' (pl_id c) (pm_version (pl_meta c))" if "c \<in> set changed" for c
    using rows(1) [of "pl_id c" "pl_meta c" "planned_document (ie_tools env) (pl_files c)"] that by (force simp: planned_change_def)
  have "valid_id (normalize_name (ie_pki env)) (row_id row) = Inr ()" if "row \<in> set (rg_packages ?reg')" for row
  proof -
    from rows(3) [OF that] consider c where "c \<in> set changed" "row_id row = pl_id c" | "row \<in> set (rg_packages ?reg)" by blast
    then show ?thesis
    proof cases
      case 1
      with v show ?thesis by (auto simp: planned_change_def registrable_def)
    next
      case 2
      with old(2) show ?thesis by (simp add: ids_valid_def)
    qed
  qed
  then have valid: "ids_valid (normalize_name (ie_pki env)) ?reg'" by (simp add: ids_valid_def)
  have libs: "loads (ie_tools env) pid lib" if "ho_libs host' pid = Some lib" for pid lib
    using that sw old(3) [of pid lib] by (cases "pid \<in> pl_id ` set changed") auto
  have apps: "listed ?reg' pid (fst app) \<and> (\<forall>bytes. snd app \<noteq> Component bytes)" if app: "ho_apps host' pid = Some app" for pid app
  proof (cases "pid \<in> pl_id ` set changed")
    case True
    then obtain c where c: "c \<in> set changed" "pid = pl_id c" by blast
    with sw app have "fst app = pm_version (pl_meta c)" "\<exists>files. snd app = Tree files" by metis+
    with version [OF c(1)] c(2) show ?thesis by auto
  next
    case False
    with sw app have "ho_apps host pid = Some app" by metis
    from old(4) [OF this] rows(2) [OF False] show ?thesis by blast
  qed
  have "running_ok host'" by (rule switched_running [OF assms(1) d old(1) assms(3)])
  with valid libs apps show ?thesis by (simp add: restartable_def)
qed

lemma opened_restartable:
  assumes "restartable tk host"
  shows "restartable tk (snd (open_installation env host))"
  using assms opened_running [of host env] listed_cong [OF open_installation_opened(8) [of env host]]
  by (simp add: restartable_def ids_valid_def open_installation_opened)

lemma kept_restartable:
  assumes "kept (cf_undo (ie_fault env) = None) host host' \<or> kept (cf_undo (ie_fault env) = None) (snd (open_installation env host)) host'"
    and "restartable tk host" and "settles env" and "clean_disk (ho_disk host')"
  shows "restartable tk host'"
  using assms restartable_same [OF _ _ assms(4)] opened_restartable [OF assms(2)] by (auto simp: settled_undone)

lemma install_restartable:
  assumes "restartable (ie_tools env) host" and "settles env"
  shows "restartable (ie_tools env) (snd (install_packages env packages host))"
proof -
  obtain res host' where i: "install_packages env packages host = (res, host')" by fastforce
  have "clean_disk (ho_disk host)" using assms(1) by (simp add: restartable_def running_ok_def)
  note out = install_packages_cases [OF i this]
  with assms(2) have clean: "clean_disk (ho_disk host')" by blast
  have "restartable (ie_tools env) host'"
  proof (cases res)
    case (Inl e)
    with out have "kept (cf_undo (ie_fault env) = None) host host' \<or> kept (cf_undo (ie_fault env) = None) (snd (open_installation env host)) host'"
      by simp
    then show ?thesis by (rule kept_restartable [OF _ assms clean])
  next
    case (Inr u)
    with out obtain changed where "switched env packages (snd (open_installation env host)) changed host'" by auto
    then show ?thesis by (rule switched_restartable [OF _ opened_restartable [OF assms(1)] clean])
  qed
  with i show ?thesis by simp
qed

lemma delete_restartable:
  assumes "restartable tk host" and "settles (mg_install env)"
  shows "restartable tk (snd (delete_package env name expected host))"
proof -
  let ?reg = "dk_registry (ho_disk host)"
  obtain res host' where d: "delete_package env name expected host = (res, host')" by fastforce
  have run: "running_ok host" using assms(1) by (simp add: restartable_def)
  note out = delete_package_outcome [OF d run refl refl]
  have "restartable tk host'"
  proof (cases res)
    case (Inl e)
    have clean: "clean_disk (ho_disk host')" using out assms(2) unfolding running_ok_def by blast
    from out Inl show ?thesis by (intro kept_restartable [OF _ assms clean]) simp
  next
    case (Inr u)
    with out assms(2) have new: "running_ok host'" and rm: "removed host name host'" by auto
    let ?gone = "\<lambda>pid. Some pid = map_option row_id (find_package ?reg name)"
    have rows: "set (rg_packages (dk_registry (ho_disk host'))) = {p \<in> set (rg_packages ?reg). pk_name p \<noteq> name}"
      using rm by (simp add: removed_def Let_def)
    have kept: "\<not> ?gone pid \<and> ho_libs host' pid = ho_libs host pid" if "ho_libs host' pid \<noteq> None" for pid
      using rm that by (auto simp: removed_def Let_def split: if_splits)
    have kept': "\<not> ?gone pid \<and> ho_apps host' pid = ho_apps host pid" if "ho_apps host' pid \<noteq> None" for pid
      using rm that by (auto simp: removed_def Let_def split: if_splits)
    have "listed (dk_registry (ho_disk host')) pid v" if "listed ?reg pid v" "\<not> ?gone pid" for pid v
    proof -
      from that(1) obtain row where row: "row \<in> set (rg_packages ?reg)" "row_id row = pid" "pk_version row = v" by (auto simp: listed_def)
      have "distinct (map pk_name (rg_packages ?reg))" using run by (simp add: running_ok_def registry_ok_def graph_ok_def)
      from find_package_row [OF this row(1)] row(2) that(2) have "pk_name row \<noteq> name" by auto
      with row rows show ?thesis by (auto simp: listed_def)
    qed
    with assms(1) new kept kept' rows show ?thesis
      unfolding restartable_def ids_valid_def by (metis (no_types, lifting) mem_Collect_eq option.distinct(1))
  qed
  with d show ?thesis by simp
qed

lemma manage_restartable:
  assumes "restartable (ie_tools (mg_install env)) host" and "settles (mg_install env)"
  shows "restartable (ie_tools (mg_install env)) (snd (manage env r host))"
proof -
  have "restartable (ie_tools (mg_install env)) (snd (install_store_package env publisher name version host))" for publisher name version
    using install_restartable [OF assms] assms(1) by (auto simp: install_store_package_def Let_def case_prod_unfold split: sum.splits)
  then have "restartable (ie_tools (mg_install env)) (snd (manage_request env r host))"
    using delete_restartable [OF assms] assms(1) by (auto simp: manage_request_def case_prod_unfold split: sum.splits manage_action.splits)
  then show ?thesis by (simp add: manage_def case_prod_unfold)
qed

section \<open>Loading what runs\<close>

lemma row_ids_distinct:
  assumes "graph_ok reg"
  shows "distinct (map row_id (rg_packages reg))"
proof -
  have d: "distinct (map pk_name (rg_packages reg))" using assms by (simp add: graph_ok_def)
  have "map pk_name (rg_packages reg) = map (short_name \<circ> row_id) (rg_packages reg)"
    using assms row_id_short by (simp add: graph_ok_def)
  with d have "distinct (map short_name (map row_id (rg_packages reg)))" by simp
  then show ?thesis by (simp only: distinct_map)
qed

lemma registered_metadata_row:
  assumes "graph_ok reg" and "row \<in> set (rg_packages reg)"
  shows "\<exists>full deps. registered_metadata reg (row_id row) = Inr (full, deps) \<and> pk_version full = pk_version row \<and> pk_has_lib full = pk_has_lib row"
proof -
  have "find (\<lambda>p. row_id p = row_id row) (rg_packages reg) = Some row"
    using row_ids_distinct [OF assms(1)] assms(2) by (rule find_key_unique)
  then show ?thesis by (simp add: registered_metadata_def ok_or_def Let_def)
qed

lemma running_rows:
  assumes "restartable tk host"
  shows "ho_libs host pid = Some lib \<Longrightarrow> \<exists>row \<in> set (rg_packages (dk_registry (ho_disk host))). row_id row = pid \<and> pk_has_lib row \<and>
      live (ho_disk host) (pid, Lib) = Some (Component (ll_wasm lib))"
    and "row \<in> set (rg_packages (dk_registry (ho_disk host))) \<Longrightarrow> pk_has_lib row \<Longrightarrow> ho_libs host (row_id row) \<noteq> None"
    and "row \<in> set (rg_packages (dk_registry (ho_disk host))) \<Longrightarrow> pk_has_app row \<Longrightarrow> ho_apps host (row_id row) \<noteq> None"
    and "ho_apps host pid = Some app \<Longrightarrow> live (ho_disk host) (pid, App) = Some (snd app)"
    and "ho_apps host pid \<noteq> None \<Longrightarrow> \<exists>row \<in> set (rg_packages (dk_registry (ho_disk host))). row_id row = pid \<and> pk_has_app row"
proof -
  let ?d = "ho_disk host"
  have lib: "map_option (Component \<circ> ll_wasm) (ho_libs host pid) = live ?d (pid, Lib)"
    and app: "map_option snd (ho_apps host pid) = live ?d (pid, App)"
    and reg: "(live ?d (pid, k) \<noteq> None) = registered_kind (dk_registry ?d) (pid, k)" for pid k
    using assms by (auto simp: restartable_def running_ok_def)
  show "\<exists>row \<in> set (rg_packages (dk_registry ?d)). row_id row = pid \<and> pk_has_lib row \<and> live ?d (pid, Lib) = Some (Component (ll_wasm lib))"
    if "ho_libs host pid = Some lib"
    using lib [of pid] reg [of pid Lib] that by (force simp: registered_kind_def row_kind_def)
  show "ho_libs host (row_id row) \<noteq> None" if "row \<in> set (rg_packages (dk_registry ?d))" "pk_has_lib row"
    using lib [of "row_id row"] reg [of "row_id row" Lib] that by (force simp: registered_kind_def row_kind_def)
  show "ho_apps host (row_id row) \<noteq> None" if "row \<in> set (rg_packages (dk_registry ?d))" "pk_has_app row"
    using app [of "row_id row"] reg [of "row_id row" App] that by (force simp: registered_kind_def row_kind_def)
  show "live ?d (pid, App) = Some (snd app)" if "ho_apps host pid = Some app"
    using app [of pid] that by simp
  show "\<exists>row \<in> set (rg_packages (dk_registry ?d)). row_id row = pid \<and> pk_has_app row" if "ho_apps host pid \<noteq> None"
    using app [of pid] reg [of pid App] that by (force simp: registered_kind_def row_kind_def)
qed

lemma disk_bytes_running:
  assumes "restartable tk host" and "ho_libs host pid = Some lib"
  shows "disk_bytes (normalize_name (tk_pki tk)) (ho_disk host) pid = Inr (ll_wasm lib)"
proof -
  from running_rows(1) [OF assms] obtain row where row: "row \<in> set (rg_packages (dk_registry (ho_disk host)))" "row_id row = pid" "pk_has_lib row"
    and live: "live (ho_disk host) (pid, Lib) = Some (Component (ll_wasm lib))" by blast
  have "graph_ok (dk_registry (ho_disk host))" using assms(1) by (simp add: restartable_def running_ok_def registry_ok_def)
  from registered_metadata_row [OF this row(1)] obtain full deps where
    m: "registered_metadata (dk_registry (ho_disk host)) pid = Inr (full, deps)" "pk_has_lib full" using row by auto
  have "loads tk pid lib" using assms by (simp add: restartable_def)
  then obtain x where "runtime_wasm (ll_wasm lib) = Inr x" by (auto simp: loads_def load_lib_def try_r_Inr_iff)
  then have size: "runtime_wasm (ll_wasm lib) = Inr (ll_wasm lib)" by (simp add: runtime_wasm_Inr_iff)
  have "valid_id (normalize_name (tk_pki tk)) pid = Inr ()" using assms(1) row by (auto simp: restartable_def ids_valid_def)
  with m size show ?thesis unfolding disk_bytes_def live by simp
qed

text \<open>The volumes of the running Libs, and components that still compile.\<close>

definition volumes_ready :: "host \<Rightarrow> places \<Rightarrow> bool" where
  "volumes_ready host ps = (\<forall>pid. ho_libs host pid \<noteq> None \<longrightarrow> is_folder (ps (last (data_parent pid))) \<and> is_folder (ps (data_dir pid)))"

definition compiles :: "start_env \<Rightarrow> host \<Rightarrow> bool" where
  "compiles env host = (\<forall>pid lib. ho_libs host pid = Some lib \<longrightarrow> su_compile env (ll_wasm lib) = Inr ())"

lemma load_each_running:
  assumes "restartable (su_tools env) host" and "volumes_ready host ps" and "compiles env host" and "\<forall>pid \<in> set pids. ho_libs host pid \<noteq> None"
  shows "load_each env (ho_disk host) pids libs ps = (Inr (\<lambda>pid. if pid \<in> set pids then ho_libs host pid else libs pid), ps)"
  using assms(4)
proof (induction pids arbitrary: libs)
  case (Cons pid pids)
  then obtain lib where lib: "ho_libs host pid = Some lib" by auto
  have "load_lib (su_tools env) (\<lambda>_ _. Inr ()) pid (ll_wasm lib) = Inr lib" using assms(1) lib by (auto simp: restartable_def loads_def)
  moreover have "prepare_volume (su_compile env) pid (ll_wasm lib) ps = (Inr (), ps)"
    by (rule prepare_volume_ready) (use assms(2,3) lib in \<open>auto simp: volumes_ready_def compiles_def\<close>)
  ultimately have "lib_load env pid (ll_wasm lib) ps = (Inr lib, ps)" by (simp add: lib_load_def)
  with disk_bytes_running [OF assms(1) lib] Cons lib show ?case by (auto simp: fun_eq_iff)
qed simp

lemma registered_packages_all:
  assumes "graph_ok reg" and "ids_valid norm reg"
  shows "registered_packages norm reg kind None =
    Inr (map (\<lambda>p. (row_id p, pk_version p)) (sort_key row_id (filter (in_kind kind) (rg_packages reg))))"
proof -
  let ?add = "\<lambda>p records. try_r (valid_id norm (row_id p)) (\<lambda>_.
        try_r (ensure_r (\<not> (short_name (row_id p) \<noteq> pk_name p \<or> list_ex (\<lambda>r. short_name (fst r) = pk_name p) records))
                 (InvalidConfig ''invalid or conflicting installed package name'')) (\<lambda>_.
        Inr (records @ [(row_id p, pk_version p)])))"
  have short: "short_name (row_id p) = pk_name p" if "p \<in> set (rg_packages reg)" for p
    using assms(1) that row_id_short by (simp add: graph_ok_def)
  have each: "fold_r ?add ps records = Inr (records @ map (\<lambda>p. (row_id p, pk_version p)) ps)"
    if "set ps \<subseteq> set (rg_packages reg)" "distinct (map pk_name ps)" "\<forall>p \<in> set ps. \<forall>r \<in> set records. short_name (fst r) \<noteq> pk_name p" for ps records
    using that
  proof (induction ps arbitrary: records)
    case (Cons p ps)
    then have p: "valid_id norm (row_id p) = Inr ()" "short_name (row_id p) = pk_name p" using assms(2) short by (auto simp: ids_valid_def)
    moreover have "\<not> list_ex (\<lambda>r. short_name (fst r) = pk_name p) records" using Cons.prems(3) by (auto simp: list_ex_iff)
    moreover have "fold_r ?add ps (records @ [(row_id p, pk_version p)]) =
        Inr ((records @ [(row_id p, pk_version p)]) @ map (\<lambda>p. (row_id p, pk_version p)) ps)"
      by (rule Cons.IH) (use Cons.prems p(2) in auto)
    ultimately show ?case by simp
  qed simp
  let ?rows = "sort_key row_id (filter (in_kind kind) (rg_packages reg))"
  have "distinct (map pk_name ?rows)"
    using assms(1) by (simp add: graph_ok_def distinct_map inj_on_def)
  with each [of ?rows "[]"] have "fold_r ?add ?rows [] = Inr (map (\<lambda>p. (row_id p, pk_version p)) ?rows)" by simp
  moreover have "filter (\<lambda>p. in_kind kind p \<and> is_none_or (\<lambda>i. row_id p = i) None) (rg_packages reg) = filter (in_kind kind) (rg_packages reg)"
    by (simp add: is_none_or_def)
  ultimately show ?thesis unfolding registered_packages_def by simp
qed

lemma open_apps_running:
  assumes "restartable tk host" and "\<forall>r \<in> set records. ho_apps host (fst r) \<noteq> None"
  shows "fold_r (open_app (ho_disk host)) records apps = Inr (\<lambda>pid. if pid \<in> fst ` set records then ho_apps host pid else apps pid)"
  using assms(2)
proof (induction records arbitrary: apps)
  case (Cons r records)
  then obtain app where app: "ho_apps host (fst r) = Some app" by auto
  with assms(1) have "listed (dk_registry (ho_disk host)) (fst r) (fst app)" and content: "\<And>bytes. snd app \<noteq> Component bytes"
    unfolding restartable_def by blast+
  then obtain row where row: "row \<in> set (rg_packages (dk_registry (ho_disk host)))" "row_id row = fst r" "pk_version row = fst app"
    by (auto simp: listed_def)
  have "graph_ok (dk_registry (ho_disk host))" using assms(1) by (simp add: restartable_def running_ok_def registry_ok_def)
  from registered_metadata_row [OF this row(1)] obtain full deps where
    m: "registered_metadata (dk_registry (ho_disk host)) (fst r) = Inr (full, deps)" "pk_version full = fst app" using row by auto
  have "open_app (ho_disk host) r apps = Inr (apps(fst r \<mapsto> app))"
    using m content running_rows(4) [OF assms(1) app] by (cases app; cases "snd app") (auto simp: open_app_def)
  moreover have "fold_r (open_app (ho_disk host)) records (apps(fst r \<mapsto> app)) =
      Inr (\<lambda>pid. if pid \<in> fst ` set records then ho_apps host pid else (apps(fst r \<mapsto> app)) pid)"
    by (rule Cons.IH) (use Cons.prems in simp)
  ultimately show ?case using app by (auto simp: fun_eq_iff)
qed simp

lemma load_libs_running:
  assumes "restartable (su_tools env) host" and "volumes_ready host ps" and "compiles env host"
  shows "load_libs env (ho_disk host) ps = (Inr (ho_libs host, ho_apps host), ps)"
proof -
  let ?reg = "dk_registry (ho_disk host)"
  have ok: "graph_ok ?reg" "ids_valid (su_norm env) ?reg" using assms(1) by (simp_all add: restartable_def running_ok_def registry_ok_def)
  have ids: "set (registered_libs ?reg) = row_id ` {row \<in> set (rg_packages ?reg). pk_has_lib row}"
    by (auto simp: registered_libs_def)
  have "load_each env (ho_disk host) (registered_libs ?reg) (\<lambda>_. None) ps =
      (Inr (\<lambda>pid. if pid \<in> set (registered_libs ?reg) then ho_libs host pid else None), ps)"
    by (rule load_each_running [OF assms]) (use running_rows(2) [OF assms(1)] ids in auto)
  also have "(\<lambda>pid. if pid \<in> set (registered_libs ?reg) then ho_libs host pid else None) = ho_libs host"
  proof
    show "(if pid \<in> set (registered_libs ?reg) then ho_libs host pid else None) = ho_libs host pid" for pid
      using running_rows(1) [OF assms(1), of pid] ids by (cases "ho_libs host pid") auto
  qed
  finally have libs: "load_each env (ho_disk host) (registered_libs ?reg) (\<lambda>_. None) ps = (Inr (ho_libs host), ps)" .
  let ?records = "map (\<lambda>p. (row_id p, pk_version p)) (sort_key row_id (filter (in_kind ''app'') (rg_packages ?reg)))"
  have rids: "fst ` set ?records = row_id ` {row \<in> set (rg_packages ?reg). pk_has_app row}" by (force simp: in_kind_def)
  have "fold_r (open_app (ho_disk host)) ?records (\<lambda>_. None) = Inr (\<lambda>pid. if pid \<in> fst ` set ?records then ho_apps host pid else None)"
    by (rule open_apps_running [OF assms(1)]) (use running_rows(3) [OF assms(1)] in \<open>auto simp: in_kind_def\<close>)
  also have "(\<lambda>pid. if pid \<in> fst ` set ?records then ho_apps host pid else None) = ho_apps host"
  proof
    show "(if pid \<in> fst ` set ?records then ho_apps host pid else None) = ho_apps host pid" for pid
      using running_rows(5) [OF assms(1), of pid] unfolding rids by (cases "ho_apps host pid") auto
  qed
  finally have "installed_apps (su_norm env) (ho_disk host) None = Inr (ho_apps host)"
    by (simp add: installed_apps_def registered_packages_all [OF ok])
  with libs show ?thesis by (simp add: load_libs_def)
qed

text \<open>Loading depends on the registry and the live files alone.\<close>

lemma load_libs_cong:
  assumes "dk_registry d = dk_registry d'" and "\<And>s. live d s = live d' s"
  shows "load_libs env d ps = load_libs env d' ps"
proof -
  have bytes: "disk_bytes norm d pid = disk_bytes norm d' pid" for norm pid using assms by (simp add: disk_bytes_def)
  have "load_each env d pids libs ps = load_each env d' pids libs ps" for pids libs ps
    by (induction pids arbitrary: libs ps) (simp_all add: bytes split: sum.splits prod.splits)
  moreover have "open_app d = open_app d'" using assms by (intro ext) (simp add: open_app_def)
  then have "installed_apps norm d pid = installed_apps norm d' pid" for norm pid using assms by (simp add: installed_apps_def)
  ultimately show ?thesis using assms by (simp add: load_libs_def split: prod.splits sum.splits)
qed

text \<open>A process that has ended: what is left is on the disk.\<close>

definition stopped :: "host \<Rightarrow> host" where
  "stopped host = host\<lparr>ho_libs := (\<lambda>_. None), ho_apps := (\<lambda>_. None), ho_closed := True\<rparr>"

lemma start_running:
  assumes "restartable (su_tools env) host" and "volumes_ready host ps" and "compiles env host"
  shows "start_packages env signing (stopped host) ps = (Inr (host\<lparr>ho_closed := False\<rparr>), ps)"
proof -
  have "dk_marker (ho_disk host) = None" using assms(1) by (simp add: restartable_def running_ok_def clean_disk_def)
  then have "recover_package_files (su_norm env) signing (ho_disk host) = Inr (ho_disk host)"
    by (simp add: recover_package_files_def recovery_steps_def)
  with load_libs_running [OF assms] show ?thesis by (simp add: start_packages_def stopped_def)
qed

section \<open>Restarts\<close>

abbreviation after_requests :: "(manage_env \<times> web_request) list \<Rightarrow> host \<Rightarrow> host" where
  "after_requests requests host \<equiv> fold (\<lambda>(env, r) host. snd (manage env r host)) requests host"

lemma requests_restartable:
  assumes "restartable tk host" and "\<forall>(env, r) \<in> set requests. ie_tools (mg_install env) = tk \<and> settles (mg_install env)"
  shows "restartable tk (after_requests requests host)"
  using assms
proof (induction requests arbitrary: host)
  case (Cons x requests)
  obtain env r where x: "x = (env, r)" by (cases x)
  with Cons.prems manage_restartable [of env host r] have "restartable tk (snd (manage env r host))" by auto
  with Cons show ?case by (simp add: x)
qed simp

text \<open>
  Property C4: a restart is invisible. After any requests to the package resources, of whomever and with
  whatever outcome, a process that ends and starts again, from nothing but the disk, serves exactly the
  Libs and Apps that ran before, each with the same component, document, version and files, and prepares
  no volume anew. It needs that the running components still compile and their volumes are there. A file
  transaction of these requests may fail at any point, but its rollback and its cleanup do not fail as
  well: what they leave then is for the recovery of the start (C21).
\<close>

theorem restart_reproduces_running:
  assumes "restartable (su_tools env) host" and "\<forall>(menv, r) \<in> set requests. ie_tools (mg_install menv) = su_tools env \<and> settles (mg_install menv)"
    and "compiles env (after_requests requests host)" and "volumes_ready (after_requests requests host) ps"
  shows "start_packages env signing (stopped (after_requests requests host)) ps =
    (Inr ((after_requests requests host)\<lparr>ho_closed := False\<rparr>), ps)"
  by (rule start_running [OF requests_restartable [OF assms(1,2)] assms(4,3)])

text \<open>What an installation switches: the changed packages, their registrations, their staged resources.\<close>

definition installation_plan :: "install_env \<Rightarrow> resource list \<Rightarrow> host \<Rightarrow> (planned list \<times> registry \<times> staging) option" where
  "installation_plan env packages host = (case fst (prepare_loop env host packages [] (ho_crls host)) of
     Inl _ \<Rightarrow> None
   | Inr changed \<Rightarrow>
       (case try_r (register_packages (ie_render env) (ie_now env) (map (planned_change (ie_tools env)) changed)
                      (dk_registry (ho_disk host))) (\<lambda>reg.
             try_r (fold_r (stage_package env) changed \<lparr>st_files = [], st_libs = [], st_apps = []\<rparr>) (\<lambda>staged.
             Inr (reg, staged))) of
          Inl _ \<Rightarrow> None
        | Inr (reg, staged) \<Rightarrow> Some (changed, reg, staged)))"

text \<open>The disk after the first \<open>n\<close> steps of its commit.\<close>

definition commit_prefix :: "planned list \<times> registry \<times> staging \<Rightarrow> nat \<Rightarrow> host \<Rightarrow> disk" where
  "commit_prefix plan n host = (case plan of (changed, reg, staged) \<Rightarrow>
     let d = stage_disk (st_files staged) (ho_disk host) in
     fs_run (take n (commit_steps False d (map pl_id changed) reg)) d)"

definition steps_before_commit :: "planned list \<times> registry \<times> staging \<Rightarrow> host \<Rightarrow> nat" where
  "steps_before_commit plan host = (case plan of (changed, reg, staged) \<Rightarrow>
     2 + length (move_steps (targets_of (stage_disk (st_files staged) (ho_disk host)) (map pl_id changed))))"

lemma prepare_loop_length:
  "prepare_loop env host rs names crls = (Inr changed, crls') \<Longrightarrow> length changed \<le> length rs"
proof (induction rs arbitrary: names crls changed)
  case (Cons r rs)
  from Cons.prems obtain crls1 change changed' where
    rest: "prepare_loop env host rs (short_name (fst r) # names) crls1 = (Inr changed', crls')" and
    "changed = (case change of None \<Rightarrow> [] | Some c \<Rightarrow> [c]) @ changed'"
    by (auto split: sum.splits prod.splits)
  with Cons.IH [OF rest] show ?case by (auto split: option.splits)
qed simp

lemma planned_installation:
  assumes "install_packages env packages host = (Inr (), host')" and "opened = snd (open_installation env host)"
    and "installation_plan env packages opened = Some (changed, reg, staged)"
  obtains crls where "commit_installation env changed reg staged (opened\<lparr>ho_crls := crls\<rparr>) = (Inr (), host')"
    "distinct (map (short_name \<circ> pl_id) changed)" "\<forall>c \<in> set changed. prepared env packages c" "changed \<noteq> []" "length changed \<le> 100"
    "staged_ok (all_kinds changed) staged" "distinct (map pl_id changed)"
proof -
  from assms(1) have small: "packages \<noteq> []" "length packages \<le> 100"
    and i: "install_opened env packages opened = (Inr (), host')"
    by (auto simp: install_packages_def assms(2) split: if_splits sum.splits prod.splits)
  from assms(3) obtain crls where p: "prepare_loop env opened packages [] (ho_crls opened) = (Inr changed, crls)"
    and reg: "register_packages (ie_render env) (ie_now env) (map (planned_change (ie_tools env)) changed) (dk_registry (ho_disk opened)) = Inr reg"
    and staged: "fold_r (stage_package env) changed \<lparr>st_files = [], st_libs = [], st_apps = []\<rparr> = Inr staged"
    by (cases "prepare_loop env opened packages [] (ho_crls opened)") (auto simp: installation_plan_def try_r_Inr_iff split: sum.splits)
  note ok = prepare_loop_ok [OF p]
  then have d: "distinct (map pl_id changed)" by (simp add: distinct_map inj_on_def)
  have "staged_ok [] \<lparr>st_files = [], st_libs = [], st_apps = []\<rparr>" by (simp add: staged_ok_def staged_all_def)
  from stage_packages_ok [OF staged this d] have st: "staged_ok (all_kinds changed) staged" by simp
  obtain crls' where "commit_installation env changed reg staged (opened\<lparr>ho_crls := crls'\<rparr>) = (Inr (), host')"
    using i by (auto simp: install_opened_def p reg staged split: if_splits sum.splits prod.splits)
  then show ?thesis by (rule that) (use ok st d small prepare_loop_length [OF p] in auto)
qed

text \<open>The registrations of the changed packages are not, byte for byte, the ones that were there.\<close>

definition registrations_differ :: "planned list \<times> registry \<times> staging \<Rightarrow> host \<Rightarrow> bool" where
  "registrations_differ plan host = (case plan of (changed, reg, staged) \<Rightarrow>
     list_ex (\<lambda>c. registration_facts True reg (short_name (pl_id c)) \<noteq>
                  registration_facts True (dk_registry (ho_disk host)) (short_name (pl_id c))) changed)"

lemma start_after_recovery:
  assumes "recover_package_files (su_norm env) signing d = Inr r" and "dk_registry r = dk_registry (ho_disk h)" and "\<And>s. live r s = live (ho_disk h) s"
    and "restartable (su_tools env) h" and "volumes_ready h ps" and "compiles env h"
  shows "\<exists>h'. start_packages env signing (stopped (host\<lparr>ho_disk := d\<rparr>)) ps = (Inr h', ps) \<and> same_installation h h'"
proof -
  have "load_libs env r ps = (Inr (ho_libs h, ho_apps h), ps)"
    using load_libs_running [OF assms(4-6)] load_libs_cong [OF assms(2,3)] by simp
  with assms(1-3) show ?thesis by (simp add: start_packages_def stopped_def same_installation_def)
qed

text \<open>
  Property C5: an installation and a crash. When the process dies at any point of the switch of an
  installation, the writing of the journal apart, the next start recovers the files and runs exactly the
  old packages, if the database had not committed, or exactly the new ones, if it had: registry, files,
  Libs and Apps together. Recovery tells the two cases apart by the registrations, so this holds where
  those that the installation writes differ from the committed ones for at least one changed package
  (\<open>registrations_differ\<close>). It is not so for the same version installed again within one second: both
  have the same facts, and a crash between the moves loses the resource
  (\<open>same_second_reinstall_loses_files\<close>). The old state is the one that the installation opened, with its
  database prepared; the new one is the outcome of the undisturbed installation.
\<close>

theorem install_crash_restart:
  assumes "restartable (su_tools senv) host" and "ie_tools env = su_tools senv" and "settles env"
    and "install_packages env packages host = (Inr (), host')" and "opened = snd (open_installation env host)"
    and "installation_plan env packages opened = Some plan"
    and "registrations_differ plan opened" and "n \<noteq> 1"
    and "h = (if n \<le> steps_before_commit plan opened then opened else host')" and "compiles senv h" and "volumes_ready h ps"
  shows "\<exists>h'. start_packages senv True (stopped (opened\<lparr>ho_disk := commit_prefix plan n opened\<rparr>)) ps = (Inr h', ps) \<and>
    same_installation h h'"
proof -
  obtain changed reg staged where plan: "plan = (changed, reg, staged)" by (cases plan)
  from planned_installation [OF assms(4,5) assms(6) [unfolded plan]] obtain crls where
    c: "commit_installation env changed reg staged (opened\<lparr>ho_crls := crls\<rparr>) = (Inr (), host')" and
    names: "distinct (map (short_name \<circ> pl_id) changed)" "distinct (map pl_id changed)" and
    prep: "\<forall>c \<in> set changed. prepared env packages c" and size: "changed \<noteq> []" "length changed \<le> 100" and
    st: "staged_ok (all_kinds changed) staged" by blast
  let ?d0 = "stage_disk (st_files staged) (ho_disk opened)" and ?pids = "map pl_id changed"
  have old: "restartable (su_tools senv) opened" unfolding assms(5) by (rule opened_restartable [OF assms(1)])
  then have clean: "clean_disk (ho_disk opened)" by (simp add: restartable_def running_ok_def)
  have valid: "valid_id (su_norm senv) (pl_id c) = Inr ()" if "c \<in> set changed" for c
    using prep that assms(2) by (auto simp: prepared_def)
  have "txn_ok (su_norm senv) False ?d0 ?pids reg"
    unfolding txn_ok_def using names size clean valid assms(7)
    by (auto simp: plan registrations_differ_def clean_disk_def list_all_iff list_ex_iff comp_def)
  from install_crash_atomic [OF this assms(8)] obtain r where
    rec: "recover_package_files (su_norm senv) True (commit_prefix plan n opened) = Inr r" and
    state: "if n \<le> steps_before_commit plan opened then old_state ?d0 r else new_state ?d0 ?pids reg r"
    unfolding plan commit_prefix_def steps_before_commit_def by (auto simp: Let_def)
  have new: "restartable (su_tools senv) host'"
    using install_restartable [of env host packages] assms(1-4) by simp
  show ?thesis
  proof (cases "n \<le> steps_before_commit plan opened")
    case True
    with state assms(9) have s: "old_state ?d0 r" "h = opened" by simp_all
    from s(1) have "dk_registry r = dk_registry (ho_disk opened)" "live r x = live (ho_disk opened) x" for x
      by (cases x; simp add: old_state_def)+
    with s(2) old show ?thesis by (intro start_after_recovery [OF rec _ _ _ assms(11,10)]) simp_all
  next
    case False
    with state assms(9) have s: "new_state ?d0 ?pids reg r" "h = host'" by simp_all
    have "clean_disk (ho_disk (opened\<lparr>ho_crls := crls\<rparr>))" using clean by simp
    from commit_installation_outcome [OF c st names(2) this] s(1)
    have "dk_registry r = dk_registry (ho_disk host')" "live r x = live (ho_disk host') x" for x
      by (cases x; simp add: new_state_def txn_slots_def mem_Times_iff)+
    with s(2) new show ?thesis by (intro start_after_recovery [OF rec _ _ _ assms(11,10)]) simp_all
  qed
qed

section \<open>A restart and a crash\<close>

definition app_host :: host where
  "app_host = example_host\<lparr>
     ho_disk := \<lparr>dk_slots = (\<lambda>s. \<lparr>sl_live = if s = (''a.b/x'', App) then Some (Tree [(''index.html'', ''h'')]) else None, sl_backup = None, sl_candidate = None\<rparr>),
       dk_marker = None, dk_stage = False, dk_registry = empty_registry\<lparr>rg_packages := [example_row\<lparr>pk_has_lib := False, pk_has_app := True\<rparr>]\<rparr>\<rparr>,
     ho_apps := [''a.b/x'' \<mapsto> (''1.0.0'', Tree [(''index.html'', ''h'')])]\<rparr>"

definition example_start :: start_env where
  "example_start = \<lparr>su_tools = example_tools, su_compile = (\<lambda>_. Inr ())\<rparr>"

lemma app_host_running: "running_ok app_host"
  by (auto simp: running_ok_def app_host_def example_host_def clean_disk_def registered_kind_def row_kind_def row_id_def
      example_row_def registry_ok_def graph_ok_def acl_keys_ok_def acl_owned_def empty_registry_def dep_graph_def
      acyclic_def split: kind.splits)

lemma app_host_restartable: "restartable example_tools app_host"
  using app_host_running example_id
  by (auto simp: restartable_def ids_valid_def listed_def app_host_def example_row_def row_id_def example_host_def)

lemma no_libs_ready: "ho_libs host = (\<lambda>_. None) \<Longrightarrow> compiles env host \<and> volumes_ready host ps"
  by (simp add: compiles_def volumes_ready_def)

theorem restart_reproduces_running_witness:
  "start_packages example_start True (stopped (snd (manage example_manage example_removal app_host))) (\<lambda>_. None) =
     (Inr ((snd (manage example_manage example_removal app_host))\<lparr>ho_closed := False\<rparr>), \<lambda>_. None)"
proof -
  let ?host = "snd (manage example_manage example_removal app_host)"
  have none: "ho_libs app_host = (\<lambda>_. None)" by (simp add: app_host_def example_host_def)
  have "ho_libs (snd (delete_package example_manage ''x'' None app_host)) = (\<lambda>_. None)"
  proof -
    obtain res host' where d: "delete_package example_manage ''x'' None app_host = (res, host')" by fastforce
    from delete_package_outcome [OF d app_host_running refl refl] none show ?thesis
      by (cases res) (auto simp: d kept_def removed_def Let_def fun_eq_iff open_installation_opened)
  qed
  with none have "ho_libs ?host = (\<lambda>_. None)"
    by (cases "require_owner example_gate example_endpoint example_removal")
      (auto simp: manage_def manage_request_def example_removal_checks case_prod_unfold split: sum.splits)
  with restart_reproduces_running [of example_start app_host "[(example_manage, example_removal)]" "\<lambda>_. None" True] app_host_restartable no_libs_ready
  show ?thesis by (simp add: example_start_def no_faults_def settled_def)
qed

theorem install_crash_restart_witness:
  "\<exists>plan host' h'. install_packages example_install_env [example_resource] example_host = (Inr (), host') \<and>
     steps_before_commit plan example_host = 3 \<and>
     start_packages example_start True (stopped (example_host\<lparr>ho_disk := commit_prefix plan 4 example_host\<rparr>)) (\<lambda>_. None) = (Inr h', \<lambda>_. None) \<and>
     same_installation host' h'"
proof -
  let ?st = "\<lparr>st_files = [((''a.b/x'', App), Tree [(''index.html'', ''h'')])], st_libs = [],
          st_apps = [(''a.b/x'', ''1.0.0'', Tree [(''index.html'', ''h'')])]\<rparr>"
  obtain reg where reg: "register_packages (\<lambda>_. []) 10 [planned_change example_tools example_plan] empty_registry = Inr reg"
    using example_registered by blast
  let ?plan = "([example_plan], reg, ?st)"
  have plan: "installation_plan example_install_env [example_resource] example_host = Some ?plan"
    using reg example_staged by (simp add: installation_plan_def example_prepared del: fold_r.simps prepare_loop.simps)
  have "ho_libs example_host = (\<lambda>_. None)" by (simp add: example_host_def)
  moreover have commit: "\<exists>d. commit_packages_files (ie_journal_bytes example_install_env) no_faults single pids reg d0 = (Inr (), d)"
    for single pids reg d0
    by (simp add: commit_packages_files_def unprepared_def no_faults_def Let_def)
  obtain d where "commit_packages_files (ie_journal_bytes example_install_env) no_faults False [pl_id example_plan] reg
      (stage_disk (st_files ?st) (ho_disk (example_host\<lparr>ho_crls := \<lambda>_. None\<rparr>))) = (Inr (), d)"
    using commit by blast
  ultimately obtain host' where i: "install_packages example_install_env [example_resource] example_host = (Inr (), host')"
    and libs: "ho_libs host' = (\<lambda>_. None)"
    using reg
    by (auto simp: install_packages_def install_opened_def example_opened example_prepared example_staged example_recheck commit_installation_def
      Let_def replace_running_def fun_eq_iff simp del: fold_r.simps prepare_loop.simps recheck_loop.simps)
  have reg_ok: "graph_ok reg" using register_packages_ok [OF reg empty_registry_ok] by (simp add: registry_ok_def)
  have "listed reg ''a.b/x'' ''1.0.0''"
  proof -
    have "listed reg (pl_id example_plan) (pm_version (pl_meta example_plan))"
      by (rule register_packages_rows(1) [OF reg empty_registry_ok, of "normalize_name example_trust"])
        (simp_all add: planned_change_def example_plan_def registrable_def example_names example_id)
    then show ?thesis by (simp add: example_plan_def)
  qed
  then obtain row where row: "row \<in> set (rg_packages reg)" "row_id row = ''a.b/x''" by (auto simp: listed_def)
  with reg_ok have "pk_name row = ''x''" using row_id_short [of row] by (auto simp: graph_ok_def example_names)
  with row find_package_row [of reg row] reg_ok have "find_package reg ''x'' = Some row" by (auto simp: graph_ok_def)
  then have "fc_package (registration_facts True reg ''x'') \<noteq> fc_package (registration_facts True empty_registry ''x'')"
    by (simp add: registration_facts_def) (simp add: find_package_def empty_registry_def)
  then have "registration_facts True reg ''x'' \<noteq> registration_facts True empty_registry ''x''" by metis
  then have "registrations_differ ?plan example_host"
    by (simp add: registrations_differ_def example_plan_def example_names)
  moreover have steps: "steps_before_commit ?plan example_host = 3"
    by (simp add: steps_before_commit_def move_steps_def targets_of_def slot_target_def example_plan_def example_host_def)
  moreover have "restartable example_tools example_host"
    using example_running by (simp add: restartable_def ids_valid_def empty_registry_def) (simp add: example_host_def)
  ultimately have "\<exists>h'. start_packages example_start True (stopped (example_host\<lparr>ho_disk := commit_prefix ?plan 4 example_host\<rparr>)) (\<lambda>_. None) = (Inr h', \<lambda>_. None) \<and>
      same_installation host' h'"
    by (intro install_crash_restart [OF _ _ _ i _ plan, of example_start 4])
      (use no_libs_ready [OF libs] in \<open>simp_all add: example_start_def example_opened no_faults_def settled_def\<close>)
  with i steps show ?thesis by blast
qed

end
