(* ===== verification/Spec2Isabelle.thy ===== *)
theory Spec2Isabelle
  imports Contact_Service_Laws Serving_Laws Owner_Resources_Laws Event_Loop_Laws Startup_Laws
begin

text \<open>
  Pishoo is the service that runs beside a DHTTP identity. For every identity of an account it keeps a
  server: it authenticates connections, decides requests by the identity's access rules, proxies
  configured locations to local HTTP services, runs installed packages (Libs in a WebAssembly sandbox,
  Apps as static frontends), lets the owner administer all of this over the same connections, and
  exchanges contact requests with other identities. This library models these parts as functions over
  explicit states, operation by operation and branch by branch, and proves what makes them correct.

  Conventions. A fallible operation is a value of \<open>res\<close> (\<open>Inl\<close> the error of \<^verbatim>\<open>src/error.rs\<close>, \<open>Inr\<close> the
  result), chained by \<open>try_r\<close> where the source has a question mark. Byte strings and texts are lists of
  characters; a table of SQLite is the list of its rows, with the constraints of its schema as branches
  that fail; the state of a component is a record, passed in and returned. What is not in the
  repository (cryptography, X.509, DER, parsers of URLs, OpenAPI and WebAssembly, the SQL engine, the
  access service, the DHTTP endpoint, wasmtime, the operating system) is a field of an environment
  record, a parameter of the definitions that use it; hypotheses on it are named definitions.

  From bytes to an installed package.
  \<^item> \<open>Rust_Base\<close>: results, strings, the two general interfaces: \<open>guarded_machine\<close> (a machine whose steps keep
    an invariant) and \<open>crash_safe\<close> (step lists that may stop anywhere). \<open>Web_Types\<close>: errors with status and
    text (\<^verbatim>\<open>error.rs\<close>), JSON, header maps, requests and responses.
  \<^item> \<open>Waz\<close> (\<^verbatim>\<open>package/format.rs\<close>): the archive with all its span, kind and budget checks; \<open>Package_Format\<close>
    (\<^verbatim>\<open>package/format.rs\<close>, \<^verbatim>\<open>package/manifest.rs\<close>): manifest, embedded OpenAPI, declarations, signature;
    \<open>Signing\<close> (\<^verbatim>\<open>package/signing.rs\<close>): chains, receipts, revocation lists. The lemmas say that every byte
    belongs to one record, that names are safe, that the digest binds the files, that metadata has the
    shape later code unwraps, that an accepted package is authentic, that lists never roll back.
  \<^item> \<open>Store\<close> (\<^verbatim>\<open>package/store.rs\<close>): releases and the dependency closure; \<open>Registry\<close> (\<^verbatim>\<open>package/files.rs\<close>,
    \<^verbatim>\<open>routes/capabilities.rs\<close>, \<^verbatim>\<open>package/sql/schema.sql\<close>): the tables, dependencies without cycles,
    permissions; \<open>Install_Commit\<close> (\<^verbatim>\<open>package/files.rs\<close>, \<^verbatim>\<open>server/files.rs\<close>): the file transaction as single
    file system steps with journal, rollback and recovery; \<open>Installer\<close> (\<^verbatim>\<open>package/files.rs\<close>) composes them;
    \<open>Management\<close> (\<^verbatim>\<open>package.rs\<close>) are the resources over HTTP; \<open>Startup\<close> (\<^verbatim>\<open>sandbox.rs\<close>,
    \<^verbatim>\<open>sandbox/runtime.rs\<close>, \<^verbatim>\<open>package/files.rs\<close>) loads the registered packages when a server starts. Proved: the closure is complete and ordered,
    the cycle search is exact, a crash anywhere is undone or completed, an installation or removal is all
    or nothing over registry, files and running packages, a restart runs what ran before, and a restart
    after a crash the old packages or the new ones.

  From a connection to an answer.
  \<^item> \<open>Access_Gate\<close> (\<^verbatim>\<open>routes/access.rs\<close>, \<^verbatim>\<open>routes/outbound.rs\<close>): the authorization layer and the forwarding
    to other names. A layer is a function from handlers to handlers; the locale \<open>gated\<close> says that what is
    behind it runs only as the layer lets it pass, and \<open>gated_twice\<close> composes two of them.
  \<^item> \<open>Settings\<close> (\<^verbatim>\<open>setup.rs\<close>): the settings database, its migrations and the configuration resources;
    \<open>Proxy\<close> (\<^verbatim>\<open>routes.rs\<close>, \<^verbatim>\<open>routes/proxy.rs\<close>): choice of a location and the reverse proxy.
  \<^item> \<open>Sandbox\<close> (\<^verbatim>\<open>sandbox/host.rs\<close>, \<^verbatim>\<open>sandbox/host/http.rs\<close>, \<^verbatim>\<open>sandbox/runtime.rs\<close>): a guest is any tree of
    calls to its host. \<open>Serving\<close> (\<^verbatim>\<open>sandbox.rs\<close>, \<^verbatim>\<open>routes.rs\<close>, \<^verbatim>\<open>server.rs\<close>): selection of Libs and Apps, static
    files; \<open>Development\<close> (\<^verbatim>\<open>development.rs\<close>): local projects; \<open>Owner_Resources\<close> (\<^verbatim>\<open>setup.rs\<close>,
    \<^verbatim>\<open>routes/capabilities.rs\<close>): the resources of the owner together.

  Contacts and the process.
  \<^item> \<open>Contact_Queue\<close> (\<^verbatim>\<open>contact/storage.rs\<close>, \<^verbatim>\<open>contact/delivery.rs\<close>): the queue as a step relation;
    \<open>Contact_Access\<close>, \<open>Contact_Delivery\<close>, \<open>Contact_Service\<close> (\<^verbatim>\<open>contact/access.rs\<close>, \<^verbatim>\<open>contact/capabilities.rs\<close>,
    \<^verbatim>\<open>contact/delivery.rs\<close>, \<^verbatim>\<open>contact.rs\<close>): peers, deliveries, resources; each is shown to be a sequence of
    steps of the queue, by the locale \<open>effect_order\<close>.
  \<^item> \<open>Ocsp\<close> (\<^verbatim>\<open>server/ocsp.rs\<close>, \<^verbatim>\<open>dns.rs\<close>), \<open>Supervision\<close> (\<^verbatim>\<open>server.rs\<close>, \<^verbatim>\<open>server/run.rs\<close>, \<^verbatim>\<open>lib.rs\<close>) and
    \<open>Event_Loop\<close> (\<^verbatim>\<open>server/run.rs\<close>): revocation proofs, the life of a server, the scan over all identities,
    and the loop whose guards decide which event may come next.

  A theory with the suffix \<open>_Laws\<close> holds the lemmas and properties of the theory before it; \<open>_Example\<close>
  theories hold the concrete packages and disks on which witnesses evaluate.

  Interfaces and their providers: \<open>guarded_machine\<close> is interpreted by the configuration resources (\<open>cfg\<close>),
  the registry (\<open>reg\<close>), installations (\<open>installs\<close>) and the package resources (\<open>managed\<close>); \<open>crash_safe\<close> by the two
  directions of a file transaction (\<open>undo\<close>, \<open>redo\<close>); \<open>gated\<close> and \<open>gated_twice\<close> by the authorization layer
  (\<open>gate\<close>), uploads (\<open>upload\<close>, \<open>finish\<close>), the connection facts of a guest (\<open>facts\<close>, \<open>guest_gate\<close>) and
  development mode (\<open>dev_gate\<close>, \<open>owner_gate\<close>); \<open>effect_order\<close> by the clock and the queue of contacts.

  Loops and bounds. Recursions end by structure or a measure; the search for cycles and the dependency
  closure by the packages not seen yet; the collection of contact pages, which follows what a remote
  service answers, is a \<open>partial_function (option)\<close> whose end is a property of its own. Limits are those of
  the code: 64 KiB for settings, 1 MiB for permissions and documents, 64 MiB for components, 64 KiB and
  15 s for a revocation proof, 300 s for an invocation, 120 s for a lease, 20 s for a publication and 5 s
  until it is tried again. Page offsets and file sizes are kept at their 64 bits.

  Hypotheses on code outside, each with a witness that it can hold: the clock does not run backwards
  (\<open>clock_forward\<close>), the access service pages one list (\<open>serves_list\<close>), a discovery names an identity once
  (\<open>discovers_once\<close>), credentials are loaded for the name asked for (\<open>named_credentials\<close>).

  Not modelled: \<^verbatim>\<open>main.rs\<close> (command line, logging, signals), the access log, the local-network responders
  of \<^verbatim>\<open>maintain_mdns\<close>, ownership and modes of files, the layouts of releases before the current one
  (\<^verbatim>\<open>package/files/legacy.rs\<close>), the preparation of the database files of the access service and of the
  contacts, and the instantiation of wasmtime. They move files and bytes between libraries and decide
  nothing that the models above rest on beyond what their environments state.
\<close>

section \<open>Properties across components\<close>

text \<open>
  Property C2: an identity stays consistent under its administration. Whatever requests its resources
  for settings, permissions and packages serve, in any order, of whomever and with whatever outcome: the
  registry, the files and the running packages agree, the stored settings stay readable, and no
  configured location covers the mount of an installed package, whichever of the two came first. A file
  transaction may fail at any point, but its rollback and its cleanup do not fail as well: what they
  leave then is for the next start (C21).
\<close>

theorem administration_keeps_identity_consistent:
  assumes "identity_ok http w" and "\<forall>(env, r) \<in> set requests. ge_http (ad_gate env) = http \<and> settles (mg_install (ad_manage env))"
  shows "identity_ok http (fold (\<lambda>(env, r). administered env r) requests w)"
  using assms
proof (induction requests arbitrary: w)
  case (Cons x requests)
  obtain env r where x: "x = (env, r)" by fastforce
  with Cons.prems administered_ok have "identity_ok http (administered env r w)" by auto
  with Cons show ?case by (simp add: x)
qed simp

definition example_admin :: admin_env where
  "example_admin = \<lparr>ad_manage = example_manage, ad_form = (\<lambda>_. []), ad_render = (\<lambda>_. []), ad_operations = (\<lambda>_. Inr [])\<rparr>"

definition example_identity :: identity where
  "example_identity = \<lparr>id_host = lib_host, id_volume = example_volume\<lparr>vol_setting := Some example_db\<rparr>\<rparr>"

lemma example_identity_ok: "identity_ok example_env example_identity"
proof -
  have "row_free [] row" for row by (simp add: row_free_def)
  then have "vol_ok example_env (volume_view example_identity)"
    using example_settings_read [of None]
    by (auto simp: volume_view_def example_identity_def vol_ok_rows read_server_config_def try_r_Inr_iff example_config_def)
  then show ?thesis using lib_host_running by (simp add: identity_ok_def example_identity_def)
qed

theorem administration_keeps_identity_consistent_witness:
  "identity_ok example_env (administered example_admin example_removal example_identity)"
  using administration_keeps_identity_consistent [OF example_identity_ok, of "[(example_admin, example_removal)]"]
  by (simp add: example_admin_def example_gate_simps no_faults_def settled_def)

text \<open>
  Property C3: only the owner administers. Behind the authorization layer, a request to a resource for
  settings, permissions or packages changes the identity only on a connection whose authenticated peer
  has the name and the certificate owner of the identity, by its credentials or by the local side of the
  connection. For everybody else the handler, whatever it answers, leaves the state alone.
\<close>

theorem administration_owner_only:
  "case admin_route env path of None \<Rightarrow> True | Some handler \<Rightarrow>
     from_owner (ad_gate env) (mg_endpoint (ad_manage env)) r \<or> from_local (ad_gate env) r \<or>
     snd (authorize (ad_gate env) auth handler r w) = snd (authorize (ad_gate env) auth (\<lambda>q w. (fst (handler q w), w)) r w)"
proof (cases "admin_route env path")
  case (Some handler)
  show ?thesis
  proof (cases "from_owner (ad_gate env) (mg_endpoint (ad_manage env)) r \<or> from_local (ad_gate env) r")
    case False
    have "snd (handler q w') = w'" if "authorized (ad_gate env) auth r w q w'" for q w'
    proof (rule others_change_nothing [OF Some])
      show "\<not> is_ok (require_owner (ad_gate env) (mg_endpoint (ad_manage env)) q)"
        using False require_owner_from_owner [OF _ that] by (auto simp: is_ok_iff)
      show "\<not> is_ok (permission_owner env q)"
        using False permission_owner_from_local [OF _ that] by (auto simp: is_ok_iff)
    qed
    then have "snd (authorize (ad_gate env) auth handler r w) = snd (authorize (ad_gate env) auth (\<lambda>q w. (fst (handler q w), w)) r w)"
      by (rule refused_behind_gate)
    with Some show ?thesis by simp
  next
    case True
    then show ?thesis unfolding Some option.case by blast
  qed
qed simp

end
